(* ===== verification/Prelude.thy ===== *)
theory Prelude
  imports Main
begin

section \<open>Shared vocabulary: tables, statements, results\<close>

text \<open>
  What every component of the engine shares.  The engine keeps all of its state in SQL tables, so
  a table is a list of records and each statement the sources issue is one of the functions below:
  \<open>upd_where\<close> is UPDATE .. WHERE, \<open>rowcount\<close> the cursor's row count, \<open>row_of\<close> a SELECT by
  primary key, \<open>first_min\<close> is ORDER BY .. LIMIT 1, \<open>upd_limit\<close> is UPDATE .. WHERE id IN
  (SELECT .. LIMIT n) and \<open>delete_where\<close> is DELETE.  Timestamps are the number of seconds since the
  epoch: the sources write them as fixed-width ISO-8601 UTC strings with one-second resolution, whose
  lexicographic order is the numeric order.  A Python exception is the left value of a sum, and the
  state that the database is left in is returned beside it.
\<close>

subsection \<open>Types\<close>

type_synonym ts = int
type_synonym ident = string

text \<open>A computation that reads and writes a state and either raises or returns.\<close>

type_synonym ('s, 'e, 'a) act = "'s \<Rightarrow> ('e + 'a) \<times> 's"

named_theorems table_simps "statements over tables"
named_theorems row_defs "row-level definitions of a component"

subsection \<open>Computations that may raise\<close>

definition ret :: "'a \<Rightarrow> ('s, 'e, 'a) act" where
  "ret x = (\<lambda>s. (Inr x, s))"

definition throw :: "'e \<Rightarrow> ('s, 'e, 'a) act" where
  "throw e = (\<lambda>s. (Inl e, s))"

definition seq :: "('s, 'e, 'a) act \<Rightarrow> ('a \<Rightarrow> ('s, 'e, 'b) act) \<Rightarrow> ('s, 'e, 'b) act" where
  "seq m k = (\<lambda>s. case m s of (Inl e, s') \<Rightarrow> (Inl e, s') | (Inr x, s') \<Rightarrow> k x s')"

definition catch :: "('s, 'e, 'a) act \<Rightarrow> ('e \<Rightarrow> ('s, 'f, 'a) act) \<Rightarrow> ('s, 'f, 'a) act" where
  "catch m h = (\<lambda>s. case m s of (Inl e, s') \<Rightarrow> h e s' | (Inr x, s') \<Rightarrow> (Inr x, s'))"

definition gets :: "('s \<Rightarrow> 'a) \<Rightarrow> ('s, 'e, 'a) act" where
  "gets f = (\<lambda>s. (Inr (f s), s))"

definition modify :: "('s \<Rightarrow> 's) \<Rightarrow> ('s, 'e, unit) act" where
  "modify f = (\<lambda>s. (Inr (), f s))"

text \<open>A Python \<open>for\<close> loop over a list, stopping at the first exception.\<close>

fun for_each :: "('x \<Rightarrow> ('s, 'e, unit) act) \<Rightarrow> 'x list \<Rightarrow> ('s, 'e, unit) act" where
  "for_each f [] = ret ()"
| "for_each f (x # xs) = seq (f x) (\<lambda>_. for_each f xs)"

lemmas act_defs = ret_def throw_def seq_def catch_def gets_def modify_def

lemma seq_ret [simp]: "seq (ret x) k = k x"
  by (simp add: act_defs fun_eq_iff)

lemma seq_throw [simp]: "seq (throw e) k = throw e"
  by (simp add: act_defs fun_eq_iff)

lemma seq_modify: "seq (modify f) k s = k () (f s)"
  by (simp add: act_defs)

lemma seq_gets: "seq (gets f) k s = k (f s) s"
  by (simp add: act_defs)

lemma seq_Inr: "m s = (Inr x, s') \<Longrightarrow> seq m k s = k x s'"
  by (simp add: seq_def)

lemma seq_Inl: "m s = (Inl e, s') \<Longrightarrow> seq m k s = (Inl e, s')"
  by (simp add: seq_def)

lemma seq_InrD: "seq m k s = (Inr y, s'') \<Longrightarrow> \<exists>x s'. m s = (Inr x, s') \<and> k x s' = (Inr y, s'')"
  by (auto simp: seq_def split: prod.splits sum.splits)

lemma seq_assoc: "seq (seq m k) h = seq m (\<lambda>x. seq (k x) h)"
  by (auto simp: act_defs fun_eq_iff split: prod.splits sum.splits)

text \<open>An invariant every step of a computation keeps is kept by the computation, whether it
  returns or raises.\<close>

definition preserves :: "('s \<Rightarrow> bool) \<Rightarrow> ('s, 'e, 'a) act \<Rightarrow> bool" where
  "preserves I m \<longleftrightarrow> (\<forall>s. I s \<longrightarrow> I (snd (m s)))"

lemma preservesI: "(\<And>s. I s \<Longrightarrow> I (snd (m s))) \<Longrightarrow> preserves I m"
  by (simp add: preserves_def)

lemma preservesD: "preserves I m \<Longrightarrow> I s \<Longrightarrow> I (snd (m s))"
  by (simp add: preserves_def)

lemma preserves_ret [intro]: "preserves I (ret x)"
  by (simp add: preserves_def ret_def)

lemma preserves_throw [intro]: "preserves I (throw e)"
  by (simp add: preserves_def throw_def)

lemma preserves_gets [intro]: "preserves I (gets f)"
  by (simp add: preserves_def gets_def)

lemma preserves_modify: "(\<And>s. I s \<Longrightarrow> I (f s)) \<Longrightarrow> preserves I (modify f)"
  by (simp add: preserves_def modify_def)

lemma preserves_seq: "preserves I m \<Longrightarrow> (\<And>x. preserves I (k x)) \<Longrightarrow> preserves I (seq m k)"
  by (force simp: preserves_def seq_def split: prod.splits sum.splits)

lemma preserves_catch: "preserves I m \<Longrightarrow> (\<And>e. preserves I (h e)) \<Longrightarrow> preserves I (catch m h)"
  by (force simp: preserves_def catch_def split: prod.splits sum.splits)

lemma preserves_for_each: "(\<And>x. preserves I (f x)) \<Longrightarrow> preserves I (for_each f xs)"
  by (induction xs) (auto intro: preserves_seq)

lemma preserves_if: "preserves I m \<Longrightarrow> preserves I m' \<Longrightarrow> preserves I (if b then m else m')"
  by simp

subsection \<open>Tables\<close>

definition upd_where :: "('r \<Rightarrow> bool) \<Rightarrow> ('r \<Rightarrow> 'r) \<Rightarrow> 'r list \<Rightarrow> 'r list" where
  "upd_where p f t = map (\<lambda>r. if p r then f r else r) t"

definition rowcount :: "('r \<Rightarrow> bool) \<Rightarrow> 'r list \<Rightarrow> nat" where
  "rowcount p t = length (filter p t)"

definition row_of :: "('r \<Rightarrow> 'k) \<Rightarrow> 'k \<Rightarrow> 'r list \<Rightarrow> 'r option" where
  "row_of key k t = find (\<lambda>r. key r = k) t"

definition delete_where :: "('r \<Rightarrow> bool) \<Rightarrow> 'r list \<Rightarrow> 'r list" where
  "delete_where p t = filter (\<lambda>r. \<not> p r) t"

definition first_min :: "('r \<Rightarrow> 'o::linorder) \<Rightarrow> 'r list \<Rightarrow> 'r option" where
  "first_min key t = (case sort_key key t of [] \<Rightarrow> None | r # _ \<Rightarrow> Some r)"

text \<open>The first \<open>n\<close> rows that satisfy \<open>p\<close> are updated; which rows a LIMIT without an ORDER BY
  takes is the database's choice, here the table's own order.\<close>

fun upd_limit :: "nat \<Rightarrow> ('r \<Rightarrow> bool) \<Rightarrow> ('r \<Rightarrow> 'r) \<Rightarrow> 'r list \<Rightarrow> 'r list" where
  "upd_limit n p f [] = []"
| "upd_limit n p f (r # t) =
     (if p r then (case n of 0 \<Rightarrow> r # t | Suc m \<Rightarrow> f r # upd_limit m p f t)
      else r # upd_limit n p f t)"

lemma upd_where_Nil [simp]: "upd_where p f [] = []"
  by (simp add: upd_where_def)

lemma upd_where_Cons [simp]: "upd_where p f (r # t) = (if p r then f r else r) # upd_where p f t"
  by (simp add: upd_where_def)

lemma length_upd_where [simp]: "length (upd_where p f t) = length t"
  by (simp add: upd_where_def)

lemma upd_where_none: "(\<And>r. r \<in> set t \<Longrightarrow> \<not> p r) \<Longrightarrow> upd_where p f t = t"
  by (induction t) auto

lemma rowcount_0_iff [table_simps]: "rowcount p t = 0 \<longleftrightarrow> (\<forall>r \<in> set t. \<not> p r)"
  by (auto simp: rowcount_def filter_empty_conv)

lemma upd_where_rowcount_0: "rowcount p t = 0 \<Longrightarrow> upd_where p f t = t"
  by (rule upd_where_none) (simp add: rowcount_0_iff)

lemma set_upd_where: "r' \<in> set (upd_where p f t) \<longleftrightarrow> (\<exists>r \<in> set t. r' = (if p r then f r else r))"
  by (auto simp: upd_where_def)

lemma list_all_upd_where:
  "list_all I t \<Longrightarrow> (\<And>r. I r \<Longrightarrow> p r \<Longrightarrow> I (f r)) \<Longrightarrow> list_all I (upd_where p f t)"
  by (induction t) auto

lemma list_all_upd_limit:
  "list_all I t \<Longrightarrow> (\<And>r. I r \<Longrightarrow> p r \<Longrightarrow> I (f r)) \<Longrightarrow> list_all I (upd_limit n p f t)"
  by (induction n p f t rule: upd_limit.induct) (auto split: nat.splits)

lemma list_all_delete_where: "list_all I t \<Longrightarrow> list_all I (delete_where p t)"
  by (induction t) (auto simp: delete_where_def)

lemma upd_limit_rel:
  "list_all2 (\<lambda>r r'. r \<in> set t \<and> (r' = r \<or> (p r \<and> r' = f r))) t (upd_limit n p f t)"
proof (induction n p f t rule: upd_limit.induct)
  case (2 n p f r t)
  have mono: "list_all2 (\<lambda>x y. x \<in> set t \<and> (y = x \<or> (p x \<and> y = f x))) t u \<Longrightarrow>
      list_all2 (\<lambda>x y. x \<in> set (r # t) \<and> (y = x \<or> (p x \<and> y = f x))) t u" for u
    by (erule list_all2_mono) auto
  have refl: "list_all2 (\<lambda>x y. x \<in> set (r # t) \<and> (y = x \<or> (p x \<and> y = f x))) t t"
    by (rule list_all2_same [THEN iffD2]) simp
  show ?case
  proof (cases "p r")
    case True
    show ?thesis
    proof (cases n)
      case 0
      with True refl show ?thesis by simp
    next
      case (Suc m)
      with True mono [OF "2.IH"(1) [OF True Suc]] show ?thesis by simp
    qed
  next
    case False
    with mono [OF "2.IH"(2) [OF False]] show ?thesis by simp
  qed
qed simp

text \<open>When the update takes a row out of \<open>q\<close>, a batch of \<open>n\<close> takes out \<open>n\<close> of the rows or all of them.\<close>

lemma rowcount_upd_limit:
  assumes "\<And>r. p r \<Longrightarrow> q r" and "\<And>r. p r \<Longrightarrow> \<not> q (f r)"
  shows "rowcount q (upd_limit n p f t) = rowcount q t - min n (rowcount p t)"
  using assms
proof (induction n p f t rule: upd_limit.induct)
  case (2 n p f r t)
  have le: "rowcount p t \<le> rowcount q t"
    using 2(3) by (induction t) (auto simp: rowcount_def)
  show ?case
    using 2 le by (cases n) (auto simp: rowcount_def Suc_diff_le min_def)
qed (simp add: rowcount_def)

lemma rowcount_mono: "(\<And>r. p r \<Longrightarrow> q r) \<Longrightarrow> rowcount p t \<le> rowcount q t"
  by (induction t) (auto simp: rowcount_def)

lemma row_of_Some: "row_of key k t = Some r \<Longrightarrow> r \<in> set t \<and> key r = k"
  by (auto simp: row_of_def find_Some_iff)

lemma rowcount_pos: "row_of key k t = Some r \<Longrightarrow> p r \<Longrightarrow> rowcount (\<lambda>r. key r = k \<and> p r) t \<noteq> 0"
  using row_of_Some [of key k t r] by (auto simp: rowcount_0_iff)

lemma row_of_None_iff [table_simps]: "row_of key k t = None \<longleftrightarrow> k \<notin> key ` set t"
  by (auto simp: row_of_def find_None_iff)

lemma row_of_Nil [simp]: "row_of key k [] = None"
  by (simp add: row_of_def)

lemma row_of_Cons [simp]: "row_of key k (r # t) = (if key r = k then Some r else row_of key k t)"
  by (simp add: row_of_def)

lemma row_of_append [simp]:
  "row_of key k (t @ u) = (case row_of key k t of None \<Rightarrow> row_of key k u | Some r \<Rightarrow> Some r)"
  by (induction t) (auto simp: row_of_def)

lemma list_all_row_of: "list_all I t \<Longrightarrow> row_of key k t = Some r \<Longrightarrow> I r"
  by (auto simp: list_all_iff dest: row_of_Some)

lemma first_min_Some_mem: "first_min key t = Some r \<Longrightarrow> r \<in> set t"
  by (auto simp: first_min_def split: list.splits)
     (metis list.set_intros(1) set_sort)

lemma first_min_None_iff: "first_min key t = None \<longleftrightarrow> t = []"
  by (auto simp: first_min_def split: list.splits)
     (metis list.distinct(1) length_0_conv length_sort)

lemma first_min_least: "first_min key t = Some r \<Longrightarrow> x \<in> set t \<Longrightarrow> key r \<le> key x"
proof -
  assume m: "first_min key t = Some r" and x: "x \<in> set t"
  then obtain rs where s: "sort_key key t = r # rs"
    by (auto simp: first_min_def split: list.splits)
  have "sorted (map key (r # rs))" using sorted_sort_key [of key t] s by simp
  moreover have "x \<in> set (r # rs)" using x s by (metis set_sort)
  ultimately show ?thesis by auto
qed

subsection \<open>Tables with a primary key\<close>

text \<open>
  A statement that keeps the primary key keeps the table's keys, and can be read row by row: the
  contract under which every component reads back what it wrote.  Each table of the model
  interprets it with its own key.
\<close>

locale keyed_table =
  fixes key :: "'r \<Rightarrow> 'k"
begin

lemma keys_upd_where:
  assumes "\<And>r. key (f r) = key r"
  shows "map key (upd_where p f t) = map key t"
  using assms by (induction t) auto

lemma keys_upd_limit:
  assumes "\<And>r. key (f r) = key r"
  shows "map key (upd_limit n p f t) = map key t"
  using assms by (induction n p f t rule: upd_limit.induct) (auto split: nat.splits)

lemma row_of_upd_where:
  assumes "\<And>r. key (f r) = key r"
  shows "row_of key k (upd_where p f t) = map_option (\<lambda>r. if p r then f r else r) (row_of key k t)"
  using assms by (induction t) auto

lemma row_of_upd_key:
  assumes "\<And>r. key (f r) = key r" and "row_of key k t = Some r"
  shows "row_of key k (upd_where (\<lambda>x. key x = k \<and> p x) f t) = Some (if p r then f r else r)"
  using assms row_of_Some [OF assms(2)] by (simp add: row_of_upd_where)

lemma row_of_upd_own:
  assumes "\<And>r. key (f r) = key r" and "row_of key k t = Some r"
  shows "row_of key k (upd_where (\<lambda>x. key x = k) f t) = Some (f r)"
  using row_of_upd_key [OF assms, of "\<lambda>_. True"] by simp

lemma row_of_upd_other:
  assumes "\<And>r. key (f r) = key r" and "\<And>r. key r = k \<Longrightarrow> \<not> p r"
  shows "row_of key k (upd_where p f t) = row_of key k t"
  using assms by (induction t) auto

lemma rowcount_key:
  assumes "distinct (map key t)"
  shows "rowcount (\<lambda>x. key x = k \<and> p x) t
    = (case row_of key k t of None \<Rightarrow> 0 | Some r \<Rightarrow> if p r then 1 else 0)"
  using assms
proof (induction t)
  case Nil
  then show ?case by (simp add: rowcount_def)
next
  case (Cons a t)
  have "filter (\<lambda>x. key x = k \<and> p x) t = []" if "key a = k"
    using Cons.prems that by (auto simp: filter_empty_conv) (metis image_eqI)
  with Cons show ?case by (auto simp: rowcount_def split: option.splits)
qed

end

subsection \<open>Booleans, options and lists\<close>

definition or_default :: "'a option \<Rightarrow> 'a \<Rightarrow> 'a" where
  "or_default x d = (case x of None \<Rightarrow> d | Some v \<Rightarrow> v)"

lemma or_default_simps [simp]: "or_default None d = d" "or_default (Some v) d = v"
  by (simp_all add: or_default_def)

text \<open>The truth value Python gives an optional string: \<open>None\<close> and the empty string are false.\<close>

fun truthy :: "'a list option \<Rightarrow> bool" where
  "truthy None = False"
| "truthy (Some s) = (s \<noteq> [])"

lemma truthy_iff: "truthy x \<longleftrightarrow> (\<exists>s. x = Some s \<and> s \<noteq> [])"
  by (cases x) auto

lemma find_SomeD: "find p t = Some r \<Longrightarrow> r \<in> set t \<and> p r"
  by (induction t) (auto split: if_splits)

end
