(* ===== verification/PyStr.thy ===== *)
theory PyStr
  imports Prelude
begin

section \<open>Python string operations\<close>

text \<open>
  The string methods the sources use, written over lists so that they serve byte-wide
  \<^typ>\<open>string\<close>s and lists of code points alike.  Case folding and whitespace are
  those of ASCII: the values these operations meet in the modelled code (host names, channels,
  identifiers, environment switches) are ASCII; text that may be Arabic is a list of code
  points and has its own operations in the theory of the normaliser.
\<close>

definition ascii_lower :: "char \<Rightarrow> char" where
  "ascii_lower c =
     (if 65 \<le> (of_char c :: nat) \<and> (of_char c :: nat) \<le> 90 then char_of ((of_char c :: nat) + 32) else c)"

definition py_lower :: "string \<Rightarrow> string" where
  "py_lower s = map ascii_lower s"

definition ascii_upper :: "char \<Rightarrow> char" where
  "ascii_upper c =
     (if 97 \<le> (of_char c :: nat) \<and> (of_char c :: nat) \<le> 122 then char_of ((of_char c :: nat) - 32) else c)"

definition py_upper :: "string \<Rightarrow> string" where
  "py_upper s = map ascii_upper s"

definition is_ws :: "char \<Rightarrow> bool" where
  "is_ws c \<longleftrightarrow> (of_char c :: nat) \<in> {9, 10, 11, 12, 13, 28, 29, 30, 31, 32}"

definition py_strip :: "string \<Rightarrow> string" where
  "py_strip s = rev (dropWhile is_ws (rev (dropWhile is_ws s)))"

fun starts_with :: "'a list \<Rightarrow> 'a list \<Rightarrow> bool" where
  "starts_with s [] = True"
| "starts_with [] (p # ps) = False"
| "starts_with (c # s) (p # ps) = (c = p \<and> starts_with s ps)"

definition ends_with :: "'a list \<Rightarrow> 'a list \<Rightarrow> bool" where
  "ends_with s p = starts_with (rev s) (rev p)"

text \<open>\<open>p in s\<close> for two strings.\<close>

fun contains :: "'a list \<Rightarrow> 'a list \<Rightarrow> bool" where
  "contains p [] = (p = [])"
| "contains p (c # s) = (starts_with (c # s) p \<or> contains p s)"

definition remove_prefix :: "'a list \<Rightarrow> 'a list \<Rightarrow> 'a list" where
  "remove_prefix p s = (if starts_with s p then drop (length p) s else s)"

fun split_on :: "'a \<Rightarrow> 'a list \<Rightarrow> 'a list list" where
  "split_on d [] = [[]]"
| "split_on d (c # s) =
     (if c = d then [] # split_on d s
      else (case split_on d s of [] \<Rightarrow> [[c]] | w # ws \<Rightarrow> (c # w) # ws))"

fun join_with :: "'a list \<Rightarrow> 'a list list \<Rightarrow> 'a list" where
  "join_with d [] = []"
| "join_with d [w] = w"
| "join_with d (w # ws) = w @ d @ join_with d ws"

subsection \<open>Lemmas\<close>

lemma split_on_no_sep: "d \<notin> set w \<Longrightarrow> split_on d w = [w]"
  by (induction w) auto

lemma split_on_append: "d \<notin> set w \<Longrightarrow> split_on d (w @ d # s) = w # split_on d s"
  by (induction w) auto

text \<open>Joining words that do not contain the separator loses nothing.\<close>

lemma split_on_join_with:
  "ws \<noteq> [] \<Longrightarrow> \<forall>w \<in> set ws. d \<notin> set w \<Longrightarrow> split_on d (join_with [d] ws) = ws"
  by (induction ws rule: induct_list012) (simp_all add: split_on_no_sep split_on_append)

lemma starts_with_iff: "starts_with s p \<longleftrightarrow> (\<exists>t. s = p @ t)"
  by (induction s p rule: starts_with.induct) auto

lemma ends_with_iff: "ends_with s p \<longleftrightarrow> (\<exists>t. s = t @ p)"
  by (auto simp: ends_with_def starts_with_iff)
     (metis rev_append rev_rev_ident)

lemma contains_iff: "contains p s \<longleftrightarrow> (\<exists>a b. s = a @ p @ b)"
proof (induction s)
  case (Cons c s)
  have "(\<exists>a b. c # s = a @ p @ b) \<longleftrightarrow> starts_with (c # s) p \<or> (\<exists>a b. s = a @ p @ b)"
    by (auto simp: starts_with_iff) (metis append_Cons append_Nil list.exhaust list.inject)+
  with Cons show ?case by simp
qed auto

lemma of_char_ascii_lower:
  "(of_char (ascii_lower c) :: nat) =
     (if 65 \<le> (of_char c :: nat) \<and> (of_char c :: nat) \<le> 90 then of_char c + 32 else of_char c)"
  by (simp add: ascii_lower_def)

lemma ascii_lower_idem [simp]: "ascii_lower (ascii_lower c) = ascii_lower c"
  by (simp add: ascii_lower_def)

lemma py_lower_idem [simp]: "py_lower (py_lower s) = py_lower s"
  by (simp add: py_lower_def)

lemma py_lower_Nil_iff [simp]: "py_lower s = [] \<longleftrightarrow> s = []"
  by (simp add: py_lower_def)

lemma py_lower_append [simp]: "py_lower (s @ t) = py_lower s @ py_lower t"
  by (simp add: py_lower_def)

lemma is_ws_lower [simp]: "is_ws (ascii_lower c) = is_ws c"
  by (auto simp: is_ws_def of_char_ascii_lower)

lemma dropWhile_idem: "dropWhile P (dropWhile P xs) = dropWhile P xs"
  by (induction xs) auto

lemma dropWhile_suffix_head: "dropWhile P xs = [] \<or> \<not> P (hd (dropWhile P xs))"
  using hd_dropWhile by blast

lemma dropWhile_append_keep: "xs = [] \<or> \<not> P (hd xs) \<Longrightarrow> dropWhile P xs = xs"
  by (cases xs) auto

lemma dropWhile_rev_rev:
  "dropWhile P (rev (dropWhile P (rev (dropWhile P s)))) = rev (dropWhile P (rev (dropWhile P s)))"
proof (rule dropWhile_append_keep)
  let ?t = "dropWhile P s"
  show "rev (dropWhile P (rev ?t)) = [] \<or> \<not> P (hd (rev (dropWhile P (rev ?t))))"
  proof (cases ?t)
    case Nil
    show ?thesis unfolding Nil by simp
  next
    case (Cons c cs)
    then have "\<not> P c" using hd_dropWhile [of P s] by auto
    then have "dropWhile P (ys @ [c]) = dropWhile P ys @ [c]" for ys
      by (induction ys) auto
    with \<open>\<not> P c\<close> show ?thesis unfolding Cons by simp
  qed
qed

lemma py_strip_idem [simp]: "py_strip (py_strip s) = py_strip s"
  unfolding py_strip_def by (subst dropWhile_rev_rev) (simp add: dropWhile_idem)

lemma py_lower_strip: "py_lower (py_strip s) = py_strip (py_lower s)"
  by (simp add: py_lower_def py_strip_def dropWhile_map rev_map comp_def)

subsection \<open>Replacement and decimal numerals\<close>

text \<open>\<open>s.replace(a, r)\<close> for a non-empty \<open>a\<close>: the occurrences are taken from the left and do not overlap.\<close>

function py_replace :: "'a list \<Rightarrow> 'a list \<Rightarrow> 'a list \<Rightarrow> 'a list" where
  "py_replace a r s =
     (if a = [] \<or> s = [] then s
      else if starts_with s a then r @ py_replace a r (drop (length a) s)
      else hd s # py_replace a r (tl s))"
  by pat_completeness auto
termination by (relation "measure (\<lambda>(a, r, s). length s)") auto

declare py_replace.simps [simp del]

lemma py_replace_Nil [simp]: "py_replace a r [] = []"
  by (simp add: py_replace.simps)

lemma py_replace_hit: "a \<noteq> [] \<Longrightarrow> py_replace a r (a @ s) = r @ py_replace a r s"
  by (subst py_replace.simps) (auto simp: starts_with_iff)

lemma py_replace_miss: "a \<noteq> [] \<Longrightarrow> \<not> starts_with (c # s) a \<Longrightarrow> py_replace a r (c # s) = c # py_replace a r s"
  by (subst py_replace.simps) simp

text \<open>A word that avoids the first letter of the replacement is a prefix of, or occurs in, the result only
  where it already was in the text.\<close>

lemma starts_with_replace:
  assumes "a \<noteq> []" and "r \<noteq> []" and "hd r \<notin> set k"
  shows "starts_with (py_replace a r s) k \<Longrightarrow> starts_with s k"
  using assms(3)
proof (induction k arbitrary: s)
  case (Cons c k)
  show ?case
  proof (cases "starts_with s a")
    case True
    then obtain t where "s = a @ t" by (auto simp: starts_with_iff)
    with Cons.prems assms(1,2) show ?thesis by (cases r) (auto simp: py_replace_hit)
  next
    case False
    with Cons assms(1) show ?thesis by (cases s) (auto simp: py_replace_miss)
  qed
qed simp

lemma contains_skip: "k \<noteq> [] \<Longrightarrow> (\<And>c. c \<in> set r \<Longrightarrow> c \<notin> set k) \<Longrightarrow> contains k (r @ s) \<Longrightarrow> contains k s"
proof (induction r)
  case (Cons c r)
  then have "\<not> starts_with (c # (r @ s)) k" by (cases k) auto
  with Cons show ?case by auto
qed simp

lemma contains_appendI: "contains k s \<Longrightarrow> contains k (t @ s)"
  by (auto simp: contains_iff) (metis append.assoc)

lemma contains_replace:
  assumes "a \<noteq> []" and "r \<noteq> []" and "k \<noteq> []" and "set r \<inter> set k = {}"
  shows "contains k (py_replace a r s) \<Longrightarrow> contains k s"
proof (induction s rule: length_induct)
  case (1 s)
  have r: "hd r \<notin> set k" using assms(2,4) by (cases r) auto
  show ?case
  proof (cases "starts_with s a")
    case True
    then obtain t where t: "s = a @ t" by (auto simp: starts_with_iff)
    with 1(2) assms have "contains k (py_replace a r t)"
      by (auto simp: py_replace_hit intro: contains_skip [of k r])
    with 1(1) t assms(1) have "contains k t" by simp
    with t show ?thesis by (simp add: contains_appendI)
  next
    case False
    show ?thesis
    proof (cases s)
      case Nil
      with 1(2) show ?thesis by simp
    next
      case (Cons c s')
      with False assms(1) have e: "py_replace a r s = c # py_replace a r s'" by (simp add: py_replace_miss)
      with 1 Cons starts_with_replace [OF assms(1,2) r, of s] show ?thesis by auto
    qed
  qed
qed

lemma contains_replaced:
  assumes "a \<noteq> []" and "r \<noteq> []" and "set r \<inter> set a = {}"
  shows "\<not> contains a (py_replace a r s)"
proof (induction s rule: length_induct)
  case (1 s)
  have r: "hd r \<notin> set a" using assms(2,3) by (cases r) auto
  show ?case
  proof (cases "starts_with s a")
    case True
    then obtain t where t: "s = a @ t" by (auto simp: starts_with_iff)
    with 1 assms(1) have "\<not> contains a (py_replace a r t)" by simp
    with t assms contains_skip [of a r] show ?thesis by (auto simp: py_replace_hit)
  next
    case False
    show ?thesis
    proof (cases s)
      case Nil
      with assms(1) show ?thesis by simp
    next
      case (Cons c s')
      with False assms(1) have e: "py_replace a r s = c # py_replace a r s'" by (simp add: py_replace_miss)
      with 1 Cons False starts_with_replace [OF assms(1,2) r, of s] show ?thesis by auto
    qed
  qed
qed

text \<open>\<open>str(n)\<close>.\<close>

fun show_nat :: "nat \<Rightarrow> string" where
  "show_nat n = (if n < 10 then [char_of (n + 48)] else show_nat (n div 10) @ [char_of (n mod 10 + 48)])"

declare show_nat.simps [simp del]

definition show_int :: "int \<Rightarrow> string" where
  "show_int i = (if i < 0 then ''-'' @ show_nat (nat (- i)) else show_nat (nat i))"

definition is_digit :: "char \<Rightarrow> bool" where
  "is_digit c \<longleftrightarrow> 48 \<le> (of_char c :: nat) \<and> (of_char c :: nat) \<le> 57"

definition digits_value :: "string \<Rightarrow> nat" where
  "digits_value s = foldl (\<lambda>n c. 10 * n + (of_char c - 48)) 0 s"

end
