(* ===== verification/ProviderPool.thy ===== *)
theory ProviderPool
  imports PyStr Complex_Main
begin

section \<open>Provider adapters: key pools, credit budgets, error classes (providers/base.py)\<close>

text \<open>
  What every adapter inherits from BaseProvider: the pool of comma-separated keys with its index,
  the ledger of the credits spent per key and UTC day, the rotation that looks ahead to a key's daily
  budget, the classification of HTTP answers into the router's errors, and the redaction of keys from
  text.  Credits are exact rationals where the source has floats; a day is the number of days since
  the epoch.  \<open>float()\<close> is modelled on plain decimal numerals.
\<close>

subsection \<open>Errors of a provider call (lead_engine/router.py)\<close>

datatype provider_error =
    RateLimited string "rat option"
  | QuotaExhausted string
  | ProviderAuthError string
  | ProviderUnavailable string
  | ProviderError string

subsection \<open>The ledger of spent credits\<close>

record credit_ledger =
  cl_spend :: "string \<Rightarrow> rat list option"
  cl_date :: "string \<Rightarrow> int option"

definition pad_to :: "nat \<Rightarrow> rat list \<Rightarrow> rat list" where
  "pad_to n xs = xs @ replicate (n - length xs) 0"

definition note_credit_spend :: "int \<Rightarrow> string \<Rightarrow> nat \<Rightarrow> rat \<Rightarrow> credit_ledger \<Rightarrow> credit_ledger" where
  "note_credit_spend today provider k cost c =
     (let per = pad_to (k + 1) (or_default (cl_spend c provider) []);
          per' = (if cl_date c provider = Some today then per
                  else pad_to (k + 1) (replicate (max (length per) (k + 1)) 0))
      in c\<lparr>cl_spend := (cl_spend c)(provider := Some (per'[k := per' ! k + cost])),
           cl_date := (cl_date c)(provider := Some today)\<rparr>)"

definition key_spend :: "int \<Rightarrow> string \<Rightarrow> nat \<Rightarrow> credit_ledger \<Rightarrow> rat" where
  "key_spend today provider k c =
     (if cl_date c provider \<noteq> Some today then 0
      else let per = or_default (cl_spend c provider) [] in if k < length per then per ! k else 0)"

subsection \<open>The key pool of an adapter\<close>

record adapter =
  ad_name :: string
  ad_env_key :: "string option"
  ad_api_key :: "string option"
  ad_index :: nat
  ad_daily_budget :: "rat option"
  ad_margin :: rat
  ad_probe :: rat
  ad_endpoint :: "string option"
  ad_model :: "string option"

definition newline_to_comma :: "char \<Rightarrow> char" where
  "newline_to_comma c = (if c = CHR 0x0A then CHR '','' else c)"

definition keys :: "adapter \<Rightarrow> string list" where
  "keys a = filter (\<lambda>k. k \<noteq> []) (map py_strip (split_on CHR '',''
     (map newline_to_comma (or_default (ad_api_key a) []))))"

definition available :: "adapter \<Rightarrow> bool" where
  "available a \<longleftrightarrow> ad_env_key a = None \<or> keys a \<noteq> []"

definition current_key :: "adapter \<Rightarrow> string option" where
  "current_key a = (if keys a = [] then None else Some (keys a ! min (ad_index a) (length (keys a) - 1)))"

definition rotate_key :: "adapter \<Rightarrow> bool \<times> adapter" where
  "rotate_key a = (if ad_index a + 1 < length (keys a) then (True, a\<lparr>ad_index := ad_index a + 1\<rparr>) else (False, a))"

definition reset_keys :: "adapter \<Rightarrow> adapter" where
  "reset_keys a = a\<lparr>ad_index := 0\<rparr>"

text \<open>The adapters with a daily budget have \<open>ad_daily_budget\<close>; the others never call this.\<close>

definition rotate_for_budget ::
  "int \<Rightarrow> credit_ledger \<Rightarrow> rat \<Rightarrow> adapter \<Rightarrow> (bool \<times> nat) \<times> adapter" where
  "rotate_for_budget today c planned a =
     (let n = length (keys a);
          spend = (\<lambda>i. key_spend today (ad_name a) i c);
          limit = or_default (ad_daily_budget a) 0 - ad_margin a
      in if n = 0 then ((False, ad_index a), a)
         else let fit = find (\<lambda>i. spend i + planned \<le> limit) (map (\<lambda>off. (ad_index a + off) mod n) [0..<n]);
                  spends = map spend [0..<n];
                  idx = (case fit of Some i \<Rightarrow> i
                         | None \<Rightarrow> length (takeWhile (\<lambda>x. x \<noteq> min_list spends) spends))
              in ((idx \<noteq> ad_index a, idx), a\<lparr>ad_index := idx\<rparr>))"

subsection \<open>HTTP answers\<close>

fun scrub_keys :: "string list \<Rightarrow> string \<Rightarrow> string" where
  "scrub_keys [] out = out"
| "scrub_keys (k # ks) out = scrub_keys ks (if length k \<ge> 6 then py_replace k ''***'' out else out)"

definition scrub :: "adapter \<Rightarrow> string \<Rightarrow> string" where
  "scrub a text = scrub_keys (keys a) text"

definition py_float :: "string \<Rightarrow> rat option" where
  "py_float s =
     (let t = py_strip s;
          (sgn, u) = (case t of [] \<Rightarrow> (1, [])
                      | c # cs \<Rightarrow> if c = CHR ''-'' then (-1, cs) else if c = CHR ''+'' then (1, cs) else (1, t));
          w = takeWhile is_digit u; rest = dropWhile is_digit u;
          f = (case rest of [] \<Rightarrow> [] | c # cs \<Rightarrow> cs)
      in if (rest = [] \<or> hd rest = CHR ''.'') \<and> list_all is_digit f \<and> (w \<noteq> [] \<or> f \<noteq> [])
         then Some (sgn * (of_nat (digits_value w) + of_nat (digits_value f) / 10 ^ length f))
         else None)"

record response =
  rp_status :: int
  rp_headers :: "string \<Rightarrow> string option"
  rp_text :: string

text \<open>What the session returns: an answer, or one of the two transport errors the adapter catches.\<close>

datatype transport = Answer response | ConnectionError string | Timeout string

definition classify_http :: "adapter \<Rightarrow> transport \<Rightarrow> provider_error + response" where
  "classify_http a t = (case t of
     ConnectionError e \<Rightarrow> Inl (ProviderUnavailable (''connection failed: '' @ scrub a e))
   | Timeout e \<Rightarrow> Inl (ProviderUnavailable (''timeout: '' @ scrub a e))
   | Answer r \<Rightarrow>
       (let status = rp_status r; body = scrub a (take 300 (rp_text r)); low = py_lower body;
            retry = rp_headers r ''retry-after''
        in if status = 429 then
             Inl (RateLimited (ad_name a @ '': 429 rate limited'')
                    (if truthy retry then py_float (the retry) else None))
           else if status \<in> {401, 403} then
             Inl (ProviderAuthError (ad_name a @ '': auth rejected ('' @ show_int status @ '')''))
           else if status = 402 then Inl (QuotaExhausted (ad_name a @ '': payment required''))
           else if status \<ge> 500 then
             Inl (ProviderUnavailable (ad_name a @ '': server error '' @ show_int status))
           else if status \<ge> 400 then
             (if contains ''quota'' low \<or> contains ''credit'' low
              then Inl (QuotaExhausted (ad_name a @ '': '' @ body))
              else Inl (ProviderError (ad_name a @ '': HTTP '' @ show_int status @ '': '' @ body)))
           else Inr r))"

definition REMAINING_KEYS :: "string list" where
  "REMAINING_KEYS = [''x-ratelimit-remaining-requests'', ''x-ratelimit-remaining'',
                     ''x-ratelimit-requests-remaining'']"

text \<open>\<open>int(float(v))\<close> truncates towards zero; the first header present decides, parsable or not.\<close>

definition py_int_of_float :: "rat \<Rightarrow> int" where
  "py_int_of_float x = (if x < 0 then - \<lfloor>- x\<rfloor> else \<lfloor>x\<rfloor>)"

definition rate_info :: "(string \<Rightarrow> string option) \<Rightarrow> int option \<times> int option" where
  "rate_info h =
     (let num = (\<lambda>k. case h k of None \<Rightarrow> None | Some v \<Rightarrow> map_option py_int_of_float (py_float v))
      in ((case find (\<lambda>k. h k \<noteq> None) REMAINING_KEYS of None \<Rightarrow> None | Some k \<Rightarrow> num k),
          num ''x-ratelimit-remaining-tokens''))"

subsection \<open>The ledger\<close>

lemma length_pad_to [simp]: "length (pad_to n xs) = max n (length xs)"
  by (simp add: pad_to_def)

lemma nth_pad_to: "i < max n (length xs) \<Longrightarrow> pad_to n xs ! i = (if i < length xs then xs ! i else 0)"
  by (auto simp: pad_to_def nth_append)

text \<open>The credit ledger is exact: recording a cost raises today's spend of that key of that provider
  by the cost and changes no other key and no other provider, also when the entry is the first of the
  day and everything recorded on an earlier day is dropped.\<close>

theorem credit_ledger_exact:
  "key_spend today q j (note_credit_spend today p k cost c)
    = key_spend today q j c + (if q = p \<and> j = k then cost else 0)"
proof (cases "q = p")
  case True
  then show ?thesis
    by (auto simp: key_spend_def note_credit_spend_def Let_def nth_pad_to nth_list_update max_def
        simp del: replicate_Suc)
qed (simp add: key_spend_def note_credit_spend_def Let_def)

subsection \<open>Rotation\<close>

lemma rotation_indices: "i < n \<Longrightarrow> set (map (\<lambda>off. (i + off) mod n) [0..<n]) = {0..<n::nat}"
proof
  assume i: "i < n"
  show "set (map (\<lambda>off. (i + off) mod n) [0..<n]) \<subseteq> {0..<n}" using i by auto
  show "{0..<n} \<subseteq> set (map (\<lambda>off. (i + off) mod n) [0..<n])"
  proof
    fix j
    assume j: "j \<in> {0..<n}"
    let ?o = "if i \<le> j then j - i else n - i + j"
    have "(i + ?o) mod n = j"
    proof (cases "i \<le> j")
      case False
      with i have "i + ?o = n + j" by simp
      with j show ?thesis by simp
    qed (use j in simp)
    moreover have "?o < n" using i j by auto
    ultimately show "j \<in> set (map (\<lambda>off. (i + off) mod n) [0..<n])"
      by (auto simp: image_iff intro: bexI [of _ ?o])
  qed
qed

lemma first_index_of:
  "x \<in> set xs \<Longrightarrow> length (takeWhile (\<lambda>y. y \<noteq> x) xs) < length xs
     \<and> xs ! length (takeWhile (\<lambda>y. y \<noteq> x) xs) = x"
  by (induction xs) auto

text \<open>Rotation ahead of a call ends on a key of the pool: on one that can afford the planned cost within
  its daily budget less the margin whenever some key can, and then on the first such key counted from
  the current one; otherwise on a key with the least spend.\<close>

theorem rotate_for_budget_spec:
  assumes "ad_index a < length (keys a)"
    and "rotate_for_budget today c planned a = ((rotated, idx), a')"
  shows "idx < length (keys a) \<and> a' = a\<lparr>ad_index := idx\<rparr> \<and> rotated = (idx \<noteq> ad_index a)
    \<and> (let spend = (\<lambda>i. key_spend today (ad_name a) i c);
           limit = or_default (ad_daily_budget a) 0 - ad_margin a; n = length (keys a)
       in if \<exists>i<n. spend i + planned \<le> limit
          then spend idx + planned \<le> limit
            \<and> (\<exists>off<n. idx = (ad_index a + off) mod n
                 \<and> (\<forall>o'<off. limit < spend ((ad_index a + o') mod n) + planned))
          else \<forall>i<n. spend idx \<le> spend i)"
proof -
  let ?n = "length (keys a)" and ?spend = "\<lambda>i. key_spend today (ad_name a) i c"
  let ?limit = "or_default (ad_daily_budget a) 0 - ad_margin a"
  let ?fits = "\<lambda>i. ?spend i + planned \<le> ?limit"
  let ?order = "map (\<lambda>off. (ad_index a + off) mod ?n) [0..<?n]"
  let ?spends = "map ?spend [0..<?n]"
  have n: "?n \<noteq> 0" using assms(1) by auto
  have set: "set ?order = {0..<?n}" by (rule rotation_indices [OF assms(1)])
  show ?thesis
  proof (cases "find ?fits ?order")
    case None
    let ?m = "length (takeWhile (\<lambda>x. x \<noteq> min_list ?spends) ?spends)"
    have min: "min_list ?spends = Min (set ?spends)" using n by (intro min_list_Min) auto
    have "min_list ?spends \<in> set ?spends" unfolding min by (rule Min_in) (use n in auto)
    from first_index_of [OF this] have m: "?m < ?n" "?spend ?m = min_list ?spends" by auto
    have "min_list ?spends \<le> ?spend i" if "i < ?n" for i
      unfolding min by (rule Min_le) (use that in auto)
    then have "?spend ?m \<le> ?spend i" if "i < ?n" for i
      using ord_eq_le_trans [OF m(2)] that by blast
    moreover have "\<not> (\<exists>i<?n. ?fits i)" using None unfolding find_None_iff set by auto
    moreover have "idx = ?m" "a' = a\<lparr>ad_index := idx\<rparr>" "rotated = (idx \<noteq> ad_index a)"
      using assms(2) n None by (auto simp: rotate_for_budget_def Let_def)
    ultimately show ?thesis using m(1) by (auto simp: Let_def)
  next
    case (Some i)
    then obtain off where off: "off < ?n" "i = (ad_index a + off) mod ?n" "?fits i"
      and before: "\<And>o'. o' < off \<Longrightarrow> \<not> ?fits ((ad_index a + o') mod ?n)"
      by (auto simp: find_Some_iff)
    have "i < ?n" using off(2) n by simp
    moreover have "idx = i" "a' = a\<lparr>ad_index := idx\<rparr>" "rotated = (idx \<noteq> ad_index a)"
      using assms(2) n Some by (auto simp: rotate_for_budget_def Let_def)
    ultimately show ?thesis using off before by (auto simp: Let_def not_le)
  qed
qed

definition demo_adapter :: adapter where
  "demo_adapter = \<lparr>ad_name = ''manus'', ad_env_key = Some ''MANUS_API_KEYS'', ad_api_key = Some ''key-aaa,key-bbb'',
     ad_index = 0, ad_daily_budget = Some 30, ad_margin = 2, ad_probe = 1,
     ad_endpoint = None, ad_model = None\<rparr>"

definition empty_ledger :: credit_ledger where
  "empty_ledger = \<lparr>cl_spend = (\<lambda>_. None), cl_date = (\<lambda>_. None)\<rparr>"

lemma rotate_for_budget_spec_witness:
  "snd (fst (rotate_for_budget 7 (note_credit_spend 7 ''manus'' 0 29 empty_ledger) 10 demo_adapter)) < 2"
proof -
  let ?r = "rotate_for_budget 7 (note_credit_spend 7 ''manus'' 0 29 empty_ledger) 10 demo_adapter"
  have k: "length (keys demo_adapter) = 2" "ad_index demo_adapter = 0" by code_simp+
  have "?r = ((fst (fst ?r), snd (fst ?r)), snd ?r)" by simp
  with rotate_for_budget_spec [of demo_adapter 7 _ 10] k show ?thesis by fastforce
qed

subsection \<open>Redaction\<close>

lemma scrub_keys_only_removes:
  assumes "CHR ''*'' \<notin> set k" and "k \<noteq> []"
  shows "contains k (scrub_keys ks out) \<Longrightarrow> contains k out"
proof (induction ks arbitrary: out)
  case (Cons x ks)
  then show ?case
    using assms contains_replace [of x "''***''" k out] by (cases "6 \<le> length x") force+
qed simp

lemma scrub_keys_removes:
  "k \<in> set ks \<Longrightarrow> 6 \<le> length k \<Longrightarrow> list_all (\<lambda>k. CHR ''*'' \<notin> set k) ks \<Longrightarrow> \<not> contains k (scrub_keys ks out)"
proof (induction ks arbitrary: out)
  case (Cons x ks)
  show ?case
  proof (cases "k = x")
    case True
    then have star: "CHR ''*'' \<notin> set k" and ne: "k \<noteq> []" using Cons.prems by auto
    then have "\<not> contains k (py_replace k ''***'' out)" by (intro contains_replaced) auto
    with star ne True Cons.prems(2) show ?thesis by (auto dest: scrub_keys_only_removes)
  qed (use Cons in auto)
qed simp

lemma scrub_keys_short: "\<forall>k \<in> set ks. length k < 6 \<Longrightarrow> scrub_keys ks out = out"
  by (induction ks arbitrary: out) auto

text \<open>C40: Redaction has a length limit.  Of a pool whose keys hold no asterisk (the replacement is three of them),
  no key of six characters or more is left in redacted text, whatever the text; shorter keys are not redacted at all:
  a pool that holds only such keys leaves every text as it is, so an error message that quotes one of them still
  quotes it, although the method promises to redact every key.\<close>

theorem scrub_leaks_no_key:
  assumes "list_all (\<lambda>k. CHR ''*'' \<notin> set k) (keys a)"
  shows "(\<forall>k \<in> set (keys a). 6 \<le> length k \<longrightarrow> \<not> contains k (scrub a text))
    \<and> ((\<forall>k \<in> set (keys a). length k < 6) \<longrightarrow> scrub a text = text)"
  using scrub_keys_removes [OF _ _ assms] scrub_keys_short [of "keys a" "text"] by (auto simp: scrub_def)

lemma scrub_leaks_no_key_witness:
  "\<not> contains ''key-aaa'' (scrub demo_adapter ''GET /?token=key-aaa&alt=key-bbb'')
   \<and> scrub (demo_adapter\<lparr>ad_api_key := Some ''k1,k2''\<rparr>) ''GET /?token=k1'' = ''GET /?token=k1''"
proof -
  have long: "list_all (\<lambda>k. CHR ''*'' \<notin> set k) (keys demo_adapter)" "''key-aaa'' \<in> set (keys demo_adapter)"
    by code_simp+
  have short: "list_all (\<lambda>k. CHR ''*'' \<notin> set k \<and> length k < 6) (keys (demo_adapter\<lparr>ad_api_key := Some ''k1,k2''\<rparr>))"
    by code_simp
  show ?thesis
    using scrub_leaks_no_key [OF long(1)] long(2) short
      scrub_leaks_no_key [of "demo_adapter\<lparr>ad_api_key := Some ''k1,k2''\<rparr>"] by (auto simp: list_all_iff)
qed

end
