(* ===== verification/Registry.thy ===== *)
theory Registry
  imports ProviderPool "HOL-Library.List_Lexorder"
begin

section \<open>The provider registry (lead_engine/registry.py)\<close>

text \<open>
  The table \<open>providers\<close>, one row per (name, task), and the usage ledger.  The registry is what the
  router reads its waterfall from and where it writes what the calls showed.  Quantities are exact
  rationals; the clock is in milliseconds, since \<open>utcnow()\<close> drops the fraction of the second only after
  a cool-down has been added; \<open>now[:7]\<close> is the calendar month.  The environment is an argument.
\<close>

datatype pstatus = Active | Exhausted | Cooldown | Unavailable

record prov_row =
  pr_name :: string
  pr_task :: string
  pr_type :: string
  pr_priority :: int
  pr_kind :: string
  pr_limit :: "rat option"
  pr_used :: "rat option"
  pr_period :: string
  pr_start :: "ts option"
  pr_rpm :: "int option"
  pr_status :: pstatus
  pr_reason :: "string option"
  pr_cooldown :: "ts option"
  pr_env :: "string option"
  pr_base_url :: "string option"
  pr_model :: "string option"

record usage_row =
  us_ts :: ts
  us_provider :: string
  us_task :: string
  us_job :: "string option"
  us_units :: rat
  us_kind :: string
  us_status :: string
  us_latency :: int
  us_prompt :: int
  us_completion :: int
  us_key :: "nat option"
  us_org :: "string option"

record rdb =
  rg_rows :: "prov_row list"
  rg_usage :: "usage_row list"
  rg_org :: "string option"
  rg_pg :: bool

definition pr_key :: "prov_row \<Rightarrow> string \<times> string" where
  "pr_key r = (pr_name r, pr_task r)"

interpretation prov_table: keyed_table pr_key .

text \<open>\<open>BaseProvider.configure\<close>: the adapter takes the row's endpoint and model for this call.\<close>

definition configure :: "prov_row \<Rightarrow> adapter \<Rightarrow> adapter" where
  "configure r a = a\<lparr>ad_endpoint := (if truthy (pr_base_url r) then pr_base_url r else None),
                     ad_model := (if truthy (pr_model r) then pr_model r else None)\<rparr>"

subsection \<open>The calendar\<close>

definition sec_of :: "int \<Rightarrow> ts" where
  "sec_of ms = ms div 1000"

definition month_of :: "ts \<Rightarrow> int \<times> int" where
  "month_of t =
     (let z = t div 86400 + 719468; era = z div 146097; doe = z mod 146097;
          yoe = (doe - doe div 1460 + doe div 36524 - doe div 146096) div 365;
          doy = doe - (365 * yoe + yoe div 4 - yoe div 100);
          mp = (5 * doy + 2) div 153;
          m = (if mp < 10 then mp + 3 else mp - 9)
      in (yoe + era * 400 + (if m \<le> 2 then 1 else 0), m))"

subsection \<open>Seeding\<close>

definition SEED ::
  "(string \<times> string \<times> string \<times> int \<times> string \<times> rat option \<times> string \<times> int option \<times> string option) list" where
  "SEED =
    [(''tavily'', ''search'', ''web_search'', 1, ''credits'', Some 1000, ''monthly'', None, Some ''TAVILY_API_KEY''),
     (''brave'', ''search'', ''web_search'', 2, ''usd'', Some 5, ''monthly'', None, Some ''BRAVE_SEARCH_API_KEY''),
     (''exa'', ''search'', ''web_search'', 3, ''usd'', Some 10, ''monthly'', None, Some ''EXA_API_KEY''),
     (''manus'', ''llm'', ''reasoning'', 0, ''dynamic'', None, ''none'', None, Some ''MANUS_API_KEYS''),
     (''manus'', ''llm'', ''inference'', 0, ''dynamic'', None, ''none'', None, Some ''MANUS_API_KEYS''),
     (''gemini'', ''llm'', ''reasoning'', 1, ''dynamic'', None, ''none'', None, Some ''GEMINI_API_KEY''),
     (''groq'', ''llm'', ''reasoning'', 2, ''dynamic'', None, ''none'', None, Some ''GROQ_API_KEY''),
     (''openrouter'', ''llm'', ''reasoning'', 3, ''dynamic'', None, ''none'', None, Some ''OPENROUTER_API_KEY''),
     (''ollama'', ''llm'', ''reasoning'', 4, ''unlimited'', None, ''none'', None, None),
     (''groq'', ''llm'', ''inference'', 1, ''dynamic'', None, ''none'', None, Some ''GROQ_API_KEY''),
     (''gemini'', ''llm'', ''inference'', 2, ''dynamic'', None, ''none'', None, Some ''GEMINI_API_KEY''),
     (''openrouter'', ''llm'', ''inference'', 3, ''dynamic'', None, ''none'', None, Some ''OPENROUTER_API_KEY''),
     (''ollama'', ''llm'', ''inference'', 4, ''unlimited'', None, ''none'', None, None),
     (''apollo'', ''data'', ''people_search'', 1, ''requests'', None, ''none'', Some 50, Some ''APOLLO_API_KEY''),
     (''apollo'', ''data'', ''org_search'', 1, ''credits'', None, ''none'', Some 50, Some ''APOLLO_API_KEY''),
     (''apollo'', ''data'', ''enrichment'', 1, ''credits'', None, ''none'', Some 50, Some ''APOLLO_API_KEY''),
     (''hunter'', ''email'', ''email_verify'', 1, ''account'', None, ''none'', None, Some ''HUNTER_API_KEY''),
     (''hunter'', ''email'', ''email_find'', 1, ''account'', None, ''none'', None, Some ''HUNTER_API_KEY''),
     (''abstract'', ''email'', ''email_verify'', 2, ''credits'', Some 100, ''monthly'', None, Some ''ABSTRACT_API_KEY''),
     (''local_smtp'', ''email'', ''email_verify'', 3, ''unlimited'', None, ''none'', None, None),
     (''openmanus'', ''runtime'', ''deep_research'', 1, ''requests'', None, ''none'', None, Some ''OPENMANUS_BASE_URL'')]"

definition existing_keys :: "rdb \<Rightarrow> (string \<times> string) list" where
  "existing_keys d = map pr_key (rg_rows d)"

fun seed_row :: "ts \<Rightarrow>
  (string \<times> string \<times> string \<times> int \<times> string \<times> rat option \<times> string \<times> int option \<times> string option) \<Rightarrow> prov_row" where
  "seed_row now (name, ptype, task, prio, kind, quota, period, rpm, env_key) =
     \<lparr>pr_name = name, pr_task = task, pr_type = ptype, pr_priority = prio, pr_kind = kind, pr_limit = quota,
      pr_used = Some 0, pr_period = period, pr_start = Some now, pr_rpm = rpm, pr_status = Active,
      pr_reason = None, pr_cooldown = None, pr_env = env_key, pr_base_url = None, pr_model = None\<rparr>"

text \<open>\<open>INSERT .. ON CONFLICT (name, task) DO NOTHING\<close>.\<close>

definition insert_provider :: "prov_row \<Rightarrow> rdb \<Rightarrow> rdb" where
  "insert_provider r d =
     (if pr_key r \<in> set (existing_keys d) then d else d\<lparr>rg_rows := rg_rows d @ [r]\<rparr>)"

definition seed_if_empty :: "ts \<Rightarrow> rdb \<Rightarrow> rdb" where
  "seed_if_empty now d =
     (let missing = filter (\<lambda>r. pr_key r \<notin> set (existing_keys d)) (map (seed_row now) SEED)
      in fold insert_provider missing d)"

subsection \<open>Reading\<close>

definition update_row :: "string \<Rightarrow> string \<Rightarrow> (prov_row \<Rightarrow> prov_row) \<Rightarrow> rdb \<Rightarrow> rdb" where
  "update_row name task f d = d\<lparr>rg_rows := upd_where (\<lambda>r. pr_key r = (name, task)) f (rg_rows d)\<rparr>"

text \<open>The expiry pass works on a row that was read and on the table: it returns both.\<close>

definition rollover_due :: "ts \<Rightarrow> prov_row \<Rightarrow> bool" where
  "rollover_due now r \<longleftrightarrow> pr_period r = ''monthly''
     \<and> (case pr_start r of None \<Rightarrow> False | Some s \<Rightarrow> month_of s \<noteq> month_of now)"

definition cooldown_over :: "ts \<Rightarrow> prov_row \<Rightarrow> bool" where
  "cooldown_over now r \<longleftrightarrow> pr_status r = Cooldown
     \<and> (case pr_cooldown r of None \<Rightarrow> False | Some t \<Rightarrow> t \<le> now)"

definition expire_states :: "ts \<Rightarrow> prov_row \<Rightarrow> rdb \<Rightarrow> prov_row \<times> rdb" where
  "expire_states now r d =
     (let (r1, d1) =
        (if rollover_due now r
         then (r\<lparr>pr_used := Some 0, pr_status := Active\<rparr>,
               update_row (pr_name r) (pr_task r)
                 (\<lambda>x. x\<lparr>pr_used := Some 0, pr_start := Some now, pr_status := Active, pr_reason := None,
                        pr_cooldown := None\<rparr>) d)
         else (r, d))
      in if cooldown_over now r1
         then (r1\<lparr>pr_status := Active\<rparr>,
               update_row (pr_name r1) (pr_task r1)
                 (\<lambda>x. x\<lparr>pr_status := Active, pr_cooldown := None, pr_reason := None\<rparr>) d1)
         else (r1, d1))"

fun expire_all :: "ts \<Rightarrow> prov_row list \<Rightarrow> rdb \<Rightarrow> prov_row list \<times> rdb" where
  "expire_all now [] d = ([], d)"
| "expire_all now (r # rs) d =
     (let (r', d1) = expire_states now r d; (rs', d2) = expire_all now rs d1 in (r' # rs', d2))"

definition within_quota :: "prov_row \<Rightarrow> nat \<Rightarrow> bool" where
  "within_quota r mult \<longleftrightarrow> (case pr_limit r of None \<Rightarrow> True
     | Some l \<Rightarrow> or_default (pr_used r) 0 < l * of_nat (max 1 mult))"

definition has_key :: "(string \<Rightarrow> string option) \<Rightarrow> prov_row \<Rightarrow> bool" where
  "has_key env r \<longleftrightarrow> (case pr_env r of None \<Rightarrow> True | Some k \<Rightarrow> truthy (env k))"

record candidate =
  cd_row :: prov_row
  cd_limit :: "rat option"
  cd_usable :: bool

definition candidate_of :: "(string \<Rightarrow> string option) \<Rightarrow> (string \<Rightarrow> nat option) \<Rightarrow> prov_row \<Rightarrow> candidate" where
  "candidate_of env key_counts r =
     (let mult = max 1 (or_default (key_counts (pr_name r)) 1)
      in \<lparr>cd_row = r, cd_limit = map_option (\<lambda>l. l * of_nat mult) (pr_limit r),
          cd_usable = (has_key env r \<and> pr_status r \<in> {Active, Cooldown} \<and> within_quota r mult)\<rparr>)"

definition providers_for_task ::
  "(string \<Rightarrow> string option) \<Rightarrow> ts \<Rightarrow> string \<Rightarrow> (string \<Rightarrow> nat option) \<Rightarrow> rdb \<Rightarrow> candidate list \<times> rdb" where
  "providers_for_task env now task key_counts d =
     (let (rows, d') = expire_all now (sort_key pr_priority (filter (\<lambda>r. pr_task r = task) (rg_rows d))) d
      in (map (candidate_of env key_counts) rows, d'))"

text \<open>\<open>ORDER BY task, priority\<close>, the least significant key first: both sorts are stable.\<close>

definition status_table ::
  "(string \<Rightarrow> string option) \<Rightarrow> ts \<Rightarrow> rdb \<Rightarrow> (prov_row \<times> bool) list \<times> rdb" where
  "status_table env now d =
     (let ordered = sort_key (\<lambda>r. map (of_char :: char \<Rightarrow> nat) (pr_task r)) (sort_key pr_priority (rg_rows d));
          (rows, d') = expire_all now ordered d
      in (map (\<lambda>r. (r, has_key env r)) rows, d'))"

subsection \<open>Writing\<close>

definition ledger_org :: "rdb \<Rightarrow> string option" where
  "ledger_org d = (case rg_org d of None \<Rightarrow> None
     | Some g \<Rightarrow> if rg_pg d \<and> g \<noteq> [] \<and> \<not> starts_with g ''__'' then Some g else None)"

definition record_usage ::
  "ts \<Rightarrow> string \<Rightarrow> string \<Rightarrow> string option \<Rightarrow> rat \<Rightarrow> string \<Rightarrow> string \<Rightarrow> int \<Rightarrow> int \<Rightarrow> int \<Rightarrow> nat option \<Rightarrow> rdb \<Rightarrow> rdb" where
  "record_usage now provider task job units kind status latency pt ct key d =
     d\<lparr>rg_usage := rg_usage d @
         [\<lparr>us_ts = now, us_provider = provider, us_task = task, us_job = job, us_units = units, us_kind = kind,
           us_status = status, us_latency = latency, us_prompt = pt, us_completion = ct, us_key = key,
           us_org = ledger_org d\<rparr>]\<rparr>"

definition mark ::
  "int \<Rightarrow> string \<Rightarrow> string \<Rightarrow> pstatus \<Rightarrow> string option \<Rightarrow> rat option \<Rightarrow> rdb \<Rightarrow> bool \<times> rdb" where
  "mark ms provider task status reason secs d =
     (let until = (case secs of None \<Rightarrow> None
                   | Some s \<Rightarrow> if s = 0 then None else Some \<lfloor>of_int ms / 1000 + s\<rfloor>)
      in (rowcount (\<lambda>r. pr_key r = (provider, task)) (rg_rows d) > 0,
          update_row provider task
            (\<lambda>r. r\<lparr>pr_status := status, pr_reason := reason, pr_cooldown := until\<rparr>) d))"

definition add_quota_used :: "int \<Rightarrow> string \<Rightarrow> string \<Rightarrow> rat \<Rightarrow> nat \<Rightarrow> rdb \<Rightarrow> rdb" where
  "add_quota_used ms provider task units mult d =
     (let d1 = update_row provider task (\<lambda>r. r\<lparr>pr_used := Some (or_default (pr_used r) 0 + units)\<rparr>) d
      in case row_of pr_key (provider, task) (rg_rows d1) of
           None \<Rightarrow> d1
         | Some r \<Rightarrow> if within_quota r mult then d1
             else snd (mark ms provider task Exhausted (Some ''quota_limit reached'') None d1))"

definition count_recent_requests :: "int \<Rightarrow> string \<Rightarrow> string \<Rightarrow> int \<Rightarrow> rdb \<Rightarrow> nat" where
  "count_recent_requests ms provider task window d =
     rowcount (\<lambda>u. us_provider u = provider \<and> us_task u = task \<and> sec_of ms - window \<le> us_ts u
        \<and> (truthy (rg_org d) \<longrightarrow> us_org u = rg_org d)) (rg_usage d)"

definition set_rpm_from_headers :: "int \<Rightarrow> string \<Rightarrow> string \<Rightarrow> int option \<Rightarrow> rdb \<Rightarrow> rdb" where
  "set_rpm_from_headers ms provider task remaining d =
     (case remaining of
        None \<Rightarrow> d
      | Some n \<Rightarrow> if n \<le> 0
          then snd (mark ms provider task Cooldown (Some ''provider headers report 0 remaining'') (Some 60) d)
          else d)"

subsection \<open>Seeding an existing table\<close>

lemma fold_insert_provider:
  "distinct (map pr_key (rg_rows d)) \<Longrightarrow>
    \<exists>new. rg_rows (fold insert_provider rs d) = rg_rows d @ new \<and> set new \<subseteq> set rs
      \<and> distinct (map pr_key (rg_rows d @ new))
      \<and> pr_key ` set rs \<subseteq> pr_key ` set (rg_rows d @ new)"
proof (induction rs arbitrary: d)
  case Nil
  then show ?case by simp
next
  case (Cons r rs)
  show ?case
  proof (cases "pr_key r \<in> set (existing_keys d)")
    case True
    then have "insert_provider r d = d" by (simp add: insert_provider_def)
    with Cons.IH [OF Cons.prems] obtain new where
      "rg_rows (fold insert_provider (r # rs) d) = rg_rows d @ new" "set new \<subseteq> set rs"
      "distinct (map pr_key (rg_rows d @ new))" "pr_key ` set rs \<subseteq> pr_key ` set (rg_rows d @ new)"
      by auto
    with True show ?thesis by (intro exI [of _ new]) (auto simp: existing_keys_def)
  next
    case False
    let ?d = "insert_provider r d"
    have d: "rg_rows ?d = rg_rows d @ [r]" using False by (simp add: insert_provider_def)
    then have "distinct (map pr_key (rg_rows ?d))"
      using Cons.prems False by (simp add: existing_keys_def)
    from Cons.IH [OF this] obtain new where
      "rg_rows (fold insert_provider rs ?d) = rg_rows ?d @ new" "set new \<subseteq> set rs"
      "distinct (map pr_key (rg_rows ?d @ new))" "pr_key ` set rs \<subseteq> pr_key ` set (rg_rows ?d @ new)"
      by blast
    with d show ?thesis by (intro exI [of _ "r # new"]) auto
  qed
qed

lemma seed_if_empty_rows:
  assumes "distinct (map pr_key (rg_rows d))"
  obtains new where "rg_rows (seed_if_empty now d) = rg_rows d @ new"
    and "set new \<subseteq> seed_row now ` set SEED"
    and "distinct (map pr_key (rg_rows d @ new))"
    and "pr_key ` seed_row now ` set SEED \<subseteq> pr_key ` set (rg_rows d @ new)"
proof -
  let ?missing = "filter (\<lambda>r. pr_key r \<notin> set (existing_keys d)) (map (seed_row now) SEED)"
  obtain new where new: "rg_rows (fold insert_provider ?missing d) = rg_rows d @ new"
      "set new \<subseteq> set ?missing" "distinct (map pr_key (rg_rows d @ new))"
      "pr_key ` set ?missing \<subseteq> pr_key ` set (rg_rows d @ new)"
    using fold_insert_provider [OF assms, of ?missing] by blast
  have "x \<in> pr_key ` set (rg_rows d @ new)" if "x \<in> pr_key ` seed_row now ` set SEED" for x
  proof (cases "x \<in> set (existing_keys d)")
    case True
    then show ?thesis by (auto simp: existing_keys_def)
  next
    case False
    with that have "x \<in> pr_key ` set ?missing" by auto
    with new(4) show ?thesis by blast
  qed
  then have cover: "pr_key ` seed_row now ` set SEED \<subseteq> pr_key ` set (rg_rows d @ new)" by blast
  have "set new \<subseteq> seed_row now ` set SEED" using new(2) by auto
  with new(1,3) cover that [of new] show thesis by (simp add: seed_if_empty_def Let_def)
qed

lemma pr_key_seed_row: "pr_key (seed_row now r) = pr_key (seed_row now' r)"
  by (induction r rule: seed_row.induct) (simp add: pr_key_def)

text \<open>Seeding upgrades a table without touching it: whatever rows exist keep their place and content,
  only rows of the seed whose (name, task) is missing are appended, the primary key stays unique, every
  seed pair is there afterwards, and seeding again changes nothing.\<close>

theorem seeding_only_adds:
  assumes "distinct (map pr_key (rg_rows d))"
  shows "(\<exists>new. rg_rows (seed_if_empty now d) = rg_rows d @ new \<and> set new \<subseteq> seed_row now ` set SEED)
    \<and> distinct (map pr_key (rg_rows (seed_if_empty now d)))
    \<and> pr_key ` seed_row now ` set SEED \<subseteq> pr_key ` set (rg_rows (seed_if_empty now d))
    \<and> seed_if_empty later (seed_if_empty now d) = seed_if_empty now d"
proof -
  obtain new where new: "rg_rows (seed_if_empty now d) = rg_rows d @ new"
    "set new \<subseteq> seed_row now ` set SEED" "distinct (map pr_key (rg_rows d @ new))"
    "pr_key ` seed_row now ` set SEED \<subseteq> pr_key ` set (rg_rows d @ new)"
    by (rule seed_if_empty_rows [OF assms])
  have "pr_key (seed_row later r) \<in> set (existing_keys (seed_if_empty now d))" if "r \<in> set SEED" for r
    using new(4) that pr_key_seed_row [of later r now] by (auto simp: existing_keys_def new(1))
  then have "filter (\<lambda>r. pr_key r \<notin> set (existing_keys (seed_if_empty now d))) (map (seed_row later) SEED) = []"
    by (auto simp: filter_empty_conv)
  then have "seed_if_empty later (seed_if_empty now d) = seed_if_empty now d"
    unfolding seed_if_empty_def [of later] by (simp only: Let_def fold.simps id_apply)
  with new show ?thesis by auto
qed

definition empty_registry :: rdb where
  "empty_registry = \<lparr>rg_rows = [], rg_usage = [], rg_org = None, rg_pg = False\<rparr>"

lemma seeding_only_adds_witness:
  "seed_if_empty 99 (seed_if_empty 5 empty_registry) = seed_if_empty 5 empty_registry"
  by (rule seeding_only_adds [THEN conjunct2, THEN conjunct2, THEN conjunct2]) (simp add: empty_registry_def)

subsection \<open>The expiry pass\<close>

definition expired_row :: "ts \<Rightarrow> prov_row \<Rightarrow> prov_row" where
  "expired_row now r =
     (let r1 = (if rollover_due now r then r\<lparr>pr_used := Some 0, pr_status := Active\<rparr> else r)
      in if cooldown_over now r1 then r1\<lparr>pr_status := Active\<rparr> else r1)"

lemma fst_expire_states: "fst (expire_states now r d) = expired_row now r"
  by (simp add: expire_states_def expired_row_def Let_def)

lemma fst_expire_all: "fst (expire_all now rs d) = map (expired_row now) rs"
proof (induction rs arbitrary: d)
  case (Cons r rs)
  show ?case
    using Cons [of "snd (expire_states now r d)"] fst_expire_states [of now r d]
    by (simp add: case_prod_beta)
qed simp

lemma key_expired_row [simp]: "pr_key (expired_row now r) = pr_key r"
  by (simp add: expired_row_def pr_key_def Let_def)

lemma providers_for_task_rows:
  "fst (providers_for_task env now task kc d) =
    map (\<lambda>r. candidate_of env kc (expired_row now r)) (sort_key pr_priority (filter (\<lambda>r. pr_task r = task) (rg_rows d)))"
  by (simp add: providers_for_task_def case_prod_beta fst_expire_all)

lemma status_table_rows:
  "map fst (fst (status_table env now d)) =
    map (expired_row now) (sort_key (\<lambda>r. map (of_char :: char \<Rightarrow> nat) (pr_task r)) (sort_key pr_priority (rg_rows d)))"
  by (simp add: status_table_def Let_def case_prod_beta fst_expire_all comp_def)

lemma expired_row_task [simp]: "pr_task (expired_row now r) = pr_task r"
  by (simp add: expired_row_def Let_def)

text \<open>The status page tells the truth about capacity: for every task it shows exactly the provider rows,
  with the same status and usage, that the router would consider at that moment.\<close>

theorem dashboard_agrees_with_router:
  "set (filter (\<lambda>r. pr_task r = task) (map fst (fst (status_table env now d))))
    = set (map cd_row (fst (providers_for_task env now task kc d)))"
  unfolding status_table_rows providers_for_task_rows
  by (auto simp: candidate_of_def Let_def)

subsection \<open>Quota\<close>

lemma pr_key_upd [simp]:
  "pr_key (r\<lparr>pr_used := u\<rparr>) = pr_key r"
  "pr_key (r\<lparr>pr_status := s, pr_reason := why, pr_cooldown := c\<rparr>) = pr_key r"
  by (simp_all add: pr_key_def)

lemma add_quota_used_row:
  assumes "row_of pr_key (p, task) (rg_rows d) = Some r"
  shows "row_of pr_key (p, task) (rg_rows (add_quota_used ms p task units mult d)) =
    (let r1 = r\<lparr>pr_used := Some (or_default (pr_used r) 0 + units)\<rparr>
     in Some (if within_quota r1 mult then r1
              else r1\<lparr>pr_status := Exhausted, pr_reason := Some ''quota_limit reached'', pr_cooldown := None\<rparr>))"
proof -
  let ?f = "\<lambda>r. r\<lparr>pr_used := Some (or_default (pr_used r) 0 + units)\<rparr>"
  let ?g = "\<lambda>r. r\<lparr>pr_status := Exhausted, pr_reason := Some ''quota_limit reached'', pr_cooldown := None\<rparr>"
  have f: "row_of pr_key (p, task) (upd_where (\<lambda>x. pr_key x = (p, task)) ?f (rg_rows d)) = Some (?f r)"
    by (rule prov_table.row_of_upd_own [OF _ assms]) simp
  have "row_of pr_key (p, task) (upd_where (\<lambda>x. pr_key x = (p, task)) ?g
      (upd_where (\<lambda>x. pr_key x = (p, task)) ?f (rg_rows d))) = Some (?g (?f r))"
    by (rule prov_table.row_of_upd_own [OF _ f]) simp
  with f show ?thesis
    by (simp add: add_quota_used_def update_row_def mark_def Let_def)
qed

lemma sort_task_rows:
  "cand \<in> set (fst (providers_for_task env now task kc d)) \<Longrightarrow>
    \<exists>r \<in> set (rg_rows d). pr_task r = task \<and> cand = candidate_of env kc (expired_row now r)"
  by (auto simp: providers_for_task_rows)

text \<open>A provider that has used up its quota is taken out of the waterfall: when the units charged reach the
  limit times the number of pooled keys, the row is EXHAUSTED with the exact sum charged, and no later
  reading offers it as usable, for whatever number of keys, until a month boundary resets it.\<close>

theorem spent_quota_stops_provider:
  assumes "distinct (map pr_key (rg_rows d))"
    and "row_of pr_key (p, task) (rg_rows d) = Some r" and "pr_limit r = Some l"
    and "l * of_nat (max 1 mult) \<le> or_default (pr_used r) 0 + units"
    and "\<not> rollover_due now r"
  shows "\<exists>r'. row_of pr_key (p, task) (rg_rows (add_quota_used ms p task units mult d)) = Some r'
      \<and> pr_status r' = Exhausted \<and> pr_used r' = Some (or_default (pr_used r) 0 + units)
      \<and> (\<forall>cand \<in> set (fst (providers_for_task env now task kc (add_quota_used ms p task units mult d))).
            pr_name (cd_row cand) = p \<longrightarrow> \<not> cd_usable cand)"
proof -
  let ?r1 = "r\<lparr>pr_used := Some (or_default (pr_used r) 0 + units)\<rparr>"
  let ?r' = "?r1\<lparr>pr_status := Exhausted, pr_reason := Some ''quota_limit reached'', pr_cooldown := None\<rparr>"
  let ?d' = "add_quota_used ms p task units mult d"
  have "\<not> within_quota ?r1 mult" using assms(3,4) by (simp add: within_quota_def)
  then have row: "row_of pr_key (p, task) (rg_rows ?d') = Some ?r'"
    using add_quota_used_row [OF assms(2)] by (simp add: Let_def)
  have keys: "map pr_key (rg_rows ?d') = map pr_key (rg_rows d)"
    by (auto simp: add_quota_used_def update_row_def mark_def Let_def
        prov_table.keys_upd_where split: option.splits)
  have "\<not> cd_usable cand" if c: "cand \<in> set (fst (providers_for_task env now task kc ?d'))"
    and n: "pr_name (cd_row cand) = p" for cand
  proof -
    obtain x where x: "x \<in> set (rg_rows ?d')" "pr_task x = task"
        "cand = candidate_of env kc (expired_row now x)"
      using sort_task_rows [OF c] by blast
    have "pr_key x = (p, task)"
      using n x(2,3) key_expired_row [of now x] by (simp add: candidate_of_def pr_key_def Let_def)
    then have "x = ?r'"
      using x(1) row_of_Some [OF row] assms(1) keys by (metis distinct_map inj_onD)
    then have "expired_row now x = ?r'"
      using assms(5) by (auto simp: expired_row_def rollover_due_def cooldown_over_def)
    then show ?thesis by (simp add: x(3) candidate_of_def Let_def)
  qed
  with row show ?thesis by auto
qed

definition one_provider :: rdb where
  "one_provider = empty_registry\<lparr>rg_rows := [seed_row 5 (''tavily'', ''search'', ''web_search'', 1, ''credits'',
     Some 2, ''monthly'', None, Some ''TAVILY_API_KEY'')]\<rparr>"

lemma spent_quota_stops_provider_witness:
  "\<exists>r'. row_of pr_key (''tavily'', ''web_search'') (rg_rows (add_quota_used 9000 ''tavily'' ''web_search'' 2 1 one_provider))
      = Some r' \<and> pr_status r' = Exhausted"
proof -
  let ?r = "seed_row 5 (''tavily'', ''search'', ''web_search'', 1, ''credits'', Some 2, ''monthly'', None,
    Some ''TAVILY_API_KEY'')"
  have "distinct (map pr_key (rg_rows one_provider))"
    "row_of pr_key (''tavily'', ''web_search'') (rg_rows one_provider) = Some ?r"
    by (simp_all add: one_provider_def pr_key_def)
  moreover have "\<not> rollover_due 9 ?r" by code_simp
  ultimately show ?thesis
    using spent_quota_stops_provider [of one_provider "''tavily''" "''web_search''" ?r 2 1 2 9]
    by (fastforce simp: empty_registry_def)
qed

end
