(* ===== verification/Cache.thy ===== *)
theory Cache
  imports PyStr
begin

section \<open>The result cache (lead_engine/cache.py)\<close>

text \<open>
  Levels 1 (requests) and 2 (entities) of the cache share one table, keyed by level and a digest of
  task, payload and organization.  The digest (SHA-1 over canonical JSON) is an argument; what the
  cache relies on is that it separates the documents it is applied to, which the theorems state for the
  two documents they speak of.  Payloads and results are JSON texts.
\<close>

type_synonym document = "string \<times> string \<times> string"

record cache_row =
  ca_level :: nat
  ca_key :: string
  ca_payload :: string
  ca_type :: string
  ca_created :: ts
  ca_expires :: ts

definition ttl_seconds :: "(string \<Rightarrow> int option) \<Rightarrow> string \<Rightarrow> int" where
  "ttl_seconds ttl_days data_type = or_default (ttl_days data_type) 7 * 86400"

definition doc_of :: "string \<Rightarrow> string \<Rightarrow> string option \<Rightarrow> document" where
  "doc_of task payload org = (task, payload, if truthy org then the org else ''shared'')"

definition make_key :: "(document \<Rightarrow> string) \<Rightarrow> string \<Rightarrow> string \<Rightarrow> string option \<Rightarrow> string" where
  "make_key digest task payload org = digest (doc_of task payload org)"

text \<open>\<open>INSERT .. ON CONFLICT (level, cache_key) DO UPDATE\<close>.\<close>

definition put_row :: "ts \<Rightarrow> (string \<Rightarrow> int option) \<Rightarrow> nat \<Rightarrow> string \<Rightarrow> string \<Rightarrow> string \<Rightarrow> cache_row list \<Rightarrow> cache_row list" where
  "put_row now ttl level key body data_type t =
     (if rowcount (\<lambda>r. ca_level r = level \<and> ca_key r = key) t = 0
      then t @ [\<lparr>ca_level = level, ca_key = key, ca_payload = body, ca_type = data_type, ca_created = now,
                 ca_expires = now + ttl_seconds ttl data_type\<rparr>]
      else upd_where (\<lambda>r. ca_level r = level \<and> ca_key r = key)
             (\<lambda>r. r\<lparr>ca_payload := body, ca_type := data_type, ca_created := now,
                    ca_expires := now + ttl_seconds ttl data_type\<rparr>) t)"

definition get_row :: "ts \<Rightarrow> nat \<Rightarrow> string \<Rightarrow> cache_row list \<Rightarrow> string option" where
  "get_row now level key t =
     (case find (\<lambda>r. ca_level r = level \<and> ca_key r = key) t of
        None \<Rightarrow> None
      | Some r \<Rightarrow> if ca_expires r \<le> now then None else Some (ca_payload r))"

definition get_request ::
  "(document \<Rightarrow> string) \<Rightarrow> ts \<Rightarrow> string option \<Rightarrow> string \<Rightarrow> string \<Rightarrow> cache_row list \<Rightarrow> string option" where
  "get_request digest now org task payload t = get_row now 1 (make_key digest task payload org) t"

definition put_request ::
  "(document \<Rightarrow> string) \<Rightarrow> ts \<Rightarrow> (string \<Rightarrow> int option) \<Rightarrow> string option \<Rightarrow> string \<Rightarrow> string \<Rightarrow> string \<Rightarrow> string
     \<Rightarrow> cache_row list \<Rightarrow> cache_row list" where
  "put_request digest now ttl org task payload result data_type t =
     put_row now ttl 1 (make_key digest task payload org) result data_type t"

definition get_entity ::
  "(document \<Rightarrow> string) \<Rightarrow> ts \<Rightarrow> string option \<Rightarrow> string \<Rightarrow> string \<Rightarrow> cache_row list \<Rightarrow> string option" where
  "get_entity digest now org etype identity t = get_row now 2 (make_key digest (''entity:'' @ etype) identity org) t"

definition put_entity ::
  "(document \<Rightarrow> string) \<Rightarrow> ts \<Rightarrow> (string \<Rightarrow> int option) \<Rightarrow> string option \<Rightarrow> string \<Rightarrow> string \<Rightarrow> string \<Rightarrow> string
     \<Rightarrow> cache_row list \<Rightarrow> cache_row list" where
  "put_entity digest now ttl org etype identity data data_type t =
     put_row now ttl 2 (make_key digest (''entity:'' @ etype) identity org) data data_type t"

definition purge_expired :: "ts \<Rightarrow> cache_row list \<Rightarrow> nat \<times> cache_row list" where
  "purge_expired now t = (rowcount (\<lambda>r. ca_expires r \<le> now) t, delete_where (\<lambda>r. ca_expires r \<le> now) t)"

subsection \<open>Lookup after update\<close>

lemma find_upd_where:
  assumes "\<And>r. k (f r) = k r"
  shows "find (\<lambda>r. k r = j) (upd_where (\<lambda>r. k r = i) f t)
    = map_option (\<lambda>r. if i = j then f r else r) (find (\<lambda>r. k r = j) t)"
  using assms by (induction t) auto

lemma find_key_pair: "(\<lambda>r. ca_level r = l \<and> ca_key r = k) = (\<lambda>r. (ca_level r, ca_key r) = (l, k))"
  by auto

lemma find_append: "find p (xs @ ys) = (case find p xs of None \<Rightarrow> find p ys | Some x \<Rightarrow> Some x)"
  by (induction xs) auto

lemma get_row_put_row:
  "get_row later l k (put_row now ttl l' k' body dt t) =
    (if l = l' \<and> k = k' then (if now + ttl_seconds ttl dt \<le> later then None else Some body)
     else get_row later l k t)"
proof (cases "rowcount (\<lambda>r. ca_level r = l' \<and> ca_key r = k') t = 0")
  case True
  then have "find (\<lambda>r. ca_level r = l' \<and> ca_key r = k') t = None"
    by (auto simp: rowcount_0_iff find_None_iff)
  with True show ?thesis
    by (auto simp: put_row_def get_row_def find_append split: option.splits)
next
  case False
  let ?f = "\<lambda>r. r\<lparr>ca_payload := body, ca_type := dt, ca_created := now, ca_expires := now + ttl_seconds ttl dt\<rparr>"
  from False obtain r where "find (\<lambda>r. (ca_level r, ca_key r) = (l', k')) t = Some r"
    by (cases "find (\<lambda>r. (ca_level r, ca_key r) = (l', k')) t") (auto simp: rowcount_0_iff find_None_iff)
  moreover have "find (\<lambda>r. (ca_level r, ca_key r) = (l, k)) (upd_where (\<lambda>r. (ca_level r, ca_key r) = (l', k')) ?f t)
      = map_option (\<lambda>r. if (l', k') = (l, k) then ?f r else r) (find (\<lambda>r. (ca_level r, ca_key r) = (l, k)) t)"
    by (rule find_upd_where) simp
  ultimately show ?thesis
    using False unfolding put_row_def get_row_def find_key_pair
    by (auto split: option.splits)
qed

text \<open>
  The contract of a store whose entries expire, under which a client may cache: what is read back is what
  was put last under that key, for as long as it lives, and putting one key leaves the others alone.
\<close>

locale expiring_store =
  fixes put :: "ts \<Rightarrow> 'k \<Rightarrow> 'v \<Rightarrow> 's \<Rightarrow> 's"
    and get :: "ts \<Rightarrow> 'k \<Rightarrow> 's \<Rightarrow> 'v option"
    and life :: int
  assumes get_put: "get later k (put now j v s) =
      (if k = j then (if now + life \<le> later then None else Some v) else get later k s)"
begin

fun put_all :: "(ts \<times> 'k \<times> 'v) list \<Rightarrow> 's \<Rightarrow> 's" where
  "put_all [] s = s"
| "put_all ((t, k, v) # ps) s = put_all ps (put t k v s)"

lemma get_unput: "k \<notin> (\<lambda>(t, k, v). k) ` set ps \<Longrightarrow> get later k (put_all ps s) = get later k s"
  by (induction ps s rule: put_all.induct) (auto simp: get_put)

text \<open>A hit is the last value put under the key, and it is younger than its lifetime.\<close>

lemma hit_is_last_put:
  assumes "get later k (put_all ps s) = Some v" and "k \<in> (\<lambda>(t, k, v). k) ` set ps"
  shows "\<exists>pre t post. ps = pre @ (t, k, v) # post \<and> k \<notin> (\<lambda>(t, k, v). k) ` set post \<and> later < t + life"
  using assms
proof (induction ps s rule: put_all.induct)
  case (2 t k' v' ps s)
  show ?case
  proof (cases "k \<in> (\<lambda>(t, k, v). k) ` set ps")
    case True
    with 2 obtain pre t' post where
      "ps = pre @ (t', k, v) # post" "k \<notin> (\<lambda>(t, k, v). k) ` set post" "later < t' + life" by auto
    then show ?thesis by (intro exI [of _ "(t, k', v') # pre"]) auto
  next
    case False
    with 2 have "k = k'" by auto
    moreover from False 2(2) have "get later k (put t k' v' s) = Some v" by (simp add: get_unput)
    ultimately have "v = v'" "later < t + life" by (auto simp: get_put split: if_splits)
    with False \<open>k = k'\<close> show ?thesis by (intro exI [of _ "[]"]) auto
  qed
qed simp

end

interpretation request_cache: expiring_store
  "\<lambda>now k body. put_row now ttl level k body dt" "\<lambda>now k. get_row now level k" "ttl_seconds ttl dt"
  for ttl level dt
  by unfold_locales (simp add: get_row_put_row)

text \<open>C37: The cache never crosses a tenant and never serves stale data: after any result has been stored for
  one organization, another organization's lookup sees exactly what it saw before, the same
  organization's lookup of that request gets that result until its time to live is over and nothing
  afterwards (no organization counts as the organization called shared); provided the digest separates the documents concerned.\<close>

theorem cache_isolated_and_fresh:
  assumes "digest (doc_of task payload org) = digest (doc_of task' payload' org')
      \<Longrightarrow> doc_of task payload org = doc_of task' payload' org'"
  shows "get_request digest later org' task' payload' (put_request digest now ttl org task payload result dt t)
    = (if doc_of task' payload' org' = doc_of task payload org
       then (if now + ttl_seconds ttl dt \<le> later then None else Some result)
       else get_request digest later org' task' payload' t)"
  using assms unfolding get_request_def put_request_def request_cache.get_put make_key_def by auto

definition toy_digest :: "document \<Rightarrow> string" where
  "toy_digest = (\<lambda>(t, p, g). g @ ''|'' @ t @ ''|'' @ p)"

lemma cache_isolated_and_fresh_witness:
  "get_request toy_digest 20 (Some ''o2'') ''search'' ''q''
     (put_request toy_digest 10 (\<lambda>_. Some 1) (Some ''o1'') ''search'' ''q'' ''secret'' ''search'' []) = None"
proof -
  have "toy_digest (doc_of ''search'' ''q'' (Some ''o1'')) \<noteq> toy_digest (doc_of ''search'' ''q'' (Some ''o2''))"
    by (simp add: toy_digest_def doc_of_def)
  then show ?thesis
    by (subst cache_isolated_and_fresh) (auto simp: doc_of_def get_request_def get_row_def)
qed

text \<open>Purging is invisible: it removes exactly the expired rows, counts them, and no lookup at that moment
  or later can tell the difference; keys are unique in the table.\<close>

theorem purge_is_invisible:
  assumes "distinct (map (\<lambda>r. (ca_level r, ca_key r)) t)" and "now \<le> later"
  shows "get_row later level key (snd (purge_expired now t)) = get_row later level key t
    \<and> fst (purge_expired now t) + length (snd (purge_expired now t)) = length t"
proof
  show "get_row later level key (snd (purge_expired now t)) = get_row later level key t"
    using assms
  proof (induction t)
    case (Cons r t)
    show ?case
    proof (cases "ca_level r = level \<and> ca_key r = key \<and> ca_expires r \<le> now")
      case True
      with Cons.prems have "find (\<lambda>r. ca_level r = level \<and> ca_key r = key) (delete_where (\<lambda>r. ca_expires r \<le> now) t) = None"
        by (force simp: find_None_iff delete_where_def image_iff)
      with True assms(2) show ?thesis by (simp add: purge_expired_def delete_where_def get_row_def)
    next
      case False
      with Cons show ?thesis by (auto simp: purge_expired_def delete_where_def get_row_def)
    qed
  qed (simp add: purge_expired_def delete_where_def)
  show "fst (purge_expired now t) + length (snd (purge_expired now t)) = length t"
    using sum_length_filter_compl [of "\<lambda>r. ca_expires r \<le> now" t]
    by (simp add: purge_expired_def rowcount_def delete_where_def)
qed

lemma purge_is_invisible_witness:
  "get_row 30 1 ''k2'' (snd (purge_expired 20
      [\<lparr>ca_level = 1, ca_key = ''k1'', ca_payload = ''a'', ca_type = ''t'', ca_created = 1, ca_expires = 5\<rparr>,
       \<lparr>ca_level = 1, ca_key = ''k2'', ca_payload = ''b'', ca_type = ''t'', ca_created = 1, ca_expires = 50\<rparr>]))
    = Some ''b''"
  by (subst purge_is_invisible [THEN conjunct1]) (simp_all add: get_row_def)

end
