(* ===== verification/Lifecycle.thy ===== *)
theory Lifecycle
  imports Prelude
begin

section \<open>Lifecycles: a transition table over a store of entities\<close>

text \<open>
  Several parts of the engine keep an entity's status in a table row and guard every change of it by
  a transition table.  The contract of such a store is stated once: a successful move follows an
  edge of the table, sets the status it was asked for and touches no other entity.  What follows
  from it for whole runs (legality of the path, permanence of terminal states) is proved here and
  reused by each interpretation.
\<close>

inductive path :: "('s \<Rightarrow> 's list) \<Rightarrow> 's \<Rightarrow> 's list \<Rightarrow> 's \<Rightarrow> bool" for edges where
  path_nil: "path edges s [] s"
| path_step: "t \<in> set (edges s) \<Longrightarrow> path edges t ts u \<Longrightarrow> path edges s (t # ts) u"

inductive_cases path_NilE: "path edges s [] u"
inductive_cases path_ConsE: "path edges s (t # ts) u"
inductive_simps path_Nil_iff [simp]: "path edges s [] u"
inductive_simps path_Cons_iff [simp]: "path edges s (t # ts) u"

definition reachable :: "('s \<Rightarrow> 's list) \<Rightarrow> 's \<Rightarrow> 's \<Rightarrow> bool" where
  "reachable edges s u \<longleftrightarrow> (\<exists>ts. path edges s ts u)"

lemma path_append: "path edges s ts t \<Longrightarrow> path edges t us u \<Longrightarrow> path edges s (ts @ us) u"
  by (induction rule: path.induct) auto

lemma reachable_refl: "reachable edges s s"
  by (auto simp: reachable_def intro: exI [of _ "[]"])

lemma reachable_trans: "reachable edges s t \<Longrightarrow> reachable edges t u \<Longrightarrow> reachable edges s u"
  unfolding reachable_def using path_append by metis

lemma reachable_step: "t \<in> set (edges s) \<Longrightarrow> reachable edges s t"
  by (auto simp: reachable_def intro!: exI [of _ "[t]"])

text \<open>Closure: a set of statuses that no edge leaves is never left by a path.\<close>

lemma path_closed:
  assumes "path edges s ts u" and "s \<in> C" and "\<And>x y. x \<in> C \<Longrightarrow> y \<in> set (edges x) \<Longrightarrow> y \<in> C"
  shows "u \<in> C \<and> set ts \<subseteq> C"
  using assms by (induction rule: path.induct) auto

text \<open>A path into a status passes through one of the status's predecessors.\<close>

lemma path_last_step:
  assumes "path edges s ts u" and "ts \<noteq> []"
  obtains x where "x \<in> set (s # ts)" and "u \<in> set (edges x)"
proof -
  have "\<exists>x \<in> set (s # ts). u \<in> set (edges x)"
    using assms
  proof (induction rule: path.induct)
    case (path_step t s ts u)
    then show ?case by (cases ts) auto
  qed simp
  with that show thesis by blast
qed

locale lifecycle =
  fixes edges :: "'s \<Rightarrow> 's list"
    and status_of :: "'d \<Rightarrow> 'k \<Rightarrow> 's option"
    and move :: "'k \<Rightarrow> 's \<Rightarrow> 'd \<Rightarrow> 'd option"
  assumes move_legal:
      "move k to d = Some d' \<Longrightarrow> \<exists>from. status_of d k = Some from \<and> to \<in> set (edges from)"
    and move_sets: "move k to d = Some d' \<Longrightarrow> status_of d' k = Some to"
    and move_frame: "move k to d = Some d' \<Longrightarrow> k' \<noteq> k \<Longrightarrow> status_of d' k' = status_of d k'"
begin

fun attempt :: "('k \<times> 's) list \<Rightarrow> 'd \<Rightarrow> 'd" where
  "attempt [] d = d"
| "attempt ((k, to) # ms) d = attempt ms (case move k to d of None \<Rightarrow> d | Some d' \<Rightarrow> d')"

lemma terminal_refused: "status_of d k = Some s \<Longrightarrow> edges s = [] \<Longrightarrow> move k to d = None"
  by (cases "move k to d") (auto dest: move_legal)

lemma move_reachable:
  assumes "status_of d k' = Some s" and "move k to d = Some d'"
  shows "\<exists>u. status_of d' k' = Some u \<and> reachable edges s u"
proof (cases "k' = k")
  case True
  with assms move_legal move_sets show ?thesis by (force intro: reachable_step)
next
  case False
  with assms move_frame show ?thesis by (auto intro: reachable_refl)
qed

lemma attempt_reachable:
  assumes "status_of d k = Some s"
  shows "\<exists>u. status_of (attempt ms d) k = Some u \<and> reachable edges s u"
  using assms
proof (induction ms d arbitrary: s rule: attempt.induct)
  case (1 d)
  then show ?case by (auto intro: reachable_refl)
next
  case (2 k' to ms d)
  show ?case
  proof (cases "move k' to d")
    case None
    with 2 show ?thesis by simp
  next
    case (Some d')
    with 2(2) obtain t where t: "status_of d' k = Some t" "reachable edges s t"
      using move_reachable by blast
    with 2(1) Some show ?thesis by (auto intro: reachable_trans)
  qed
qed

lemma terminal_forever:
  assumes "status_of d k = Some s" and "edges s = []"
  shows "status_of (attempt ms d) k = Some s"
proof -
  obtain u where u: "status_of (attempt ms d) k = Some u" "reachable edges s u"
    using attempt_reachable [OF assms(1)] by blast
  from u(2) obtain ts where "path edges s ts u" by (auto simp: reachable_def)
  then have "u = s" using assms(2) by (cases ts) auto
  with u(1) show ?thesis by simp
qed

end

end
