(* ===== verification/Jobs.thy ===== *)
theory Jobs
  imports Lifecycle
begin

section \<open>The job state machine (lead_engine/jobs.py)\<close>

text \<open>
  The table \<open>jobs\<close> of the legacy engine, its audit trail \<open>job_events\<close>, the table of legal
  transitions and the JobManager.  A transition reads the row's state, checks it against the table
  and then issues an UPDATE that is guarded by the state it has read: the two halves are
  \<open>current\<close> and \<open>transition_write\<close>, so that another writer can be put between them.  The
  exception IllegalTransition has one constructor per message.  Fresh job ids and the clock are
  arguments.
\<close>

datatype job_state =
    QUEUED | RUNNING | DEGRADED | PAUSED | RESUMING | COMPLETED | FAILED
  | DISCOVERING | RESEARCHING | VERIFYING | QUALIFYING
  | WAITING_FOR_USER | READY_FOR_REVIEW | CANCELLED

definition RESEARCH_PHASES :: "job_state list" where
  "RESEARCH_PHASES = [DISCOVERING, RESEARCHING, VERIFYING, QUALIFYING]"

definition INTERRUPTED_STATES :: "job_state list" where
  "INTERRUPTED_STATES =
     [RUNNING, RESUMING, DEGRADED, DISCOVERING, RESEARCHING, VERIFYING, QUALIFYING]"

definition PHASE_EXITS :: "job_state list" where
  "PHASE_EXITS =
     [RUNNING, PAUSED, FAILED, CANCELLED, WAITING_FOR_USER, READY_FOR_REVIEW] @ RESEARCH_PHASES"

fun TRANSITIONS :: "job_state \<Rightarrow> job_state list" where
  "TRANSITIONS QUEUED = [RUNNING, FAILED, CANCELLED]"
| "TRANSITIONS RUNNING =
     [DEGRADED, PAUSED, COMPLETED, FAILED, DISCOVERING, RESEARCHING, VERIFYING, QUALIFYING,
      WAITING_FOR_USER, READY_FOR_REVIEW, CANCELLED]"
| "TRANSITIONS DEGRADED = [RUNNING, PAUSED, COMPLETED, FAILED, CANCELLED]"
| "TRANSITIONS PAUSED = [RESUMING, FAILED, CANCELLED]"
| "TRANSITIONS RESUMING = [RUNNING, PAUSED, FAILED]"
| "TRANSITIONS COMPLETED = []"
| "TRANSITIONS FAILED = []"
| "TRANSITIONS DISCOVERING = PHASE_EXITS"
| "TRANSITIONS RESEARCHING = PHASE_EXITS"
| "TRANSITIONS VERIFYING = PHASE_EXITS"
| "TRANSITIONS QUALIFYING = PHASE_EXITS"
| "TRANSITIONS WAITING_FOR_USER = [RUNNING, CANCELLED, FAILED]"
| "TRANSITIONS READY_FOR_REVIEW = [COMPLETED, RUNNING, CANCELLED, FAILED]"
| "TRANSITIONS CANCELLED = []"

lemmas transition_table = RESEARCH_PHASES_def PHASE_EXITS_def INTERRUPTED_STATES_def

record job =
  j_id :: ident
  j_icp :: string
  j_state :: job_state
  j_params :: "(string \<times> string option) list"
  j_pause_reason :: "string option"
  j_resume_at :: "ts option"
  j_worker :: "string option"
  j_lease :: "ts option"
  j_attempts :: "int option"
  j_max_attempts :: "int option"
  j_created :: ts
  j_updated :: ts
  j_org :: string

record job_event =
  e_ts :: ts
  e_job :: ident
  e_from :: job_state
  e_to :: job_state
  e_reason :: "string option"

record jdb =
  jobs :: "job list"
  job_events :: "job_event list"
  db_org :: "string option"

datatype jerror =
    InvalidJob ident
  | Illegal job_state job_state
  | RaceLost ident job_state
  | OnlyPausedResume

subsection \<open>JobManager\<close>

definition create_job :: "ts \<Rightarrow> ident \<Rightarrow> string \<Rightarrow> (string \<times> string option) list \<Rightarrow> (jdb, jerror, ident) act" where
  "create_job now fresh icp params = (\<lambda>d.
     (Inr fresh,
      d\<lparr>jobs := jobs d @
          [\<lparr>j_id = fresh, j_icp = icp, j_state = QUEUED, j_params = params, j_pause_reason = None,
            j_resume_at = None, j_worker = None, j_lease = None, j_attempts = Some 0,
            j_max_attempts = Some 3, j_created = now, j_updated = now,
            j_org = (if truthy (db_org d) then the (db_org d) else ''shared'')\<rparr>]\<rparr>))"

definition current :: "ident \<Rightarrow> (jdb, jerror, job_state) act" where
  "current jid = (\<lambda>d.
     case row_of j_id jid (jobs d) of
       None \<Rightarrow> (Inl (InvalidJob jid), d)
     | Some r \<Rightarrow> (Inr (j_state r), d))"

definition set_state :: "ts \<Rightarrow> job_state \<Rightarrow> string option \<Rightarrow> job \<Rightarrow> job" where
  "set_state now to reason r =
     r\<lparr>j_state := to, j_pause_reason := (if to = PAUSED then reason else None), j_updated := now\<rparr>"

definition transition_write ::
  "ts \<Rightarrow> ident \<Rightarrow> job_state \<Rightarrow> job_state \<Rightarrow> string option \<Rightarrow> (jdb, jerror, job_state) act" where
  "transition_write now jid from to reason = (\<lambda>d.
     if rowcount (\<lambda>r. j_id r = jid \<and> j_state r = from) (jobs d) = 0
     then (Inl (RaceLost jid to), d)
     else (Inr to,
       d\<lparr>jobs := upd_where (\<lambda>r. j_id r = jid \<and> j_state r = from) (set_state now to reason) (jobs d),
         job_events := job_events d @
           [\<lparr>e_ts = now, e_job = jid, e_from = from, e_to = to, e_reason = reason\<rparr>]\<rparr>))"

definition transition ::
  "ts \<Rightarrow> ident \<Rightarrow> job_state \<Rightarrow> string option \<Rightarrow> (jdb, jerror, job_state) act" where
  "transition now jid to reason =
     seq (current jid) (\<lambda>from.
       if to \<notin> set (TRANSITIONS from) then throw (Illegal from to)
       else transition_write now jid from to reason)"

definition pause :: "ts \<Rightarrow> ident \<Rightarrow> string \<Rightarrow> ts \<Rightarrow> (jdb, jerror, unit) act" where
  "pause now jid reason at =
     seq (transition now jid PAUSED (Some reason)) (\<lambda>_.
       modify (\<lambda>d. d\<lparr>jobs := upd_where (\<lambda>r. j_id r = jid) (\<lambda>r. r\<lparr>j_resume_at := Some at\<rparr>) (jobs d)\<rparr>))"

definition mark_failed :: "ts \<Rightarrow> ident \<Rightarrow> string \<Rightarrow> (jdb, jerror, unit) act" where
  "mark_failed now jid reason = seq (transition now jid FAILED (Some reason)) (\<lambda>_. ret ())"

definition resume :: "ts \<Rightarrow> ident \<Rightarrow> (jdb, jerror, unit) act" where
  "resume now jid =
     seq (current jid) (\<lambda>s.
       if s \<noteq> PAUSED then throw OnlyPausedResume
       else seq (transition now jid RESUMING (Some ''scheduler retry'')) (\<lambda>_. ret ()))"

text \<open>A NULL resume_at compares to nothing.\<close>

definition jobs_due_for_resume :: "ts \<Rightarrow> jdb \<Rightarrow> job list" where
  "jobs_due_for_resume now d =
     filter (\<lambda>r. j_state r = PAUSED \<and> (case j_resume_at r of None \<Rightarrow> False | Some t \<Rightarrow> t \<le> now)) (jobs d)"

definition events_of :: "ident \<Rightarrow> jdb \<Rightarrow> job_event list" where
  "events_of jid d = filter (\<lambda>e. e_job e = jid) (job_events d)"

text \<open>The loop of recover_interrupted_jobs over the rows it has selected: a job whose lease is
  still valid is skipped when leases are respected, and a pause that raises is passed over.\<close>

fun recover_rows :: "ts \<Rightarrow> string \<Rightarrow> bool \<Rightarrow> job list \<Rightarrow> jdb \<Rightarrow> ident list \<times> jdb" where
  "recover_rows now reason respect [] d = ([], d)"
| "recover_rows now reason respect (r # rs) d =
     (if respect \<and> (case j_lease r of None \<Rightarrow> False | Some t \<Rightarrow> now \<le> t)
      then recover_rows now reason respect rs d
      else (case pause now (j_id r) reason (now + 60) d of
              (Inl _, d') \<Rightarrow> recover_rows now reason respect rs d'
            | (Inr _, d') \<Rightarrow>
                (let (ids, d'') = recover_rows now reason respect rs d' in (j_id r # ids, d''))))"

definition recover_interrupted_jobs :: "ts \<Rightarrow> string \<Rightarrow> bool \<Rightarrow> jdb \<Rightarrow> ident list \<times> jdb" where
  "recover_interrupted_jobs now reason respect d =
     recover_rows now reason respect
       (filter (\<lambda>r. j_state r \<in> set INTERRUPTED_STATES) (jobs d)) d"

subsection \<open>Lemmas\<close>

interpretation job_table: keyed_table j_id .

definition state_of :: "jdb \<Rightarrow> ident \<Rightarrow> job_state option" where
  "state_of d jid = map_option j_state (row_of j_id jid (jobs d))"

definition move_job :: "ts \<Rightarrow> string option \<Rightarrow> ident \<Rightarrow> job_state \<Rightarrow> jdb \<Rightarrow> jdb option" where
  "move_job now reason jid to d =
     (case transition now jid to reason d of (Inl _, _) \<Rightarrow> None | (Inr _, d') \<Rightarrow> Some d')"

lemma j_id_set_state [simp]: "j_id (set_state now to reason r) = j_id r"
  by (simp add: set_state_def)

lemma j_state_set_state [simp]: "j_state (set_state now to reason r) = to"
  by (simp add: set_state_def)

text \<open>What a transition does, branch by branch.\<close>

lemma transition_invalid: "row_of j_id jid (jobs d) = None \<Longrightarrow>
    transition now jid to reason d = (Inl (InvalidJob jid), d)"
  by (simp add: transition_def current_def seq_def)

lemma transition_illegal:
  "row_of j_id jid (jobs d) = Some r \<Longrightarrow> to \<notin> set (TRANSITIONS (j_state r)) \<Longrightarrow>
    transition now jid to reason d = (Inl (Illegal (j_state r) to), d)"
  by (simp add: transition_def current_def seq_def throw_def)

lemma transition_legal:
  assumes "row_of j_id jid (jobs d) = Some r" and "to \<in> set (TRANSITIONS (j_state r))"
  shows "transition now jid to reason d =
    (Inr to, d\<lparr>jobs := upd_where (\<lambda>x. j_id x = jid \<and> j_state x = j_state r)
                        (set_state now to reason) (jobs d),
               job_events := job_events d @
                 [\<lparr>e_ts = now, e_job = jid, e_from = j_state r, e_to = to, e_reason = reason\<rparr>]\<rparr>)"
  using assms rowcount_pos [of j_id jid "jobs d" r "\<lambda>x. j_state x = j_state r"]
  by (simp add: transition_def current_def seq_def transition_write_def)

lemma transition_raises_unchanged: "transition now jid to reason d = (Inl e, d') \<Longrightarrow> d' = d"
  by (auto simp: transition_def current_def seq_def transition_write_def throw_def
      split: option.splits if_splits)

lemma transition_ok:
  assumes "transition now jid to reason d = (Inr x, d')"
  obtains r where "row_of j_id jid (jobs d) = Some r" and "to \<in> set (TRANSITIONS (j_state r))"
    and "x = to"
    and "jobs d' = upd_where (\<lambda>y. j_id y = jid \<and> j_state y = j_state r) (set_state now to reason) (jobs d)"
    and "job_events d' = job_events d @
       [\<lparr>e_ts = now, e_job = jid, e_from = j_state r, e_to = to, e_reason = reason\<rparr>]"
    and "db_org d' = db_org d"
proof (cases "row_of j_id jid (jobs d)")
  case None
  with assms transition_invalid show thesis by simp
next
  case (Some r)
  show thesis
  proof (cases "to \<in> set (TRANSITIONS (j_state r))")
    case True
    from transition_legal [OF Some True] assms have
      "x = to" "d' = d\<lparr>jobs := upd_where (\<lambda>y. j_id y = jid \<and> j_state y = j_state r)
                        (set_state now to reason) (jobs d),
               job_events := job_events d @
                 [\<lparr>e_ts = now, e_job = jid, e_from = j_state r, e_to = to, e_reason = reason\<rparr>]\<rparr>"
      by auto
    with that [OF Some True] show thesis by simp
  next
    case False
    with transition_illegal [OF Some False] assms show thesis by simp
  qed
qed

lemma move_job_Some:
  assumes "move_job now reason jid to d = Some d'"
  obtains r where "row_of j_id jid (jobs d) = Some r" and "to \<in> set (TRANSITIONS (j_state r))"
    and "jobs d' = upd_where (\<lambda>y. j_id y = jid \<and> j_state y = j_state r) (set_state now to reason) (jobs d)"
proof -
  from assms obtain x where "transition now jid to reason d = (Inr x, d')"
    by (auto simp: move_job_def split: prod.splits sum.splits)
  then show thesis by (rule transition_ok) (rule that)
qed

text \<open>The job store is a lifecycle over the transition table.\<close>

interpretation job_life: lifecycle TRANSITIONS state_of "move_job now reason" for now reason
proof
  fix jid to d d'
  assume m: "move_job now reason jid to d = Some d'"
  from m obtain r where r: "row_of j_id jid (jobs d) = Some r" "to \<in> set (TRANSITIONS (j_state r))"
    and js: "jobs d' = upd_where (\<lambda>y. j_id y = jid \<and> j_state y = j_state r) (set_state now to reason) (jobs d)"
    by (rule move_job_Some)
  from r show "\<exists>from. state_of d jid = Some from \<and> to \<in> set (TRANSITIONS from)"
    by (simp add: state_of_def)
  from r(1) show "state_of d' jid = Some to"
    by (simp add: state_of_def js job_table.row_of_upd_key)
  fix k' assume "k' \<noteq> jid"
  then show "state_of d' k' = state_of d k'"
    by (simp add: state_of_def js job_table.row_of_upd_other)
qed

subsection \<open>Pausing and recovery\<close>

definition paused_row :: "ts \<Rightarrow> string \<Rightarrow> ts \<Rightarrow> job \<Rightarrow> job" where
  "paused_row now reason at r = (set_state now PAUSED (Some reason) r)\<lparr>j_resume_at := Some at\<rparr>"

lemma paused_row_simps [simp]:
  "j_id (paused_row now reason at r) = j_id r"
  "j_state (paused_row now reason at r) = PAUSED"
  "j_resume_at (paused_row now reason at r) = Some at"
  by (simp_all add: paused_row_def)

lemma unique_row:
  "distinct (map j_id t) \<Longrightarrow> row_of j_id k t = Some r \<Longrightarrow> x \<in> set t \<Longrightarrow> j_id x = k \<Longrightarrow> x = r"
  by (induction t) (auto split: if_splits simp: image_iff)

lemma row_of_mem: "distinct (map j_id t) \<Longrightarrow> x \<in> set t \<Longrightarrow> row_of j_id (j_id x) t = Some x"
  by (induction t) (auto simp: image_iff)

lemma upd_where_cong:
  "(\<And>r. r \<in> set t \<Longrightarrow> p r = q r) \<Longrightarrow> (\<And>r. r \<in> set t \<Longrightarrow> p r \<Longrightarrow> f r = g r) \<Longrightarrow>
     upd_where p f t = upd_where q g t"
  by (induction t) auto

lemma upd_where_upd_where:
  "upd_where q g (upd_where p f t) =
     map (\<lambda>r. let r' = (if p r then f r else r) in if q r' then g r' else r') t"
  by (simp add: upd_where_def Let_def)

definition pause_event :: "ts \<Rightarrow> string \<Rightarrow> job \<Rightarrow> job_event" where
  "pause_event now reason r =
     \<lparr>e_ts = now, e_job = j_id r, e_from = j_state r, e_to = PAUSED, e_reason = Some reason\<rparr>"

lemma pause_ok:
  assumes "distinct (map j_id (jobs d))" and "row_of j_id jid (jobs d) = Some r"
    and "PAUSED \<in> set (TRANSITIONS (j_state r))"
  shows "pause now jid reason at d =
    (Inr (), d\<lparr>jobs := upd_where (\<lambda>x. j_id x = jid) (paused_row now reason at) (jobs d),
               job_events := job_events d @ [pause_event now reason r]\<rparr>)"
proof -
  have id: "j_id r = jid" using row_of_Some [OF assms(2)] by simp
  have "upd_where (\<lambda>r. j_id r = jid) (\<lambda>r. r\<lparr>j_resume_at := Some at\<rparr>)
          (upd_where (\<lambda>x. j_id x = jid \<and> j_state x = j_state r) (set_state now PAUSED (Some reason)) (jobs d))
        = upd_where (\<lambda>x. j_id x = jid) (paused_row now reason at) (jobs d)"
    using unique_row [OF assms(1,2)]
    by (auto simp: upd_where_upd_where upd_where_def paused_row_def Let_def set_state_def)
  then show ?thesis
    by (simp add: pause_def seq_def transition_legal [OF assms(2,3)] modify_def pause_event_def id)
qed

lemma pause_illegal:
  assumes "row_of j_id jid (jobs d) = Some r" and "PAUSED \<notin> set (TRANSITIONS (j_state r))"
  shows "pause now jid reason at d = (Inl (Illegal (j_state r) PAUSED), d)"
  by (simp add: pause_def seq_def transition_illegal [OF assms])

definition spared :: "ts \<Rightarrow> bool \<Rightarrow> job \<Rightarrow> bool" where
  "spared now respect r \<longleftrightarrow> respect \<and> (case j_lease r of None \<Rightarrow> False | Some t \<Rightarrow> now \<le> t)"

lemma interrupted_can_pause:
  "j_state r \<in> set INTERRUPTED_STATES \<Longrightarrow> PAUSED \<in> set (TRANSITIONS (j_state r))"
  by (auto simp: transition_table)

lemma recover_rows_Cons:
  "recover_rows now reason respect (r # rs) d =
     (if spared now respect r then recover_rows now reason respect rs d
      else (case pause now (j_id r) reason (now + 60) d of
              (Inl _, d') \<Rightarrow> recover_rows now reason respect rs d'
            | (Inr _, d') \<Rightarrow>
                (let (ids, d'') = recover_rows now reason respect rs d' in (j_id r # ids, d''))))"
  by (simp add: spared_def)

declare recover_rows.simps(2) [simp del]

text \<open>The loop over the selected rows is one bulk update of those rows.\<close>

lemma recover_rows_bulk:
  assumes "distinct (map j_id (jobs d))" and "distinct (map j_id rs)" and "set rs \<subseteq> set (jobs d)"
    and "\<forall>r \<in> set rs. j_state r \<in> set INTERRUPTED_STATES"
  shows "recover_rows now reason respect rs d =
    (map j_id (filter (\<lambda>r. \<not> spared now respect r) rs),
     d\<lparr>jobs := upd_where (\<lambda>x. j_id x \<in> j_id ` set (filter (\<lambda>r. \<not> spared now respect r) rs))
                (paused_row now reason (now + 60)) (jobs d),
       job_events := job_events d @
         map (pause_event now reason) (filter (\<lambda>r. \<not> spared now respect r) rs)\<rparr>)"
  using assms
proof (induction rs arbitrary: d)
  case Nil
  then show ?case by (simp add: upd_where_def)
next
  case (Cons r rs)
  show ?case
  proof (cases "spared now respect r")
    case True
    with Cons show ?thesis by (simp add: recover_rows_Cons)
  next
    case False
    let ?d = "d\<lparr>jobs := upd_where (\<lambda>x. j_id x = j_id r) (paused_row now reason (now + 60)) (jobs d),
                job_events := job_events d @ [pause_event now reason r]\<rparr>"
    let ?I = "j_id ` set (filter (\<lambda>r. \<not> spared now respect r) rs)"
    have row: "row_of j_id (j_id r) (jobs d) = Some r"
      using Cons.prems by (intro row_of_mem) auto
    have p: "pause now (j_id r) reason (now + 60) d = (Inr (), ?d)"
      by (rule pause_ok) (use Cons.prems row interrupted_can_pause in auto)
    have keep: "x \<in> set (jobs d) \<Longrightarrow> j_id x \<noteq> j_id r \<Longrightarrow> x \<in> set (jobs ?d)" for x
      by (force simp: set_upd_where)
    have "set rs \<subseteq> set (jobs ?d)"
      using Cons.prems keep by (fastforce simp: image_iff)
    moreover have "distinct (map j_id (jobs ?d))"
      using Cons.prems by (simp add: job_table.keys_upd_where)
    ultimately have IH: "recover_rows now reason respect rs ?d =
       (map j_id (filter (\<lambda>r. \<not> spared now respect r) rs),
        ?d\<lparr>jobs := upd_where (\<lambda>x. j_id x \<in> ?I) (paused_row now reason (now + 60)) (jobs ?d),
           job_events := job_events ?d @
             map (pause_event now reason) (filter (\<lambda>r. \<not> spared now respect r) rs)\<rparr>)"
      using Cons.IH Cons.prems by auto
    have "j_id r \<notin> ?I" using Cons.prems(2) by auto
    then have "upd_where (\<lambda>x. j_id x \<in> ?I) (paused_row now reason (now + 60)) (jobs ?d) =
        upd_where (\<lambda>x. j_id x \<in> insert (j_id r) ?I) (paused_row now reason (now + 60)) (jobs d)"
      by (auto simp: upd_where_upd_where upd_where_def Let_def)
    with False p IH show ?thesis by (simp add: recover_rows_Cons)
  qed
qed

lemma recover_bulk:
  assumes "distinct (map j_id (jobs d))"
  shows "recover_interrupted_jobs now reason respect d =
    (map j_id (filter (\<lambda>r. j_state r \<in> set INTERRUPTED_STATES \<and> \<not> spared now respect r) (jobs d)),
     d\<lparr>jobs := upd_where (\<lambda>x. j_state x \<in> set INTERRUPTED_STATES \<and> \<not> spared now respect x)
                (paused_row now reason (now + 60)) (jobs d),
       job_events := job_events d @ map (pause_event now reason)
         (filter (\<lambda>r. j_state r \<in> set INTERRUPTED_STATES \<and> \<not> spared now respect r) (jobs d))\<rparr>)"
proof -
  let ?rs = "filter (\<lambda>r. j_state r \<in> set INTERRUPTED_STATES) (jobs d)"
  have ff: "filter (\<lambda>r. \<not> spared now respect r) ?rs =
      filter (\<lambda>r. j_state r \<in> set INTERRUPTED_STATES \<and> \<not> spared now respect r) (jobs d)"
    by (metis (mono_tags, lifting) filter_cong filter_filter conj_commute)
  have "distinct (map j_id ?rs)" using assms by (rule distinct_map_filter)
  then have b: "recover_rows now reason respect ?rs d =
    (map j_id (filter (\<lambda>r. \<not> spared now respect r) ?rs),
     d\<lparr>jobs := upd_where (\<lambda>x. j_id x \<in> j_id ` set (filter (\<lambda>r. \<not> spared now respect r) ?rs))
                (paused_row now reason (now + 60)) (jobs d),
       job_events := job_events d @
         map (pause_event now reason) (filter (\<lambda>r. \<not> spared now respect r) ?rs)\<rparr>)"
    by (intro recover_rows_bulk assms) auto
  have u: "upd_where (\<lambda>x. j_id x \<in> j_id ` set (filter (\<lambda>r. \<not> spared now respect r) ?rs))
       (paused_row now reason (now + 60)) (jobs d) =
     upd_where (\<lambda>x. j_state x \<in> set INTERRUPTED_STATES \<and> \<not> spared now respect x)
       (paused_row now reason (now + 60)) (jobs d)"
    using inj_on_eq_iff [of j_id "set (jobs d)"] assms
    by (intro upd_where_cong) (auto simp: distinct_map)
  show ?thesis unfolding recover_interrupted_jobs_def b u unfolding ff ..
qed

subsection \<open>The audit trail\<close>

text \<open>A job's events, in the order they were written, lead from one state to another along edges of
  the transition table, each event starting where the previous one ended.\<close>

fun chain :: "job_state \<Rightarrow> job_event list \<Rightarrow> job_state \<Rightarrow> bool" where
  "chain s [] u = (s = u)"
| "chain s (e # es) u = (e_from e = s \<and> e_to e \<in> set (TRANSITIONS s) \<and> chain (e_to e) es u)"

lemma chain_snoc: "chain s (es @ [e]) u \<longleftrightarrow>
    chain s es (e_from e) \<and> e_to e \<in> set (TRANSITIONS (e_from e)) \<and> u = e_to e"
  by (induction es arbitrary: s) auto

lemma chain_append: "chain s es t \<Longrightarrow> chain t fs u \<Longrightarrow> chain s (es @ fs) u"
  by (induction es arbitrary: s) auto

lemma chain_path: "chain s es u \<Longrightarrow> path TRANSITIONS s (map e_to es) u"
  by (induction es arbitrary: s) auto

definition audited :: "jdb \<Rightarrow> bool" where
  "audited d \<longleftrightarrow> distinct (map j_id (jobs d)) \<and>
     (\<forall>e \<in> set (job_events d). e_job e \<in> j_id ` set (jobs d)) \<and>
     (\<forall>r \<in> set (jobs d). chain QUEUED (events_of (j_id r) d) (j_state r))"

lemma audited_distinct: "audited d \<Longrightarrow> distinct (map j_id (jobs d))"
  by (simp add: audited_def)

text \<open>Writing one event together with the state change it records keeps the trail.\<close>

lemma audited_write:
  assumes a: "audited d" and row: "row_of j_id jid (jobs d) = Some r"
    and legal: "to \<in> set (TRANSITIONS (j_state r))"
    and f: "\<And>x. j_id (f x) = j_id x" "\<And>x. j_state (f x) = to"
    and e: "e_job e = jid" "e_from e = j_state r" "e_to e = to"
  shows "audited (d\<lparr>jobs := upd_where (\<lambda>x. j_id x = jid) f (jobs d), job_events := job_events d @ [e]\<rparr>)"
    (is "audited ?d")
proof -
  have ids: "map j_id (jobs ?d) = map j_id (jobs d)"
    using f by (simp add: job_table.keys_upd_where)
  then have iset: "j_id ` set (jobs ?d) = j_id ` set (jobs d)"
    by (metis set_map)
  have ev: "events_of k ?d = events_of k d @ (if k = jid then [e] else [])" for k
    using e by (simp add: events_of_def)
  have jid: "jid \<in> j_id ` set (jobs d)" using row_of_Some [OF row] by auto
  have "chain QUEUED (events_of (j_id y) ?d) (j_state y)" if "y \<in> set (jobs ?d)" for y
  proof -
    from that obtain x where x: "x \<in> set (jobs d)" "y = (if j_id x = jid then f x else x)"
      by (auto simp: set_upd_where)
    have c: "chain QUEUED (events_of (j_id x) d) (j_state x)" using a x by (simp add: audited_def)
    show ?thesis
    proof (cases "j_id x = jid")
      case True
      then have "x = r" using unique_row [OF audited_distinct [OF a] row] x by simp
      with True x c f e legal show ?thesis by (simp add: ev chain_snoc)
    qed (use x c ev in simp)
  qed
  with a ids iset jid e show ?thesis by (auto simp: audited_def)
qed

lemma audited_transition:
  assumes "audited d"
  shows "audited (snd (transition now jid to reason d))"
proof (cases "transition now jid to reason d")
  case (Pair res d')
  show ?thesis
  proof (cases res)
    case (Inl e)
    with Pair transition_raises_unchanged assms show ?thesis by fastforce
  next
    case (Inr x)
    with Pair have ok: "transition now jid to reason d = (Inr x, d')" by simp
    from ok obtain r where r: "row_of j_id jid (jobs d) = Some r" "to \<in> set (TRANSITIONS (j_state r))"
      by (rule transition_ok)
    have "upd_where (\<lambda>y. j_id y = jid \<and> j_state y = j_state r) (set_state now to reason) (jobs d) =
        upd_where (\<lambda>y. j_id y = jid) (set_state now to reason) (jobs d)"
      using unique_row [OF audited_distinct [OF assms] r(1)] by (intro upd_where_cong) auto
    with transition_legal [OF r] show ?thesis
      using audited_write [OF assms r, of "set_state now to reason"] by auto
  qed
qed

lemma audited_frame:
  assumes "audited d" and "\<And>x. j_id (f x) = j_id x" and "\<And>x. j_state (f x) = j_state x"
  shows "audited (d\<lparr>jobs := upd_where p f (jobs d)\<rparr>)"
proof -
  have ids: "map j_id (upd_where p f (jobs d)) = map j_id (jobs d)"
    using assms(2) by (rule job_table.keys_upd_where)
  then have "j_id ` set (upd_where p f (jobs d)) = j_id ` set (jobs d)" by (metis set_map)
  with ids assms show ?thesis by (auto simp: audited_def events_of_def set_upd_where)
qed

lemma audited_pause: "audited d \<Longrightarrow> audited (snd (pause now jid reason at d))"
  using preserves_seq [of audited, unfolded preserves_def]
  by (auto simp: pause_def seq_def modify_def intro!: audited_frame
      dest: audited_transition [where to = PAUSED and reason = "Some reason" and now = now and jid = jid]
      split: prod.splits sum.splits)

lemma audited_mark_failed: "audited d \<Longrightarrow> audited (snd (mark_failed now jid reason d))"
  by (auto simp: mark_failed_def seq_def ret_def split: prod.splits sum.splits)
     (metis audited_transition snd_conv)+

lemma audited_resume: "audited d \<Longrightarrow> audited (snd (resume now jid d))"
  by (auto simp: resume_def seq_def current_def ret_def throw_def split: prod.splits sum.splits option.splits)
     (metis audited_transition snd_conv)+

lemma audited_create:
  assumes "audited d" and "fresh \<notin> j_id ` set (jobs d)"
  shows "audited (snd (create_job now fresh icp params d))"
proof -
  have "events_of fresh d = []"
    using assms by (auto simp: audited_def events_of_def filter_empty_conv)
  with assms show ?thesis by (auto simp: audited_def create_job_def events_of_def)
qed

lemma audited_recover_rows: "audited d \<Longrightarrow> audited (snd (recover_rows now reason respect rs d))"
proof (induction rs arbitrary: d)
  case (Cons r rs)
  have "audited (snd (pause now (j_id r) reason (now + 60) d))"
    using Cons.prems by (rule audited_pause)
  with Cons show ?case
    by (auto simp: recover_rows_Cons Let_def split: prod.splits sum.splits) (metis snd_conv)+
qed simp

text \<open>Every operation of the JobManager as a step of the database, and the databases that a
  history of such operations can produce from an empty one.\<close>

inductive manager_step :: "jdb \<Rightarrow> jdb \<Rightarrow> bool" where
  step_create: "fresh \<notin> j_id ` set (jobs d) \<Longrightarrow> manager_step d (snd (create_job now fresh icp params d))"
| step_transition: "manager_step d (snd (transition now jid to reason d))"
| step_pause: "manager_step d (snd (pause now jid why at d))"
| step_failed: "manager_step d (snd (mark_failed now jid why d))"
| step_resume: "manager_step d (snd (resume now jid d))"
| step_recover: "manager_step d (snd (recover_interrupted_jobs now why respect d))"

lemma audited_step: "manager_step d d' \<Longrightarrow> audited d \<Longrightarrow> audited d'"
  by (induction rule: manager_step.induct)
     (auto simp only: recover_interrupted_jobs_def intro: audited_create audited_transition
        audited_pause audited_mark_failed audited_resume audited_recover_rows)

lemma audited_history:
  assumes "manager_step\<^sup>*\<^sup>* d d'" and "audited d"
  shows "audited d'"
  using assms by (induction rule: rtranclp_induct) (auto intro: audited_step)

definition empty_db :: "string option \<Rightarrow> jdb" where
  "empty_db org = \<lparr>jobs = [], job_events = [], db_org = org\<rparr>"

lemma audited_empty: "audited (empty_db org)"
  by (simp add: audited_def empty_db_def)

subsection \<open>Properties\<close>

text \<open>C19: Whatever sequence of JobManager operations is run on an empty database, the audit trail of
  every job is complete and legal: its events lead from QUEUED to the state the row is in, each event
  starts where the one before it ended and follows an edge of TRANSITIONS.\<close>

theorem audit_trail_complete:
  assumes "manager_step\<^sup>*\<^sup>* (empty_db org) d" and "r \<in> set (jobs d)"
  shows "chain QUEUED (events_of (j_id r) d) (j_state r)"
  using audited_history [OF assms(1) audited_empty] assms(2) by (simp add: audited_def)

definition demo_db :: jdb where
  "demo_db = snd (transition 11 ''job-1'' RUNNING None
               (snd (create_job 10 ''job-1'' ''icp'' [] (empty_db None))))"

lemmas demo_defs = demo_db_def create_job_def transition_def transition_write_def current_def seq_def
  throw_def empty_db_def set_state_def rowcount_def

lemma demo_reached: "manager_step\<^sup>*\<^sup>* (empty_db None) demo_db"
proof -
  have "manager_step (empty_db None) (snd (create_job 10 ''job-1'' ''icp'' [] (empty_db None)))"
    by (rule manager_step.step_create) (simp add: empty_db_def)
  from rtranclp.rtrancl_into_rtrancl [OF r_into_rtranclp [where r = manager_step, OF this]
      manager_step.step_transition]
  show ?thesis unfolding demo_db_def .
qed

theorem audit_trail_complete_witness:
  "\<exists>r. r \<in> set (jobs demo_db) \<and> j_state r = RUNNING
     \<and> chain QUEUED (events_of (j_id r) demo_db) (j_state r)"
proof -
  obtain r where r: "jobs demo_db = [r]" "j_state r = RUNNING"
    by (simp add: demo_defs)
  then have "r \<in> set (jobs demo_db)" by simp
  from audit_trail_complete [OF demo_reached this] r show ?thesis by auto
qed

text \<open>A terminal state is forever: however many transitions are attempted on however many jobs,
  by whichever callers and in whichever order, a job that is COMPLETED, FAILED or CANCELLED stays in
  that state.\<close>

theorem terminal_jobs_stay:
  assumes "state_of d jid = Some s" and "s \<in> {COMPLETED, FAILED, CANCELLED}"
  shows "state_of (job_life.attempt now reason ms d) jid = Some s"
  using assms by (intro job_life.terminal_forever) auto

theorem terminal_jobs_stay_witness:
  "state_of (job_life.attempt 13 None [(''job-1'', RUNNING), (''job-1'', COMPLETED)]
     (snd (transition 12 ''job-1'' CANCELLED None demo_db))) ''job-1'' = Some CANCELLED"
  by (rule terminal_jobs_stay) (simp_all add: state_of_def demo_defs)

text \<open>A transition that loses a race is refused without a trace: when the state changes between
  the read and the guarded UPDATE (for instance because the user cancels the job), the write raises
  and leaves the database exactly as the other writer left it.\<close>

theorem transition_race_refused:
  assumes "distinct (map j_id (jobs d'))" and "row_of j_id jid (jobs d') = Some r"
    and "j_state r \<noteq> from"
  shows "transition_write now jid from to reason d' = (Inl (RaceLost jid to), d')"
proof -
  have "rowcount (\<lambda>r. j_id r = jid \<and> j_state r = from) (jobs d') = 0"
    using assms by (simp add: job_table.rowcount_key)
  then show ?thesis by (simp add: transition_write_def)
qed

theorem transition_race_refused_witness:
  "transition_write 14 ''job-1'' RUNNING COMPLETED None
      (snd (transition 12 ''job-1'' CANCELLED None demo_db)) =
   (Inl (RaceLost ''job-1'' COMPLETED), snd (transition 12 ''job-1'' CANCELLED None demo_db))"
  by (rule transition_race_refused [where r = "the (row_of j_id ''job-1''
        (jobs (snd (transition 12 ''job-1'' CANCELLED None demo_db))))"])
     (simp_all add: demo_defs)

text \<open>Recovery after a restart leaves no zombie: when leases are not respected no job is left in
  an interrupted state, the ids it returns are those of the jobs that were interrupted, and each of
  them is PAUSED with a resume_at one minute ahead, so that it is due from then on.\<close>

theorem recovery_leaves_no_zombie:
  assumes "distinct (map j_id (jobs d))"
    and "recover_interrupted_jobs now why False d = (ids, d')"
  shows "ids = map j_id (filter (\<lambda>r. j_state r \<in> set INTERRUPTED_STATES) (jobs d))
    \<and> (\<forall>r \<in> set (jobs d'). j_state r \<notin> set INTERRUPTED_STATES)
    \<and> (\<forall>i \<in> set ids. \<exists>r \<in> set (jobs_due_for_resume (now + 60) d'). j_id r = i)"
proof (intro conjI)
  let ?p = "\<lambda>r. j_state r \<in> set INTERRUPTED_STATES"
  have eq: "ids = map j_id (filter ?p (jobs d))"
    and js: "jobs d' = upd_where ?p (paused_row now why (now + 60)) (jobs d)"
    using recover_bulk [OF assms(1), of now why False] assms(2) by (auto simp: spared_def)
  from eq show "ids = map j_id (filter ?p (jobs d))" .
  have np: "PAUSED \<notin> set INTERRUPTED_STATES" by (simp add: INTERRUPTED_STATES_def)
  show "\<forall>r \<in> set (jobs d'). j_state r \<notin> set INTERRUPTED_STATES"
    using np by (simp add: js upd_where_def ball_Un)
  show "\<forall>i \<in> set ids. \<exists>r \<in> set (jobs_due_for_resume (now + 60) d'). j_id r = i"
  proof
    fix i assume "i \<in> set ids"
    then obtain x where x: "x \<in> set (jobs d)" "?p x" "j_id x = i" by (auto simp: eq)
    then have "paused_row now why (now + 60) x \<in> set (jobs d')"
      by (auto simp: js set_upd_where)
    with x show "\<exists>r \<in> set (jobs_due_for_resume (now + 60) d'). j_id r = i"
      by (intro bexI [of _ "paused_row now why (now + 60) x"]) (auto simp: jobs_due_for_resume_def)
  qed
qed

theorem recovery_leaves_no_zombie_witness:
  "fst (recover_interrupted_jobs 100 ''restart'' False demo_db) = [''job-1'']
   \<and> list_all (\<lambda>r. j_state r \<notin> set INTERRUPTED_STATES)
       (jobs (snd (recover_interrupted_jobs 100 ''restart'' False demo_db)))"
proof -
  have d: "distinct (map j_id (jobs demo_db))" by (simp add: demo_defs)
  note r = recovery_leaves_no_zombie [OF d surjective_pairing, of 100 "''restart''"]
  have "filter (\<lambda>r. j_state r \<in> set INTERRUPTED_STATES) (jobs demo_db) = jobs demo_db"
    "map j_id (jobs demo_db) = [''job-1'']"
    by (simp_all add: demo_defs INTERRUPTED_STATES_def)
  with r show ?thesis by (simp add: list_all_iff)
qed

text \<open>The review gate is not enforced by the table: no research phase can complete in one step,
  but a research job reaches COMPLETED without ever being READY_FOR_REVIEW, through RUNNING; and a
  RESUMING job cannot be cancelled directly.\<close>

theorem review_gate_can_be_bypassed:
  "(\<forall>p. p \<in> set RESEARCH_PHASES \<longrightarrow> COMPLETED \<notin> set (TRANSITIONS p))
   \<and> path TRANSITIONS DISCOVERING [RUNNING, COMPLETED] COMPLETED
   \<and> CANCELLED \<notin> set (TRANSITIONS RESUMING)"
  by (auto simp: transition_table)

theorem review_gate_can_be_bypassed_witness:
  "COMPLETED \<notin> set (TRANSITIONS QUALIFYING) \<and> path TRANSITIONS DISCOVERING [RUNNING, COMPLETED] COMPLETED"
  using review_gate_can_be_bypassed by (simp add: RESEARCH_PHASES_def)

end
