(* ===== verification/JobQueue.thy ===== *)
theory JobQueue
  imports Jobs PyStr
begin

section \<open>The job queue (lead_engine/queue.py)\<close>

text \<open>
  The queue works on the same \<open>jobs\<close> table as the JobManager, but writes states directly: a worker
  leases a runnable job, renews, hands back, finishes or fails it, and a reaper returns expired
  leases.  The argument \<open>pg\<close> selects the dialect; \<open>locked\<close> are the job ids whose rows other
  transactions hold when SKIP LOCKED reads the table (none on SQLite, which has a single writer).
  COALESCE treats NULL only; Python's \<open>or\<close> treats 0 as missing too.
\<close>

definition coalesce :: "int option \<Rightarrow> int \<Rightarrow> int" where
  "coalesce x d = (case x of None \<Rightarrow> d | Some v \<Rightarrow> v)"

definition py_or :: "int option \<Rightarrow> int \<Rightarrow> int" where
  "py_or x d = (case x of None \<Rightarrow> d | Some v \<Rightarrow> if v = 0 then d else v)"

text \<open>The environment is a function from names to values.\<close>

definition env_get :: "(string \<Rightarrow> string option) \<Rightarrow> string \<Rightarrow> string" where
  "env_get env name = (case env name of None \<Rightarrow> [] | Some v \<Rightarrow> v)"

definition platform_mode :: "(string \<Rightarrow> string option) \<Rightarrow> bool" where
  "platform_mode env =
     (let mode = py_lower (py_strip (env_get env ''LEAD_ENGINE_QUEUE_MODE''))
      in if mode = ''worker'' then True
         else if mode = ''inline'' then False
         else if truthy (env ''VERCEL'') \<or> truthy (env ''VERCEL_ENV'') then True
         else False)"

definition enqueue :: "ts \<Rightarrow> ident \<Rightarrow> jdb \<Rightarrow> jdb" where
  "enqueue now jid d =
     d\<lparr>jobs := upd_where (\<lambda>r. j_id r = jid) (\<lambda>r. r\<lparr>j_state := QUEUED, j_updated := now\<rparr>) (jobs d)\<rparr>"

subsection \<open>Leasing\<close>

definition leasable :: "ident list \<Rightarrow> ts \<Rightarrow> job \<Rightarrow> bool" where
  "leasable locked now r \<longleftrightarrow>
     j_state r \<in> {QUEUED, RESUMING}
     \<and> (case j_lease r of None \<Rightarrow> True | Some t \<Rightarrow> t < now)
     \<and> (case j_resume_at r of None \<Rightarrow> True | Some t \<Rightarrow> t \<le> now)
     \<and> coalesce (j_attempts r) 0 < coalesce (j_max_attempts r) 3
     \<and> j_id r \<notin> set locked"

definition leased_row :: "bool \<Rightarrow> ts \<Rightarrow> string \<Rightarrow> int \<Rightarrow> job \<Rightarrow> job" where
  "leased_row pg now worker secs r =
     r\<lparr>j_state := RUNNING, j_worker := Some worker, j_lease := Some (now + secs),
       j_attempts := (if pg then map_option (\<lambda>n. n + 1) (j_attempts r)
                      else Some (coalesce (j_attempts r) 0 + 1)),
       j_updated := now\<rparr>"

definition lease_next :: "bool \<Rightarrow> ident list \<Rightarrow> ts \<Rightarrow> string \<Rightarrow> int \<Rightarrow> jdb \<Rightarrow> job option \<times> jdb" where
  "lease_next pg locked now worker secs d =
     (case first_min j_created (filter (leasable (if pg then locked else []) now) (jobs d)) of
        None \<Rightarrow> (None, d)
      | Some r \<Rightarrow>
          (Some (leased_row pg now worker secs r),
           d\<lparr>jobs := upd_where (\<lambda>x. j_id x = j_id r) (leased_row pg now worker secs) (jobs d)\<rparr>))"

definition LEASED_STATES :: "job_state list" where
  "LEASED_STATES = [RUNNING, DISCOVERING, RESEARCHING, VERIFYING, QUALIFYING]"

text \<open>An expired lease, or a row without a lease that nobody has touched for a day.\<close>

definition expired :: "ts \<Rightarrow> job \<Rightarrow> bool" where
  "expired now r \<longleftrightarrow>
     (case j_lease r of Some t \<Rightarrow> t < now | None \<Rightarrow> j_updated r < now - 86400)"

definition no_budget :: "job \<Rightarrow> bool" where
  "no_budget r \<longleftrightarrow> coalesce (j_attempts r) 0 \<ge> coalesce (j_max_attempts r) 3"

definition reclaim_expired :: "ts \<Rightarrow> jdb \<Rightarrow> nat \<times> jdb" where
  "reclaim_expired now d =
     (let dead = (\<lambda>r. j_state r \<in> set LEASED_STATES \<and> expired now r \<and> no_budget r);
          d1 = d\<lparr>jobs := upd_where dead
                 (\<lambda>r. r\<lparr>j_state := FAILED, j_worker := None, j_lease := None,
                        j_pause_reason := Some ''lease expired after max attempts; not requeued'',
                        j_updated := now\<rparr>) (jobs d)\<rparr>;
          lapsed = (\<lambda>r. j_state r \<in> set LEASED_STATES \<and> expired now r);
          d2 = d1\<lparr>jobs := upd_where lapsed
                 (\<lambda>r. r\<lparr>j_state := QUEUED, j_worker := None, j_lease := None, j_updated := now\<rparr>) (jobs d1)\<rparr>
      in (rowcount dead (jobs d) + rowcount lapsed (jobs d1), d2))"

definition expire_stale_paused :: "ts \<Rightarrow> int \<Rightarrow> jdb \<Rightarrow> nat \<times> jdb" where
  "expire_stale_paused now hours d =
     (let stale = (\<lambda>r. j_state r = PAUSED \<and> j_resume_at r = None \<and> j_updated r < now - hours * 3600);
          rows = filter stale (jobs d)
      in (length rows,
          d\<lparr>jobs := upd_where stale
              (\<lambda>r. r\<lparr>j_state := CANCELLED,
                     j_pause_reason := Some ''LEGACY_PAUSED_NO_RESUME_AT: expired by reaper'',
                     j_worker := None, j_lease := None, j_updated := now\<rparr>) (jobs d),
            job_events := job_events d @
              map (\<lambda>r. \<lparr>e_ts = now, e_job = j_id r, e_from = PAUSED, e_to = CANCELLED,
                        e_reason = Some ''LEGACY_PAUSED_NO_RESUME_AT''\<rparr>) rows\<rparr>))"

definition wake_due_paused :: "ts \<Rightarrow> jdb \<Rightarrow> nat \<times> jdb" where
  "wake_due_paused now d =
     (let due = (\<lambda>r. j_state r = PAUSED \<and> (case j_resume_at r of None \<Rightarrow> False | Some t \<Rightarrow> t \<le> now));
          rows = filter due (jobs d)
      in (length rows,
          d\<lparr>jobs := upd_where due (\<lambda>r. r\<lparr>j_state := RESUMING, j_updated := now\<rparr>) (jobs d),
            job_events := job_events d @
              map (\<lambda>r. \<lparr>e_ts = now, e_job = j_id r, e_from = PAUSED, e_to = RESUMING,
                        e_reason = Some ''resume_at reached''\<rparr>) rows\<rparr>))"

definition complete :: "ts \<Rightarrow> ident \<Rightarrow> jdb \<Rightarrow> jdb" where
  "complete now jid d =
     d\<lparr>jobs := upd_where (\<lambda>r. j_id r = jid)
        (\<lambda>r. r\<lparr>j_state := COMPLETED, j_worker := None, j_lease := None, j_updated := now\<rparr>) (jobs d)\<rparr>"

definition release :: "ts \<Rightarrow> ident \<Rightarrow> jdb \<Rightarrow> jdb" where
  "release now jid d =
     d\<lparr>jobs := upd_where (\<lambda>r. j_id r = jid)
        (\<lambda>r. r\<lparr>j_worker := None, j_lease := None, j_updated := now\<rparr>) (jobs d)\<rparr>"

definition yielded_row :: "ts \<Rightarrow> job \<Rightarrow> job" where
  "yielded_row now r =
     r\<lparr>j_state := QUEUED, j_worker := None, j_lease := None, j_resume_at := None,
       j_pause_reason := None,
       j_attempts := Some (if coalesce (j_attempts r) 0 > 0 then coalesce (j_attempts r) 0 - 1 else 0),
       j_updated := now\<rparr>"

definition yield_slice :: "ts \<Rightarrow> ident \<Rightarrow> jdb \<Rightarrow> jdb" where
  "yield_slice now jid d = d\<lparr>jobs := upd_where (\<lambda>r. j_id r = jid) (yielded_row now) (jobs d)\<rparr>"

definition backoff :: "int \<Rightarrow> int" where
  "backoff attempts = min 3600 (60 * 2 ^ nat (max 0 (attempts - 1)))"

datatype fail_result = UNKNOWN_JOB | REQUEUED | GAVE_UP

definition retry_row :: "ts \<Rightarrow> string \<Rightarrow> int \<Rightarrow> job \<Rightarrow> job" where
  "retry_row now reason delay r =
     r\<lparr>j_state := QUEUED, j_worker := None, j_lease := None,
       j_pause_reason := Some (''retry: '' @ reason), j_resume_at := Some (now + delay),
       j_updated := now\<rparr>"

definition gave_up_row :: "ts \<Rightarrow> string \<Rightarrow> job \<Rightarrow> job" where
  "gave_up_row now reason r =
     r\<lparr>j_state := FAILED, j_pause_reason := Some reason, j_worker := None, j_lease := None,
       j_updated := now\<rparr>"

definition fail :: "ts \<Rightarrow> ident \<Rightarrow> string \<Rightarrow> jdb \<Rightarrow> fail_result \<times> jdb" where
  "fail now jid reason d =
     (case row_of j_id jid (jobs d) of
        None \<Rightarrow> (UNKNOWN_JOB, d)
      | Some r \<Rightarrow>
          (if py_or (j_attempts r) 0 < py_or (j_max_attempts r) 3
           then (REQUEUED,
             d\<lparr>jobs := upd_where (\<lambda>x. j_id x = jid)
                (retry_row now reason (backoff (py_or (j_attempts r) 0))) (jobs d)\<rparr>)
           else (GAVE_UP, d\<lparr>jobs := upd_where (\<lambda>x. j_id x = jid) (gave_up_row now reason) (jobs d)\<rparr>)))"

definition heartbeat :: "ts \<Rightarrow> ident \<Rightarrow> string \<Rightarrow> int \<Rightarrow> jdb \<Rightarrow> jdb" where
  "heartbeat now jid worker secs d =
     d\<lparr>jobs := upd_where (\<lambda>r. j_id r = jid \<and> j_worker r = Some worker)
        (\<lambda>r. r\<lparr>j_lease := Some (now + secs), j_updated := now\<rparr>) (jobs d)\<rparr>"

subsection \<open>Lemmas\<close>

lemma leased_row_simps [simp]:
  "j_id (leased_row pg now w secs r) = j_id r"
  "j_state (leased_row pg now w secs r) = RUNNING"
  "j_worker (leased_row pg now w secs r) = Some w"
  "j_lease (leased_row pg now w secs r) = Some (now + secs)"
  "j_max_attempts (leased_row pg now w secs r) = j_max_attempts r"
  by (simp_all add: leased_row_def)

lemma lease_next_Some:
  assumes "lease_next pg locked now w secs d = (Some r', d')"
  obtains r where "r \<in> set (jobs d)" and "leasable (if pg then locked else []) now r"
    and "\<And>x. x \<in> set (jobs d) \<Longrightarrow> leasable (if pg then locked else []) now x \<Longrightarrow> j_created r \<le> j_created x"
    and "r' = leased_row pg now w secs r"
    and "d' = d\<lparr>jobs := upd_where (\<lambda>x. j_id x = j_id r) (leased_row pg now w secs) (jobs d)\<rparr>"
proof -
  from assms obtain r where
    m: "first_min j_created (filter (leasable (if pg then locked else []) now) (jobs d)) = Some r"
    and rest: "r' = leased_row pg now w secs r"
      "d' = d\<lparr>jobs := upd_where (\<lambda>x. j_id x = j_id r) (leased_row pg now w secs) (jobs d)\<rparr>"
    by (auto simp: lease_next_def split: option.splits)
  from first_min_Some_mem [OF m] have "r \<in> set (jobs d)" "leasable (if pg then locked else []) now r"
    by auto
  with rest first_min_least [OF m] that show thesis by simp
qed

lemma lease_next_None: "lease_next pg locked now w secs d = (None, d') \<Longrightarrow> d' = d"
  by (auto simp: lease_next_def split: option.splits)

text \<open>The attempt budget of a row: it never exceeds its maximum and is never negative.\<close>

definition budgeted :: "job \<Rightarrow> bool" where
  "budgeted r \<longleftrightarrow> 0 \<le> coalesce (j_attempts r) 0 \<and> 
     (coalesce (j_attempts r) 0 \<le> coalesce (j_max_attempts r) 3)"

lemma budgeted_leased: "budgeted r \<Longrightarrow> leasable l now r \<Longrightarrow> budgeted (leased_row pg now' w secs r)"
  by (auto simp: budgeted_def leasable_def leased_row_def coalesce_def split: option.splits)

text \<open>All operations of the queue and of the JobManager as steps of one database: handing a job out, taking a yielded
  slice back, and all the others, which leave the attempt columns alone.\<close>

inductive other_step :: "jdb \<Rightarrow> jdb \<Rightarrow> bool" where
  q_manager: "manager_step d d' \<Longrightarrow> other_step d d'"
| q_enqueue: "other_step d (enqueue now jid d)"
| q_reclaim: "other_step d (snd (reclaim_expired now d))"
| q_expire: "other_step d (snd (expire_stale_paused now hours d))"
| q_wake: "other_step d (snd (wake_due_paused now d))"
| q_complete: "other_step d (complete now jid d)"
| q_release: "other_step d (release now jid d)"
| q_fail: "other_step d (snd (fail now jid why d))"
| q_heartbeat: "other_step d (heartbeat now jid w secs d)"

inductive queue_step :: "jdb \<Rightarrow> jdb \<Rightarrow> bool" where
  q_other: "other_step d d' \<Longrightarrow> queue_step d d'"
| q_lease: "queue_step d (snd (lease_next pg locked now w secs d))"
| q_yield: "queue_step d (yield_slice now jid d)"

text \<open>The same steps with a log of the jobs handed out and of the slices taken back.\<close>

datatype queue_act = Handed ident | Refunded ident

inductive queue_log :: "jdb \<Rightarrow> queue_act list \<Rightarrow> jdb \<Rightarrow> bool" for d0 where
  ql_start: "queue_log d0 [] d0"
| ql_other: "queue_log d0 tr d \<Longrightarrow> other_step d d' \<Longrightarrow> queue_log d0 tr d'"
| ql_lease: "queue_log d0 tr d \<Longrightarrow> lease_next pg locked now w secs d = (Some r, d') \<Longrightarrow> queue_log d0 (tr @ [Handed (j_id r)]) d'"
| ql_yield: "queue_log d0 tr d \<Longrightarrow> queue_log d0 (tr @ [Refunded jid]) (yield_slice now jid d)"

lemma every_history_has_a_log: "queue_step\<^sup>*\<^sup>* d0 d \<Longrightarrow> \<exists>tr. queue_log d0 tr d"
proof (induction rule: rtranclp_induct)
  case (step d1 d2)
  then obtain tr where tr: "queue_log d0 tr d1" by blast
  from step.hyps(2) show ?case
  proof cases
    case (q_lease pg locked now w secs)
    then obtain res where l: "lease_next pg locked now w secs d1 = (res, d2)" by (metis prod.collapse)
    show ?thesis
    proof (cases res)
      case None
      with l lease_next_None tr show ?thesis by blast
    next
      case (Some r)
      with l ql_lease [OF tr] show ?thesis by blast
    qed
  qed (use tr ql_other ql_yield in blast)+
qed (blast intro: ql_start)

definition handed :: "queue_act list \<Rightarrow> ident \<Rightarrow> int" where
  "handed tr jid = int (count_list tr (Handed jid))"

definition refunded :: "queue_act list \<Rightarrow> ident \<Rightarrow> int" where
  "refunded tr jid = int (count_list tr (Refunded jid))"

lemma handed_simps [simp]:
  "handed [] jid = 0" "handed (tr @ [Handed k]) jid = handed tr jid + (if k = jid then 1 else 0)"
  "handed (tr @ [Refunded k]) jid = handed tr jid"
  by (simp_all add: handed_def)

lemma refunded_simps [simp]:
  "refunded [] jid = 0" "refunded (tr @ [Refunded k]) jid = refunded tr jid + (if k = jid then 1 else 0)"
  "refunded (tr @ [Handed k]) jid = refunded tr jid" "0 \<le> refunded tr jid" "0 \<le> handed tr jid"
  by (simp_all add: refunded_def handed_def)

definition all_budgeted :: "jdb \<Rightarrow> bool" where
  "all_budgeted d \<longleftrightarrow> distinct (map j_id (jobs d)) \<and> list_all budgeted (jobs d)"

text \<open>What the budget depends on: the ids and the two attempt columns.\<close>

definition budget_view :: "job list \<Rightarrow> (ident \<times> int option \<times> int option) list" where
  "budget_view t = map (\<lambda>r. (j_id r, j_attempts r, j_max_attempts r)) t"

lemma budget_view_upd [simp]:
  assumes "\<And>r. j_id (f r) = j_id r" "\<And>r. j_attempts (f r) = j_attempts r"
    and "\<And>r. j_max_attempts (f r) = j_max_attempts r"
  shows "budget_view (upd_where p f t) = budget_view t"
  using assms by (simp add: budget_view_def upd_where_def)

lemma all_budgeted_view:
  assumes "budget_view (jobs d') = budget_view (jobs d)"
  shows "all_budgeted d' = all_budgeted d"
proof -
  have ids: "map j_id t = map fst (budget_view t)" for t
    by (simp add: budget_view_def)
  have bud: "list_all budgeted t = list_all (\<lambda>(_, a, m). 0 \<le> coalesce a 0 \<and> coalesce a 0 \<le> coalesce m 3)
      (budget_view t)" for t
    by (simp add: budget_view_def list_all_iff budgeted_def)
  show ?thesis by (simp add: all_budgeted_def ids bud assms)
qed

text \<open>Computations that leave the view alone, whether they return or raise.\<close>

definition keeps_budget :: "(jdb, 'e, 'a) act \<Rightarrow> bool" where
  "keeps_budget m \<longleftrightarrow> (\<forall>d. budget_view (jobs (snd (m d))) = budget_view (jobs d))"

lemma keeps_budget_seq: "keeps_budget m \<Longrightarrow> (\<And>x. keeps_budget (k x)) \<Longrightarrow> keeps_budget (seq m k)"
  unfolding keeps_budget_def
proof
  fix d
  assume m: "\<forall>d. budget_view (jobs (snd (m d))) = budget_view (jobs d)"
    and k: "\<And>x. \<forall>d. budget_view (jobs (snd (k x d))) = budget_view (jobs d)"
  obtain res d1 where md: "m d = (res, d1)" by (cases "m d")
  with m have d1: "budget_view (jobs d1) = budget_view (jobs d)" by (metis snd_conv)
  show "budget_view (jobs (snd (seq m k d))) = budget_view (jobs d)"
    using md d1 k by (cases res) (simp_all add: seq_def)
qed

lemma keeps_current [simp]: "keeps_budget (current jid)"
  by (simp add: keeps_budget_def current_def split: option.splits)

lemma keeps_budget_throw [simp]: "keeps_budget (throw e)"
  by (simp add: keeps_budget_def throw_def)

lemma keeps_budget_ret [simp]: "keeps_budget (ret x)"
  by (simp add: keeps_budget_def ret_def)

lemma keeps_write [simp]: "keeps_budget (transition_write now jid from to reason)"
  by (simp add: keeps_budget_def transition_write_def set_state_def)

lemma keeps_transition [simp]: "keeps_budget (transition now jid to reason)"
  by (simp add: transition_def keeps_budget_seq)

lemma keeps_pause [simp]: "keeps_budget (pause now jid why at)"
  unfolding pause_def by (rule keeps_budget_seq [OF keeps_transition]) (simp add: keeps_budget_def modify_def)

lemma keeps_mark_failed [simp]: "keeps_budget (mark_failed now jid why)"
  by (simp add: mark_failed_def keeps_budget_seq)

lemma keeps_resume [simp]: "keeps_budget (resume now jid)"
  by (simp add: resume_def keeps_budget_seq)

lemma budget_recover_rows:
  "budget_view (jobs (snd (recover_rows now why respect rs d))) = budget_view (jobs d)"
proof (induction rs arbitrary: d)
  case (Cons r rs)
  have "budget_view (jobs (snd (pause now (j_id r) why (now + 60) d))) = budget_view (jobs d)"
    using keeps_pause by (simp only: keeps_budget_def)
  with Cons show ?case
    by (cases "pause now (j_id r) why (now + 60) d")
       (auto simp: recover_rows_Cons case_prod_unfold Let_def split: sum.splits)
qed simp

lemma all_budgeted_viewI:
  "all_budgeted d \<Longrightarrow> budget_view (jobs d') = budget_view (jobs d) \<Longrightarrow> all_budgeted d'"
  using all_budgeted_view by blast

lemma keeps_budgetD: "keeps_budget m \<Longrightarrow> all_budgeted d \<Longrightarrow> all_budgeted (snd (m d))"
  by (erule all_budgeted_viewI) (simp add: keeps_budget_def)

lemma all_budgeted_manager: "manager_step d d' \<Longrightarrow> all_budgeted d \<Longrightarrow> all_budgeted d'"
proof (induction rule: manager_step.induct)
  case (step_create fresh d now icp params)
  then show ?case by (auto simp: create_job_def all_budgeted_def budgeted_def coalesce_def)
next
  case (step_recover d now why respect)
  then show ?case
    by (auto simp: recover_interrupted_jobs_def budget_recover_rows intro: all_budgeted_viewI)
qed (simp_all add: keeps_budgetD)

text \<open>Two of the queue's statements write the attempt column: leasing and yielding.\<close>

lemma all_budgeted_upd:
  assumes "all_budgeted d" and "\<And>r. j_id (f r) = j_id r"
    and "\<And>r. r \<in> set (jobs d) \<Longrightarrow> budgeted r \<Longrightarrow> p r \<Longrightarrow> budgeted (f r)"
    and "jobs d' = upd_where p f (jobs d)"
  shows "all_budgeted d'"
  using assms by (auto simp: all_budgeted_def job_table.keys_upd_where list_all_iff set_upd_where)

lemma all_budgeted_lease:
  assumes "all_budgeted d"
  shows "all_budgeted (snd (lease_next pg locked now w secs d))"
proof (cases "lease_next pg locked now w secs d")
  case (Pair res d')
  show ?thesis
  proof (cases res)
    case None
    with Pair lease_next_None assms show ?thesis by fastforce
  next
    case (Some r')
    with Pair have l: "lease_next pg locked now w secs d = (Some r', d')" by simp
    obtain r where r: "r \<in> set (jobs d)" "leasable (if pg then locked else []) now r"
      and d': "d' = d\<lparr>jobs := upd_where (\<lambda>x. j_id x = j_id r) (leased_row pg now w secs) (jobs d)\<rparr>"
      by (rule lease_next_Some [OF l]) blast
    have u: "x = r" if "x \<in> set (jobs d)" "j_id x = j_id r" for x
      using that assms r(1) by (auto simp: all_budgeted_def distinct_map dest: inj_onD)
    have b: "budgeted (leased_row pg now w secs r)"
      using assms r by (intro budgeted_leased) (auto simp: all_budgeted_def list_all_iff)
    have "all_budgeted d'"
    proof (rule all_budgeted_upd [OF assms])
      show "jobs d' = upd_where (\<lambda>x. j_id x = j_id r) (leased_row pg now w secs) (jobs d)"
        by (simp add: d')
      show "budgeted (leased_row pg now w secs x)" if "x \<in> set (jobs d)" "j_id x = j_id r" for x
        using u [OF that] b by simp
    qed simp
    with Pair show ?thesis by simp
  qed
qed

lemma all_budgeted_yield: "all_budgeted d \<Longrightarrow> all_budgeted (yield_slice now jid d)"
  by (erule all_budgeted_upd [where f = "yielded_row now" and p = "\<lambda>r. j_id r = jid"])
     (auto simp: yield_slice_def yielded_row_def budgeted_def coalesce_def)

lemma other_step_view:
  "other_step d d' \<Longrightarrow> budget_view (jobs d') = budget_view (jobs d)
     \<or> (\<exists>now fresh icp params. fresh \<notin> j_id ` set (jobs d) \<and> d' = snd (create_job now fresh icp params d))"
proof (induction rule: other_step.induct)
  case (q_manager d d')
  have "budget_view (jobs (snd (m d))) = budget_view (jobs d)" if "keeps_budget m" for m :: "(jdb, 'e, 'a) act"
    using that by (simp add: keeps_budget_def)
  note k = this [OF keeps_transition] this [OF keeps_pause] this [OF keeps_mark_failed] this [OF keeps_resume]
  from q_manager show ?case
  proof cases
    case step_create
    then show ?thesis by blast
  qed (simp_all add: k recover_interrupted_jobs_def budget_recover_rows)
next
  case (q_fail d now jid why)
  then show ?case by (simp add: fail_def retry_row_def gave_up_row_def split: option.splits)
qed (simp_all add: enqueue_def reclaim_expired_def expire_stale_paused_def wake_due_paused_def complete_def release_def
      heartbeat_def Let_def)

lemma all_budgeted_step: "queue_step d d' \<Longrightarrow> all_budgeted d \<Longrightarrow> all_budgeted d'"
proof (induction rule: queue_step.induct)
  case (q_other d d')
  from other_step_view [OF q_other(1)] all_budgeted_viewI [OF q_other(2)] all_budgeted_manager [OF step_create q_other(2)]
  show ?case by blast
qed (simp_all add: all_budgeted_lease all_budgeted_yield)

lemma all_budgeted_history:
  assumes "queue_step\<^sup>*\<^sup>* d d'" and "all_budgeted d"
  shows "all_budgeted d'"
  using assms by (induction rule: rtranclp_induct) (auto intro: all_budgeted_step)

text \<open>The log and the attempt column agree: the column counts the leases less the refunds, and a job that is not there has
  not been handed out.\<close>

definition fits_log :: "queue_act list \<Rightarrow> job \<Rightarrow> bool" where
  "fits_log tr r \<longleftrightarrow> (\<exists>a. j_attempts r = Some a \<and> 0 \<le> a \<and> a \<le> coalesce (j_max_attempts r) 3 \<and> a \<le> handed tr (j_id r)
     \<and> handed tr (j_id r) \<le> a + refunded tr (j_id r))"

definition log_ok :: "queue_act list \<Rightarrow> jdb \<Rightarrow> bool" where
  "log_ok tr d \<longleftrightarrow> distinct (map j_id (jobs d)) \<and> (\<forall>r \<in> set (jobs d). fits_log tr r)
     \<and> (\<forall>k. k \<notin> j_id ` set (jobs d) \<longrightarrow> handed tr k = 0)"

lemma log_ok_view:
  assumes "budget_view (jobs d') = budget_view (jobs d)" and "log_ok tr d"
  shows "log_ok tr d'"
proof -
  have ids: "map j_id t = map fst (budget_view t)" for t by (simp add: budget_view_def)
  have fits: "(\<forall>r \<in> set t. fits_log tr r) \<longleftrightarrow> (\<forall>(i, a, m) \<in> set (budget_view t). \<exists>n. a = Some n \<and> 0 \<le> n \<and> n \<le> coalesce m 3
      \<and> n \<le> handed tr i \<and> handed tr i \<le> n + refunded tr i)" for t
    by (simp add: budget_view_def fits_log_def)
  have keys: "j_id ` set t = fst ` set (budget_view t)" for t by (force simp: budget_view_def)
  show ?thesis using assms(2) unfolding log_ok_def fits ids keys assms(1) .
qed

lemma log_ok_create:
  assumes "log_ok tr d" and "fresh \<notin> j_id ` set (jobs d)"
  shows "log_ok tr (snd (create_job now fresh icp params d))"
proof -
  have "handed tr fresh = 0" using assms by (simp add: log_ok_def)
  with assms show ?thesis by (auto simp: log_ok_def create_job_def fits_log_def coalesce_def)
qed

lemma log_ok_lease:
  assumes "log_ok tr d" and "lease_next pg locked now w secs d = (Some r', d')"
  shows "log_ok (tr @ [Handed (j_id r')]) d'"
proof -
  obtain r where r: "r \<in> set (jobs d)" "leasable (if pg then locked else []) now r"
    and r': "r' = leased_row pg now w secs r"
    and d': "d' = d\<lparr>jobs := upd_where (\<lambda>x. j_id x = j_id r) (leased_row pg now w secs) (jobs d)\<rparr>"
    by (rule lease_next_Some [OF assms(2)]) blast
  have u: "x = r" if "x \<in> set (jobs d)" "j_id x = j_id r" for x
    using that assms(1) r(1) by (auto simp: log_ok_def distinct_map dest: inj_onD)
  have old: "fits_log (tr @ [Handed (j_id r)]) x" if "x \<in> set (jobs d)" "j_id x \<noteq> j_id r" for x
    using that assms(1) by (auto simp: log_ok_def fits_log_def)
  have new: "fits_log (tr @ [Handed (j_id r)]) (leased_row pg now w secs r)"
    using assms(1) r by (auto simp: log_ok_def fits_log_def leasable_def coalesce_def leased_row_def)
  have "fits_log (tr @ [Handed (j_id r)]) x" if "x \<in> set (jobs d')" for x
  proof -
    have "x \<in> (\<lambda>y. if j_id y = j_id r then leased_row pg now w secs y else y) ` set (jobs d)"
      using that by (simp add: d' upd_where_def)
    then obtain y where y: "y \<in> set (jobs d)" "x = (if j_id y = j_id r then leased_row pg now w secs y else y)" by blast
    then show ?thesis using old new u [OF y(1)] by (cases "j_id y = j_id r") auto
  qed
  moreover have "j_id ` set (jobs d') = j_id ` set (jobs d)" "map j_id (jobs d') = map j_id (jobs d)"
    by (simp_all add: d' job_table.keys_upd_where flip: set_map)
  ultimately show ?thesis using assms(1) r(1) by (auto simp: log_ok_def r')
qed

lemma log_ok_yield:
  assumes "log_ok tr d"
  shows "log_ok (tr @ [Refunded jid]) (yield_slice now jid d)"
proof -
  let ?d = "yield_slice now jid d"
  have "fits_log (tr @ [Refunded jid]) x" if "x \<in> set (jobs ?d)" for x
  proof -
    have "x \<in> (\<lambda>y. if j_id y = jid then yielded_row now y else y) ` set (jobs d)"
      using that by (simp add: yield_slice_def upd_where_def)
    then obtain y where y: "y \<in> set (jobs d)" "x = (if j_id y = jid then yielded_row now y else y)" by blast
    from y(1) assms obtain a where "j_attempts y = Some a" "0 \<le> a" "a \<le> coalesce (j_max_attempts y) 3"
        "a \<le> handed tr (j_id y)" "handed tr (j_id y) \<le> a + refunded tr (j_id y)"
      by (auto simp: log_ok_def fits_log_def)
    then show ?thesis by (auto simp: y(2) fits_log_def yielded_row_def coalesce_def)
  qed
  moreover have "map j_id (jobs ?d) = map j_id (jobs d)"
    by (simp add: yield_slice_def job_table.keys_upd_where yielded_row_def)
  moreover from this have "j_id ` set (jobs ?d) = j_id ` set (jobs d)" by (metis set_map)
  ultimately show ?thesis using assms by (simp add: log_ok_def)
qed

lemma log_ok_history: "queue_log (empty_db org) tr d \<Longrightarrow> log_ok tr d"
proof (induction rule: queue_log.induct)
  case ql_start
  show ?case by (simp add: log_ok_def empty_db_def)
next
  case (ql_other tr d d')
  from other_step_view [OF ql_other(2)] log_ok_view [OF _ ql_other(3)] log_ok_create [OF ql_other(3)] show ?case by blast
next
  case (ql_lease tr d pg locked now w secs r d')
  from log_ok_lease [OF ql_lease(3,2)] show ?case .
next
  case (ql_yield tr d jid now)
  from log_ok_yield [OF ql_yield(2)] show ?case .
qed

subsection \<open>Properties\<close>

lemma backoff_bounds: "60 \<le> backoff n \<and> backoff n \<le> 3600"
  by (simp add: backoff_def)

lemma leased_not_leasable: "\<not> leasable l t (leased_row pg now w secs r)"
  by (simp add: leasable_def)

text \<open>Leasing is exclusive, fair and within budget: the job handed out is a runnable one created no
  later than any other runnable job, it comes back RUNNING under the caller's name with at most
  max_attempts attempts, no other row is touched, and no later lease, by any worker at any time,
  returns the same job while it is still as the lease left it.\<close>

theorem lease_exclusive_and_fair:
  assumes "all_budgeted d" and "lease_next pg locked now w secs d = (Some r', d')"
  shows "\<exists>r. r \<in> set (jobs d) \<and> leasable (if pg then locked else []) now r
      \<and> list_all (\<lambda>x. leasable (if pg then locked else []) now x \<longrightarrow> j_created r \<le> j_created x) (jobs d)
      \<and> row_of j_id (j_id r) (jobs d') = Some r' \<and> j_state r' = RUNNING \<and> j_worker r' = Some w
      \<and> coalesce (j_attempts r') 0 \<le> coalesce (j_max_attempts r') 3
      \<and> (\<forall>k. k \<noteq> j_id r \<longrightarrow> row_of j_id k (jobs d') = row_of j_id k (jobs d))
      \<and> (\<forall>pg' l' t w' s'. case fst (lease_next pg' l' t w' s' d') of
            None \<Rightarrow> True | Some r2 \<Rightarrow> j_id r2 \<noteq> j_id r)"
proof -
  let ?L = "leasable (if pg then locked else []) now"
  obtain r where r: "r \<in> set (jobs d)" "?L r"
    and least: "\<And>x. x \<in> set (jobs d) \<Longrightarrow> ?L x \<Longrightarrow> j_created r \<le> j_created x"
    and r': "r' = leased_row pg now w secs r"
    and d': "d' = d\<lparr>jobs := upd_where (\<lambda>x. j_id x = j_id r) (leased_row pg now w secs) (jobs d)\<rparr>"
    by (rule lease_next_Some [OF assms(2)]) blast
  have dist: "distinct (map j_id (jobs d))" and bud: "budgeted r"
    using assms(1) r(1) by (auto simp: all_budgeted_def list_all_iff)
  have row: "row_of j_id (j_id r) (jobs d') = Some r'"
    using row_of_mem [OF dist r(1)] by (simp add: d' r' job_table.row_of_upd_where)
  have frame: "row_of j_id k (jobs d') = row_of j_id k (jobs d)" if "k \<noteq> j_id r" for k
    using that by (simp add: d' job_table.row_of_upd_other)
  have dist': "distinct (map j_id (jobs d'))" using dist by (simp add: d' job_table.keys_upd_where)
  have again: "j_id r2 \<noteq> j_id r" if l2: "fst (lease_next pg' l' t w' s' d') = Some r2" for pg' l' t w' s' r2
  proof -
    from l2 obtain d2 where l2': "lease_next pg' l' t w' s' d' = (Some r2, d2)"
      by (metis prod.collapse)
    obtain x where x: "x \<in> set (jobs d')" "leasable (if pg' then l' else []) t x"
      and r2: "r2 = leased_row pg' t w' s' x"
      by (rule lease_next_Some [OF l2']) blast
    show ?thesis
    proof
      assume "j_id r2 = j_id r"
      with r2 x row_of_mem [OF dist' x(1)] row have "x = r'" by simp
      with x(2) r' leased_not_leasable show False by simp
    qed
  qed
  have "budgeted r'" unfolding r' by (rule budgeted_leased [OF bud r(2)])
  then have cap: "coalesce (j_attempts r') 0 \<le> coalesce (j_max_attempts r') 3" by (simp add: budgeted_def)
  show ?thesis
    by (rule exI [of _ r]) (use r least row frame again cap in \<open>auto simp: r' list_all_iff split: option.splits\<close>)
qed

definition queued_db :: jdb where
  "queued_db = snd (create_job 10 ''job-1'' ''icp'' [] (empty_db None))"

lemmas queue_demo_defs = queued_db_def create_job_def empty_db_def lease_next_def leasable_def
  leased_row_def coalesce_def first_min_def

lemma all_budgeted_empty: "all_budgeted (empty_db org)"
  by (simp add: all_budgeted_def empty_db_def)

lemma queued_db_reached: "queue_step\<^sup>*\<^sup>* (empty_db None) queued_db"
  unfolding queued_db_def
  by (rule r_into_rtranclp, rule q_other, rule q_manager, rule manager_step.step_create)
     (simp add: empty_db_def)

theorem lease_exclusive_and_fair_witness:
  "\<exists>r' d'. lease_next False [] 20 ''w1'' 600 queued_db = (Some r', d')
     \<and> row_of j_id ''job-1'' (jobs d') = Some r' \<and> j_state r' = RUNNING"
proof -
  obtain r' d' where l: "lease_next False [] 20 ''w1'' 600 queued_db = (Some r', d')"
    by (simp add: queue_demo_defs)
  have b: "all_budgeted queued_db"
    using all_budgeted_history [OF queued_db_reached all_budgeted_empty] .
  from lease_exclusive_and_fair [OF b l] l show ?thesis
    by (auto simp: queued_db_def create_job_def empty_db_def)
qed

text \<open>C20: The attempt budget holds in every history of JobManager and queue operations from an empty database, by any
  workers on either database (and every such history has its log): however often leases lapse, jobs fail and workers
  come back, the queue has handed a job out at most its maximum number of times, one more for each slice it took back as
  yielded; the attempt column is never negative, never above the maximum, and counts the leases less at most the refunds.\<close>

theorem attempts_never_exceed_budget:
  assumes "queue_log (empty_db org) tr d" and "r \<in> set (jobs d)"
  shows "\<exists>a. j_attempts r = Some a \<and> 0 \<le> a \<and> a \<le> coalesce (j_max_attempts r) 3
    \<and> a \<le> handed tr (j_id r) \<and> handed tr (j_id r) \<le> a + refunded tr (j_id r)
    \<and> handed tr (j_id r) \<le> coalesce (j_max_attempts r) 3 + refunded tr (j_id r)"
proof -
  from log_ok_history [OF assms(1)] assms(2) obtain a where "j_attempts r = Some a" "0 \<le> a" "a \<le> coalesce (j_max_attempts r) 3"
      "a \<le> handed tr (j_id r)" "handed tr (j_id r) \<le> a + refunded tr (j_id r)"
    by (auto simp: log_ok_def fits_log_def)
  then show ?thesis by auto
qed

theorem attempts_never_exceed_budget_witness:
  "\<exists>r \<in> set (jobs (snd (lease_next False [] 20 ''w1'' 600 queued_db))).
     j_id r = ''job-1'' \<and> j_attempts r = Some 1 \<and> handed [Handed ''job-1''] ''job-1'' \<le> coalesce (j_max_attempts r) 3"
proof -
  obtain r where l: "lease_next False [] 20 ''w1'' 600 queued_db = (Some r, snd (lease_next False [] 20 ''w1'' 600 queued_db))"
      and r: "r \<in> set (jobs (snd (lease_next False [] 20 ''w1'' 600 queued_db)))" "j_id r = ''job-1''" "j_attempts r = Some 1"
    by (simp add: queue_demo_defs)
  have "queue_log (empty_db None) [] queued_db"
    unfolding queued_db_def
    by (rule ql_other [OF ql_start], rule q_manager, rule manager_step.step_create) (simp add: empty_db_def)
  from attempts_never_exceed_budget [OF ql_lease [OF this l] r(1)] r show ?thesis by (auto simp: refunded_def)
qed

definition failed_lapsed :: "ts \<Rightarrow> job \<Rightarrow> job" where
  "failed_lapsed now r =
     r\<lparr>j_state := FAILED, j_worker := None, j_lease := None,
       j_pause_reason := Some ''lease expired after max attempts; not requeued'', j_updated := now\<rparr>"

definition requeued_lapsed :: "ts \<Rightarrow> job \<Rightarrow> job" where
  "requeued_lapsed now r = r\<lparr>j_state := QUEUED, j_worker := None, j_lease := None, j_updated := now\<rparr>"

text \<open>The reaper settles every lapsed lease in one pass and nothing else: a leased row whose lease
  has expired (or that has no lease and was silent for a day) goes back to QUEUED while attempts
  remain and to FAILED when they are used up, both without a worker and a lease; all other rows are
  unchanged, and the number returned is the number of rows settled.\<close>

theorem reclaim_settles_lapsed_leases:
  "reclaim_expired now d =
     (rowcount (\<lambda>r. j_state r \<in> set LEASED_STATES \<and> expired now r) (jobs d),
      d\<lparr>jobs := map (\<lambda>r. if j_state r \<in> set LEASED_STATES \<and> expired now r
                        then (if no_budget r then failed_lapsed now r else requeued_lapsed now r)
                        else r) (jobs d)\<rparr>)"
proof -
  let ?lapsed = "\<lambda>r. j_state r \<in> set LEASED_STATES \<and> expired now r"
  have nf: "FAILED \<notin> set LEASED_STATES" by (simp add: LEASED_STATES_def)
  have count: "rowcount (\<lambda>r. j_state r \<in> set LEASED_STATES \<and> expired now r \<and> no_budget r) t
      + rowcount ?lapsed (upd_where (\<lambda>r. j_state r \<in> set LEASED_STATES \<and> expired now r \<and> no_budget r)
          (failed_lapsed now) t) = rowcount ?lapsed t" for t
    using nf by (induction t) (auto simp: rowcount_def failed_lapsed_def)
  have upd: "upd_where ?lapsed (requeued_lapsed now)
      (upd_where (\<lambda>r. j_state r \<in> set LEASED_STATES \<and> expired now r \<and> no_budget r) (failed_lapsed now) t)
    = map (\<lambda>r. if ?lapsed r then (if no_budget r then failed_lapsed now r else requeued_lapsed now r) else r) t" for t
    using nf by (induction t) (auto simp: failed_lapsed_def)
  have unf: "reclaim_expired now d =
     (rowcount (\<lambda>r. j_state r \<in> set LEASED_STATES \<and> expired now r \<and> no_budget r) (jobs d)
      + rowcount ?lapsed (upd_where (\<lambda>r. j_state r \<in> set LEASED_STATES \<and> expired now r \<and> no_budget r)
          (failed_lapsed now) (jobs d)),
      d\<lparr>jobs := upd_where ?lapsed (requeued_lapsed now)
       (upd_where (\<lambda>r. j_state r \<in> set LEASED_STATES \<and> expired now r \<and> no_budget r) (failed_lapsed now) (jobs d))\<rparr>)"
    by (simp add: reclaim_expired_def Let_def failed_lapsed_def [abs_def] requeued_lapsed_def [abs_def])
  show ?thesis unfolding unf count upd ..
qed

text \<open>A failure is retried at most within the budget and never at once: the job either goes back
  to QUEUED with a resume_at between one minute and one hour ahead, and nobody can lease it before
  that minute is over, or, with its attempts used up, it is FAILED and can never be leased again.\<close>

theorem failure_backs_off_or_ends:
  assumes "distinct (map j_id (jobs d))" and "row_of j_id jid (jobs d) = Some r"
    and "fail now jid why d = (res, d')"
  shows "\<exists>r'. row_of j_id jid (jobs d') = Some r' \<and> j_lease r' = None \<and> j_worker r' = None \<and>
     ((res = REQUEUED \<and> j_state r' = QUEUED
        \<and> (\<exists>at. j_resume_at r' = Some at \<and> now + 60 \<le> at \<and> at \<le> now + 3600)
        \<and> (\<forall>l t. t < now + 60 \<longrightarrow> \<not> leasable l t r'))
      \<or> (res = GAVE_UP \<and> j_state r' = FAILED \<and> py_or (j_max_attempts r) 3 \<le> py_or (j_attempts r) 0
        \<and> (\<forall>l t. \<not> leasable l t r')))"
proof (cases "py_or (j_attempts r) 0 < py_or (j_max_attempts r) 3")
  case True
  with assms have res: "res = REQUEUED" and js: "jobs d' = upd_where (\<lambda>x. j_id x = jid)
      (retry_row now why (backoff (py_or (j_attempts r) 0))) (jobs d)"
    by (auto simp: fail_def)
  have row: "row_of j_id jid (jobs d') = Some (retry_row now why (backoff (py_or (j_attempts r) 0)) r)"
    unfolding js by (rule job_table.row_of_upd_own) (simp_all add: assms retry_row_def)
  show ?thesis
    by (rule exI, intro conjI, rule row)
       (use backoff_bounds [of "py_or (j_attempts r) 0"] res in
         \<open>auto simp: retry_row_def leasable_def\<close>)
next
  case False
  with assms have res: "res = GAVE_UP"
    and js: "jobs d' = upd_where (\<lambda>x. j_id x = jid) (gave_up_row now why) (jobs d)"
    by (auto simp: fail_def)
  have row: "row_of j_id jid (jobs d') = Some (gave_up_row now why r)"
    unfolding js by (rule job_table.row_of_upd_own) (simp_all add: assms gave_up_row_def)
  show ?thesis
    by (rule exI, intro conjI, rule row) (use False res in \<open>auto simp: gave_up_row_def leasable_def\<close>)
qed

theorem failure_backs_off_or_ends_witness:
  "\<exists>r'. row_of j_id ''job-1'' (jobs (snd (fail 100 ''job-1'' ''boom'' queued_db))) = Some r'
     \<and> j_state r' = QUEUED"
proof -
  obtain r where r: "row_of j_id ''job-1'' (jobs queued_db) = Some r"
    and dist: "distinct (map j_id (jobs queued_db))"
    by (simp add: queued_db_def create_job_def empty_db_def)
  have res: "fst (fail 100 ''job-1'' ''boom'' queued_db) = REQUEUED"
    by (simp add: queued_db_def create_job_def empty_db_def fail_def py_or_def)
  from failure_backs_off_or_ends [OF dist r, of 100 "''boom''" "fst (fail 100 ''job-1'' ''boom'' queued_db)"
      "snd (fail 100 ''job-1'' ''boom'' queued_db)"] res
  show ?thesis by (auto simp: prod_eq_iff)
qed

text \<open>The periodic maintenance of the queue, at any times and by any workers.\<close>

inductive maintenance_step :: "jdb \<Rightarrow> jdb \<Rightarrow> bool" where
  m_reclaim: "maintenance_step d (snd (reclaim_expired now d))"
| m_expire: "maintenance_step d (snd (expire_stale_paused now hours d))"
| m_wake: "maintenance_step d (snd (wake_due_paused now d))"
| m_lease: "maintenance_step d (snd (lease_next pg locked now w secs d))"

lemma maintenance_keeps_stuck:
  assumes "maintenance_step d d'" and "distinct (map j_id (jobs d))"
    and "row_of j_id jid (jobs d) = Some r" and "j_state r = RESUMING" and "no_budget r"
  shows "distinct (map j_id (jobs d')) \<and> row_of j_id jid (jobs d') = Some r"
  using assms
proof (induction rule: maintenance_step.induct)
  case (m_lease d pg locked now w secs)
  show ?case
  proof (cases "lease_next pg locked now w secs d")
    case (Pair res d')
    show ?thesis
    proof (cases res)
      case None
      with Pair lease_next_None m_lease show ?thesis by fastforce
    next
      case (Some r2)
      with Pair have l: "lease_next pg locked now w secs d = (Some r2, d')" by simp
      obtain x where x: "x \<in> set (jobs d)" "leasable (if pg then locked else []) now x"
        and d': "d' = d\<lparr>jobs := upd_where (\<lambda>y. j_id y = j_id x) (leased_row pg now w secs) (jobs d)\<rparr>"
        by (rule lease_next_Some [OF l]) blast
      have "j_id x \<noteq> jid"
      proof
        assume "j_id x = jid"
        with m_lease row_of_mem [OF m_lease(1) x(1)] have "x = r" by simp
        with x(2) m_lease show False by (simp add: leasable_def no_budget_def)
      qed
      with Pair d' m_lease row_of_Some [OF m_lease(2)] show ?thesis
        by (simp add: job_table.keys_upd_where job_table.row_of_upd_where)
    qed
  qed
qed (auto simp: reclaim_expired_def expire_stale_paused_def wake_due_paused_def Let_def LEASED_STATES_def
      job_table.keys_upd_where job_table.row_of_upd_where)

text \<open>A woken job whose attempts are used up is stuck: once RESUMING with no budget left, no number
  of reaper passes, wake-ups and leases by any workers at any times ever changes it, so it neither
  runs nor reaches FAILED.\<close>

theorem exhausted_resuming_is_stuck:
  assumes "maintenance_step\<^sup>*\<^sup>* d d'" and "distinct (map j_id (jobs d))"
    and "row_of j_id jid (jobs d) = Some r" and "j_state r = RESUMING" and "no_budget r"
  shows "row_of j_id jid (jobs d') = Some r"
proof -
  have "distinct (map j_id (jobs d')) \<and> row_of j_id jid (jobs d') = Some r"
    using assms(1) by (induction rule: rtranclp_induct)
      (use assms(2-) maintenance_keeps_stuck in blast)+
  then show ?thesis by simp
qed

definition stuck_job :: job where
  "stuck_job = \<lparr>j_id = ''job-1'', j_icp = ''icp'', j_state = RESUMING, j_params = [], j_pause_reason = None,
     j_resume_at = Some 160, j_worker = None, j_lease = None, j_attempts = Some 3,
     j_max_attempts = Some 3, j_created = 10, j_updated = 200, j_org = ''shared''\<rparr>"

theorem exhausted_resuming_is_stuck_witness:
  "row_of j_id ''job-1'' (jobs (snd (lease_next False [] 99999 ''w1'' 600
      (snd (reclaim_expired 99999 \<lparr>jobs = [stuck_job], job_events = [], db_org = None\<rparr>))))) = Some stuck_job"
  by (rule exhausted_resuming_is_stuck [of "\<lparr>jobs = [stuck_job], job_events = [], db_org = None\<rparr>"])
     (auto simp: stuck_job_def no_budget_def coalesce_def
       intro: rtranclp.rtrancl_into_rtrancl [OF r_into_rtranclp] maintenance_step.intros)

end
