(* ===== verification/OutreachPolicy.thy ===== *)
theory OutreachPolicy
  imports JobQueue Complex_Main
begin

section \<open>The outreach gate and plan limits (policy.py, entitlements.py)\<close>

text \<open>
  The do-not-contact list of an organization, its channel policy, the volume heuristic and the gate
  every outbound action passes; and the daily limits of a plan.  The dash of the review reason is written
  in ASCII.  A row's stored limits override the
  defaults key by key; \<open>organizations = None\<close> is the development database without platform
  tables, where reading it raises.
\<close>

record limits =
  l_jobs :: int
  l_leads :: int
  l_calls :: int
  l_channels :: "string list"
  l_sends :: int

definition DEFAULT_LIMITS :: limits where
  "DEFAULT_LIMITS = \<lparr>l_jobs = 10, l_leads = 5000, l_calls = 2000, l_channels = [''email''], l_sends = 200\<rparr>"

record stored_limits =
  sl_jobs :: "int option"
  sl_leads :: "int option"
  sl_calls :: "int option"
  sl_channels :: "string list option"
  sl_sends :: "int option"

record suppression =
  sp_id :: ident
  sp_org :: ident
  sp_channel :: string
  sp_value :: string
  sp_reason :: string
  sp_source :: string
  sp_created :: ts

record pdb =
  suppressions :: "suppression list"
  organizations :: "(ident \<Rightarrow> stored_limits option option) option"

subsection \<open>Suppression\<close>

definition normalize :: "string option \<Rightarrow> string option \<Rightarrow> string \<times> string" where
  "normalize channel value =
     (py_lower (py_strip (if truthy channel then the channel else ''all'')),
      py_lower (py_strip (if truthy value then the value else [])))"

definition suppression_hits :: "ident \<Rightarrow> string \<Rightarrow> string \<Rightarrow> suppression list \<Rightarrow> suppression list" where
  "suppression_hits org channel value t =
     filter (\<lambda>s. sp_org s = org \<and> sp_channel s \<in> {channel, ''all''} \<and> sp_value s = value) t"

definition is_suppressed ::
  "ident \<Rightarrow> string option \<Rightarrow> string option \<Rightarrow> pdb \<Rightarrow> bool \<times> string option" where
  "is_suppressed org channel value d =
     (if \<not> truthy value then (False, None)
      else let (ch, v) = normalize channel value
           in case first_min (\<lambda>s. - sp_created s) (suppression_hits org ch v (suppressions d)) of
                None \<Rightarrow> (False, None)
              | Some s \<Rightarrow> (True, Some (sp_reason s)))"

text \<open>\<open>fresh\<close> is the id the database generates for an inserted row.\<close>

definition add ::
  "ts \<Rightarrow> ident \<Rightarrow> ident \<Rightarrow> string option \<Rightarrow> string option \<Rightarrow> string \<Rightarrow> string \<Rightarrow> pdb \<Rightarrow> ident \<times> pdb" where
  "add now fresh org channel value reason source d =
     (let (ch, v) = normalize channel value
      in case find (\<lambda>s. sp_org s = org \<and> sp_channel s = ch \<and> sp_value s = v) (suppressions d) of
           Some e \<Rightarrow>
             (sp_id e, d\<lparr>suppressions := upd_where (\<lambda>s. sp_id s = sp_id e)
                (\<lambda>s. s\<lparr>sp_reason := reason, sp_source := source, sp_created := now\<rparr>) (suppressions d)\<rparr>)
         | None \<Rightarrow>
             (fresh, d\<lparr>suppressions := suppressions d @
                [\<lparr>sp_id = fresh, sp_org = org, sp_channel = ch, sp_value = v, sp_reason = reason,
                  sp_source = source, sp_created = now\<rparr>]\<rparr>))"

definition remove :: "ident \<Rightarrow> ident \<Rightarrow> pdb \<Rightarrow> bool \<times> pdb" where
  "remove org entry d =
     (rowcount (\<lambda>s. sp_org s = org \<and> sp_id s = entry) (suppressions d) > 0,
      d\<lparr>suppressions := delete_where (\<lambda>s. sp_org s = org \<and> sp_id s = entry) (suppressions d)\<rparr>)"

definition BOUNCE_STATUSES :: "string list" where "BOUNCE_STATUSES = [''INVALID'']"

definition suppress_bounced ::
  "ts \<Rightarrow> ident \<Rightarrow> ident \<Rightarrow> string option \<Rightarrow> string option \<Rightarrow> pdb \<Rightarrow> bool \<times> pdb" where
  "suppress_bounced now fresh org email status d =
     (if \<not> truthy email \<or> (case status of None \<Rightarrow> True | Some s \<Rightarrow> s \<notin> set BOUNCE_STATUSES) then (False, d)
      else (True, snd (add now fresh org (Some ''email'') email ''bounced'' ''pipeline'' d)))"

subsection \<open>Limits\<close>

definition merge_limits :: "stored_limits \<Rightarrow> limits" where
  "merge_limits s =
     \<lparr>l_jobs = or_default (sl_jobs s) (l_jobs DEFAULT_LIMITS),
      l_leads = or_default (sl_leads s) (l_leads DEFAULT_LIMITS),
      l_calls = or_default (sl_calls s) (l_calls DEFAULT_LIMITS),
      l_channels = or_default (sl_channels s) (l_channels DEFAULT_LIMITS),
      l_sends = or_default (sl_sends s) (l_sends DEFAULT_LIMITS)\<rparr>"

definition get_limits :: "ident option \<Rightarrow> pdb \<Rightarrow> limits" where
  "get_limits org d =
     (if \<not> truthy org then DEFAULT_LIMITS
      else case organizations d of
        None \<Rightarrow> DEFAULT_LIMITS
      | Some table \<Rightarrow> (case table (the org) of Some (Some s) \<Rightarrow> merge_limits s | _ \<Rightarrow> DEFAULT_LIMITS))"

text \<open>\<open>allowed_channels\<close> has no handler: without the table it raises.\<close>

definition allowed_channels :: "ident \<Rightarrow> pdb \<Rightarrow> string list option" where
  "allowed_channels org d =
     (case organizations d of
        None \<Rightarrow> None
      | Some table \<Rightarrow> Some (case table org of
            Some (Some s) \<Rightarrow> or_default (sl_channels s) (l_channels DEFAULT_LIMITS)
          | _ \<Rightarrow> l_channels DEFAULT_LIMITS))"

definition day_start :: "ts \<Rightarrow> ts" where
  "day_start now = (now div 86400) * 86400"

definition counts_today :: "ts \<Rightarrow> ident \<Rightarrow> job \<Rightarrow> bool" where
  "counts_today now org j \<longleftrightarrow> j_org j = org \<and> day_start now \<le> j_created j \<and> j_state j \<notin> {FAILED, CANCELLED}"

definition check_job_start :: "ts \<Rightarrow> ident option \<Rightarrow> pdb \<Rightarrow> jdb \<Rightarrow> bool \<times> string option" where
  "check_job_start now org d jd =
     (if \<not> truthy org then (True, None)
      else let max_jobs = l_jobs (get_limits org d);
               used = int (rowcount (counts_today now (the org)) (jobs jd))
           in if used \<ge> max_jobs
              then (False, Some (''daily job limit reached ('' @ show_int used @ ''/'' @ show_int max_jobs @ '')''))
              else (True, None))"

text \<open>The provider-call budget counts the ledger rows of the organization since midnight.\<close>

definition check_provider_call :: "ts \<Rightarrow> ident option \<Rightarrow> pdb \<Rightarrow> (ident option \<times> ts) list \<Rightarrow> bool" where
  "check_provider_call now org d ledger =
     (if \<not> truthy org then True
      else int (rowcount (\<lambda>(o', t). o' = org \<and> day_start now \<le> t) ledger) < l_calls (get_limits org d))"

subsection \<open>Risk and the gate\<close>

datatype risk = UNKNOWN | LOW | MEDIUM | HIGH

definition risk_level :: "int \<Rightarrow> int \<Rightarrow> risk" where
  "risk_level recent baseline =
     (if baseline \<le> 0 then UNKNOWN
      else let ratio = (of_int recent :: rat) / of_int (max 1 baseline)
           in if ratio > 10 then HIGH else if ratio > 3 then MEDIUM else LOW)"

datatype verdict = ALLOW | BLOCK | REVIEW

record decision =
  dc_decision :: verdict
  dc_reasons :: "string list"
  dc_suppressed :: bool
  dc_channel_ok :: bool
  dc_risk :: risk

definition evaluate ::
  "ident \<Rightarrow> string option \<Rightarrow> string option \<Rightarrow> int \<Rightarrow> int \<Rightarrow> pdb \<Rightarrow> decision option" where
  "evaluate org channel value recent baseline d =
     (let (suppressed, why) = is_suppressed org channel value d
      in case allowed_channels org d of
           None \<Rightarrow> None
         | Some channels \<Rightarrow>
             let channel_ok = ((case channel of None \<Rightarrow> False | Some c \<Rightarrow> c \<in> set channels) \<or> ''all'' \<in> set channels);
                 r0 = (if suppressed then [''suppressed: '' @ or_default why ''None''] else []);
                 r1 = (if channel_ok then []
                       else [''channel not enabled for this organization: '' @ or_default channel ''None'']);
                 d1 = (if suppressed \<or> \<not> channel_ok then BLOCK else ALLOW);
                 risk = risk_level recent baseline;
                 high = (risk = HIGH \<and> d1 = ALLOW)
             in Some \<lparr>dc_decision = (if high then REVIEW else d1),
                      dc_reasons = r0 @ r1 @ (if high then [''send volume far above baseline -- manual review''] else []),
                      dc_suppressed = suppressed, dc_channel_ok = channel_ok, dc_risk = risk\<rparr>)"

subsection \<open>Lemmas\<close>

lemma normalize_respelled:
  assumes "py_lower (py_strip v) = py_lower (py_strip w)"
  shows "snd (normalize ch (Some v)) = snd (normalize ch' (Some w))"
  using assms by (cases "v = []"; cases "w = []") (auto simp: normalize_def)

lemma is_suppressed_iff:
  "fst (is_suppressed org ch (Some v) d) \<longleftrightarrow> v \<noteq> [] \<and>
    (\<exists>s \<in> set (suppressions d). sp_org s = org \<and> sp_channel s \<in> {fst (normalize ch (Some v)), ''all''}
        \<and> sp_value s = snd (normalize ch (Some v)))"
proof -
  let ?hits = "suppression_hits org (fst (normalize ch (Some v))) (snd (normalize ch (Some v))) (suppressions d)"
  have "(first_min (\<lambda>s. - sp_created s) ?hits = None) = (?hits = [])" by (rule first_min_None_iff)
  then show ?thesis
    by (auto simp: is_suppressed_def suppression_hits_def case_prod_beta filter_empty_conv split: option.splits)
qed

text \<open>The entry that an addition leaves behind, and what later operations do to it.\<close>

definition listed :: "ident \<Rightarrow> string \<Rightarrow> string \<Rightarrow> ident \<Rightarrow> pdb \<Rightarrow> bool" where
  "listed org ch v i d \<longleftrightarrow> (\<exists>s \<in> set (suppressions d). sp_id s = i \<and> sp_org s = org \<and> sp_channel s = ch \<and> sp_value s = v)"

lemma listed_upd:
  assumes "listed org ch v i d"
  shows "listed org ch v i (d\<lparr>suppressions := upd_where p
      (\<lambda>s. s\<lparr>sp_reason := why, sp_source := src, sp_created := now\<rparr>) (suppressions d)\<rparr>)"
proof -
  from assms obtain s where s: "s \<in> set (suppressions d)"
    "sp_id s = i" "sp_org s = org" "sp_channel s = ch" "sp_value s = v" by (auto simp: listed_def)
  let ?f = "\<lambda>s. s\<lparr>sp_reason := why, sp_source := src, sp_created := now\<rparr>"
  have "(if p s then ?f s else s) \<in> set (upd_where p ?f (suppressions d))"
    using s(1) by (auto simp: upd_where_def)
  with s show ?thesis by (auto simp: listed_def intro!: bexI [of _ "if p s then ?f s else s"])
qed

lemma add_lists:
  "listed org (fst (normalize ch (Some v))) (snd (normalize ch (Some v)))
     (fst (add now fresh org ch (Some v) why src d)) (snd (add now fresh org ch (Some v) why src d))"
proof -
  let ?p = "\<lambda>s. sp_org s = org \<and> sp_channel s = fst (normalize ch (Some v)) \<and> sp_value s = snd (normalize ch (Some v))"
  show ?thesis
  proof (cases "find ?p (suppressions d)")
    case None
    then show ?thesis by (simp add: add_def case_prod_beta listed_def)
  next
    case (Some e)
    then have "e \<in> set (suppressions d)" "?p e" by (auto simp: find_Some_iff)
    then have "listed org (fst (normalize ch (Some v))) (snd (normalize ch (Some v))) (sp_id e) d"
      by (auto simp: listed_def)
    with Some show ?thesis by (simp add: add_def case_prod_beta listed_upd)
  qed
qed

lemma add_keeps: "listed org ch v i d \<Longrightarrow> listed org ch v i (snd (add now fresh org' ch' v' why src d))"
  by (cases "find (\<lambda>s. sp_org s = org' \<and> sp_channel s = fst (normalize ch' v')
        \<and> sp_value s = snd (normalize ch' v')) (suppressions d)")
     (auto simp: add_def case_prod_beta listed_upd, auto simp: listed_def)

lemma remove_keeps: "listed org ch v i d \<Longrightarrow> j \<noteq> i \<Longrightarrow> listed org ch v i (snd (remove org' j d))"
  by (auto simp: remove_def listed_def delete_where_def)

text \<open>A history of the list: additions, bounces and removals.\<close>

datatype list_op =
    AddOp ts ident ident "string option" "string option" string string
  | BounceOp ts ident ident "string option" "string option"
  | RemoveOp ident ident

fun run_op :: "list_op \<Rightarrow> pdb \<Rightarrow> pdb" where
  "run_op (AddOp now fresh org ch v why src) d = snd (add now fresh org ch v why src d)"
| "run_op (BounceOp now fresh org email st) d = snd (suppress_bounced now fresh org email st d)"
| "run_op (RemoveOp org i) d = snd (remove org i d)"

lemma run_op_keeps:
  "listed org ch v i d \<Longrightarrow> \<forall>o'. op \<noteq> RemoveOp o' i \<Longrightarrow> listed org ch v i (run_op op d)"
  by (cases op) (auto simp: suppress_bounced_def add_keeps remove_keeps)

lemma run_ops_keep:
  "listed org ch v i d \<Longrightarrow> list_all (\<lambda>op. \<forall>o'. op \<noteq> RemoveOp o' i) ops \<Longrightarrow> listed org ch v i (fold run_op ops d)"
  by (induction ops arbitrary: d) (auto simp: run_op_keeps)

lemma organizations_run_ops [simp]: "organizations (fold run_op ops d) = organizations d"
proof (induction ops arbitrary: d)
  case (Cons op ops)
  have "organizations (run_op op d) = organizations d"
    by (cases op) (auto simp: add_def remove_def suppress_bounced_def case_prod_beta split: option.splits)
  with Cons show ?case by simp
qed simp

text \<open>C36: Do-not-contact holds: once a value has been put on an organization's list, no later history of
  additions, bounces and removals of other entries makes the gate answer ALLOW or REVIEW for that value
  on that channel (or on any channel, when it was listed for all), however the value is spelled in case
  and surrounding blanks.\<close>

theorem suppressed_never_contacted:
  assumes "add now fresh org ch (Some v) why src d = (i, d1)"
    and "list_all (\<lambda>op. \<forall>o'. op \<noteq> RemoveOp o' i) ops"
    and "w \<noteq> []" and "py_lower (py_strip w) = py_lower (py_strip v)"
    and "fst (normalize ch (Some v)) \<in> {fst (normalize ch' (Some w)), ''all''}"
    and "evaluate org ch' (Some w) recent baseline (fold run_op ops d1) = Some dec"
  shows "dc_decision dec = BLOCK \<and> dc_suppressed dec \<and> dc_reasons dec \<noteq> []"
proof -
  let ?d = "fold run_op ops d1"
  have "listed org (fst (normalize ch (Some v))) (snd (normalize ch (Some v))) i d1"
    using add_lists [of org ch v now fresh why src d] assms(1) by simp
  from run_ops_keep [OF this assms(2)] obtain s where
    "s \<in> set (suppressions ?d)" "sp_org s = org" "sp_channel s = fst (normalize ch (Some v))"
    "sp_value s = snd (normalize ch (Some v))" by (auto simp: listed_def)
  with assms(3,5) normalize_respelled [OF assms(4), of ch' ch]
  have "fst (is_suppressed org ch' (Some w) ?d)" by (auto simp: is_suppressed_iff)
  with assms(6) show ?thesis
    by (auto simp: evaluate_def case_prod_beta Let_def split: option.splits)
qed

definition demo_policy :: pdb where
  "demo_policy = \<lparr>suppressions = [], organizations = Some (\<lambda>_. None)\<rparr>"

lemma suppressed_never_contacted_witness:
  "dc_decision (the (evaluate ''o1'' (Some ''email'') (Some ''  A@X.com'') 1 5
     (fold run_op [AddOp 8 ''s2'' ''o1'' (Some ''email'') (Some ''b@y.com'') ''manual'' ''user'', RemoveOp ''o1'' ''s2'']
       (snd (add 5 ''s1'' ''o1'' (Some ''email'') (Some ''a@x.com'') ''unsubscribed'' ''user'' demo_policy))))) = BLOCK"
proof -
  let ?a = "add 5 ''s1'' ''o1'' (Some ''email'') (Some ''a@x.com'') ''unsubscribed'' ''user'' demo_policy"
  let ?ops = "[AddOp 8 ''s2'' ''o1'' (Some ''email'') (Some ''b@y.com'') ''manual'' ''user'', RemoveOp ''o1'' ''s2'']"
  let ?e = "evaluate ''o1'' (Some ''email'') (Some ''  A@X.com'') 1 5 (fold run_op ?ops (snd ?a))"
  have "organizations (fold run_op ?ops (snd ?a)) = Some (\<lambda>_. None)"
    by (simp only: organizations_run_ops) (simp add: demo_policy_def add_def case_prod_beta)
  then have e: "?e = Some (the ?e)"
    by (simp add: evaluate_def allowed_channels_def case_prod_beta Let_def del: fold_simps)
  have a: "?a = (''s1'', snd ?a)" by (simp add: add_def demo_policy_def case_prod_beta)
  have "py_lower (py_strip ''  A@X.com'') = py_lower (py_strip ''a@x.com'')" by code_simp
  moreover have "fst (normalize (Some ''email'') (Some ''a@x.com''))
      \<in> {fst (normalize (Some ''email'') (Some ''  A@X.com'')), ''all''}" by (simp add: normalize_def)
  ultimately show ?thesis
    using suppressed_never_contacted [OF a _ _ _ _ e] by simp
qed

text \<open>The gate's answer is decided by its three checks alone: BLOCK exactly when the value is suppressed or
  the channel is not enabled, REVIEW exactly when neither holds and the volume is more than ten times the
  baseline, ALLOW otherwise; and it gives a reason exactly when it does not allow.\<close>

theorem gate_decides_by_its_checks:
  assumes "evaluate org ch v recent baseline d = Some dec"
  shows "(dc_decision dec = BLOCK \<longleftrightarrow> fst (is_suppressed org ch v d) \<or> \<not> dc_channel_ok dec)
    \<and> (dc_decision dec = REVIEW \<longleftrightarrow> \<not> fst (is_suppressed org ch v d) \<and> dc_channel_ok dec
         \<and> 0 < baseline \<and> 10 * baseline < recent)
    \<and> (dc_reasons dec = [] \<longleftrightarrow> dc_decision dec = ALLOW)"
proof -
  have ratio: "(of_int recent / of_int baseline > (10 :: rat)) = (10 * baseline < recent)" if "0 < baseline"
  proof -
    have "(of_int recent / of_int baseline > (10 :: rat)) = ((of_int (10 * baseline) :: rat) < of_int recent)"
      using that by (simp add: pos_less_divide_eq)
    then show ?thesis by (simp only: of_int_less_iff)
  qed
  have "(risk_level recent baseline = HIGH) = (0 < baseline \<and> 10 * baseline < recent)"
    using ratio by (auto simp: risk_level_def Let_def max_def)
  with assms show ?thesis
    by (auto simp: evaluate_def case_prod_beta Let_def split: option.splits if_splits)
qed

lemma gate_decides_by_its_checks_witness:
  "dc_decision (the (evaluate ''o1'' (Some ''email'') (Some ''a@x.com'') 60 5 demo_policy)) = REVIEW"
proof -
  let ?e = "evaluate ''o1'' (Some ''email'') (Some ''a@x.com'') 60 5 demo_policy"
  have s: "\<not> fst (is_suppressed ''o1'' (Some ''email'') (Some ''a@x.com'') demo_policy)"
    by (simp add: is_suppressed_iff demo_policy_def)
  have e: "?e = Some (the ?e)"
    by (simp add: evaluate_def allowed_channels_def demo_policy_def case_prod_beta Let_def)
  have "dc_channel_ok (the ?e)"
    by (simp add: evaluate_def allowed_channels_def demo_policy_def case_prod_beta Let_def DEFAULT_LIMITS_def)
  with gate_decides_by_its_checks [OF e] s show ?thesis by simp
qed

subsection \<open>The daily job budget\<close>

text \<open>Work on a tenant's jobs within one day: guarded starts and any state transition.\<close>

datatype day_op = StartJob ts ident string | MoveJob ts ident job_state "string option"

fun op_time :: "day_op \<Rightarrow> ts" where
  "op_time (StartJob now fresh icp) = now"
| "op_time (MoveJob now jid to why) = now"

fun run_day_op :: "ident \<Rightarrow> pdb \<Rightarrow> day_op \<Rightarrow> jdb \<Rightarrow> jdb" where
  "run_day_op org d (StartJob now fresh icp) jd =
     (if fst (check_job_start now (Some org) d jd) then snd (create_job now fresh icp [] jd) else jd)"
| "run_day_op org d (MoveJob now jid to why) jd = snd (transition now jid to why jd)"

lemma rowcount_upd_where_le:
  "(\<And>r. p r \<Longrightarrow> q (f r) \<Longrightarrow> q r) \<Longrightarrow> rowcount q (upd_where p f t) \<le> rowcount q t"
  by (induction t) (auto simp: rowcount_def)

lemma move_counts_no_more:
  "rowcount (counts_today now org) (jobs (snd (transition t jid to why jd))) \<le> rowcount (counts_today now org) (jobs jd)"
proof (cases "transition t jid to why jd")
  case (Pair res d')
  show ?thesis
  proof (cases res)
    case (Inl e)
    with Pair transition_raises_unchanged have "d' = jd" by blast
    with Pair show ?thesis by simp
  next
    case (Inr x)
    with Pair have "transition t jid to why jd = (Inr x, d')" by simp
    then obtain r :: job where r: "to \<in> set (TRANSITIONS (j_state r))"
      "jobs d' = upd_where (\<lambda>y. j_id y = jid \<and> j_state y = j_state r) (set_state t to why) (jobs jd)"
      by (rule transition_ok) blast
    have "rowcount (counts_today now org) (jobs d') \<le> rowcount (counts_today now org) (jobs jd)"
      unfolding r(2) by (rule rowcount_upd_where_le) (use r(1) in \<open>auto simp: counts_today_def set_state_def\<close>)
    with Pair show ?thesis by simp
  qed
qed

lemma run_day_op_bound:
  assumes "day_start (op_time op) = day_start now" and "org \<noteq> []"
  shows "int (rowcount (counts_today now org) (jobs (run_day_op org d op jd)))
    \<le> max (int (rowcount (counts_today now org) (jobs jd))) (l_jobs (get_limits (Some org) d))"
proof (cases op)
  case (StartJob t fresh icp)
  with assms have same: "counts_today t org = counts_today now org" by (auto simp: counts_today_def)
  have "rowcount (counts_today now org) (jobs (snd (create_job t fresh icp [] jd)))
      \<le> rowcount (counts_today now org) (jobs jd) + 1"
    by (simp add: create_job_def rowcount_def)
  with StartJob assms(2) same show ?thesis
    by (auto simp: check_job_start_def Let_def split: if_splits)
next
  case (MoveJob t jid to why)
  with move_counts_no_more [of now org t jid to why jd] show ?thesis by simp
qed

text \<open>The plan's daily job budget cannot be exceeded: however guarded starts and state changes of jobs
  follow one another within a UTC day, the jobs of the organization that count towards the day (those
  that neither failed nor were cancelled) never number more than the plan allows, or than there were
  when the history began.\<close>

theorem daily_job_budget_kept:
  assumes "list_all (\<lambda>op. day_start (op_time op) = day_start now) ops" and "org \<noteq> []"
  shows "int (rowcount (counts_today now org) (jobs (fold (run_day_op org d) ops jd)))
    \<le> max (int (rowcount (counts_today now org) (jobs jd))) (l_jobs (get_limits (Some org) d))"
  using assms(1)
proof (induction ops arbitrary: jd)
  case (Cons op ops)
  then have op: "day_start (op_time op) = day_start now"
    and "int (rowcount (counts_today now org) (jobs (fold (run_day_op org d) ops (run_day_op org d op jd))))
      \<le> max (int (rowcount (counts_today now org) (jobs (run_day_op org d op jd)))) (l_jobs (get_limits (Some org) d))"
    by auto
  with run_day_op_bound [OF op assms(2), of d jd] show ?case by simp
qed simp

lemma daily_job_budget_kept_witness:
  "int (rowcount (counts_today 100 ''o1'') (jobs (fold (run_day_op ''o1'' demo_policy)
     [StartJob 10 ''j1'' ''icp'', StartJob 20 ''j2'' ''icp''] (empty_db (Some ''o1''))))) \<le> 10"
proof -
  have "rowcount (counts_today 100 ''o1'') (jobs (empty_db (Some ''o1''))) = 0"
    by (simp add: empty_db_def rowcount_def)
  moreover have "l_jobs (get_limits (Some ''o1'') demo_policy) = 10"
    by (simp add: get_limits_def demo_policy_def DEFAULT_LIMITS_def)
  ultimately show ?thesis
    using daily_job_budget_kept [of 100 "[StartJob 10 ''j1'' ''icp'', StartJob 20 ''j2'' ''icp'']" "''o1''"
        demo_policy "empty_db (Some ''o1'')"] by (simp add: day_start_def)
qed

end
