(* ===== verification/Router.thy ===== *)
theory Router
  imports Registry Cache OutreachPolicy
begin

section \<open>The provider router (lead_engine/router.py)\<close>

text \<open>
  \<open>Router.route\<close>: the cache, the plan's call budget, the waterfall over the providers of a task with its
  guards, the credit-aware rotation before a call, the retry loop with its per-error reactions, and the
  booking of the result.  The outside world is the argument \<open>respond\<close>: what the n-th request of the run
  yields from an adapter in its current configuration and how many milliseconds it takes; every behaviour
  of the providers is one such function.  An exception that is not a ProviderError leaves the call as it
  leaves the source, uncaught.
\<close>

record answer =
  an_body :: string
  an_units :: rat
  an_remaining :: "int option"
  an_credits :: "rat option"
  an_prompt :: int
  an_completion :: int

datatype call_result = Answers answer | Fails provider_error | Crashes string

type_synonym responder = "nat \<Rightarrow> adapter \<Rightarrow> string \<Rightarrow> string \<Rightarrow> call_result \<times> int"

record world =
  w_reg :: rdb
  w_cache :: "cache_row list"
  w_credits :: credit_ledger
  w_adapters :: "string \<Rightarrow> adapter option"
  w_ms :: int
  w_calls :: "(string \<times> nat) list"

record settings =
  cf_cooldown :: int
  cf_unavailable :: int
  cf_window :: int
  cf_env :: "string \<Rightarrow> string option"
  cf_ttl :: "string \<Rightarrow> int option"
  cf_digest :: "document \<Rightarrow> string"
  cf_policy :: pdb

definition now_of :: "world \<Rightarrow> ts" where
  "now_of w = sec_of (w_ms w)"

definition today_of :: "world \<Rightarrow> int" where
  "today_of w = now_of w div 86400"

definition reg :: "(rdb \<Rightarrow> rdb) \<Rightarrow> world \<Rightarrow> world" where
  "reg f w = w\<lparr>w_reg := f (w_reg w)\<rparr>"

definition set_adapter :: "string \<Rightarrow> adapter \<Rightarrow> world \<Rightarrow> world" where
  "set_adapter name a w = w\<lparr>w_adapters := (w_adapters w)(name := Some a)\<rparr>"

text \<open>One request: the log of calls grows by the adapter and the key used, and time passes.\<close>

definition request :: "responder \<Rightarrow> string \<Rightarrow> adapter \<Rightarrow> string \<Rightarrow> string \<Rightarrow> world \<Rightarrow> (call_result \<times> int) \<times> world" where
  "request respond name a task payload w =
     (let (res, ms) = respond (length (w_calls w)) a task payload
      in ((res, ms), w\<lparr>w_ms := w_ms w + ms, w_calls := w_calls w @ [(name, ad_index a)]\<rparr>))"

definition note_failure :: "string \<Rightarrow> string \<Rightarrow> string option \<Rightarrow> string \<Rightarrow> string \<Rightarrow> int \<Rightarrow> world \<Rightarrow> world" where
  "note_failure name task job kind status ms w =
     reg (record_usage (now_of w) name task job 0 kind status ms 0 0 None) w"

definition mark_provider ::
  "string \<Rightarrow> string \<Rightarrow> pstatus \<Rightarrow> string \<Rightarrow> rat option \<Rightarrow> world \<Rightarrow> world" where
  "mark_provider name task st why secs w =
     reg (\<lambda>d. snd (mark (w_ms w) name task st (Some why) secs d)) w"

definition tag :: "string \<Rightarrow> string \<Rightarrow> string" where
  "tag name what = name @ '':'' @ what"

definition key_tag :: "string \<Rightarrow> nat \<Rightarrow> string \<Rightarrow> string" where
  "key_tag name i why = tag name (''key'' @ show_nat i @ ''('' @ why @ '')'')"

datatype attempt_end = Got answer int | GaveUp | Raised string

text \<open>
  The three errors that a further key of the pool may cure: the ledger status they leave, the tags they
  put on the trace when a key is rotated and when the pool is spent, and the mark of the provider then.
\<close>

fun pool_error :: "settings \<Rightarrow> provider_error \<Rightarrow> (string \<times> string \<times> string \<times> pstatus \<times> string \<times> rat option) option" where
  "pool_error cf (RateLimited m after) =
     Some (''rate_limited'', ''429'', ''429'', Cooldown, m,
           Some (case after of None \<Rightarrow> of_int (cf_cooldown cf)
                 | Some s \<Rightarrow> if s = 0 then of_int (cf_cooldown cf) else s))"
| "pool_error cf (QuotaExhausted m) = Some (''quota'', ''quota'', ''quota'', Exhausted, m, None)"
| "pool_error cf (ProviderAuthError m) =
     Some (''auth_error'', ''auth'', ''auth_rejected'', Cooldown, m, Some (of_int (cf_unavailable cf)))"
| "pool_error cf (ProviderUnavailable m) = None"
| "pool_error cf (ProviderError m) = None"

text \<open>
  The retry loop of one provider.  A key that is rate limited, out of quota or rejected makes way for the
  next key of the pool; a server error is retried twice after a pause of two and then four seconds;
  what cannot be helped marks the provider and gives up.
\<close>

function try_provider ::
  "responder \<Rightarrow> settings \<Rightarrow> string \<Rightarrow> string \<Rightarrow> string option \<Rightarrow> string \<Rightarrow> string \<Rightarrow> nat \<Rightarrow> nat \<Rightarrow> nat
     \<Rightarrow> adapter \<Rightarrow> string list \<Rightarrow> world \<Rightarrow> (attempt_end \<times> adapter \<times> string list) \<times> world" where
  "try_provider respond cf name task job kind payload pool key_try retry a tried w =
     (if key_try \<ge> pool then ((GaveUp, a, tried), w)
      else let ((res, ms), w1) = request respond name a task payload w
           in case res of
                Answers ans \<Rightarrow> ((Got ans ms, a, tried), w1)
              | Crashes e \<Rightarrow> ((Raised e, a, tried), w1)
              | Fails err \<Rightarrow>
                 (case pool_error cf err of
                    Some (status, why, spent, st, m, secs) \<Rightarrow>
                      (let w2 = note_failure name task job kind status ms w1; (more, a') = rotate_key a
                       in if more
                          then try_provider respond cf name task job kind payload pool (key_try + 1) retry a'
                                 (tried @ [key_tag name (ad_index a') why]) w2
                          else ((GaveUp, a, tried @ [tag name spent]), mark_provider name task st m secs w2))
                  | None \<Rightarrow>
                     (case err of
                        ProviderError m \<Rightarrow>
                          ((GaveUp, a, tried @ [tag name (''error('' @ m @ '')'')]),
                           note_failure name task job kind ''error'' ms w1)
                      | ProviderUnavailable m \<Rightarrow>
                          (if retry < 2
                           then try_provider respond cf name task job kind payload pool key_try (retry + 1) a
                                  (tried @ [tag name (''retry5xx#'' @ show_nat (retry + 1))])
                                  (w1\<lparr>w_ms := w_ms w1 + 2000 * int (retry + 1)\<rparr>)
                           else ((GaveUp, a, tried @ [tag name ''unavailable'']),
                                 mark_provider name task Cooldown m (Some (of_int (cf_unavailable cf))) w1))
                      | _ \<Rightarrow> ((GaveUp, a, tried), w1))))"
  by pat_completeness auto
termination
  by (relation "measure (\<lambda>(respond, cf, name, task, job, kind, payload, pool, key_try, retry, a, tried, w).
        (pool - key_try) + (2 - retry))") auto

declare try_provider.simps [simp del]

subsection \<open>The waterfall\<close>

definition key_counts :: "world \<Rightarrow> string \<Rightarrow> nat option" where
  "key_counts w name = map_option (\<lambda>a. max 1 (length (keys a))) (w_adapters w name)"

datatype route_error = NoProviderAvailable string "string list" | Uncaught string

record routed =
  ro_body :: string
  ro_provider :: string
  ro_cached :: bool
  ro_latency :: int

fun status_name :: "pstatus \<Rightarrow> string" where
  "status_name Active = ''active''"
| "status_name Exhausted = ''exhausted''"
| "status_name Cooldown = ''cooldown''"
| "status_name Unavailable = ''unavailable''"

text \<open>Why a candidate is passed over, if it is; the window check also marks the provider.\<close>

datatype guard = Skip string | SkipRpm | Call adapter

definition guard_of :: "settings \<Rightarrow> string \<Rightarrow> candidate \<Rightarrow> world \<Rightarrow> guard" where
  "guard_of cf task c w =
     (let r = cd_row c; name = pr_name r in
      case w_adapters w name of
        None \<Rightarrow> Skip (tag name ''no_key'')
      | Some a \<Rightarrow>
          if \<not> available a then Skip (tag name ''no_key'')
          else if \<not> cd_usable c then Skip (tag name (status_name (pr_status r)))
          else case pr_rpm r of
                 None \<Rightarrow> Call a
               | Some rpm \<Rightarrow>
                   if rpm \<noteq> 0 \<and> int (count_recent_requests (w_ms w) name task (cf_window cf) (w_reg w)) \<ge> rpm
                   then SkipRpm else Call a)"

definition has_credit_pool :: "adapter \<Rightarrow> bool" where
  "has_credit_pool a \<longleftrightarrow> length (keys a) > 1 \<and> ad_daily_budget a \<noteq> None"

definition rotate_ahead :: "adapter \<Rightarrow> world \<Rightarrow> adapter" where
  "rotate_ahead a w =
     (if has_credit_pool a then snd (rotate_for_budget (today_of w) (w_credits w) (ad_probe a) a) else a)"

text \<open>What a call cost: the credits reported, when there are any, else the estimate.\<close>

definition call_cost :: "adapter \<Rightarrow> attempt_end \<Rightarrow> rat" where
  "call_cost a e = (case e of
     Got ans ms \<Rightarrow> (case an_credits ans of Some c \<Rightarrow> if c = 0 then ad_probe a else c | None \<Rightarrow> ad_probe a)
   | _ \<Rightarrow> ad_probe a)"

definition book_credits :: "bool \<Rightarrow> string \<Rightarrow> adapter \<Rightarrow> attempt_end \<Rightarrow> world \<Rightarrow> world" where
  "book_credits pooled name a e w =
     (if pooled then w\<lparr>w_credits := note_credit_spend (today_of w) name (ad_index a) (call_cost a e) (w_credits w)\<rparr>
      else w)"

definition book_answer ::
  "settings \<Rightarrow> bool \<Rightarrow> string \<Rightarrow> string \<Rightarrow> string \<Rightarrow> string option \<Rightarrow> string \<Rightarrow> nat \<Rightarrow> adapter \<Rightarrow> answer \<Rightarrow> int
     \<Rightarrow> string \<Rightarrow> world \<Rightarrow> world" where
  "book_answer cf use_cache data_type name task job kind mult a ans ms payload w =
     (let w1 = reg (record_usage (now_of w) name task job (an_units ans) kind ''ok'' ms (an_prompt ans)
                      (an_completion ans) (Some (ad_index a))) w;
          w2 = reg (add_quota_used (w_ms w1) name task (an_units ans) mult) w1;
          w3 = reg (set_rpm_from_headers (w_ms w2) name task (an_remaining ans)) w2
      in if use_cache
         then w3\<lparr>w_cache := put_request (cf_digest cf) (now_of w3) (cf_ttl cf) (rg_org (w_reg w3)) task payload
                   (an_body ans) data_type (w_cache w3)\<rparr>
         else w3)"

fun waterfall ::
  "responder \<Rightarrow> settings \<Rightarrow> bool \<Rightarrow> string \<Rightarrow> string \<Rightarrow> string \<Rightarrow> string option \<Rightarrow> (string \<Rightarrow> nat option)
     \<Rightarrow> candidate list \<Rightarrow> string list \<Rightarrow> world \<Rightarrow> (route_error + routed) \<times> world" where
  "waterfall respond cf use_cache data_type task payload job kc [] tried w =
     (Inl (NoProviderAvailable task tried), w)"
| "waterfall respond cf use_cache data_type task payload job kc (c # cs) tried w =
     (let name = pr_name (cd_row c); kind = pr_kind (cd_row c) in
      case guard_of cf task c w of
        Skip why \<Rightarrow> waterfall respond cf use_cache data_type task payload job kc cs (tried @ [why]) w
      | SkipRpm \<Rightarrow>
          waterfall respond cf use_cache data_type task payload job kc cs (tried @ [tag name ''rpm''])
            (mark_provider name task Cooldown ''local RPM window'' (Some (of_int (cf_window cf))) w)
      | Call a0 \<Rightarrow>
          (let a1 = rotate_ahead (configure (cd_row c) a0) w; pooled = has_credit_pool a0; pool = max 1 (length (keys a0));
               ((e, a2, tried'), w1) =
                 try_provider respond cf name task job kind payload pool 0 0 a1 tried w;
               w2 = set_adapter name a2 w1
           in case e of
                Raised x \<Rightarrow> (Inl (Uncaught x), w2)
              | GaveUp \<Rightarrow> waterfall respond cf use_cache data_type task payload job kc cs tried'
                            (book_credits pooled name a2 e w2)
              | Got ans ms \<Rightarrow>
                  (Inr \<lparr>ro_body = an_body ans, ro_provider = name, ro_cached = False, ro_latency = ms\<rparr>,
                   book_answer cf use_cache data_type name task job kind (or_default (kc name) 1) a2 ans ms payload
                     (book_credits pooled name a2 e w2))))"

text \<open>A pinned provider leads the waterfall and excludes nobody.\<close>

definition order_rows :: "string option \<Rightarrow> candidate list \<Rightarrow> candidate list" where
  "order_rows prefer rows =
     (if truthy prefer
      then filter (\<lambda>c. pr_name (cd_row c) = the prefer) rows @ filter (\<lambda>c. pr_name (cd_row c) \<noteq> the prefer) rows
      else rows)"

definition ledger_entries :: "rdb \<Rightarrow> (ident option \<times> ts) list" where
  "ledger_entries d = map (\<lambda>u. (us_org u, us_ts u)) (rg_usage d)"

definition budget_left :: "settings \<Rightarrow> world \<Rightarrow> bool" where
  "budget_left cf w =
     (case rg_org (w_reg w) of
        None \<Rightarrow> True
      | Some org \<Rightarrow> org = [] \<or> starts_with org ''__''
          \<or> check_provider_call (now_of w) (Some org) (cf_policy cf) (ledger_entries (w_reg w)))"

definition route ::
  "responder \<Rightarrow> settings \<Rightarrow> bool \<Rightarrow> string option \<Rightarrow> string option \<Rightarrow> string \<Rightarrow> string \<Rightarrow> string option
     \<Rightarrow> world \<Rightarrow> (route_error + routed) \<times> world" where
  "route respond cf use_cache cache_type prefer task payload job w =
     (case (if use_cache then get_request (cf_digest cf) (now_of w) (rg_org (w_reg w)) task payload (w_cache w)
            else None) of
        Some hit \<Rightarrow>
          (Inr \<lparr>ro_body = hit, ro_provider = ''cache'', ro_cached = True, ro_latency = 0\<rparr>, w)
      | None \<Rightarrow>
          if \<not> budget_left cf w
          then (Inl (NoProviderAvailable task [''entitlement:daily_provider_calls'']), w)
          else let kc = key_counts w;
                   (rows, d) = providers_for_task (cf_env cf) (now_of w) task kc (w_reg w);
                   w1 = w\<lparr>w_reg := d\<rparr>; rows' = order_rows prefer rows
               in if truthy prefer \<and> rows' = []
                  then (Inl (NoProviderAvailable task [tag (the prefer) ''not_registered'']), w1)
                  else waterfall respond cf use_cache (if truthy cache_type then the cache_type else task)
                         task payload job kc rows' [] w1)"

subsection \<open>One provider\<close>

lemma rotate_key_keeps:
  "rotate_key a = (rot, a') \<Longrightarrow> keys a' = keys a \<and> ad_name a' = ad_name a \<and> (rot \<longrightarrow> ad_index a' = ad_index a + 1)"
  by (auto simp: rotate_key_def keys_def split: if_splits)

lemma reg_simps [simp]:
  "w_calls (reg f w) = w_calls w" "w_adapters (reg f w) = w_adapters w" "w_ms (reg f w) = w_ms w"
  by (simp_all add: reg_def)

lemma bookkeeping_simps [simp]:
  "w_calls (note_failure name task job kind st ms w) = w_calls w"
  "w_adapters (note_failure name task job kind st ms w) = w_adapters w"
  "w_calls (mark_provider name task ps m secs w) = w_calls w"
  "w_adapters (mark_provider name task ps m secs w) = w_adapters w"
  by (simp_all add: note_failure_def mark_provider_def)

text \<open>What a run of the retry loop leaves behind: its calls, its trace and, when it got an answer, where the
  answer came from.\<close>

definition ran_well ::
  "responder \<Rightarrow> string \<Rightarrow> string \<Rightarrow> string \<Rightarrow> nat \<Rightarrow> attempt_end \<Rightarrow> (string \<times> nat) list \<Rightarrow> string list \<Rightarrow> bool" where
  "ran_well respond name task payload bound e new trace \<longleftrightarrow>
     new \<noteq> [] \<and> set (map fst new) \<subseteq> {name} \<and> length new \<le> bound \<and> list_all (\<lambda>t. starts_with t (tag name [])) trace
     \<and> (case e of Got ans ms \<Rightarrow> (\<exists>n a. respond n a task payload = (Answers ans, ms))
        | GaveUp \<Rightarrow> trace \<noteq> [] | Raised x \<Rightarrow> True)"

lemma ran_well_more:
  "ran_well respond name task payload bound e new trace \<Longrightarrow>
    ran_well respond name task payload (Suc bound) e ((name, i) # new) (tag name what # trace)"
  by (auto simp: ran_well_def tag_def starts_with_iff split: attempt_end.splits)

lemma key_tag_is_tag: "\<exists>what. key_tag name i why = tag name what"
  unfolding key_tag_def by blast

definition runs_well ::
  "responder \<Rightarrow> string \<Rightarrow> string \<Rightarrow> string \<Rightarrow> nat \<Rightarrow> nat \<Rightarrow> nat \<Rightarrow> string list \<Rightarrow> world
     \<Rightarrow> (attempt_end \<times> adapter \<times> string list) \<times> world \<Rightarrow> bool" where
  "runs_well respond name task payload pool key_try retry tried w out \<longleftrightarrow>
     (case out of ((e, a', tried'), w') \<Rightarrow>
       \<exists>new trace. w_calls w' = w_calls w @ new \<and> tried' = tried @ trace \<and> w_adapters w' = w_adapters w
         \<and> (if key_try < pool then ran_well respond name task payload (pool - key_try + (2 - retry)) e new trace
            else new = [] \<and> trace = [] \<and> e = GaveUp))"

lemma runs_well_more:
  assumes "runs_well respond name task payload pool k r (tried @ [tag name what]) w1 out"
    and "w_calls w1 = w_calls w @ [(name, i)]" and "w_adapters w1 = w_adapters w"
    and "key_try < pool" and "pool - k + (2 - r) < pool - key_try + (2 - retry)"
  shows "runs_well respond name task payload pool key_try retry tried w out"
proof -
  obtain e a' tried' w' where out: "out = ((e, a', tried'), w')" by (metis prod.exhaust)
  with assms(1) obtain new trace where n: "w_calls w' = w_calls w1 @ new" "tried' = (tried @ [tag name what]) @ trace"
    "w_adapters w' = w_adapters w1"
    "if k < pool then ran_well respond name task payload (pool - k + (2 - r)) e new trace
     else new = [] \<and> trace = [] \<and> e = GaveUp"
    by (auto simp: runs_well_def)
  have "ran_well respond name task payload (pool - key_try + (2 - retry)) e ((name, i) # new) (tag name what # trace)"
    using n(4) assms(4,5)
    by (auto simp: ran_well_def tag_def starts_with_iff split: attempt_end.splits if_splits)
  with n out assms(2-4) show ?thesis
    by (auto simp: runs_well_def intro!: exI [of _ "(name, i) # new"] exI [of _ "tag name what # trace"])
qed

lemma runs_well_last:
  assumes "w_calls w' = w_calls w @ [(name, i)]" and "w_adapters w' = w_adapters w" and "key_try < pool"
    and "trace = [] \<or> (\<exists>what. trace = [tag name what])"
    and "case e of Got ans ms \<Rightarrow> (\<exists>n a. respond n a task payload = (Answers ans, ms))
         | GaveUp \<Rightarrow> trace \<noteq> [] | Raised x \<Rightarrow> True"
  shows "runs_well respond name task payload pool key_try retry tried w ((e, a', tried @ trace), w')"
  using assms
  by (auto simp: runs_well_def ran_well_def tag_def starts_with_iff split: attempt_end.splits)

lemma request_simps:
  assumes "request respond name a task payload w = ((res, ms), w1)"
  shows "w_calls w1 = w_calls w @ [(name, ad_index a)] \<and> w_adapters w1 = w_adapters w
    \<and> respond (length (w_calls w)) a task payload = (res, ms)"
  using assms by (auto simp: request_def Let_def split: prod.splits)

lemma try_provider_runs_well:
  "runs_well respond name task payload pool key_try retry tried w
     (try_provider respond cf name task job kind payload pool key_try retry a tried w)"
proof (induction "(pool - key_try) + (2 - retry)" arbitrary: key_try retry a tried w rule: less_induct)
  case less
  show ?case
  proof (cases "key_try < pool")
    case False
    then show ?thesis by (subst try_provider.simps) (simp add: runs_well_def)
  next
    case True
    obtain res ms w1 where rq: "request respond name a task payload w = ((res, ms), w1)"
      by (metis prod.exhaust)
    note sim = request_simps [OF rq]
    show ?thesis
    proof (cases res)
      case (Answers ans)
      have "runs_well respond name task payload pool key_try retry tried w ((Got ans ms, a, tried @ []), w1)"
        by (rule runs_well_last) (use True sim Answers in auto)
      with True Answers show ?thesis by (subst try_provider.simps) (auto simp: rq)
    next
      case (Crashes x)
      have "runs_well respond name task payload pool key_try retry tried w ((Raised x, a, tried @ []), w1)"
        by (rule runs_well_last) (use True sim Crashes in auto)
      with True Crashes show ?thesis by (subst try_provider.simps) (auto simp: rq)
    next
      case (Fails err)
      show ?thesis
      proof (cases "pool_error cf err")
        case (Some pe)
        obtain status why spent st m secs where pe: "pe = (status, why, spent, st, m, secs)" by (metis prod.exhaust)
        obtain rot a' where rot: "rotate_key a = (rot, a')" by (metis prod.exhaust)
        let ?w2 = "note_failure name task job kind status ms w1"
        obtain what where what: "key_tag name (ad_index a') why = tag name what" using key_tag_is_tag by blast
        have step: "runs_well respond name task payload pool key_try retry tried w
            (try_provider respond cf name task job kind payload pool (key_try + 1) retry a'
               (tried @ [tag name what]) ?w2)"
          by (rule runs_well_more [OF less]) (use True sim in auto)
        have stop: "runs_well respond name task payload pool key_try retry tried w
            ((GaveUp, a, tried @ [tag name spent]), mark_provider name task st m secs ?w2)"
          by (rule runs_well_last) (use True sim in auto)
        show ?thesis
          using True Fails Some pe rot step [folded what] stop
          by (subst try_provider.simps) (auto simp: rq Let_def)
      next
        case None
        have again: "runs_well respond name task payload pool key_try retry tried w
            (try_provider respond cf name task job kind payload pool key_try (retry + 1) a
               (tried @ [tag name (''retry5xx#'' @ show_nat (retry + 1))])
               (w1\<lparr>w_ms := w_ms w1 + 2000 * int (retry + 1)\<rparr>))" if "retry < 2"
          by (rule runs_well_more [OF less]) (use True sim that in auto)
        have stop: "runs_well respond name task payload pool key_try retry tried w
            ((GaveUp, a, tried @ [tag name what]), w2)"
          if "w_calls w2 = w_calls w1" "w_adapters w2 = w_adapters w1" for what w2
          by (rule runs_well_last) (use True sim that in auto)
        show ?thesis
        proof (cases err)
          case (ProviderUnavailable m)
          with True Fails None again stop show ?thesis
            by (subst try_provider.simps) (auto simp: rq Let_def)
        next
          case (ProviderError m)
          with True Fails None stop show ?thesis
            by (subst try_provider.simps) (auto simp: rq Let_def)
        qed (use None in auto)
      qed
    qed
  qed
qed

subsection \<open>The waterfall, read as a whole\<close>

definition cand_name :: "candidate \<Rightarrow> string" where
  "cand_name c = pr_name (cd_row c)"

definition pool_of :: "world \<Rightarrow> string \<Rightarrow> nat" where
  "pool_of w p = (case w_adapters w p of None \<Rightarrow> 0 | Some a \<Rightarrow> max 1 (length (keys a)))"

definition callable :: "world \<Rightarrow> candidate \<Rightarrow> bool" where
  "callable w c \<longleftrightarrow> cd_usable c \<and> (case w_adapters w (cand_name c) of None \<Rightarrow> False | Some a \<Rightarrow> available a)"

definition calls_to :: "string \<Rightarrow> (string \<times> nat) list \<Rightarrow> nat" where
  "calls_to p new = length (filter (\<lambda>x. fst x = p) new)"

definition calls_ok :: "world \<Rightarrow> candidate list \<Rightarrow> (string \<times> nat) list \<Rightarrow> bool" where
  "calls_ok w cs new \<longleftrightarrow> (\<forall>p. calls_to p new \<le> pool_of w p + 2)
     \<and> fst ` set new \<subseteq> cand_name ` {c \<in> set cs. callable w c}"

fun result_ok ::
  "responder \<Rightarrow> string \<Rightarrow> string \<Rightarrow> world \<Rightarrow> candidate list \<Rightarrow> string list \<Rightarrow> (string \<times> nat) list \<Rightarrow> (route_error + routed) \<Rightarrow> bool" where
  "result_ok respond task payload w cs tried new (Inr r) =
     (\<exists>pre c post. cs = pre @ c # post \<and> cand_name c = ro_provider r \<and> callable w c \<and> \<not> ro_cached r
        \<and> new \<noteq> [] \<and> fst (last new) = ro_provider r \<and> fst ` set new \<subseteq> cand_name ` set (pre @ [c])
        \<and> (\<exists>n a ans. respond n a task payload = (Answers ans, ro_latency r) \<and> ro_body r = an_body ans))"
| "result_ok respond task payload w cs tried new (Inl (Uncaught x)) = True"
| "result_ok respond task payload w cs tried new (Inl (NoProviderAvailable t tr)) =
     (t = task \<and> (\<exists>trace. tr = tried @ trace \<and>
        (\<forall>c \<in> set cs. \<exists>x \<in> set trace. starts_with x (tag (cand_name c) []))))"

lemma guard_of_Call:
  assumes "guard_of cf task c w = Call a"
  shows "w_adapters w (cand_name c) = Some a" and "callable w c"
  using assms by (auto simp: guard_of_def Let_def callable_def cand_name_def split: option.splits if_splits)

lemma guard_of_Skip:
  assumes "guard_of cf task c w = Skip why"
  shows "starts_with why (tag (cand_name c) [])"
  using assms by (auto simp: guard_of_def Let_def cand_name_def tag_def starts_with_iff split: option.splits if_splits)

lemma book_calls [simp]:
  "w_calls (book_credits pooled name a e w) = w_calls w"
  "w_adapters (book_credits pooled name a e w) = w_adapters w"
  "w_calls (book_answer cf uc dt name task job kind mult a ans ms payload w) = w_calls w"
  "w_calls (set_adapter name a w) = w_calls w"
  by (simp_all add: book_credits_def book_answer_def Let_def set_adapter_def)

lemma callable_other:
  "w_adapters w' = (w_adapters w)(name := x) \<Longrightarrow> cand_name c \<noteq> name \<Longrightarrow> callable w' c = callable w c"
  by (simp add: callable_def)

lemma result_ok_later:
  assumes "result_ok respond task payload w' cs (tried @ trace) new2 res"
    and "w_adapters w' = (w_adapters w)(cand_name c := x)" and "cand_name c \<notin> cand_name ` set cs"
    and "fst ` set new1 \<subseteq> {cand_name c}" and "trace = [] \<or> starts_with (hd trace) (tag (cand_name c) [])" and "trace \<noteq> []"
  shows "result_ok respond task payload w (c # cs) tried (new1 @ new2) res"
proof (cases res)
  case (Inr r)
  with assms(1) obtain pre d post n a ans where
    cs: "cs = pre @ d # post" "cand_name d = ro_provider r" "callable w' d" "\<not> ro_cached r" "new2 \<noteq> []"
      "fst (last new2) = ro_provider r" "fst ` set new2 \<subseteq> cand_name ` set (pre @ [d])"
      "respond n a task payload = (Answers ans, ro_latency r)" "ro_body r = an_body ans"
    by auto
  then have "callable w d" using callable_other [OF assms(2)] assms(3) by force
  moreover have "fst ` set (new1 @ new2) \<subseteq> cand_name ` set ((c # pre) @ [d])"
    using cs(7) assms(4) by auto
  ultimately have "c # cs = (c # pre) @ d # post \<and> cand_name d = ro_provider r \<and> callable w d \<and> \<not> ro_cached r
      \<and> new1 @ new2 \<noteq> [] \<and> fst (last (new1 @ new2)) = ro_provider r
      \<and> fst ` set (new1 @ new2) \<subseteq> cand_name ` set ((c # pre) @ [d])
      \<and> (\<exists>n a ans. respond n a task payload = (Answers ans, ro_latency r) \<and> ro_body r = an_body ans)"
    using cs by auto
  then show ?thesis unfolding Inr result_ok.simps by blast
next
  case (Inl e)
  show ?thesis
  proof (cases e)
    case (NoProviderAvailable t tr)
    with Inl assms(1) obtain trace2 where t2: "t = task" "tr = tried @ (trace @ trace2)"
      "\<forall>d \<in> set cs. \<exists>x \<in> set trace2. starts_with x (tag (cand_name d) [])" by auto
    moreover have "hd trace \<in> set (trace @ trace2)" using assms(6) by simp
    ultimately have "\<forall>d \<in> set (c # cs). \<exists>x \<in> set (trace @ trace2). starts_with x (tag (cand_name d) [])"
      using assms(5,6) by (metis Un_iff set_ConsD set_append)
    with t2(1,2) NoProviderAvailable Inl show ?thesis unfolding NoProviderAvailable Inl result_ok.simps by blast
  qed (simp add: Inl)
qed

lemma result_ok_first:
  assumes "callable w c" and "new \<noteq> []" and "fst ` set new \<subseteq> {cand_name c}"
    and "respond n a task payload = (Answers ans, ms)"
  shows "result_ok respond task payload w (c # cs) tried new
    (Inr \<lparr>ro_body = an_body ans, ro_provider = cand_name c, ro_cached = False, ro_latency = ms\<rparr>)"
proof -
  have "fst (last new) = cand_name c" using assms(3) last_in_set [OF assms(2)] by blast
  with assms have "c # cs = [] @ c # cs \<and> cand_name c = cand_name c \<and> callable w c \<and> \<not> False \<and> new \<noteq> []
      \<and> fst (last new) = cand_name c \<and> fst ` set new \<subseteq> cand_name ` set ([] @ [c])
      \<and> (\<exists>n a ans'. respond n a task payload = (Answers ans', ms) \<and> an_body ans = an_body ans')"
    by auto
  then show ?thesis unfolding result_ok.simps routed.simps by blast
qed

lemma calls_ok_first:
  assumes "w_calls w1 = w_calls w @ new" and "callable w c"
    and "fst ` set new \<subseteq> {cand_name c}" and "length new \<le> pool_of w (cand_name c) + 2"
  shows "calls_ok w (c # cs) new"
proof -
  have "calls_to p new \<le> pool_of w p + 2" for p
  proof (cases "p = cand_name c")
    case True
    with assms(4) show ?thesis
      unfolding calls_to_def by (metis (no_types) length_filter_le order_trans)
  next
    case False
    then have "filter (\<lambda>x. fst x = p) new = []" using assms(3) by (force simp: filter_empty_conv)
    then show ?thesis by (simp add: calls_to_def)
  qed
  moreover have "fst ` set new \<subseteq> cand_name ` {d \<in> set (c # cs). callable w d}"
    using assms(2,3) by force
  ultimately show ?thesis by (simp add: calls_ok_def)
qed

lemma calls_to_none: "p \<notin> fst ` set new \<Longrightarrow> calls_to p new = 0"
  by (auto simp: calls_to_def filter_empty_conv image_iff)

lemma calls_to_append [simp]: "calls_to p (xs @ ys) = calls_to p xs + calls_to p ys"
  by (simp add: calls_to_def)

lemma calls_to_le: "calls_to p new \<le> length new"
  by (simp add: calls_to_def)

lemma calls_ok_later:
  assumes "calls_ok w' cs new2" and "w_adapters w' = (w_adapters w)(cand_name c := x)"
    and "cand_name c \<notin> cand_name ` set cs" and "fst ` set new1 \<subseteq> {cand_name c}"
    and "length new1 \<le> pool_of w (cand_name c) + 2" and "new1 = [] \<or> callable w c"
  shows "calls_ok w (c # cs) (new1 @ new2)"
proof -
  have same: "callable w d" if "d \<in> set cs" "callable w' d" for d
  proof -
    from that(1) assms(3) have "cand_name d \<noteq> cand_name c" by (metis imageI)
    with callable_other [OF assms(2)] that(2) show ?thesis by blast
  qed
  have names: "p \<in> cand_name ` {d \<in> set cs. callable w d}" if p: "p \<in> fst ` set new2" for p
  proof -
    have "p \<in> cand_name ` {d \<in> set cs. callable w' d}" using assms(1) p unfolding calls_ok_def by (metis subsetD)
    then obtain d where "p = cand_name d" "d \<in> set cs" "callable w' d" by (rule imageE) simp
    with same show ?thesis by simp
  qed
  have other: "p \<notin> fst ` set new2" if "p = cand_name c" for p
  proof
    assume "p \<in> fst ` set new2"
    then obtain d where "p = cand_name d" "d \<in> set cs" using names [of p] by (auto elim: imageE)
    with that assms(3) show False by (metis imageI)
  qed
  have le: "calls_to p (new1 @ new2) \<le> pool_of w p + 2" for p
  proof (cases "p = cand_name c")
    case True
    with other [OF True] calls_to_le [of p new1] assms(5) show ?thesis by (simp add: calls_to_none)
  next
    case False
    then have "p \<notin> fst ` set new1" using assms(4) by (metis singletonD subsetD)
    moreover have "pool_of w' p = pool_of w p" using False assms(2) by (simp add: pool_of_def)
    moreover have "calls_to p new2 \<le> pool_of w' p + 2" using assms(1) by (simp add: calls_ok_def)
    ultimately show ?thesis by (simp add: calls_to_none)
  qed
  have sub: "p \<in> cand_name ` {d \<in> set (c # cs). callable w d}" if "p \<in> fst ` set (new1 @ new2)" for p
  proof (cases "p \<in> fst ` set new1")
    case True
    then have "p = cand_name c" "new1 \<noteq> []" using assms(4) by (auto dest: subsetD)
    with assms(6) show ?thesis by simp
  next
    case False
    with that names [of p] show ?thesis by auto
  qed
  show ?thesis unfolding calls_ok_def using le sub by (intro conjI allI subsetI)
qed

lemma waterfall_ok:
  assumes "distinct (map cand_name cs)"
    and "waterfall respond cf uc dt task payload job kc cs tried w = (res, w')"
  shows "\<exists>new. w_calls w' = w_calls w @ new \<and> calls_ok w cs new
    \<and> result_ok respond task payload w cs tried new res"
  using assms
proof (induction cs arbitrary: tried w)
  case Nil
  then show ?case by (auto simp: calls_ok_def calls_to_def)
next
  case (Cons c cs)
  have fresh: "cand_name c \<notin> cand_name ` set cs" and dist: "distinct (map cand_name cs)"
    using Cons.prems(1) by auto
  have skip: ?case if r: "waterfall respond cf uc dt task payload job kc cs (tried @ [why]) w1 = (res, w')"
    and same: "w_calls w1 = w_calls w" "w_adapters w1 = w_adapters w"
    and why: "starts_with why (tag (cand_name c) [])" for why w1
  proof -
    obtain new where new: "w_calls w' = w_calls w1 @ new" "calls_ok w1 cs new"
      "result_ok respond task payload w1 cs (tried @ [why]) new res"
      using Cons.IH [OF dist r] by blast
    have upd: "w_adapters w1 = (w_adapters w)(cand_name c := w_adapters w (cand_name c))" using same by simp
    have "calls_ok w (c # cs) ([] @ new)" by (rule calls_ok_later [OF new(2) upd fresh]) auto
    moreover have "result_ok respond task payload w (c # cs) tried ([] @ new) res"
      by (rule result_ok_later [OF new(3) upd fresh]) (use why in auto)
    ultimately show ?thesis using new(1) same by auto
  qed
  show ?case
  proof (cases "guard_of cf task c w")
    case (Skip why)
    with Cons.prems(2) have "waterfall respond cf uc dt task payload job kc cs (tried @ [why]) w = (res, w')"
      by simp
    then show ?thesis by (rule skip) (use guard_of_Skip [OF Skip] in auto)
  next
    case SkipRpm
    with Cons.prems(2) have "waterfall respond cf uc dt task payload job kc cs (tried @ [tag (cand_name c) ''rpm''])
        (mark_provider (cand_name c) task Cooldown ''local RPM window'' (Some (of_int (cf_window cf))) w) = (res, w')"
      by (simp add: cand_name_def Let_def)
    then show ?thesis by (rule skip) (auto simp: tag_def starts_with_iff)
  next
    case (Call a0)
    note ok = guard_of_Call [OF Call]
    let ?a1 = "rotate_ahead (configure (cd_row c) a0) w" and ?pool = "max 1 (length (keys a0))"
    obtain e a2 tried' w1 where t: "try_provider respond cf (cand_name c) task job (pr_kind (cd_row c)) payload
        ?pool 0 0 ?a1 tried w = ((e, a2, tried'), w1)" by (metis prod.exhaust)
    have pool: "pool_of w (cand_name c) = ?pool" using ok(1) by (simp add: pool_of_def)
    have "runs_well respond (cand_name c) task payload ?pool 0 0 tried w ((e, a2, tried'), w1)"
      using try_provider_runs_well [of respond "cand_name c" task payload ?pool 0 0 tried w cf job _ ?a1] t by metis
    then obtain new1 trace where n: "w_calls w1 = w_calls w @ new1" "tried' = tried @ trace"
      "w_adapters w1 = w_adapters w" "ran_well respond (cand_name c) task payload (?pool + 2) e new1 trace"
      by (auto simp: runs_well_def split: if_splits)
    then have n1: "fst ` set new1 \<subseteq> {cand_name c}" "length new1 \<le> pool_of w (cand_name c) + 2"
      by (auto simp: ran_well_def pool)
    let ?w2 = "set_adapter (cand_name c) a2 w1"
    have upd: "w_adapters ?w2 = (w_adapters w)(cand_name c := Some a2)" using n(3) by (simp add: set_adapter_def)
    note first = calls_ok_first [OF n(1) ok(2) n1]
    show ?thesis
    proof (cases e)
      case (Raised x)
      with Cons.prems(2) Call t have "res = Inl (Uncaught x)" "w' = ?w2"
        by (auto simp: cand_name_def Let_def)
      with n(1) first show ?thesis by auto
    next
      case (Got ans ms)
      with Cons.prems(2) Call t have
        r: "res = Inr \<lparr>ro_body = an_body ans, ro_provider = cand_name c, ro_cached = False, ro_latency = ms\<rparr>"
          "w_calls w' = w_calls w1"
        by (auto simp: cand_name_def Let_def)
      from n(4) Got obtain k a where "new1 \<noteq> []" "respond k a task payload = (Answers ans, ms)"
        by (auto simp: ran_well_def)
      with result_ok_first [of w c new1 respond k a task payload ans ms cs tried] ok(2) n1(1) r n(1) first
      show ?thesis by auto
    next
      case GaveUp
      let ?w3 = "book_credits (has_credit_pool a0) (cand_name c) a2 e ?w2"
      from GaveUp Cons.prems(2) Call t have
        "waterfall respond cf uc dt task payload job kc cs (tried @ trace) ?w3 = (res, w')"
        by (auto simp: cand_name_def Let_def n(2))
      then obtain new2 where new: "w_calls w' = w_calls ?w3 @ new2" "calls_ok ?w3 cs new2"
        "result_ok respond task payload ?w3 cs (tried @ trace) new2 res"
        using Cons.IH [OF dist] by blast
      have upd3: "w_adapters ?w3 = (w_adapters w)(cand_name c := Some a2)" using upd by simp
      have tr: "trace \<noteq> []" "starts_with (hd trace) (tag (cand_name c) [])"
        using n(4) GaveUp by (auto simp: ran_well_def list_all_iff)
      have "calls_ok w (c # cs) (new1 @ new2)"
        by (rule calls_ok_later [OF new(2) upd3 fresh n1]) (use ok in simp)
      moreover have "result_ok respond task payload w (c # cs) tried (new1 @ new2) res"
        by (rule result_ok_later [OF new(3) upd3 fresh n1(1)]) (use tr in auto)
      ultimately show ?thesis using new(1) n(1) by auto
    qed
  qed
qed

subsection \<open>What a route guarantees\<close>

definition candidates :: "settings \<Rightarrow> string \<Rightarrow> world \<Rightarrow> candidate list" where
  "candidates cf task w = fst (providers_for_task (cf_env cf) (now_of w) task (key_counts w) (w_reg w))"

lemma candidates_names:
  assumes "distinct (map pr_key (rg_rows (w_reg w)))"
  shows "distinct (map cand_name (candidates cf task w))"
proof -
  let ?rows = "filter (\<lambda>r. pr_task r = task) (rg_rows (w_reg w))"
  have name: "cand_name (candidate_of (cf_env cf) kc (expired_row now r)) = pr_name r" for kc now r
    by (simp add: cand_name_def candidate_of_def expired_row_def Let_def)
  have "distinct ?rows \<and> inj_on pr_name (set ?rows)"
    using assms by (auto simp: distinct_map inj_on_def pr_key_def)
  then show ?thesis
    by (simp add: candidates_def providers_for_task_rows comp_def name distinct_map)
qed

lemma set_order_rows [simp]: "set (order_rows prefer rows) = set rows"
  by (auto simp: order_rows_def)

lemma distinct_order_rows:
  "distinct (map cand_name rows) \<Longrightarrow> distinct (map cand_name (order_rows prefer rows))"
  by (auto simp: order_rows_def distinct_map inj_on_def)

text \<open>A route either answers from the cache, refuses for the budget or the pin, or runs the waterfall.\<close>

lemma route_cases:
  assumes "route respond cf uc ct prefer task payload job w = (res, w')"
    and "distinct (map pr_key (rg_rows (w_reg w)))"
  shows "(w_calls w' = w_calls w \<and>
       ((\<exists>hit. uc \<and> get_request (cf_digest cf) (now_of w) (rg_org (w_reg w)) task payload (w_cache w) = Some hit
          \<and> res = Inr \<lparr>ro_body = hit, ro_provider = ''cache'', ro_cached = True, ro_latency = 0\<rparr>)
        \<or> (\<not> budget_left cf w \<and> res = Inl (NoProviderAvailable task [''entitlement:daily_provider_calls'']))
        \<or> (truthy prefer \<and> candidates cf task w = []
            \<and> res = Inl (NoProviderAvailable task [tag (the prefer) ''not_registered'']))))
    \<or> (budget_left cf w \<and> (\<exists>new. w_calls w' = w_calls w @ new
        \<and> calls_ok w (order_rows prefer (candidates cf task w)) new
        \<and> result_ok respond task payload w (order_rows prefer (candidates cf task w)) [] new res))"
proof (cases "if uc then get_request (cf_digest cf) (now_of w) (rg_org (w_reg w)) task payload (w_cache w) else None")
  case (Some hit)
  with assms(1) show ?thesis by (auto simp: route_def split: if_splits)
next
  case None
  show ?thesis
  proof (cases "budget_left cf w")
    case False
    with None assms(1) show ?thesis by (auto simp: route_def)
  next
    case True
    let ?rows = "order_rows prefer (candidates cf task w)"
    obtain d where d: "providers_for_task (cf_env cf) (now_of w) task (key_counts w) (w_reg w) = (candidates cf task w, d)"
      by (metis candidates_def prod.collapse)
    let ?w1 = "w\<lparr>w_reg := d\<rparr>"
    show ?thesis
    proof (cases "truthy prefer \<and> ?rows = []")
      case True
      then have "candidates cf task w = []" by (metis set_empty set_order_rows)
      with True None \<open>budget_left cf w\<close> assms(1) d show ?thesis by (auto simp: route_def Let_def)
    next
      case False
      with None \<open>budget_left cf w\<close> assms(1) d have r:
        "waterfall respond cf uc (if truthy ct then the ct else task) task payload job (key_counts w) ?rows [] ?w1 = (res, w')"
        by (simp add: route_def Let_def)
      have "distinct (map cand_name ?rows)" by (rule distinct_order_rows [OF candidates_names [OF assms(2)]])
      from waterfall_ok [OF this r] obtain new where new:
        "w_calls w' = w_calls ?w1 @ new" "calls_ok ?w1 ?rows new" "result_ok respond task payload ?w1 ?rows [] new res"
        by blast
      have c: "callable ?w1 = callable w" "pool_of ?w1 = pool_of w" by (simp_all add: fun_eq_iff callable_def pool_of_def)
      have "calls_ok w ?rows new" using new(2) by (simp add: calls_ok_def c)
      moreover have "result_ok respond task payload w ?rows [] new res"
        using new(3) by (cases "(respond, task, payload, w, ?rows, [] :: string list, new, res)" rule: result_ok.cases) (simp_all add: c)
      ultimately show ?thesis using new(1) \<open>budget_left cf w\<close> by auto
    qed
  qed
qed

lemma callable_candidate:
  "c \<in> set (candidates cf task w) \<Longrightarrow> \<exists>r \<in> set (rg_rows (w_reg w)). pr_task r = task \<and> pr_name r = cand_name c
     \<and> c = candidate_of (cf_env cf) (key_counts w) (expired_row (now_of w) r)"
  by (auto simp: candidates_def providers_for_task_rows cand_name_def candidate_of_def expired_row_def Let_def)

text \<open>C33: Routing is bounded and disciplined: however the providers behave, one route asks a provider at most
  as often as its pool has keys, plus two retries; it asks only providers registered for the task that
  have a key, are in an allowed state and within quota when the route begins; and without a call left in
  the plan's daily budget it asks nobody.\<close>

theorem route_is_bounded:
  assumes "distinct (map pr_key (rg_rows (w_reg w)))"
    and "route respond cf use_cache cache_type prefer task payload job w = (res, w')"
  shows "\<exists>new. w_calls w' = w_calls w @ new \<and> (\<forall>p. calls_to p new \<le> pool_of w p + 2)
    \<and> (\<forall>p \<in> fst ` set new. \<exists>r \<in> set (rg_rows (w_reg w)). pr_task r = task \<and> pr_name r = p
         \<and> cd_usable (candidate_of (cf_env cf) (key_counts w) (expired_row (now_of w) r))
         \<and> (\<exists>a. w_adapters w p = Some a \<and> available a))
    \<and> (\<not> budget_left cf w \<longrightarrow> new = [])"
  using route_cases [OF assms(2,1)]
proof
  assume "budget_left cf w \<and> (\<exists>new. w_calls w' = w_calls w @ new
      \<and> calls_ok w (order_rows prefer (candidates cf task w)) new
      \<and> result_ok respond task payload w (order_rows prefer (candidates cf task w)) [] new res)"
  then obtain new where new: "budget_left cf w" "w_calls w' = w_calls w @ new"
    "calls_ok w (order_rows prefer (candidates cf task w)) new" by blast
  have "\<exists>r \<in> set (rg_rows (w_reg w)). pr_task r = task \<and> pr_name r = p
      \<and> cd_usable (candidate_of (cf_env cf) (key_counts w) (expired_row (now_of w) r))
      \<and> (\<exists>a. w_adapters w p = Some a \<and> available a)" if "p \<in> fst ` set new" for p
  proof -
    from that new(3) obtain c where c: "c \<in> set (candidates cf task w)" "callable w c" "p = cand_name c"
      by (auto simp: calls_ok_def)
    from callable_candidate [OF c(1)] obtain r where "r \<in> set (rg_rows (w_reg w))" "pr_task r = task"
      "pr_name r = cand_name c" "c = candidate_of (cf_env cf) (key_counts w) (expired_row (now_of w) r)" by blast
    with c(2,3) show ?thesis by (intro bexI [of _ r]) (auto simp: callable_def split: option.splits)
  qed
  with new show ?thesis by (auto simp: calls_ok_def)
qed (auto simp: calls_to_def)

text \<open>Fallback follows the waterfall: a fresh answer comes from a callable candidate; it is what that provider
  returned, on the last request made; every request before went to it or to a candidate in front of it
  in the order of priority with the pinned provider first, and none behind it was asked.\<close>

theorem route_falls_back_in_order:
  assumes "distinct (map pr_key (rg_rows (w_reg w)))"
    and "route respond cf use_cache cache_type prefer task payload job w = (Inr r, w')" and "\<not> ro_cached r"
  shows "\<exists>new pre c post. w_calls w' = w_calls w @ new
    \<and> order_rows prefer (candidates cf task w) = pre @ c # post \<and> callable w c
    \<and> ro_provider r = cand_name c \<and> new \<noteq> [] \<and> fst (last new) = cand_name c
    \<and> fst ` set new \<subseteq> cand_name ` set (pre @ [c]) \<and> fst ` set new \<inter> cand_name ` set post = {}
    \<and> (\<exists>n a ans. respond n a task payload = (Answers ans, ro_latency r) \<and> ro_body r = an_body ans)"
proof -
  let ?rows = "order_rows prefer (candidates cf task w)"
  obtain new where new: "w_calls w' = w_calls w @ new" "result_ok respond task payload w ?rows [] new (Inr r)"
    using route_cases [OF assms(2,1)] assms(3) by (auto simp del: result_ok.simps)
  then obtain pre c post where c: "?rows = pre @ c # post" "cand_name c = ro_provider r" "callable w c"
    "new \<noteq> []" "fst (last new) = ro_provider r" "fst ` set new \<subseteq> cand_name ` set (pre @ [c])"
    "\<exists>n a ans. respond n a task payload = (Answers ans, ro_latency r) \<and> ro_body r = an_body ans"
    unfolding result_ok.simps by blast
  have "distinct (map cand_name ?rows)" by (rule distinct_order_rows [OF candidates_names [OF assms(1)]])
  then have "cand_name ` set (pre @ [c]) \<inter> cand_name ` set post = {}" unfolding c(1) by auto
  with c(6) have "fst ` set new \<inter> cand_name ` set post = {}" by blast
  with new(1) c show ?thesis by (intro exI [of _ new] exI [of _ pre] exI [of _ c] exI [of _ post]) simp
qed

text \<open>Nobody is silently dropped: when a route within budget finds no provider, its trace carries an entry
  for every provider registered for the task.\<close>

theorem route_reports_every_provider:
  assumes "distinct (map pr_key (rg_rows (w_reg w)))" and "budget_left cf w"
    and "route respond cf use_cache cache_type prefer task payload job w = (Inl (NoProviderAvailable t tried), w')"
  shows "t = task \<and> (\<forall>r \<in> set (rg_rows (w_reg w)). pr_task r = task \<longrightarrow>
    (\<exists>x \<in> set tried. starts_with x (pr_name r @ '':'')))"
proof -
  have cand: "\<exists>c \<in> set (candidates cf task w). cand_name c = pr_name r"
    if "r \<in> set (rg_rows (w_reg w))" "pr_task r = task" for r
    using that by (force simp: candidates_def providers_for_task_rows cand_name_def candidate_of_def expired_row_def Let_def)
  from route_cases [OF assms(3,1)] show ?thesis
  proof
    assume "budget_left cf w \<and> (\<exists>new. w_calls w' = w_calls w @ new
        \<and> calls_ok w (order_rows prefer (candidates cf task w)) new
        \<and> result_ok respond task payload w (order_rows prefer (candidates cf task w)) [] new
             (Inl (NoProviderAvailable t tried)))"
    then have t: "t = task" and all: "\<forall>c \<in> set (candidates cf task w). \<exists>x \<in> set tried. starts_with x (tag (cand_name c) [])"
      by auto
    show ?thesis
    proof (intro conjI ballI impI)
      fix r assume "r \<in> set (rg_rows (w_reg w))" "pr_task r = task"
      from cand [OF this] all show "\<exists>x \<in> set tried. starts_with x (pr_name r @ '':'')" by (force simp: tag_def)
    qed (rule t)
  next
    assume "w_calls w' = w_calls w \<and>
       ((\<exists>hit. use_cache \<and> get_request (cf_digest cf) (now_of w) (rg_org (w_reg w)) task payload (w_cache w) = Some hit
          \<and> Inl (NoProviderAvailable t tried) = Inr \<lparr>ro_body = hit, ro_provider = ''cache'', ro_cached = True, ro_latency = 0\<rparr>)
        \<or> (\<not> budget_left cf w \<and> Inl (NoProviderAvailable t tried) = Inl (NoProviderAvailable task [''entitlement:daily_provider_calls'']))
        \<or> (truthy prefer \<and> candidates cf task w = []
            \<and> Inl (NoProviderAvailable t tried) = Inl (NoProviderAvailable task [tag (the prefer) ''not_registered''])))"
    with assms(2) have "t = task" "candidates cf task w = []" by auto
    with cand show ?thesis by fastforce
  qed
qed

subsection \<open>A cool-down that does not cool down\<close>

lemma waterfall_calls_first:
  assumes "distinct (map cand_name (c # cs))" and "guard_of cf task c w = Call a0"
    and "waterfall respond cf uc dt task payload job kc (c # cs) tried w = (res, w')"
  shows "\<exists>k rest. w_calls w' = w_calls w @ (cand_name c, k) # rest"
proof -
  let ?a1 = "rotate_ahead (configure (cd_row c) a0) w" and ?pool = "max 1 (length (keys a0))"
  obtain e a2 tried' w1 where t: "try_provider respond cf (cand_name c) task job (pr_kind (cd_row c)) payload
      ?pool 0 0 ?a1 tried w = ((e, a2, tried'), w1)" by (metis prod.exhaust)
  have "runs_well respond (cand_name c) task payload ?pool 0 0 tried w ((e, a2, tried'), w1)"
    using try_provider_runs_well [of respond "cand_name c" task payload ?pool 0 0 tried w cf job _ ?a1] t by metis
  then obtain new1 where n: "w_calls w1 = w_calls w @ new1" "new1 \<noteq> []" "fst ` set new1 \<subseteq> {cand_name c}"
    by (auto simp: runs_well_def ran_well_def split: if_splits)
  then obtain k rest where new1: "new1 = (cand_name c, k) # rest" by (cases new1) auto
  let ?w3 = "book_credits (has_credit_pool a0) (cand_name c) a2 e (set_adapter (cand_name c) a2 w1)"
  have "\<exists>more. w_calls w' = w_calls w1 @ more"
  proof (cases e)
    case GaveUp
    with assms(2,3) t have "waterfall respond cf uc dt task payload job kc cs tried' ?w3 = (res, w')"
      by (auto simp: cand_name_def Let_def)
    from waterfall_ok [OF _ this] assms(1) show ?thesis by auto
  qed (use assms(2,3) t in \<open>auto simp: cand_name_def Let_def\<close>)
  with n(1) new1 show ?thesis by auto
qed

text \<open>A cool-down does not keep the router away: a provider that leads the waterfall, that is still cooling
  down after the expiry pass, and that has a key and quota left, is asked by the very next route.\<close>

theorem cooldown_is_not_respected:
  assumes "distinct (map pr_key (rg_rows (w_reg w)))" and "budget_left cf w"
    and "order_rows prefer (candidates cf task w) = c # cs"
    and "pr_status (cd_row c) = Cooldown" and "callable w c" and "pr_rpm (cd_row c) = None"
    and "route respond cf False cache_type prefer task payload job w = (res, w')"
  shows "\<exists>k rest. w_calls w' = w_calls w @ (cand_name c, k) # rest"
proof -
  obtain d where d: "providers_for_task (cf_env cf) (now_of w) task (key_counts w) (w_reg w) = (candidates cf task w, d)"
    by (metis candidates_def prod.collapse)
  let ?w1 = "w\<lparr>w_reg := d\<rparr>"
  have r: "waterfall respond cf False (if truthy cache_type then the cache_type else task) task payload job
      (key_counts w) (c # cs) [] ?w1 = (res, w')"
    using assms(2,3,7) d by (simp add: route_def Let_def del: waterfall.simps)
  from assms(5) obtain a where a: "w_adapters w (cand_name c) = Some a" "available a" "cd_usable c"
    by (auto simp: callable_def split: option.splits)
  then have g: "guard_of cf task c ?w1 = Call a" using assms(6) by (simp add: guard_of_def Let_def cand_name_def)
  have "distinct (map cand_name (c # cs))"
    using distinct_order_rows [OF candidates_names [OF assms(1)], of "prefer" cf task] by (simp only: assms(3))
  from waterfall_calls_first [OF this g r] show ?thesis by simp
qed

subsection \<open>A small world\<close>

definition search_row :: "string \<Rightarrow> int \<Rightarrow> pstatus \<Rightarrow> ts option \<Rightarrow> prov_row" where
  "search_row name prio st until =
     \<lparr>pr_name = name, pr_task = ''web_search'', pr_type = ''search'', pr_priority = prio, pr_kind = ''credits'',
      pr_limit = None, pr_used = Some 0, pr_period = ''none'', pr_start = None, pr_rpm = None, pr_status = st,
      pr_reason = None, pr_cooldown = until, pr_env = None, pr_base_url = None, pr_model = None\<rparr>"

definition search_adapter :: "string \<Rightarrow> adapter" where
  "search_adapter name =
     \<lparr>ad_name = name, ad_env_key = Some ''KEYS'', ad_api_key = Some ''k1,k2'', ad_index = 0,
      ad_daily_budget = None, ad_margin = 0, ad_probe = 1, ad_endpoint = None, ad_model = None\<rparr>"

definition demo_world :: world where
  "demo_world = \<lparr>w_reg = \<lparr>rg_rows = [search_row ''tavily'' 1 Cooldown (Some 900), search_row ''brave'' 2 Active None],
       rg_usage = [], rg_org = None, rg_pg = False\<rparr>,
     w_cache = [], w_credits = empty_ledger,
     w_adapters = (\<lambda>n. if n = ''tavily'' \<or> n = ''brave'' then Some (search_adapter n) else None),
     w_ms = 5000, w_calls = []\<rparr>"

definition demo_settings :: settings where
  "demo_settings = \<lparr>cf_cooldown = 300, cf_unavailable = 60, cf_window = 60, cf_env = (\<lambda>_. Some ''k1,k2''),
     cf_ttl = (\<lambda>_. None), cf_digest = toy_digest, cf_policy = demo_policy\<rparr>"

text \<open>The first provider is always out of rate, the second always answers.\<close>

definition demo_respond :: responder where
  "demo_respond n a task payload =
     (if ad_name a = ''tavily'' then (Fails (RateLimited ''429'' None), 10)
      else (Answers \<lparr>an_body = ''results'', an_units = 1, an_remaining = None, an_credits = None,
                     an_prompt = 0, an_completion = 0\<rparr>, 20))"

definition demo_route :: "(route_error + routed) \<times> world" where
  "demo_route = route demo_respond demo_settings False None None ''web_search'' ''q'' None demo_world"

lemma demo_keys: "distinct (map pr_key (rg_rows (w_reg demo_world)))"
  by (simp add: demo_world_def search_row_def pr_key_def)

lemma route_is_bounded_witness:
  "\<exists>new. w_calls (snd demo_route) = new \<and> calls_to ''tavily'' new \<le> pool_of demo_world ''tavily'' + 2"
proof -
  have "route demo_respond demo_settings False None None ''web_search'' ''q'' None demo_world
      = (fst demo_route, snd demo_route)" by (simp add: demo_route_def)
  from route_is_bounded [OF demo_keys this] show ?thesis by (force simp: demo_world_def)
qed

lemma demo_answer:
  "fst demo_route = Inr \<lparr>ro_body = ''results'', ro_provider = ''brave'', ro_cached = False, ro_latency = 20\<rparr>"
  by code_simp

lemma route_falls_back_in_order_witness:
  "fst (last (w_calls (snd demo_route))) = ''brave''"
proof -
  have r: "route demo_respond demo_settings False None None ''web_search'' ''q'' None demo_world
      = (Inr \<lparr>ro_body = ''results'', ro_provider = ''brave'', ro_cached = False, ro_latency = 20\<rparr>, snd demo_route)"
    using demo_answer by (metis demo_route_def prod.collapse)
  from route_falls_back_in_order [OF demo_keys r] show ?thesis by (auto simp: demo_world_def)
qed

definition failing_respond :: responder where
  "failing_respond n a task payload = (Fails (QuotaExhausted ''402''), 5)"

lemma route_reports_every_provider_witness:
  "\<exists>tried w'. route failing_respond demo_settings False None None ''web_search'' ''q'' None demo_world
      = (Inl (NoProviderAvailable ''web_search'' tried), w') \<and> (\<exists>x \<in> set tried. starts_with x ''brave:'')"
proof -
  let ?r = "route failing_respond demo_settings False None None ''web_search'' ''q'' None demo_world"
  have "case fst ?r of Inl (NoProviderAvailable t tr) \<Rightarrow> True | _ \<Rightarrow> False" by code_simp
  then obtain t tr w' where r: "?r = (Inl (NoProviderAvailable t tr), w')"
    by (cases ?r) (auto split: sum.splits route_error.splits)
  have "budget_left demo_settings demo_world" by (simp add: budget_left_def demo_world_def)
  from route_reports_every_provider [OF demo_keys this r] r show ?thesis
    by (auto simp: demo_world_def search_row_def)
qed

lemma cooldown_is_not_respected_witness:
  "\<exists>k rest. w_calls (snd demo_route) = (''tavily'', k) # rest"
proof -
  let ?cs = "candidates demo_settings ''web_search'' demo_world"
  have cs: "order_rows None ?cs = hd ?cs # tl ?cs" by (simp add: order_rows_def) code_simp
  have facts: "pr_status (cd_row (hd ?cs)) = Cooldown" "callable demo_world (hd ?cs)" "pr_rpm (cd_row (hd ?cs)) = None"
    "cand_name (hd ?cs) = ''tavily''" "w_calls demo_world = []" by code_simp+
  have b: "budget_left demo_settings demo_world" by (simp add: budget_left_def demo_world_def)
  have r: "route demo_respond demo_settings False None None ''web_search'' ''q'' None demo_world
      = (fst demo_route, snd demo_route)" by (simp add: demo_route_def)
  from cooldown_is_not_respected [OF demo_keys b cs facts(1-3) r] show ?thesis by (simp add: facts(4,5))
qed

end
