(* ===== verification/Truth.thy ===== *)
theory Truth
  imports PyStr Complex_Main "HOL-Library.Product_Lexorder" "HOL-Library.List_Lexorder"
begin

section \<open>The truth layer (lead_engine/truth.py)\<close>

text \<open>
  FactsStore: facts with a status, a freshness deadline and source rows; conflicts between fresh rival
  values; verification; the snapshot the presentation and the qualifier read.  Confidences are exact
  rationals.  \<open>uuid\<close> is the generator of hexadecimal ids, read at a counter kept in the state; the time to
  live per data type (config/cache_policy.yaml) is the argument \<open>ttl\<close>.  \<open>urlparse(url).hostname\<close> is modelled
  on URLs without control characters.
\<close>

subsection \<open>Statuses, ranked\<close>

datatype fact_status = Verified | Conflicted | Stale | Unverified | Inferred

fun RANK :: "fact_status \<Rightarrow> int" where
  "RANK Verified = 3"
| "RANK Unverified = 2"
| "RANK Inferred = 1"
| "RANK Conflicted = 0"
| "RANK Stale = -1"

lemma RANK_inject: "RANK a = RANK b \<longleftrightarrow> a = b"
  by (cases a; cases b) simp_all

instantiation fact_status :: linorder
begin

definition less_eq_fact_status :: "fact_status \<Rightarrow> fact_status \<Rightarrow> bool" where
  "a \<le> b \<longleftrightarrow> RANK a \<le> RANK b"

definition less_fact_status :: "fact_status \<Rightarrow> fact_status \<Rightarrow> bool" where
  "a < b \<longleftrightarrow> RANK a < RANK b"

instance
  by standard (auto simp: less_eq_fact_status_def less_fact_status_def RANK_inject)

end

lemma Verified_top: "a \<le> Verified"
  by (cases a) (simp_all add: less_eq_fact_status_def)

lemma Stale_bot: "Stale \<le> a"
  by (cases a) (simp_all add: less_eq_fact_status_def)

definition FIELD_TTL_MAP :: "string \<Rightarrow> string option" where
  "FIELD_TTL_MAP = map_of
     [(''email'', ''email''), (''phone'', ''phone''), (''decision_maker'', ''decision_maker''),
      (''decision_maker_title'', ''decision_maker''), (''linkedin'', ''decision_maker''),
      (''domain'', ''company_domain''), (''website'', ''company_domain''),
      (''employee_count'', ''employee_estimate''), (''branches'', ''employee_estimate''),
      (''industry'', ''industry''), (''city'', ''location''), (''country'', ''location''),
      (''address'', ''location'')]"

definition SOURCE_KINDS :: "string list" where
  "SOURCE_KINDS = [''search_api'', ''openmanus'', ''apollo'', ''hunter'', ''abstract'', ''email_verify'',
     ''manual'', ''llm_inference'']"

subsection \<open>State\<close>

record fact =
  f_id :: ident
  f_org :: "string option"
  f_kind :: string
  f_subject :: string
  f_field :: string
  f_value :: string
  f_vkind :: string
  f_status :: fact_status
  f_conf :: "rat option"
  f_job :: "ident option"
  f_run :: "ident option"
  f_collected :: ts
  f_expires :: "ts option"
  f_created :: ts
  f_updated :: ts

record source_row =
  so_id :: nat
  so_org :: "string option"
  so_fact :: ident
  so_url :: "string option"
  so_kind :: string
  so_provider :: "string option"
  so_query :: "string option"
  so_quote :: "string option"
  so_at :: ts

datatype resolution = Open | ResolvedAuto | ResolvedHuman

record conflict =
  c_id :: ident
  c_org :: "string option"
  c_kind :: string
  c_subject :: string
  c_field :: string
  c_a :: ident
  c_b :: ident
  c_res :: resolution
  c_note :: "string option"
  c_by :: "string option"
  c_resolved_at :: "ts option"
  c_winner :: "ident option"
  c_job :: "ident option"
  c_created :: ts
  c_updated :: ts

record visit =
  v_org :: "string option"
  v_job :: ident
  v_url :: string
  v_title :: "string option"
  v_status :: "int option"
  v_summary :: "string option"
  v_at :: ts

datatype question_status = QOpen | QAnswered | QDropped

record question =
  q_id :: nat
  q_org :: "string option"
  q_job :: ident
  q_kind :: string
  q_subject :: "string option"
  q_text :: string
  q_status :: question_status
  q_answer :: "ident option"
  q_created :: ts
  q_answered :: "ts option"

record tdb =
  facts :: "fact list"
  sources :: "source_row list"
  conflict_rows :: "conflict list"
  visits :: "visit list"
  questions :: "question list"
  t_org :: "string option"
  t_pg :: bool
  t_next :: nat

datatype truth_error =
    EmptyValue | NoProvenance | OrgContextRequired | ConflictNotFound ident | NotAParty | FactNotFound ident
  | OpenConflict

subsection \<open>Helpers\<close>

definition is_scheme_char :: "char \<Rightarrow> bool" where
  "is_scheme_char c \<longleftrightarrow> is_digit c \<or> ascii_lower c \<noteq> ascii_upper c \<or> c \<in> {CHR ''+'', CHR ''-'', CHR ''.''}"

definition strip_scheme :: "string \<Rightarrow> string" where
  "strip_scheme url =
     (let s = takeWhile (\<lambda>c. c \<noteq> CHR '':'') url; rest = dropWhile (\<lambda>c. c \<noteq> CHR '':'') url
      in if rest \<noteq> [] \<and> s \<noteq> [] \<and> ascii_lower (hd s) \<noteq> ascii_upper (hd s) \<and> list_all is_scheme_char s
         then tl rest else url)"

definition url_hostname :: "string \<Rightarrow> string option" where
  "url_hostname url =
     (let rest = strip_scheme url in
      if \<not> starts_with rest ''//'' then None
      else let netloc = takeWhile (\<lambda>c. c \<notin> {CHR ''/'', CHR ''?'', CHR ''#''}) (drop 2 rest);
               info = rev (takeWhile (\<lambda>c. c \<noteq> CHR ''@'') (rev netloc));
               host = (if starts_with info ''['' then takeWhile (\<lambda>c. c \<noteq> CHR '']'') (tl info)
                       else takeWhile (\<lambda>c. c \<noteq> CHR '':'') info)
           in if host = [] then None else Some (py_lower host))"

definition rstrip_dots :: "string \<Rightarrow> string" where
  "rstrip_dots s = rev (dropWhile (\<lambda>c. c = CHR ''.'') (rev s))"

definition str_or :: "string option \<Rightarrow> string \<Rightarrow> string" where
  "str_or x d = (if truthy x then the x else d)"

definition domain_of :: "string option \<Rightarrow> string option \<Rightarrow> string" where
  "domain_of url provider =
     (let host = (if truthy url
            then remove_prefix ''www.'' (rstrip_dots (py_lower (str_or (url_hostname (the url)) []))) else []);
          pd = py_lower (str_or provider [])
      in if host \<noteq> []
         then (if pd \<noteq> [] \<and> (host = pd \<or> ends_with host (''.'' @ pd)) then ''provider:'' @ pd else host)
         else ''provider:'' @ py_lower (str_or provider ''unknown''))"

definition org_of :: "(tdb, truth_error, string option) act" where
  "org_of = (\<lambda>d. if \<not> t_pg d then (Inr (Some (str_or (t_org d) ''shared'')), d)
                 else if truthy (t_org d) then (Inr (t_org d), d) else (Inl OrgContextRequired, d))"

definition org_eq :: "tdb \<Rightarrow> string option \<Rightarrow> bool" where
  "org_eq d x \<longleftrightarrow>
     (if \<not> t_pg d then x = Some (str_or (t_org d) ''shared'')
      else if truthy (t_org d) then x = t_org d else x = None)"

definition ttl_days :: "(string \<Rightarrow> int option) \<Rightarrow> string \<Rightarrow> int" where
  "ttl_days ttl field = or_default (ttl (or_default (FIELD_TTL_MAP field) ''website_content'')) 7"

definition deadline :: "ts \<Rightarrow> (string \<Rightarrow> int option) \<Rightarrow> string \<Rightarrow> ts" where
  "deadline now ttl field = now + ttl_days ttl field * 86400"

definition is_fresh :: "ts \<Rightarrow> fact \<Rightarrow> bool" where
  "is_fresh now f \<longleftrightarrow> (case f_expires f of None \<Rightarrow> True | Some e \<Rightarrow> now < e)"

definition set_fact :: "ident \<Rightarrow> (fact \<Rightarrow> fact) \<Rightarrow> tdb \<Rightarrow> tdb" where
  "set_fact i g d = d\<lparr>facts := upd_where (\<lambda>f. f_id f = i) g (facts d)\<rparr>"

definition fresh_id :: "(nat \<Rightarrow> string) \<Rightarrow> string \<Rightarrow> (tdb, truth_error, ident) act" where
  "fresh_id uuid prefix = (\<lambda>d. (Inr (prefix @ uuid (t_next d)), d\<lparr>t_next := t_next d + 1\<rparr>))"

subsection \<open>Sources\<close>

definition sources_for :: "ident \<Rightarrow> tdb \<Rightarrow> source_row list" where
  "sources_for i d = sort_key so_id (filter (\<lambda>s. so_fact s = i) (sources d))"

definition add_source ::
  "ts \<Rightarrow> ident \<Rightarrow> string option \<Rightarrow> string option \<Rightarrow> string \<Rightarrow> string option \<Rightarrow> string option \<Rightarrow> string option \<Rightarrow> tdb \<Rightarrow> tdb" where
  "add_source now i org url kind0 provider query quote d =
     (let kind = (if kind0 \<in> set SOURCE_KINDS then kind0 else ''search_api'');
          same = (\<lambda>s. so_fact s = i \<and> so_kind s = kind \<and> or_default (so_url s) [] = or_default url []
                    \<and> or_default (so_provider s) [] = or_default provider [])
      in case find same (sources d) of
           Some s \<Rightarrow> d\<lparr>sources := upd_where (\<lambda>x. so_id x = so_id s) (\<lambda>x. x\<lparr>so_at := now\<rparr>) (sources d)\<rparr>
         | None \<Rightarrow> d\<lparr>sources := sources d @
             [\<lparr>so_id = length (sources d), so_org = org, so_fact = i, so_url = url, so_kind = kind,
               so_provider = provider, so_query = query, so_quote = quote, so_at = now\<rparr>]\<rparr>)"

subsection \<open>Conflicts\<close>

definition conflicts_of :: "string option \<Rightarrow> string option \<Rightarrow> string option \<Rightarrow> resolution option \<Rightarrow> tdb \<Rightarrow> conflict list" where
  "conflicts_of kind subject field res d =
     sort_key (\<lambda>c. - c_created c) (filter (\<lambda>c.
        (truthy kind \<longrightarrow> Some (c_kind c) = kind) \<and> (truthy subject \<longrightarrow> Some (c_subject c) = subject)
        \<and> (truthy field \<longrightarrow> Some (c_field c) = field) \<and> (case res of None \<Rightarrow> True | Some r \<Rightarrow> c_res c = r)
        \<and> org_eq d (c_org c)) (conflict_rows d))"

definition open_conflict ::
  "(nat \<Rightarrow> string) \<Rightarrow> ts \<Rightarrow> string option \<Rightarrow> string \<Rightarrow> string \<Rightarrow> string \<Rightarrow> ident \<Rightarrow> ident \<Rightarrow> ident option
     \<Rightarrow> (tdb, truth_error, ident option) act" where
  "open_conflict uuid now org kind subject field a b job =
     (\<lambda>d. if \<exists>c \<in> set (conflicts_of (Some kind) (Some subject) (Some field) (Some Open) d). {c_a c, c_b c} = {a, b}
          then (Inr None, d)
          else seq (fresh_id uuid ''cfl_'') (\<lambda>i d1.
            (Inr (Some i),
             set_fact b (\<lambda>f. f\<lparr>f_status := Conflicted, f_updated := now\<rparr>)
               (set_fact a (\<lambda>f. f\<lparr>f_status := Conflicted, f_updated := now\<rparr>)
                 (d1\<lparr>conflict_rows := conflict_rows d1 @
                   [\<lparr>c_id = i, c_org = org, c_kind = kind, c_subject = subject, c_field = field, c_a = a, c_b = b,
                     c_res = Open, c_note = None, c_by = None, c_resolved_at = None, c_winner = None,
                     c_job = job, c_created = now, c_updated = now\<rparr>]\<rparr>)))) d)"

definition rivals :: "string \<Rightarrow> string \<Rightarrow> string \<Rightarrow> ident \<Rightarrow> tdb \<Rightarrow> fact list" where
  "rivals kind subject field i d =
     filter (\<lambda>f. f_kind f = kind \<and> f_subject f = subject \<and> f_field f = field \<and> f_id f \<noteq> i
        \<and> f_status f \<in> {Verified, Unverified, Conflicted} \<and> org_eq d (f_org f)) (facts d)"

definition detect_conflicts ::
  "(nat \<Rightarrow> string) \<Rightarrow> ts \<Rightarrow> string option \<Rightarrow> string \<Rightarrow> string \<Rightarrow> string \<Rightarrow> ident \<Rightarrow> ident option
     \<Rightarrow> (tdb, truth_error, unit) act" where
  "detect_conflicts uuid now org kind subject field i job =
     (\<lambda>d. for_each (\<lambda>other. seq (open_conflict uuid now org kind subject field (f_id other) i job) (\<lambda>_. ret ()))
            (filter (is_fresh now) (rivals kind subject field i d)) d)"

definition has_open_conflict :: "ident \<Rightarrow> tdb \<Rightarrow> bool" where
  "has_open_conflict i d \<longleftrightarrow> (\<exists>c \<in> set (conflict_rows d). c_res c = Open \<and> (c_a c = i \<or> c_b c = i))"

subsection \<open>The status a fact deserves\<close>

definition observations :: "ident \<Rightarrow> tdb \<Rightarrow> source_row list" where
  "observations i d = filter (\<lambda>s. so_kind s \<notin> {''llm_inference'', ''email_verify''}) (sources_for i d)"

definition independent_domains :: "ident \<Rightarrow> tdb \<Rightarrow> string list" where
  "independent_domains i d = remdups (map (\<lambda>s. domain_of (so_url s) (so_provider s)) (observations i d))"

definition recompute_status :: "ident \<Rightarrow> tdb \<Rightarrow> fact_status \<times> rat option" where
  "recompute_status i d =
     (case row_of f_id i (facts d) of
        None \<Rightarrow> (Unverified, None)
      | Some f \<Rightarrow>
          let n = length (independent_domains i d) in
          if has_open_conflict i d then (Conflicted, f_conf f)
          else if f_status f = Verified then (Verified, f_conf f)
          else if n \<ge> 2 then (Verified, Some (min (95 / 100) (1 / 2 + 15 / 100 * (of_nat n - 1))))
          else if observations i d \<noteq> [] then (Unverified, f_conf f)
          else (Inferred, f_conf f))"

definition get_fact :: "ident \<Rightarrow> (tdb, truth_error, fact option) act" where
  "get_fact i = (\<lambda>d. case row_of f_id i (facts d) of
      None \<Rightarrow> (Inr None, d)
    | Some f \<Rightarrow> if \<not> t_pg d \<and> f_org f \<noteq> Some (str_or (t_org d) ''shared'') then (Inr None, d) else (Inr (Some f), d))"

subsection \<open>Recording an observation\<close>

record observation =
  ob_kind :: string
  ob_subject :: string
  ob_field :: string
  ob_value :: "string option"
  ob_url :: "string option"
  ob_skind :: string
  ob_provider :: "string option"
  ob_query :: "string option"
  ob_quote :: "string option"
  ob_job :: "ident option"
  ob_run :: "ident option"
  ob_vkind :: string
  ob_conf :: "rat option"
  ob_inferred :: bool

definition clean_value :: "string option \<Rightarrow> string" where
  "clean_value v = (let s = py_strip (or_default v []) in if CHR ''@'' \<in> set s then py_lower s else s)"

definition has_source :: "observation \<Rightarrow> bool" where
  "has_source ob \<longleftrightarrow> truthy (ob_url ob) \<or> truthy (ob_provider ob)"

definition observed_by :: "ts \<Rightarrow> string option \<Rightarrow> observation \<Rightarrow> ident \<Rightarrow> tdb \<Rightarrow> tdb" where
  "observed_by now org ob i =
     (if has_source ob
      then add_source now i org (ob_url ob) (ob_skind ob) (ob_provider ob) (ob_query ob) (ob_quote ob)
      else add_source now i org None ''llm_inference'' (ob_provider ob) (ob_query ob)
             (Some (str_or (ob_quote ob) ''inferred without a direct source'')))"

definition freshen ::
  "(nat \<Rightarrow> string) \<Rightarrow> (string \<Rightarrow> int option) \<Rightarrow> ts \<Rightarrow> string option \<Rightarrow> observation \<Rightarrow> fact \<Rightarrow> (tdb, truth_error, fact option) act" where
  "freshen uuid ttl now org ob old =
     seq (modify (\<lambda>d. if has_source ob
              then add_source now (f_id old) org (ob_url ob) (ob_skind ob) (ob_provider ob) (ob_query ob) (ob_quote ob) d
              else d)) (\<lambda>_.
     seq (detect_conflicts uuid now org (ob_kind ob) (ob_subject ob) (ob_field ob) (f_id old) (ob_job ob)) (\<lambda>_.
     seq (modify (\<lambda>d. let (st, conf) = recompute_status (f_id old) d in
            set_fact (f_id old) (\<lambda>f. f\<lparr>f_status := st,
                f_conf := (case conf of None \<Rightarrow> f_conf old | Some c \<Rightarrow> Some c), f_collected := now,
                f_expires := Some (deadline now ttl (ob_field ob)),
                f_job := (case ob_job ob of None \<Rightarrow> f_job f | Some j \<Rightarrow> Some j),
                f_run := (case ob_run ob of None \<Rightarrow> f_run f | Some j \<Rightarrow> Some j), f_updated := now\<rparr>) d)) (\<lambda>_.
     get_fact (f_id old))))"

definition new_fact ::
  "(string \<Rightarrow> int option) \<Rightarrow> ts \<Rightarrow> string option \<Rightarrow> observation \<Rightarrow> string \<Rightarrow> ident \<Rightarrow> fact" where
  "new_fact ttl now org ob v i =
     \<lparr>f_id = i, f_org = org, f_kind = ob_kind ob, f_subject = ob_subject ob, f_field = ob_field ob,
      f_value = v, f_vkind = ob_vkind ob, f_status = (if ob_inferred ob then Inferred else Unverified),
      f_conf = Some (case ob_conf ob of Some c \<Rightarrow> c | None \<Rightarrow> if ob_inferred ob then 3 / 10 else 1 / 2),
      f_job = ob_job ob, f_run = ob_run ob, f_collected = now,
      f_expires = Some (deadline now ttl (ob_field ob)), f_created = now, f_updated = now\<rparr>"

definition insert_fact ::
  "(nat \<Rightarrow> string) \<Rightarrow> (string \<Rightarrow> int option) \<Rightarrow> ts \<Rightarrow> string option \<Rightarrow> observation \<Rightarrow> string \<Rightarrow> (tdb, truth_error, fact option) act" where
  "insert_fact uuid ttl now org ob v =
     seq (fresh_id uuid ''fact_'') (\<lambda>i.
     seq (modify (\<lambda>d. observed_by now org ob i (d\<lparr>facts := facts d @ [new_fact ttl now org ob v i]\<rparr>))) (\<lambda>_.
     seq (detect_conflicts uuid now org (ob_kind ob) (ob_subject ob) (ob_field ob) i (ob_job ob)) (\<lambda>_.
     seq (modify (\<lambda>d. let (st, conf) = recompute_status i d in
            set_fact i (\<lambda>f. f\<lparr>f_status := st, f_conf := Some (or_default conf (1 / 2)), f_updated := now\<rparr>) d)) (\<lambda>_.
     get_fact i))))"

definition record_fact ::
  "(nat \<Rightarrow> string) \<Rightarrow> (string \<Rightarrow> int option) \<Rightarrow> ts \<Rightarrow> observation \<Rightarrow> (tdb, truth_error, fact option) act" where
  "record_fact uuid ttl now ob =
     (let v = clean_value (ob_value ob) in
      if v = [] then throw EmptyValue
      else if \<not> has_source ob \<and> \<not> ob_inferred ob then throw NoProvenance
      else seq org_of (\<lambda>org d.
        case find (\<lambda>f. f_kind f = ob_kind ob \<and> f_subject f = ob_subject ob \<and> f_field f = ob_field ob
                     \<and> f_value f = v \<and> org_eq d (f_org f)) (facts d) of
          Some old \<Rightarrow> freshen uuid ttl now org ob old d
        | None \<Rightarrow> insert_fact uuid ttl now org ob v d))"

subsection \<open>Resolution and verification\<close>

definition resolve_conflict ::
  "ts \<Rightarrow> ident \<Rightarrow> ident \<Rightarrow> string option \<Rightarrow> string option \<Rightarrow> bool \<Rightarrow> (tdb, truth_error, conflict option) act" where
  "resolve_conflict now cid winner note by_whom automatic = (\<lambda>d.
     case row_of c_id cid (conflict_rows d) of
       None \<Rightarrow> (Inl (ConflictNotFound cid), d)
     | Some c \<Rightarrow>
         if winner \<noteq> c_a c \<and> winner \<noteq> c_b c then (Inl NotAParty, d)
         else let loser = (if winner = c_a c then c_b c else c_a c);
                  d1 = d\<lparr>conflict_rows := upd_where (\<lambda>x. c_id x = cid)
                        (\<lambda>x. x\<lparr>c_res := (if automatic then ResolvedAuto else ResolvedHuman), c_note := note,
                               c_by := by_whom, c_resolved_at := Some now, c_winner := Some winner,
                               c_updated := now\<rparr>) (conflict_rows d)\<rparr>;
                  other_open = (\<exists>x \<in> set (conflict_rows d1). c_res x = Open \<and> c_id x \<noteq> cid
                                  \<and> (c_a x = winner \<or> c_b x = winner));
                  d2 = (if other_open then d1
                        else set_fact winner (\<lambda>f. f\<lparr>f_status := Verified,
                               f_conf := (case f_conf f of Some q \<Rightarrow> if q > 85 / 100 then Some q else Some (85 / 100)
                                          | None \<Rightarrow> Some (85 / 100)), f_updated := now\<rparr>) d1);
                  d3 = set_fact loser (\<lambda>f. f\<lparr>f_status := Stale, f_updated := now\<rparr>) d2
              in (Inr (row_of c_id cid (conflict_rows d3)), d3))"

datatype outcome = OutVerified | OutRefuted | OutOther

definition apply_verdict ::
  "(string \<Rightarrow> int option) \<Rightarrow> ts \<Rightarrow> ident \<Rightarrow> outcome \<Rightarrow> rat option \<Rightarrow> string option \<Rightarrow> string option \<Rightarrow> string option
     \<Rightarrow> fact \<Rightarrow> (tdb, truth_error, fact option) act" where
  "apply_verdict ttl now i out conf url provider quote f = (\<lambda>d.
     if out = OutVerified \<and> has_open_conflict i d then (Inl OpenConflict, d)
     else let d1 = (if truthy url \<or> truthy provider
                    then add_source now i (f_org f) url ''email_verify'' provider None quote d else d);
              d2 = (case out of
                  OutVerified \<Rightarrow> set_fact i (\<lambda>x. x\<lparr>f_status := Verified,
                      f_conf := Some (case conf of Some q \<Rightarrow> q | None \<Rightarrow> max (85 / 100) (or_default (f_conf f) 0)),
                      f_expires := Some (deadline now ttl (f_field f)), f_updated := now\<rparr>) d1
                | OutRefuted \<Rightarrow> set_fact i (\<lambda>x. x\<lparr>f_status := Stale, f_conf := Some (1 / 10), f_updated := now\<rparr>) d1
                | OutOther \<Rightarrow> d1)
          in get_fact i d2)"

definition verify_fact ::
  "(string \<Rightarrow> int option) \<Rightarrow> ts \<Rightarrow> ident \<Rightarrow> outcome \<Rightarrow> rat option \<Rightarrow> string option \<Rightarrow> string option \<Rightarrow> string option
     \<Rightarrow> (tdb, truth_error, fact option) act" where
  "verify_fact ttl now i out conf url provider quote =
     seq (get_fact i) (\<lambda>fo. case fo of
         None \<Rightarrow> throw (FactNotFound i)
       | Some f \<Rightarrow> apply_verdict ttl now i out conf url provider quote f)"

subsection \<open>Reading\<close>

fun apply_freshness :: "ts \<Rightarrow> fact list \<Rightarrow> tdb \<Rightarrow> fact list \<times> tdb" where
  "apply_freshness now [] d = ([], d)"
| "apply_freshness now (f # fs) d =
     (if f_status f \<in> {Verified, Unverified, Conflicted} \<and> \<not> is_fresh now f
      then let (fs', d') = apply_freshness now fs
                 (set_fact (f_id f) (\<lambda>x. x\<lparr>f_status := Stale, f_updated := now\<rparr>) d)
           in (f\<lparr>f_status := Stale\<rparr> # fs', d')
      else let (fs', d') = apply_freshness now fs d in (f # fs', d'))"

record field_view =
  fv_field :: string
  fv_status :: fact_status
  fv_current :: fact
  fv_sources :: "source_row list"
  fv_alternatives :: "fact list"

record subject_view =
  sv_fields :: "field_view list"
  sv_conflicts :: "conflict list"
  sv_stale :: "string list"

text \<open>Python's \<open>sort(reverse=True)\<close>: descending, equal elements in their old order.\<close>

definition sort_desc :: "('a \<Rightarrow> 'k::linorder) \<Rightarrow> 'a list \<Rightarrow> 'a list" where
  "sort_desc k xs = rev (sort_key k (rev xs))"

definition fact_order :: "fact \<Rightarrow> fact_status \<times> rat \<times> ts" where
  "fact_order f = (f_status f, or_default (f_conf f) 0, f_collected f)"

definition fresh_group :: "fact list \<Rightarrow> fact list" where
  "fresh_group grp =
     (let live = filter (\<lambda>f. f_status f \<noteq> Stale) grp
      in sort_desc fact_order (if live = [] then grp else live))"

definition view_field :: "conflict list \<Rightarrow> tdb \<Rightarrow> string \<Rightarrow> fact list \<Rightarrow> field_view" where
  "view_field open_rows d field grp =
     (let fresh = fresh_group grp; cur = hd fresh;
          contested = (\<exists>f \<in> set grp. \<exists>c \<in> set open_rows. c_a c = f_id f \<or> c_b c = f_id f)
      in \<lparr>fv_field = field, fv_status = (if contested then Conflicted else f_status cur), fv_current = cur,
          fv_sources = sources_for (f_id cur) d,
          fv_alternatives = filter (\<lambda>f. f_status f \<noteq> Stale) (tl fresh)\<rparr>)"

definition snapshot :: "ts \<Rightarrow> string \<Rightarrow> string \<Rightarrow> tdb \<Rightarrow> subject_view \<times> tdb" where
  "snapshot now kind subject d =
     (let rows = sort_key (\<lambda>f. - f_collected f)
                   (filter (\<lambda>f. f_kind f = kind \<and> f_subject f = subject \<and> org_eq d (f_org f)) (facts d));
          (fs, d') = apply_freshness now rows d;
          open_rows = conflicts_of (Some kind) (Some subject) None (Some Open) d';
          views = map (\<lambda>field. view_field open_rows d' field (filter (\<lambda>f. f_field f = field) fs))
                      (rev (remdups (rev (map f_field fs))))
      in (\<lparr>sv_fields = views, sv_conflicts = open_rows,
           sv_stale = sort_key (map (of_char :: char \<Rightarrow> nat)) (map fv_field (filter (\<lambda>v. fv_status v = Stale) views))\<rparr>, d'))"

text \<open>The qualifier's flat input, read off the snapshot.\<close>

record qualification_input =
  qi_values :: "(string \<times> string) list"
  qi_statuses :: "(string \<times> fact_status) list"
  qi_conflicted :: "string list"
  qi_stale :: "string list"

definition sorted_fields :: "string list \<Rightarrow> string list" where
  "sorted_fields = sort_key (map (of_char :: char \<Rightarrow> nat))"

definition facts_for_qualification :: "ts \<Rightarrow> string \<Rightarrow> string \<Rightarrow> tdb \<Rightarrow> qualification_input \<times> tdb" where
  "facts_for_qualification now kind subject d =
     (let (snap, d') = snapshot now kind subject d
      in (\<lparr>qi_values = map (\<lambda>v. (fv_field v, f_value (fv_current v))) (sv_fields snap),
           qi_statuses = map (\<lambda>v. (fv_field v, fv_status v)) (sv_fields snap),
           qi_conflicted = sorted_fields (map fv_field (filter (\<lambda>v. fv_status v = Conflicted) (sv_fields snap))),
           qi_stale = sv_stale snap\<rparr>, d'))"

text \<open>The auditable dump: the snapshot and every source row of every fact of the subject.\<close>

definition export_subject :: "ts \<Rightarrow> string \<Rightarrow> string \<Rightarrow> tdb \<Rightarrow> (subject_view \<times> source_row list) \<times> tdb" where
  "export_subject now kind subject d =
     (let (snap, d') = snapshot now kind subject d
      in ((snap, concat (map (\<lambda>f. sources_for (f_id f) d')
             (filter (\<lambda>f. f_kind f = kind \<and> f_subject f = subject \<and> org_eq d' (f_org f)) (facts d')))), d'))"

subsection \<open>Visits and open questions\<close>

definition add_visit ::
  "ts \<Rightarrow> ident \<Rightarrow> string \<Rightarrow> string option \<Rightarrow> int option \<Rightarrow> string option \<Rightarrow> (tdb, truth_error, unit) act" where
  "add_visit now job url title status summary =
     seq org_of (\<lambda>org d.
       if \<exists>v \<in> set (visits d). v_job v = job \<and> v_url v = url
       then (Inr (), d\<lparr>visits := upd_where (\<lambda>v. v_job v = job \<and> v_url v = url)
               (\<lambda>v. v\<lparr>v_title := title, v_status := status, v_summary := summary, v_at := now\<rparr>) (visits d)\<rparr>)
       else (Inr (), d\<lparr>visits := visits d @
               [\<lparr>v_org = org, v_job = job, v_url = url, v_title = title, v_status = status,
                 v_summary = summary, v_at = now\<rparr>]\<rparr>))"

definition visited :: "ident \<Rightarrow> tdb \<Rightarrow> visit list" where
  "visited job d = sort_key v_at (filter (\<lambda>v. v_job v = job \<and> org_eq d (v_org v)) (visits d))"

definition add_open_question ::
  "ts \<Rightarrow> ident \<Rightarrow> string \<Rightarrow> string \<Rightarrow> string option \<Rightarrow> (tdb, truth_error, nat) act" where
  "add_open_question now job text kind subject =
     seq org_of (\<lambda>org d.
       (Inr (length (questions d)), d\<lparr>questions := questions d @
          [\<lparr>q_id = length (questions d), q_org = org, q_job = job, q_kind = kind, q_subject = subject,
            q_text = text, q_status = QOpen, q_answer = None, q_created = now, q_answered = None\<rparr>]\<rparr>))"

definition answer_open_question :: "ts \<Rightarrow> nat \<Rightarrow> ident \<Rightarrow> tdb \<Rightarrow> tdb" where
  "answer_open_question now i answer d =
     d\<lparr>questions := upd_where (\<lambda>q. q_id q = i \<and> q_status q = QOpen)
        (\<lambda>q. q\<lparr>q_status := QAnswered, q_answer := Some answer, q_answered := Some now\<rparr>) (questions d)\<rparr>"

definition drop_open_question :: "ts \<Rightarrow> nat \<Rightarrow> tdb \<Rightarrow> tdb" where
  "drop_open_question now i d =
     d\<lparr>questions := upd_where (\<lambda>q. q_id q = i \<and> q_status q = QOpen)
        (\<lambda>q. q\<lparr>q_status := QDropped, q_answered := Some now\<rparr>) (questions d)\<rparr>"

definition open_questions :: "ident \<Rightarrow> question_status \<Rightarrow> tdb \<Rightarrow> question list" where
  "open_questions job st d =
     sort_key q_id (filter (\<lambda>q. q_job q = job \<and> q_status q = st \<and> org_eq d (q_org q)) (questions d))"

subsection \<open>Histories of the store\<close>

inductive truth_step :: "tdb \<Rightarrow> tdb \<Rightarrow> bool" where
  ts_record: "truth_step d (snd (record_fact uuid ttl now ob d))"
| ts_resolve: "truth_step d (snd (resolve_conflict now cid winner note by_whom automatic d))"
| ts_verify: "truth_step d (snd (verify_fact ttl now i out conf url provider quote d))"
| ts_snapshot: "truth_step d (snd (snapshot now kind subject d))"
| ts_visit: "truth_step d (snd (add_visit now job url title status summary d))"
| ts_ask: "truth_step d (snd (add_open_question now job text kind subj d))"
| ts_answer: "truth_step d (answer_open_question now n answer d)"
| ts_drop: "truth_step d (drop_open_question now n d)"

text \<open>A verified fact is in no open conflict; every fact has a source; no value is recorded twice.\<close>

definition uncontested :: "tdb \<Rightarrow> bool" where
  "uncontested d \<longleftrightarrow> (\<forall>f \<in> set (facts d). f_status f = Verified \<longrightarrow> \<not> has_open_conflict (f_id f) d)"

definition sourced :: "tdb \<Rightarrow> bool" where
  "sourced d \<longleftrightarrow> (\<forall>f \<in> set (facts d). \<exists>s \<in> set (sources d). so_fact s = f_id f)"

definition value_key :: "fact \<Rightarrow> string option \<times> string \<times> string \<times> string \<times> string" where
  "value_key f = (f_org f, f_kind f, f_subject f, f_field f, f_value f)"

definition honest :: "tdb \<Rightarrow> bool" where
  "honest d \<longleftrightarrow> uncontested d \<and> sourced d \<and> distinct (map value_key (facts d))"

lemma has_open_conflict_cong: "conflict_rows d = conflict_rows d' \<Longrightarrow> has_open_conflict i d = has_open_conflict i d'"
  by (simp add: has_open_conflict_def)

lemma honest_cong:
  "facts d' = facts d \<Longrightarrow> conflict_rows d' = conflict_rows d \<Longrightarrow> so_fact ` set (sources d) \<subseteq> so_fact ` set (sources d')
    \<Longrightarrow> honest d \<Longrightarrow> honest d'"
  by (auto simp: honest_def uncontested_def sourced_def has_open_conflict_def image_iff subset_iff) metis

lemma honest_set_fact:
  assumes "honest d" and "\<And>f. f_id (g f) = f_id f" and "\<And>f. value_key (g f) = value_key f"
    and "\<And>f. f_id f = i \<Longrightarrow> f_status (g f) = Verified \<Longrightarrow> \<not> has_open_conflict i d"
  shows "honest (set_fact i g d)"
proof -
  have "map value_key (upd_where p g t) = map value_key t" for p t
    using assms(3) by (induction t) auto
  moreover have "\<exists>s \<in> set (sources d). so_fact s = f_id f" if "f \<in> set (upd_where (\<lambda>f. f_id f = i) g (facts d))" for f
    using that assms(1,2) by (auto simp: set_upd_where honest_def sourced_def)
  moreover have "\<not> has_open_conflict (f_id f) d"
    if "f \<in> set (upd_where (\<lambda>f. f_id f = i) g (facts d))" "f_status f = Verified" for f
    using that assms by (auto simp: set_upd_where honest_def uncontested_def split: if_splits)
  ultimately show ?thesis
    using assms(1) by (auto simp: honest_def uncontested_def sourced_def set_fact_def has_open_conflict_def)
qed

lemma add_source_simps [simp]:
  "facts (add_source now i org url kind provider query quote d) = facts d"
  "conflict_rows (add_source now i org url kind provider query quote d) = conflict_rows d"
  by (auto simp: add_source_def Let_def split: option.splits)

lemma add_source_sources:
  "so_fact ` set (sources d) \<union> {i} \<subseteq> so_fact ` set (sources (add_source now i org url kind provider query quote d))"
proof -
  let ?kind = "if kind \<in> set SOURCE_KINDS then kind else ''search_api''"
  let ?same = "\<lambda>s. so_fact s = i \<and> so_kind s = ?kind \<and> or_default (so_url s) [] = or_default url []
      \<and> or_default (so_provider s) [] = or_default provider []"
  show ?thesis
  proof (cases "find ?same (sources d)")
    case None
    then show ?thesis by (auto simp: add_source_def Let_def)
  next
    case (Some s)
    then have "s \<in> set (sources d)" "so_fact s = i" by (auto simp: find_Some_iff)
    then have "i \<in> so_fact ` set (sources d)" by blast
    moreover have "so_fact ` set (upd_where p (\<lambda>x. x\<lparr>so_at := now\<rparr>) xs) = so_fact ` set xs"
      for p and xs :: "source_row list"
      by (induction xs) auto
    ultimately show ?thesis using Some by (simp add: add_source_def Let_def)
  qed
qed

lemma honest_add_source: "honest d \<Longrightarrow> honest (add_source now i org url kind provider query quote d)"
  by (rule honest_cong [of _ d]) (use add_source_sources [of d i] in auto)

lemma value_key_upd [simp]:
  "value_key (f\<lparr>f_status := s\<rparr>) = value_key f" "value_key (f\<lparr>f_updated := t\<rparr>) = value_key f"
  "value_key (f\<lparr>f_conf := c\<rparr>) = value_key f" "value_key (f\<lparr>f_collected := t\<rparr>) = value_key f"
  "value_key (f\<lparr>f_expires := e\<rparr>) = value_key f" "value_key (f\<lparr>f_job := j\<rparr>) = value_key f"
  "value_key (f\<lparr>f_run := j\<rparr>) = value_key f"
  by (simp_all add: value_key_def)

text \<open>Every operation keeps the store honest.\<close>

lemma set_fact_hit:
  "f \<in> set (facts (set_fact i g d)) \<Longrightarrow> f_id f = i \<Longrightarrow> (\<And>x. f_id (g x) = f_id x) \<Longrightarrow> \<exists>x. f = g x"
  by (auto simp: set_fact_def set_upd_where split: if_splits)

lemma set_fact_miss:
  "f \<in> set (facts (set_fact i g d)) \<Longrightarrow> f_id f \<noteq> i \<Longrightarrow> (\<And>x. f_id (g x) = f_id x) \<Longrightarrow> f \<in> set (facts d)"
  by (auto simp: set_fact_def set_upd_where)

lemma seq_fresh_id: "seq (fresh_id uuid p) k d = k (p @ uuid (t_next d)) (d\<lparr>t_next := t_next d + 1\<rparr>)"
  by (simp add: seq_def fresh_id_def)

lemma honest_add_conflict:
  assumes "honest d" and "\<And>f. f \<in> set (facts d) \<Longrightarrow> f_id f = c_a c \<or> f_id f = c_b c \<Longrightarrow> f_status f \<noteq> Verified"
  shows "honest (d\<lparr>conflict_rows := conflict_rows d @ [c], t_next := n\<rparr>)"
proof -
  have "uncontested (d\<lparr>conflict_rows := conflict_rows d @ [c], t_next := n\<rparr>)"
    unfolding uncontested_def
  proof (intro ballI impI)
    fix f assume f: "f \<in> set (facts (d\<lparr>conflict_rows := conflict_rows d @ [c], t_next := n\<rparr>))" "f_status f = Verified"
    then have "f \<in> set (facts d)" by simp
    with assms f(2) have "\<not> has_open_conflict (f_id f) d" "f_id f \<noteq> c_a c \<and> f_id f \<noteq> c_b c"
      by (auto simp: honest_def uncontested_def)
    then show "\<not> has_open_conflict (f_id f) (d\<lparr>conflict_rows := conflict_rows d @ [c], t_next := n\<rparr>)"
      by (auto simp: has_open_conflict_def)
  qed
  with assms(1) show ?thesis by (simp add: honest_def sourced_def)
qed

lemma honest_open_conflict:
  "preserves honest (open_conflict uuid now org kind subject field a b job)"
proof (rule preservesI)
  fix d assume h: "honest d"
  show "honest (snd (open_conflict uuid now org kind subject field a b job d))"
  proof (cases "\<exists>c \<in> set (conflicts_of (Some kind) (Some subject) (Some field) (Some Open) d). {c_a c, c_b c} = {a, b}")
    case True
    with h show ?thesis by (simp add: open_conflict_def)
  next
    case False
    let ?g = "\<lambda>f. f\<lparr>f_status := Conflicted, f_updated := now\<rparr>"
    let ?c = "\<lparr>c_id = ''cfl_'' @ uuid (t_next d), c_org = org, c_kind = kind, c_subject = subject, c_field = field,
      c_a = a, c_b = b, c_res = Open, c_note = None, c_by = None, c_resolved_at = None, c_winner = None,
      c_job = job, c_created = now, c_updated = now\<rparr>"
    let ?d = "set_fact b ?g (set_fact a ?g d)"
    have out: "snd (open_conflict uuid now org kind subject field a b job d)
        = ?d\<lparr>conflict_rows := conflict_rows ?d @ [?c], t_next := t_next d + 1\<rparr>"
      using False by (simp add: open_conflict_def seq_def fresh_id_def set_fact_def)
    have "honest ?d" by (intro honest_set_fact h) simp_all
    moreover have "f_status f \<noteq> Verified" if f: "f \<in> set (facts ?d)" "f_id f = a \<or> f_id f = b" for f
    proof (cases "f_id f = b")
      case True
      with set_fact_hit [OF f(1)] obtain x where "f = ?g x" by auto
      then show ?thesis by simp
    next
      case False
      with set_fact_miss [OF f(1)] f(2) have "f \<in> set (facts (set_fact a ?g d))" "f_id f = a" by auto
      with set_fact_hit [of f a ?g d] obtain x where "f = ?g x" by auto
      then show ?thesis by simp
    qed
    ultimately have "honest (?d\<lparr>conflict_rows := conflict_rows ?d @ [?c], t_next := t_next d + 1\<rparr>)"
      by (intro honest_add_conflict) simp_all
    then show ?thesis by (simp only: out)
  qed
qed

lemma honest_detect_conflicts: "preserves honest (detect_conflicts uuid now org kind subject field i job)"
proof (rule preservesI)
  fix d assume h: "honest d"
  have "preserves honest (seq (open_conflict uuid now org kind subject field (f_id other) i job) (\<lambda>_. ret ()))"
    for other
    by (rule preserves_seq [OF honest_open_conflict preserves_ret])
  from preservesD [OF preserves_for_each [OF this] h]
  show "honest (snd (detect_conflicts uuid now org kind subject field i job d))"
    by (simp add: detect_conflicts_def)
qed

lemma honest_get_fact: "preserves honest (get_fact i)"
  by (auto simp: preserves_def get_fact_def split: option.splits)

lemma recompute_Verified: "fst (recompute_status i d) = Verified \<Longrightarrow> \<not> has_open_conflict i d"
  by (auto simp: recompute_status_def Let_def split: option.splits if_splits)

lemma honest_recomputed:
  assumes "honest d" and "\<And>f. f_id (g f) = f_id f" and "\<And>f. value_key (g f) = value_key f"
    and "\<And>f. f_status (g f) = fst (recompute_status i d)"
  shows "honest (set_fact i g d)"
  by (rule honest_set_fact [OF assms(1-3)]) (use assms(4) recompute_Verified in auto)

lemma honest_freshen: "preserves honest (freshen uuid ttl now org ob old)"
  unfolding freshen_def
  by (intro preserves_seq preserves_modify honest_detect_conflicts honest_get_fact)
     (auto simp: honest_add_source case_prod_beta Let_def intro!: honest_recomputed)

lemma org_of_eq: "org_of d = (Inr org, d') \<Longrightarrow> d' = d \<and> org_eq d org"
  by (auto simp: org_of_def org_eq_def split: if_splits)

lemma org_eq_unique: "org_eq d x \<Longrightarrow> org_eq d y \<Longrightarrow> x = y"
  by (auto simp: org_eq_def split: if_splits)

lemma honest_append:
  assumes "honest d" and "facts d' = facts d @ [row]" and "conflict_rows d' = conflict_rows d"
    and "so_fact ` set (sources d) \<union> {f_id row} \<subseteq> so_fact ` set (sources d')"
    and "f_status row \<noteq> Verified" and "value_key row \<notin> value_key ` set (facts d)"
  shows "honest d'"
proof -
  have "uncontested d'"
    using assms by (auto simp: honest_def uncontested_def has_open_conflict_def)
  moreover have "sourced d'"
    unfolding sourced_def
  proof
    fix f assume "f \<in> set (facts d')"
    then have "f_id f \<in> so_fact ` set (sources d) \<union> {f_id row}"
      using assms(1,2) by (force simp: honest_def sourced_def image_iff)
    with assms(4) show "\<exists>s \<in> set (sources d'). so_fact s = f_id f" by (metis imageE subsetD)
  qed
  moreover have "distinct (map value_key (facts d'))" using assms(1,2,6) by (simp add: honest_def)
  ultimately show ?thesis by (simp add: honest_def)
qed

lemma observed_by_simps:
  "facts (observed_by now org ob i d) = facts d"
  "conflict_rows (observed_by now org ob i d) = conflict_rows d"
  "so_fact ` set (sources d) \<union> {i} \<subseteq> so_fact ` set (sources (observed_by now org ob i d))"
  using add_source_sources [of d i] by (auto simp: observed_by_def)

lemma honest_insert_fact:
  assumes "honest d" and "org_eq d org"
    and "\<And>f. f \<in> set (facts d) \<Longrightarrow> f_kind f = ob_kind ob \<Longrightarrow> f_subject f = ob_subject ob \<Longrightarrow> f_field f = ob_field ob
       \<Longrightarrow> f_value f = v \<Longrightarrow> \<not> org_eq d (f_org f)"
  shows "honest (snd (insert_fact uuid ttl now org ob v d))"
proof -
  define i where "i = ''fact_'' @ uuid (t_next d)"
  define d1 where "d1 = d\<lparr>t_next := t_next d + 1\<rparr>"
  define row where "row = new_fact ttl now org ob v i"
  define d2 where "d2 = observed_by now org ob i (d1\<lparr>facts := facts d1 @ [row]\<rparr>)"
  have key: "value_key row \<notin> value_key ` set (facts d)"
    using assms(2,3) by (auto simp: value_key_def row_def new_fact_def)
  have st: "f_status row \<noteq> Verified" "f_id row = i" by (simp_all add: row_def new_fact_def)
  have d1: "facts d1 = facts d" "conflict_rows d1 = conflict_rows d" "sources d1 = sources d" by (simp_all add: d1_def)
  have src: "so_fact ` set (sources d) \<union> {f_id row} \<subseteq> so_fact ` set (sources d2)"
    using observed_by_simps(3) [of "d1\<lparr>facts := facts d1 @ [row]\<rparr>" i] by (simp add: d2_def d1 st)
  have "honest d2"
    by (rule honest_append [OF assms(1) _ _ src st(1) key]) (simp_all add: d2_def observed_by_simps d1)
  moreover have rest: "preserves honest
     (seq (detect_conflicts uuid now org (ob_kind ob) (ob_subject ob) (ob_field ob) i (ob_job ob)) (\<lambda>_.
     seq (modify (\<lambda>d. let (st, conf) = recompute_status i d in
            set_fact i (\<lambda>f. f\<lparr>f_status := st, f_conf := Some (or_default conf (1 / 2)), f_updated := now\<rparr>) d)) (\<lambda>_.
     get_fact i)))"
  proof (intro preserves_seq honest_detect_conflicts honest_get_fact preserves_modify)
    fix s :: tdb assume "honest s"
    then show "honest (let (st, conf) = recompute_status i s in
        set_fact i (\<lambda>f. f\<lparr>f_status := st, f_conf := Some (or_default conf (1 / 2)), f_updated := now\<rparr>) s)"
      by (simp add: case_prod_beta honest_recomputed)
  qed
  ultimately have "honest (snd (seq (detect_conflicts uuid now org (ob_kind ob) (ob_subject ob) (ob_field ob) i (ob_job ob)) (\<lambda>_.
     seq (modify (\<lambda>d. let (st, conf) = recompute_status i d in
            set_fact i (\<lambda>f. f\<lparr>f_status := st, f_conf := Some (or_default conf (1 / 2)), f_updated := now\<rparr>) d)) (\<lambda>_.
     get_fact i)) d2))"
    by (intro preservesD [OF rest])
  then show ?thesis
    unfolding insert_fact_def seq_fresh_id seq_modify d2_def row_def d1_def i_def .
qed

lemma honest_record_fact: "preserves honest (record_fact uuid ttl now ob)"
proof (rule preservesI)
  fix d assume h: "honest d"
  let ?v = "clean_value (ob_value ob)"
  let ?same = "\<lambda>f. f_kind f = ob_kind ob \<and> f_subject f = ob_subject ob \<and> f_field f = ob_field ob
      \<and> f_value f = ?v \<and> org_eq d (f_org f)"
  show "honest (snd (record_fact uuid ttl now ob d))"
  proof (cases "?v = [] \<or> (\<not> has_source ob \<and> \<not> ob_inferred ob)")
    case True
    with h show ?thesis by (auto simp: record_fact_def throw_def Let_def)
  next
    case ok: False
    obtain r d' where o: "org_of d = (r, d')" by (metis prod.exhaust)
    show ?thesis
    proof (cases r)
      case (Inl e)
      with o have "d' = d" by (auto simp: org_of_def split: if_splits)
      with ok h o Inl show ?thesis by (auto simp: record_fact_def seq_def Let_def)
    next
      case (Inr org)
      with o org_of_eq have d': "d' = d" "org_eq d org" by blast+
      show ?thesis
      proof (cases "find ?same (facts d)")
        case None
        then have "honest (snd (insert_fact uuid ttl now org ob ?v d))"
          by (intro honest_insert_fact [OF h d'(2)]) (auto simp: find_None_iff)
        with ok o Inr d' None show ?thesis by (auto simp: record_fact_def seq_def Let_def)
      next
        case (Some old)
        with ok o Inr d' preservesD [OF honest_freshen h] show ?thesis
          by (auto simp: record_fact_def seq_def Let_def)
      qed
    qed
  qed
qed

lemma honest_resolve: "preserves honest (resolve_conflict now cid winner note by_whom automatic)"
proof (rule preservesI)
  fix d assume h: "honest d"
  show "honest (snd (resolve_conflict now cid winner note by_whom automatic d))"
  proof (cases "row_of c_id cid (conflict_rows d)")
    case None
    with h show ?thesis by (simp add: resolve_conflict_def)
  next
    case (Some c)
    let ?f = "\<lambda>x. x\<lparr>c_res := (if automatic then ResolvedAuto else ResolvedHuman), c_note := note, c_by := by_whom,
        c_resolved_at := Some now, c_winner := Some winner, c_updated := now\<rparr>"
    define d1 where "d1 = d\<lparr>conflict_rows := upd_where (\<lambda>x. c_id x = cid) ?f (conflict_rows d)\<rparr>"
    have closed: "x \<in> set (conflict_rows d) \<and> c_id x \<noteq> cid" if x: "c_res x = Open" "x \<in> set (conflict_rows d1)" for x
    proof -
      from x(2) obtain y where y: "y \<in> set (conflict_rows d)" "x = (if c_id y = cid then ?f y else y)"
        by (auto simp: d1_def set_upd_where)
      have "c_res (?f y) \<noteq> Open" by simp
      with x(1) y(2) have "c_id y \<noteq> cid" by metis
      with y show ?thesis by simp
    qed
    then have "has_open_conflict i d1 \<Longrightarrow> has_open_conflict i d" for i
      by (auto simp: has_open_conflict_def)
    moreover have "facts d1 = facts d" "sources d1 = sources d" by (simp_all add: d1_def)
    ultimately have h1: "honest d1" using h by (auto simp: honest_def uncontested_def sourced_def)
    let ?other = "\<exists>x \<in> set (conflict_rows d1). c_res x = Open \<and> c_id x \<noteq> cid \<and> (c_a x = winner \<or> c_b x = winner)"
    let ?g = "\<lambda>f. f\<lparr>f_status := Verified, f_conf := (case f_conf f of Some q \<Rightarrow> if q > 85 / 100 then Some q else Some (85 / 100)
        | None \<Rightarrow> Some (85 / 100)), f_updated := now\<rparr>"
    have "\<not> ?other \<Longrightarrow> \<not> has_open_conflict winner d1"
      using closed by (auto simp: has_open_conflict_def)
    then have h2: "honest (if ?other then d1 else set_fact winner ?g d1)"
      using h1 by (auto intro!: honest_set_fact)
    have "honest (set_fact (if winner = c_a c then c_b c else c_a c) (\<lambda>f. f\<lparr>f_status := Stale, f_updated := now\<rparr>)
        (if ?other then d1 else set_fact winner ?g d1))"
      by (rule honest_set_fact [OF h2]) auto
    with Some h show ?thesis by (simp add: resolve_conflict_def Let_def d1_def [symmetric])
  qed
qed

lemma get_fact_state: "snd (get_fact i d) = d"
  by (auto simp: get_fact_def split: option.splits)

lemma honest_apply_verdict: "preserves honest (apply_verdict ttl now i out conf url provider quote f)"
proof (rule preservesI)
  fix d assume h: "honest d"
  define d1 where "d1 = (if truthy url \<or> truthy provider
      then add_source now i (f_org f) url ''email_verify'' provider None quote d else d)"
  have h1: "honest d1" using h by (simp add: d1_def honest_add_source)
  have c: "has_open_conflict i d1 = has_open_conflict i d" by (simp add: d1_def has_open_conflict_def)
  show "honest (snd (apply_verdict ttl now i out conf url provider quote f d))"
  proof (cases "out = OutVerified \<and> has_open_conflict i d")
    case True
    with h show ?thesis by (simp add: apply_verdict_def)
  next
    case False
    then show ?thesis
      using h1 c by (cases out)
        (auto simp: apply_verdict_def Let_def d1_def [symmetric] get_fact_state intro!: honest_set_fact)
  qed
qed

lemma honest_verify: "preserves honest (verify_fact ttl now i out conf url provider quote)"
  unfolding verify_fact_def
  by (rule preserves_seq [OF honest_get_fact]) (simp split: option.split add: honest_apply_verdict preserves_throw)

lemma honest_apply_freshness: "honest d \<Longrightarrow> honest (snd (apply_freshness now fs d))"
proof (induction fs arbitrary: d)
  case (Cons f fs)
  have "honest (set_fact (f_id f) (\<lambda>x. x\<lparr>f_status := Stale, f_updated := now\<rparr>) d)"
    by (rule honest_set_fact [OF Cons.prems]) simp_all
  from Cons.IH [OF this] Cons.IH [OF Cons.prems] show ?case by (simp add: case_prod_beta Let_def)
qed simp

lemma honest_step: "truth_step d d' \<Longrightarrow> honest d \<Longrightarrow> honest d'"
proof (induction rule: truth_step.induct)
  case (ts_record d uuid ttl now ob)
  then show ?case by (rule preservesD [OF honest_record_fact])
next
  case (ts_resolve d now cid winner why who automatic)
  then show ?case by (rule preservesD [OF honest_resolve])
next
  case (ts_verify d ttl now i out conf url provider quote)
  then show ?case by (rule preservesD [OF honest_verify])
next
  case (ts_snapshot d now kind subject)
  then show ?case by (simp add: snapshot_def Let_def case_prod_beta honest_apply_freshness)
next
  case (ts_visit d now job url title status summary)
  then show ?case
    by (auto simp: add_visit_def seq_def org_of_def split: if_splits intro: honest_cong [of _ d])
next
  case (ts_ask d now job body kind subj)
  then show ?case
    by (auto simp: add_open_question_def seq_def org_of_def intro: honest_cong [of _ d])
qed (auto simp: answer_open_question_def drop_open_question_def intro: honest_cong)

definition empty_truth :: tdb where
  "empty_truth = \<lparr>facts = [], sources = [], conflict_rows = [], visits = [], questions = [], t_org = None,
     t_pg = False, t_next = 0\<rparr>"

text \<open>C11: The truth layer stays honest: over any history of recordings, resolutions, verifications and readings, no
  fact is VERIFIED while an open conflict names it, no fact is without a source row, and no value of a
  field is recorded twice.\<close>

theorem truth_layer_honest:
  assumes "truth_step\<^sup>*\<^sup>* empty_truth d"
  shows "uncontested d \<and> sourced d \<and> distinct (map value_key (facts d))"
proof -
  have "honest d"
    using assms
    by (induction rule: rtranclp_induct)
       (simp add: honest_def empty_truth_def uncontested_def sourced_def, rule honest_step)
  then show ?thesis by (simp add: honest_def)
qed

definition phone_seen :: "string \<Rightarrow> string \<Rightarrow> observation" where
  "phone_seen value site =
     \<lparr>ob_kind = ''company'', ob_subject = ''acme'', ob_field = ''phone'', ob_value = Some value, ob_url = Some site,
      ob_skind = ''search_api'', ob_provider = None, ob_query = None, ob_quote = None, ob_job = None, ob_run = None,
      ob_vkind = ''text'', ob_conf = None, ob_inferred = False\<rparr>"

definition two_phones :: tdb where
  "two_phones = snd (record_fact show_nat (\<lambda>_. None) 20 (phone_seen ''222'' ''https://b.com/x'')
     (snd (record_fact show_nat (\<lambda>_. None) 10 (phone_seen ''111'' ''https://a.com/x'') empty_truth)))"

lemma two_phones_reached: "truth_step\<^sup>*\<^sup>* empty_truth two_phones"
  unfolding two_phones_def
  by (rule rtranclp.rtrancl_into_rtrancl, rule rtranclp.rtrancl_into_rtrancl, rule rtranclp.rtrancl_refl)
     (rule ts_record)+

lemma truth_layer_honest_witness: "uncontested two_phones"
  using truth_layer_honest [OF two_phones_reached] by blast

subsection \<open>Rival values\<close>

lemma fst_open_conflict: "\<exists>x. fst (open_conflict uuid now org kind subject field a b job d) = Inr x"
  by (auto simp: open_conflict_def seq_fresh_id)

text \<open>What conflict detection changes: statuses and new conflict rows, never a value.\<close>

definition only_contests :: "tdb \<Rightarrow> tdb \<Rightarrow> bool" where
  "only_contests d d' \<longleftrightarrow> map value_key (facts d') = map value_key (facts d) \<and> map f_id (facts d') = map f_id (facts d)
     \<and> set (conflict_rows d) \<subseteq> set (conflict_rows d') \<and> t_org d' = t_org d \<and> t_pg d' = t_pg d"

lemma only_contests_refl: "only_contests d d"
  by (simp add: only_contests_def)

lemma only_contests_trans: "only_contests a b \<Longrightarrow> only_contests b c \<Longrightarrow> only_contests a c"
  by (auto simp: only_contests_def)

lemma set_fact_keys:
  assumes "\<And>f. f_id (g f) = f_id f" and "\<And>f. value_key (g f) = value_key f"
  shows "map value_key (facts (set_fact i g d)) = map value_key (facts d)
    \<and> map f_id (facts (set_fact i g d)) = map f_id (facts d)"
proof -
  have "map value_key (upd_where p g t) = map value_key t \<and> map f_id (upd_where p g t) = map f_id t" for p t
    using assms by (induction t) auto
  then show ?thesis by (simp add: set_fact_def)
qed

definition contested_pair :: "ident \<Rightarrow> ident \<Rightarrow> tdb \<Rightarrow> bool" where
  "contested_pair a b d \<longleftrightarrow> (\<exists>c \<in> set (conflict_rows d). c_res c = Open \<and> {c_a c, c_b c} = {a, b})"

lemma open_conflict_spec:
  "only_contests d (snd (open_conflict uuid now org kind subject field a b job d))
    \<and> contested_pair a b (snd (open_conflict uuid now org kind subject field a b job d))"
proof (cases "\<exists>c \<in> set (conflicts_of (Some kind) (Some subject) (Some field) (Some Open) d). {c_a c, c_b c} = {a, b}")
  case True
  then show ?thesis by (auto simp: open_conflict_def only_contests_refl contested_pair_def conflicts_of_def)
next
  case False
  let ?g = "\<lambda>f. f\<lparr>f_status := Conflicted, f_updated := now\<rparr>"
  let ?c = "\<lparr>c_id = ''cfl_'' @ uuid (t_next d), c_org = org, c_kind = kind, c_subject = subject, c_field = field,
      c_a = a, c_b = b, c_res = Open, c_note = None, c_by = None, c_resolved_at = None, c_winner = None,
      c_job = job, c_created = now, c_updated = now\<rparr>"
  let ?d1 = "d\<lparr>t_next := t_next d + 1, conflict_rows := conflict_rows d @ [?c]\<rparr>"
  have out: "snd (open_conflict uuid now org kind subject field a b job d) = set_fact b ?g (set_fact a ?g ?d1)"
    using False by (simp add: open_conflict_def seq_fresh_id)
  have "conflict_rows (set_fact b ?g (set_fact a ?g ?d1)) = conflict_rows d @ [?c]" by (simp add: set_fact_def)
  moreover have "map value_key (facts (set_fact b ?g (set_fact a ?g ?d1))) = map value_key (facts d)"
    "map f_id (facts (set_fact b ?g (set_fact a ?g ?d1))) = map f_id (facts d)"
    using set_fact_keys [of ?g b "set_fact a ?g ?d1"] set_fact_keys [of ?g a ?d1] by simp_all
  moreover have "t_org (set_fact b ?g (set_fact a ?g ?d1)) = t_org d" "t_pg (set_fact b ?g (set_fact a ?g ?d1)) = t_pg d"
    by (simp_all add: set_fact_def)
  ultimately show ?thesis unfolding out by (simp add: only_contests_def contested_pair_def subset_insertI)
qed

lemma contested_pair_mono: "contested_pair a b d \<Longrightarrow> only_contests d d' \<Longrightarrow> contested_pair a b d'"
  by (auto simp: contested_pair_def only_contests_def)

lemma detect_loop:
  "\<exists>d'. for_each (\<lambda>other. seq (open_conflict uuid now org kind subject field (f_id other) i job) (\<lambda>_. ret ())) others d
      = (Inr (), d') \<and> only_contests d d' \<and> (\<forall>r \<in> set others. contested_pair (f_id r) i d')"
proof (induction others arbitrary: d)
  case Nil
  then show ?case by (simp add: ret_def only_contests_refl)
next
  case (Cons r rs)
  obtain x d1 where o: "open_conflict uuid now org kind subject field (f_id r) i job d = (Inr x, d1)"
    using fst_open_conflict [of uuid now org kind subject field "f_id r" i job d] by (metis prod.collapse)
  have s: "only_contests d d1" "contested_pair (f_id r) i d1"
    using open_conflict_spec [of d uuid now org kind subject field "f_id r" i job] o by simp_all
  obtain d' where d': "for_each (\<lambda>other. seq (open_conflict uuid now org kind subject field (f_id other) i job)
      (\<lambda>_. ret ())) rs d1 = (Inr (), d')" "only_contests d1 d'" "\<forall>r \<in> set rs. contested_pair (f_id r) i d'"
    using Cons.IH by blast
  then have "only_contests d d'" "contested_pair (f_id r) i d'"
    using s only_contests_trans contested_pair_mono by blast+
  with d' o show ?case by (simp add: seq_def ret_def)
qed

lemma detect_conflicts_spec:
  "\<exists>d'. detect_conflicts uuid now org kind subject field i job d = (Inr (), d') \<and> only_contests d d'
    \<and> (\<forall>r \<in> set (rivals kind subject field i d). is_fresh now r \<longrightarrow> contested_pair (f_id r) i d')"
  using detect_loop [of uuid now org kind subject field i job "filter (is_fresh now) (rivals kind subject field i d)" d]
  by (auto simp: detect_conflicts_def)

lemma contested_pair_open: "contested_pair a b d \<Longrightarrow> has_open_conflict a d \<and> has_open_conflict b d"
  by (auto simp: contested_pair_def has_open_conflict_def doubleton_eq_iff)

text \<open>The common end of both ways of recording.\<close>

lemma settle_recorded:
  assumes out: "seq (detect_conflicts uuid now org kind subject field i job) (\<lambda>_.
      seq (modify (\<lambda>d. set_fact i (g (recompute_status i d)) d)) (\<lambda>_. get_fact i)) d = (Inr (Some f), d')"
    and g: "\<And>st x. f_id (g st x) = f_id x" "\<And>st x. value_key (g st x) = value_key x"
      "\<And>st x. f_status (g st x) = fst st"
  shows "f_id f = i \<and> f \<in> set (facts d') \<and> map value_key (facts d') = map value_key (facts d)
    \<and> (\<forall>r \<in> set (rivals kind subject field i d). is_fresh now r \<longrightarrow>
         contested_pair (f_id r) i d' \<and> f_status f = Conflicted)"
proof -
  obtain d2 where d2: "detect_conflicts uuid now org kind subject field i job d = (Inr (), d2)" "only_contests d d2"
    "\<forall>r \<in> set (rivals kind subject field i d). is_fresh now r \<longrightarrow> contested_pair (f_id r) i d2"
    using detect_conflicts_spec by blast
  let ?st = "recompute_status i d2"
  have d': "get_fact i (set_fact i (g ?st) d2) = (Inr (Some f), d')"
    using out by (simp add: seq_def [of "detect_conflicts _ _ _ _ _ _ _ _"] d2(1) seq_modify)
  then have f: "row_of f_id i (facts (set_fact i (g ?st) d2)) = Some f" "d' = set_fact i (g ?st) d2"
    by (auto simp: get_fact_def split: option.splits if_splits)
  note fm = row_of_Some [OF f(1)]
  have keys: "map value_key (facts d') = map value_key (facts d2)" "map f_id (facts d') = map f_id (facts d2)"
    using set_fact_keys [of "g ?st" i d2] g(1,2) f(2) by simp_all
  obtain x where "f = g ?st x" using set_fact_hit [of f i "g ?st" d2] fm g(1) by auto
  then have st: "f_status f = fst ?st" by (simp add: g(3))
  have "i \<in> f_id ` set (facts d2)" using fm f(2) keys(2) by (metis imageI list.set_map)
  then obtain y where y: "row_of f_id i (facts d2) = Some y"
    by (cases "row_of f_id i (facts d2)") (auto simp: row_of_None_iff)
  have "contested_pair (f_id r) i d' \<and> f_status f = Conflicted"
    if "r \<in> set (rivals kind subject field i d)" "is_fresh now r" for r
  proof -
    from that d2(3) have c: "contested_pair (f_id r) i d2" by blast
    with contested_pair_open have "has_open_conflict i d2" by blast
    with y st have "f_status f = Conflicted" by (simp add: recompute_status_def Let_def)
    moreover have "conflict_rows d' = conflict_rows d2" using f(2) by (simp add: set_fact_def)
    with c have "contested_pair (f_id r) i d'" by (simp add: contested_pair_def)
    ultimately show ?thesis by simp
  qed
  with fm f(2) keys(1) d2(2) show ?thesis by (auto simp: only_contests_def)
qed

lemma rivals_same: "facts d' = facts d \<Longrightarrow> t_org d' = t_org d \<Longrightarrow> t_pg d' = t_pg d \<Longrightarrow>
    rivals kind subject field i d' = rivals kind subject field i d"
  by (simp add: rivals_def org_eq_def)

lemma add_source_org [simp]:
  "t_org (add_source now i org url kind provider query quote d) = t_org d"
  "t_pg (add_source now i org url kind provider query quote d) = t_pg d"
  by (auto simp: add_source_def Let_def split: option.splits)

lemma freshen_settles:
  assumes "freshen uuid ttl now org ob old d = (Inr (Some f), d')"
  shows "f_id f = f_id old \<and> f \<in> set (facts d') \<and> map value_key (facts d') = map value_key (facts d)
    \<and> (\<forall>r \<in> set (rivals (ob_kind ob) (ob_subject ob) (ob_field ob) (f_id old) d). is_fresh now r \<longrightarrow>
         contested_pair (f_id r) (f_id old) d' \<and> f_status f = Conflicted)"
proof -
  define d1 where "d1 = (if has_source ob
      then add_source now (f_id old) org (ob_url ob) (ob_skind ob) (ob_provider ob) (ob_query ob) (ob_quote ob) d else d)"
  have d1: "facts d1 = facts d" "t_org d1 = t_org d" "t_pg d1 = t_pg d" by (simp_all add: d1_def)
  let ?g = "\<lambda>(st, conf) f. f\<lparr>f_status := st, f_conf := (case conf of None \<Rightarrow> f_conf old | Some c \<Rightarrow> Some c),
      f_collected := now, f_expires := Some (deadline now ttl (ob_field ob)),
      f_job := (case ob_job ob of None \<Rightarrow> f_job f | Some j \<Rightarrow> Some j),
      f_run := (case ob_run ob of None \<Rightarrow> f_run f | Some j \<Rightarrow> Some j), f_updated := now\<rparr>"
  have "seq (detect_conflicts uuid now org (ob_kind ob) (ob_subject ob) (ob_field ob) (f_id old) (ob_job ob)) (\<lambda>_.
      seq (modify (\<lambda>d. set_fact (f_id old) (?g (recompute_status (f_id old) d)) d)) (\<lambda>_. get_fact (f_id old))) d1
      = (Inr (Some f), d')"
    using assms by (simp add: freshen_def seq_modify d1_def case_prod_beta)
  from settle_recorded [OF this] show ?thesis
    unfolding rivals_same [OF d1] d1(1) by (auto simp: case_prod_beta)
qed

lemma insert_fact_settles:
  assumes "insert_fact uuid ttl now org ob v d = (Inr (Some f), d')"
  shows "\<exists>row. map value_key (facts d') = map value_key (facts d) @ [row] \<and> f \<in> set (facts d')
    \<and> (\<forall>r \<in> set (rivals (ob_kind ob) (ob_subject ob) (ob_field ob) (f_id f) d). is_fresh now r \<longrightarrow>
         contested_pair (f_id r) (f_id f) d' \<and> f_status f = Conflicted)"
proof -
  define i where "i = ''fact_'' @ uuid (t_next d)"
  define d1 where "d1 = d\<lparr>t_next := t_next d + 1\<rparr>"
  define row where "row = new_fact ttl now org ob v i"
  define d2 where "d2 = observed_by now org ob i (d1\<lparr>facts := facts d1 @ [row]\<rparr>)"
  have d2: "facts d2 = facts d @ [row]" "t_org d2 = t_org d" "t_pg d2 = t_pg d"
    by (simp_all add: d2_def observed_by_def d1_def)
  let ?g = "\<lambda>(st, conf) f. f\<lparr>f_status := st, f_conf := Some (or_default conf (1 / 2)), f_updated := now\<rparr>"
  have "seq (detect_conflicts uuid now org (ob_kind ob) (ob_subject ob) (ob_field ob) i (ob_job ob)) (\<lambda>_.
      seq (modify (\<lambda>d. set_fact i (?g (recompute_status i d)) d)) (\<lambda>_. get_fact i)) d2 = (Inr (Some f), d')"
    using assms unfolding insert_fact_def seq_fresh_id seq_modify i_def [symmetric] d1_def [symmetric]
      row_def [symmetric] d2_def [symmetric] by (simp add: case_prod_beta)
  from settle_recorded [OF this] have s: "f_id f = i" "f \<in> set (facts d')" "map value_key (facts d') = map value_key (facts d2)"
    "\<forall>r \<in> set (rivals (ob_kind ob) (ob_subject ob) (ob_field ob) i d2). is_fresh now r \<longrightarrow>
         contested_pair (f_id r) i d' \<and> f_status f = Conflicted"
    by (auto simp: case_prod_beta)
  have "r \<in> set (rivals (ob_kind ob) (ob_subject ob) (ob_field ob) i d2)"
    if "r \<in> set (rivals (ob_kind ob) (ob_subject ob) (ob_field ob) i d)" for r
    using that d2 by (auto simp: rivals_def org_eq_def)
  with s d2(1) show ?thesis by (intro exI [of _ "value_key row"]) auto
qed

text \<open>No observation silently overwrites or hides a rival: recording a value keeps every value recorded before
  and, whenever another value of the same field of the same subject is still fresh and not merely inferred,
  opens (or finds open) a conflict between the two and reports the recorded fact as CONFLICTED; in an
  honest store neither of them is VERIFIED afterwards.\<close>

theorem recording_contests_rivals:
  assumes "honest d" and "record_fact uuid ttl now ob d = (Inr (Some f), d')"
  shows "(\<exists>new. map value_key (facts d') = map value_key (facts d) @ new)
    \<and> (\<forall>r \<in> set (rivals (ob_kind ob) (ob_subject ob) (ob_field ob) (f_id f) d). is_fresh now r \<longrightarrow>
         contested_pair (f_id r) (f_id f) d' \<and> f_status f = Conflicted
         \<and> (\<forall>x \<in> set (facts d'). f_id x = f_id r \<longrightarrow> f_status x \<noteq> Verified))"
proof -
  have h': "honest d'" using preservesD [OF honest_record_fact assms(1)] assms(2) by (metis snd_conv)
  let ?v = "clean_value (ob_value ob)"
  have ok: "?v \<noteq> []" "has_source ob \<or> ob_inferred ob"
    using assms(2) by (auto simp: record_fact_def throw_def Let_def split: if_splits)
  obtain o' d0 where o: "org_of d = (o', d0)" by (metis prod.exhaust)
  with assms(2) ok obtain org where "o' = Inr org"
    by (cases o') (auto simp: record_fact_def seq_def Let_def)
  with o org_of_eq have o2: "org_of d = (Inr org, d)" by blast
  let ?same = "\<lambda>f. f_kind f = ob_kind ob \<and> f_subject f = ob_subject ob \<and> f_field f = ob_field ob
      \<and> f_value f = ?v \<and> org_eq d (f_org f)"
  have "(\<exists>new. map value_key (facts d') = map value_key (facts d) @ new)
      \<and> (\<forall>r \<in> set (rivals (ob_kind ob) (ob_subject ob) (ob_field ob) (f_id f) d). is_fresh now r \<longrightarrow>
           contested_pair (f_id r) (f_id f) d' \<and> f_status f = Conflicted)"
  proof (cases "find ?same (facts d)")
    case None
    with assms(2) ok o2 have "insert_fact uuid ttl now org ob ?v d = (Inr (Some f), d')"
      by (auto simp: record_fact_def seq_def Let_def)
    from insert_fact_settles [OF this] show ?thesis by blast
  next
    case (Some old)
    with assms(2) ok o2 have "freshen uuid ttl now org ob old d = (Inr (Some f), d')"
      by (auto simp: record_fact_def seq_def Let_def)
    from freshen_settles [OF this] show ?thesis by auto
  qed
  moreover have "f_status x \<noteq> Verified" if "contested_pair (f_id r) (f_id f) d'" "x \<in> set (facts d')" "f_id x = f_id r" for r x
    using that h' contested_pair_open [OF that(1)] by (auto simp: honest_def uncontested_def)
  ultimately show ?thesis by blast
qed

lemma recording_contests_rivals_witness:
  "\<exists>f d'. record_fact show_nat (\<lambda>_. None) 20 (phone_seen ''222'' ''https://b.com/x'')
      (snd (record_fact show_nat (\<lambda>_. None) 10 (phone_seen ''111'' ''https://a.com/x'') empty_truth)) = (Inr (Some f), d')
    \<and> f_status f = Conflicted"
proof -
  let ?d = "snd (record_fact show_nat (\<lambda>_. None) 10 (phone_seen ''111'' ''https://a.com/x'') empty_truth)"
  let ?r = "record_fact show_nat (\<lambda>_. None) 20 (phone_seen ''222'' ''https://b.com/x'') ?d"
  have "honest empty_truth" by (simp add: honest_def empty_truth_def uncontested_def sourced_def)
  then have h: "honest ?d" by (rule preservesD [OF honest_record_fact])
  have c: "(case fst ?r of Inr (Some f) \<Rightarrow>
      (\<exists>x \<in> set (rivals ''company'' ''acme'' ''phone'' (f_id f) ?d). is_fresh 20 x) | _ \<Rightarrow> False)"
    by code_simp
  then obtain f d' where r: "?r = (Inr (Some f), d')"
    by (cases ?r) (auto split: sum.splits option.splits)
  with c have "\<exists>x \<in> set (rivals ''company'' ''acme'' ''phone'' (f_id f) ?d). is_fresh 20 x" by simp
  with recording_contests_rivals [OF h r] have "f_status f = Conflicted" by (auto simp: phone_seen_def)
  with r show ?thesis by blast
qed

subsection \<open>A loser comes back\<close>

text \<open>Two phones in conflict, the first one wins, and then the loser is verified.\<close>

definition revived :: tdb where
  "revived = snd (verify_fact (\<lambda>_. None) 40 ''fact_1'' OutVerified None None None None
     (snd (resolve_conflict 30 ''cfl_2'' ''fact_0'' None None False two_phones)))"

text \<open>Verification does not look for rivals: there is a history of four operations after which two different
  values of one field of one subject are both VERIFIED and fresh, and no conflict is open.\<close>

theorem two_values_verified_at_once:
  "truth_step\<^sup>*\<^sup>* empty_truth revived
    \<and> length (filter (\<lambda>f. f_field f = ''phone'' \<and> f_subject f = ''acme'' \<and> f_status f = Verified \<and> is_fresh 40 f)
        (facts revived)) = 2
    \<and> distinct (map f_value (facts revived)) \<and> filter (\<lambda>c. c_res c = Open) (conflict_rows revived) = []"
proof (intro conjI)
  show "truth_step\<^sup>*\<^sup>* empty_truth revived"
    unfolding revived_def
    by (rule rtranclp.rtrancl_into_rtrancl, rule rtranclp.rtrancl_into_rtrancl, rule two_phones_reached)
       (rule ts_resolve, rule ts_verify)
qed code_simp+

subsection \<open>What a reader is shown\<close>

definition aged :: "ts \<Rightarrow> fact \<Rightarrow> fact" where
  "aged now f = (if f_status f \<in> {Verified, Unverified, Conflicted} \<and> \<not> is_fresh now f then f\<lparr>f_status := Stale\<rparr> else f)"

lemma fst_apply_freshness: "fst (apply_freshness now fs d) = map (aged now) fs"
  by (induction fs arbitrary: d) (simp_all add: case_prod_beta Let_def aged_def)

lemma apply_freshness_keeps:
  "conflict_rows (snd (apply_freshness now fs d)) = conflict_rows d \<and> t_org (snd (apply_freshness now fs d)) = t_org d
    \<and> t_pg (snd (apply_freshness now fs d)) = t_pg d"
  by (induction fs arbitrary: d) (simp_all add: case_prod_beta Let_def set_fact_def)

lemma sorted_last_max: "sorted (map k xs) \<Longrightarrow> x \<in> set xs \<Longrightarrow> k x \<le> k (last xs)"
  by (induction xs rule: rev_induct) (auto simp: sorted_append)

lemma conflicts_of_cong:
  "conflict_rows d' = conflict_rows d \<Longrightarrow> t_org d' = t_org d \<Longrightarrow> t_pg d' = t_pg d \<Longrightarrow>
    conflicts_of kind subject field res d' = conflicts_of kind subject field res d"
  by (simp add: conflicts_of_def org_eq_def)

lemma sort_desc_hd:
  assumes "xs \<noteq> []"
  shows "hd (sort_desc k xs) \<in> set xs" and "x \<in> set xs \<Longrightarrow> k x \<le> k (hd (sort_desc k xs))"
proof -
  let ?s = "sort_key k (rev xs)"
  have ne: "?s \<noteq> []" using assms by (metis Nil_is_rev_conv length_0_conv length_sort)
  then have hd: "hd (sort_desc k xs) = last ?s" by (simp add: sort_desc_def hd_rev)
  have set: "set ?s = set xs" by simp
  show "hd (sort_desc k xs) \<in> set xs" using last_in_set [OF ne] set hd by metis
  assume "x \<in> set xs"
  then have "x \<in> set ?s" using set by simp
  moreover have "sorted (map k ?s)" by simp
  ultimately show "k x \<le> k (hd (sort_desc k xs))"
    unfolding hd by (intro sorted_last_max)
qed

lemma fresh_group_hd:
  assumes "grp \<noteq> []"
  shows "hd (fresh_group grp) \<in> set grp" and "f \<in> set grp \<Longrightarrow> f_status f \<le> f_status (hd (fresh_group grp))"
proof -
  let ?live = "filter (\<lambda>f. f_status f \<noteq> Stale) grp"
  let ?pick = "if ?live = [] then grp else ?live"
  have ne: "?pick \<noteq> []" using assms by auto
  have hd: "hd (fresh_group grp) = hd (sort_desc fact_order ?pick)" by (simp add: fresh_group_def Let_def)
  show "hd (fresh_group grp) \<in> set grp" using sort_desc_hd(1) [OF ne, of fact_order] hd by (auto split: if_splits)
  assume f: "f \<in> set grp"
  show "f_status f \<le> f_status (hd (fresh_group grp))"
  proof (cases "f \<in> set ?pick")
    case True
    from sort_desc_hd(2) [OF ne True, of fact_order] hd show ?thesis by (auto simp: fact_order_def)
  next
    case False
    with f have "f_status f = Stale" by (auto split: if_splits)
    then show ?thesis by (simp add: Stale_bot)
  qed
qed

text \<open>C16: A snapshot shows only what the store can answer for: each field's value is a recorded one of the best
  status among the field's values; a value shown as VERIFIED or UNVERIFIED is within its freshness deadline;
  and nothing is shown as VERIFIED in a field that an open conflict touches.\<close>

theorem snapshot_shows_honest_values:
  assumes "v \<in> set (sv_fields (fst (snapshot now kind subject d)))"
  shows "(\<exists>f \<in> set (facts d). f_kind f = kind \<and> f_subject f = subject \<and> f_field f = fv_field v
            \<and> value_key (fv_current v) = value_key f)
    \<and> (\<forall>f \<in> set (facts d). f_kind f = kind \<and> f_subject f = subject \<and> org_eq d (f_org f) \<and> f_field f = fv_field v
         \<longrightarrow> f_status (aged now f) \<le> f_status (fv_current v))
    \<and> (fv_status v \<in> {Verified, Unverified} \<longrightarrow> f_status (fv_current v) = fv_status v \<and> is_fresh now (fv_current v))
    \<and> (fv_status v \<noteq> Conflicted \<longrightarrow> (\<forall>f \<in> set (facts d). f_kind f = kind \<and> f_subject f = subject
         \<and> org_eq d (f_org f) \<and> f_field f = fv_field v
         \<longrightarrow> (\<forall>c \<in> set (conflicts_of (Some kind) (Some subject) None (Some Open) d). c_a c \<noteq> f_id f \<and> c_b c \<noteq> f_id f)))"
proof -
  let ?rows = "sort_key (\<lambda>f. - f_collected f)
      (filter (\<lambda>f. f_kind f = kind \<and> f_subject f = subject \<and> org_eq d (f_org f)) (facts d))"
  let ?fs = "map (aged now) ?rows" and ?d' = "snd (apply_freshness now ?rows d)"
  let ?open = "conflicts_of (Some kind) (Some subject) None (Some Open) ?d'"
  have same: "?open = conflicts_of (Some kind) (Some subject) None (Some Open) d"
    using apply_freshness_keeps [of now ?rows d] by (intro conflicts_of_cong) blast+
  from assms obtain field where field: "field \<in> set (map f_field ?fs)"
    "v = view_field ?open ?d' field (filter (\<lambda>f. f_field f = field) ?fs)"
    by (auto simp: snapshot_def Let_def case_prod_beta fst_apply_freshness)
  let ?grp = "filter (\<lambda>f. f_field f = field) ?fs"
  have ne: "?grp \<noteq> []" using field(1) by (auto simp: filter_empty_conv)
  have cur: "fv_current v = hd (fresh_group ?grp)" "fv_field v = field"
    by (simp_all add: field(2) view_field_def Let_def)
  have key: "value_key (aged now f) = value_key f" "f_field (aged now f) = f_field f" "f_id (aged now f) = f_id f" for f
    by (simp_all add: aged_def)
  have in_grp: "aged now f \<in> set ?grp"
    if "f \<in> set (facts d)" "f_kind f = kind" "f_subject f = subject" "org_eq d (f_org f)" "f_field f = field" for f
    using that by (auto simp: key)
  from fresh_group_hd(1) [OF ne] obtain g where g: "g \<in> set (facts d)" "f_kind g = kind" "f_subject g = subject"
    "f_field g = field" "fv_current v = aged now g" by (auto simp: cur key)
  have best: "f_status (aged now f) \<le> f_status (fv_current v)"
    if "f \<in> set (facts d)" "f_kind f = kind" "f_subject f = subject" "org_eq d (f_org f)" "f_field f = field" for f
    unfolding cur(1) by (rule fresh_group_hd(2) [OF ne in_grp [OF that]])
  have st: "fv_status v = (if \<exists>f \<in> set ?grp. \<exists>c \<in> set ?open. c_a c = f_id f \<or> c_b c = f_id f then Conflicted
      else f_status (fv_current v))"
    by (simp only: field(2) view_field_def Let_def field_view.simps)
  have fresh: "is_fresh now (aged now g)" if "f_status (aged now g) \<in> {Verified, Unverified}"
    using that by (auto simp: aged_def split: if_splits)
  have quiet: "c_a c \<noteq> f_id f \<and> c_b c \<noteq> f_id f"
    if "fv_status v \<noteq> Conflicted" "aged now f \<in> set ?grp" "c \<in> set ?open" for f c
    using that st key(3) [of f] by (metis (mono_tags, lifting))
  have one: "\<exists>f \<in> set (facts d). f_kind f = kind \<and> f_subject f = subject \<and> f_field f = fv_field v
      \<and> value_key (fv_current v) = value_key f"
    using g key(1) [of g] cur(2) by (intro bexI [of _ g]) auto
  have three: "f_status (fv_current v) = fv_status v \<and> is_fresh now (fv_current v)" if "fv_status v \<in> {Verified, Unverified}"
  proof -
    from that have "fv_status v \<noteq> Conflicted" by auto
    with st have "f_status (fv_current v) = fv_status v" by presburger
    with that fresh g(5) show ?thesis by simp
  qed
  have four: "c_a c \<noteq> f_id f \<and> c_b c \<noteq> f_id f"
    if "fv_status v \<noteq> Conflicted" "f \<in> set (facts d)" "f_kind f = kind" "f_subject f = subject" "org_eq d (f_org f)"
      "f_field f = fv_field v" "c \<in> set (conflicts_of (Some kind) (Some subject) None (Some Open) d)" for f c
    using quiet [OF that(1) in_grp [OF that(2-5)]] that(6,7) cur(2) same by metis
  have two: "f_status (aged now f) \<le> f_status (fv_current v)"
    if "f \<in> set (facts d)" "f_kind f = kind \<and> f_subject f = subject \<and> org_eq d (f_org f) \<and> f_field f = fv_field v" for f
    using best that cur(2) by blast
  show ?thesis
    by (intro conjI one ballI impI two three [THEN conjunct1] three [THEN conjunct2] four [THEN conjunct1]
        four [THEN conjunct2]) auto
qed

lemma snapshot_shows_honest_values_witness:
  "fv_status (hd (sv_fields (fst (snapshot 50 ''company'' ''acme'' revived)))) = Verified
    \<and> is_fresh 50 (fv_current (hd (sv_fields (fst (snapshot 50 ''company'' ''acme'' revived)))))"
proof -
  let ?v = "hd (sv_fields (fst (snapshot 50 ''company'' ''acme'' revived)))"
  have "sv_fields (fst (snapshot 50 ''company'' ''acme'' revived)) \<noteq> []" "fv_status ?v = Verified" by code_simp+
  moreover from this(1) have "?v \<in> set (sv_fields (fst (snapshot 50 ''company'' ''acme'' revived)))" by simp
  ultimately show ?thesis using snapshot_shows_honest_values [of ?v 50 "''company''" "''acme''" revived] by simp
qed

end
