(* ===== verification/Json.thy ===== *)
theory Json
  imports ProviderPool
begin

section \<open>JSON values and what Python makes of them\<close>

text \<open>
  Answers of models, arguments of tools and stored plans are JSON: the values \<open>json.loads\<close> yields, objects as
  association lists in the order of the dict.  Strings are UTF-8 bytes, so that Arabic text and the ASCII of
  identifiers share one type; \<open>points\<close> gives the code points where the text itself is looked at.  The
  conversions are the ones the sources apply to such values, with the exceptions they raise.
\<close>

datatype json =
    JNull | JBool bool | JInt int | JReal rat | JStr string | JList "json list" | JObj "(string \<times> json) list"

datatype py_fault = TypeError | ValueError | AttributeError | KeyError

subsection \<open>UTF-8\<close>

fun utf8_bytes :: "nat \<Rightarrow> nat list" where
  "utf8_bytes c =
     (if c < 128 then [c]
      else if c < 2048 then [192 + c div 64, 128 + c mod 64]
      else if c < 65536 then [224 + c div 4096, 128 + c div 64 mod 64, 128 + c mod 64]
      else [240 + c div 262144, 128 + c div 4096 mod 64, 128 + c div 64 mod 64, 128 + c mod 64])"

declare utf8_bytes.simps [simp del]

definition utf8 :: "nat list \<Rightarrow> string" where
  "utf8 s = map char_of (concat (map utf8_bytes s))"

fun utf8_points :: "nat list \<Rightarrow> nat list" where
  "utf8_points [] = []"
| "utf8_points (a # s) =
     (if a < 192 then a # utf8_points s
      else case s of [] \<Rightarrow> [a] | b # t \<Rightarrow>
        if a < 224 then ((a - 192) * 64 + (b - 128)) # utf8_points t
        else case t of [] \<Rightarrow> [a] | c # t' \<Rightarrow>
          if a < 240 then ((a - 224) * 4096 + (b - 128) * 64 + (c - 128)) # utf8_points t'
          else case t' of [] \<Rightarrow> [a] | d # t'' \<Rightarrow>
            ((a - 240) * 262144 + (b - 128) * 4096 + (c - 128) * 64 + (d - 128)) # utf8_points t'')"

definition points :: "string \<Rightarrow> nat list" where
  "points s = utf8_points (map of_char s)"

lemma utf8_bytes_bounds: "c < 1114112 \<Longrightarrow> b \<in> set (utf8_bytes c) \<Longrightarrow> b < 256"
  by (auto simp: utf8_bytes.simps split: if_splits)

lemma base64_2: "c div 4096 * 4096 + c div 64 mod 64 * 64 + c mod 64 = (c :: nat)"
proof -
  obtain q1 q2 r0 r1 where q: "q1 = c div 64" "q2 = q1 div 64" "r0 = c mod 64" "r1 = q1 mod 64" by blast
  have "q1 * 64 + r0 = c" "q2 * 64 + r1 = q1" by (simp_all only: q div_mult_mod_eq)
  then have "q2 * 4096 + r1 * 64 + r0 = c" by simp
  moreover have "c div 4096 = q2" by (simp add: q div_mult2_eq [symmetric])
  ultimately show ?thesis by (simp only: q)
qed

lemma base64_3: "c div 262144 * 262144 + c div 4096 mod 64 * 4096 + c div 64 mod 64 * 64 + c mod 64 = (c :: nat)"
proof -
  obtain q2 where q2: "q2 = c div 4096" by blast
  obtain q3 r2 where q: "q3 = q2 div 64" "r2 = q2 mod 64" by blast
  have "q3 * 64 + r2 = q2" by (simp only: q div_mult_mod_eq)
  then have "q3 * 262144 + r2 * 4096 = q2 * 4096" by simp
  moreover have "c div 262144 = q3" by (simp add: q q2 div_mult2_eq [symmetric])
  moreover note base64_2 [of c]
  ultimately show ?thesis by (simp only: q2 q)
qed

lemma utf8_points_bytes:
  assumes "c < 1114112"
  shows "utf8_points (utf8_bytes c @ s) = c # utf8_points s"
proof -
  consider "c < 128" | "128 \<le> c" "c < 2048" | "2048 \<le> c" "c < 65536" | "65536 \<le> c" by linarith
  then show ?thesis
  proof cases
    case 1
    then show ?thesis by (simp add: utf8_bytes.simps)
  next
    case 2
    then have "c div 64 < 32" by (simp add: less_mult_imp_div_less)
    with 2 show ?thesis by (simp add: utf8_bytes.simps)
  next
    case 3
    then have "c div 4096 < 16" by (simp add: less_mult_imp_div_less)
    then show ?thesis using 3 base64_2 [of c] by (simp add: utf8_bytes.simps)
  next
    case 4
    then show ?thesis using base64_3 [of c] by (simp add: utf8_bytes.simps)
  qed
qed

text \<open>Nothing is lost on the way to bytes and back.\<close>

lemma points_utf8:
  assumes "list_all (\<lambda>c. c < 1114112) s"
  shows "points (utf8 s) = s"
proof -
  have "\<forall>b \<in> set (concat (map utf8_bytes s)). b < 256"
    using assms utf8_bytes_bounds by (auto simp: list_all_iff)
  then have "map (of_char \<circ> char_of) (concat (map utf8_bytes s)) = concat (map utf8_bytes s)"
    by (auto intro!: map_idI simp del: set_concat)
  moreover have "utf8_points (concat (map utf8_bytes s)) = s"
    using assms by (induction s) (simp_all add: utf8_points_bytes)
  ultimately show ?thesis by (simp add: points_def utf8_def)
qed

text \<open>\<open>s[:n]\<close> counts code points.\<close>

definition cut_text :: "nat \<Rightarrow> string \<Rightarrow> string" where
  "cut_text n s = utf8 (take n (points s))"

subsection \<open>Truth, access, conversion\<close>

fun py_true :: "json \<Rightarrow> bool" where
  "py_true JNull = False"
| "py_true (JBool b) = b"
| "py_true (JInt i) = (i \<noteq> 0)"
| "py_true (JReal q) = (q \<noteq> 0)"
| "py_true (JStr s) = (s \<noteq> [])"
| "py_true (JList xs) = (xs \<noteq> [])"
| "py_true (JObj kvs) = (kvs \<noteq> [])"

fun is_dict :: "json \<Rightarrow> bool" where
  "is_dict (JObj kvs) = True"
| "is_dict _ = False"

text \<open>\<open>d.get(k)\<close> of a dict, and of a value that need not be one.\<close>

definition kv_get :: "(string \<times> json) list \<Rightarrow> string \<Rightarrow> json" where
  "kv_get kvs k = or_default (map_of kvs k) JNull"

fun dict_get :: "json \<Rightarrow> string \<Rightarrow> py_fault + json" where
  "dict_get (JObj kvs) k = Inr (kv_get kvs k)"
| "dict_get _ k = Inl AttributeError"

text \<open>\<open>(v or '').strip()\<close>.\<close>

fun strip_arg :: "json \<Rightarrow> py_fault + string" where
  "strip_arg (JStr s) = Inr (py_strip s)"
| "strip_arg v = (if py_true v then Inl AttributeError else Inr [])"

definition parse_int :: "string \<Rightarrow> int option" where
  "parse_int s0 =
     (let s = py_strip s0; ds = (if starts_with s ''-'' \<or> starts_with s ''+'' then tl s else s)
      in if ds = [] \<or> \<not> list_all is_digit ds then None
         else Some (if starts_with s ''-'' then - int (digits_value ds) else int (digits_value ds)))"

fun as_int :: "json \<Rightarrow> py_fault + int" where
  "as_int (JInt i) = Inr i"
| "as_int (JBool b) = Inr (if b then 1 else 0)"
| "as_int (JReal q) = Inr (py_int_of_float q)"
| "as_int (JStr s) = (case parse_int s of None \<Rightarrow> Inl ValueError | Some i \<Rightarrow> Inr i)"
| "as_int _ = Inl TypeError"

fun as_float :: "json \<Rightarrow> py_fault + rat" where
  "as_float (JInt i) = Inr (of_int i)"
| "as_float (JBool b) = Inr (if b then 1 else 0)"
| "as_float (JReal q) = Inr q"
| "as_float (JStr s) = (case py_float s of None \<Rightarrow> Inl ValueError | Some q \<Rightarrow> Inr q)"
| "as_float _ = Inl TypeError"

text \<open>\<open>int(v or d)\<close>, \<open>float(v or d)\<close>.\<close>

definition int_or :: "json \<Rightarrow> int \<Rightarrow> py_fault + int" where
  "int_or v d = (if py_true v then as_int v else Inr d)"

definition float_or :: "json \<Rightarrow> rat \<Rightarrow> py_fault + rat" where
  "float_or v d = (if py_true v then as_float v else Inr d)"

text \<open>\<open>list(v or [])\<close>: strings give their characters, objects their keys.\<close>

fun as_list :: "json \<Rightarrow> py_fault + json list" where
  "as_list (JList xs) = Inr xs"
| "as_list (JStr s) = Inr (map (\<lambda>c. JStr (utf8 [c])) (points s))"
| "as_list (JObj kvs) = Inr (map (\<lambda>(k, _). JStr k) kvs)"
| "as_list v = (if py_true v then Inl TypeError else Inr [])"

text \<open>\<open>(v or [])[:n]\<close>: a dict cannot be sliced.\<close>

fun first_items :: "nat \<Rightarrow> json \<Rightarrow> py_fault + json list" where
  "first_items n (JList xs) = Inr (take n xs)"
| "first_items n (JStr s) = Inr (map (\<lambda>c. JStr (utf8 [c])) (take n (points s)))"
| "first_items n v = (if py_true v then Inl TypeError else Inr [])"

text \<open>\<open>d.setdefault(k, v)\<close>.\<close>

definition set_default :: "string \<Rightarrow> json \<Rightarrow> (string \<times> json) list \<Rightarrow> (string \<times> json) list" where
  "set_default k v kvs = (if k \<in> fst ` set kvs then kvs else kvs @ [(k, v)])"

text \<open>The text of a fenced answer: \<open>_strip_fences\<close> of the sources, and the start of \<open>_parse_json\<close>.\<close>

definition strip_fences :: "string \<Rightarrow> string" where
  "strip_fences s0 =
     (let s = py_strip s0 in
      if starts_with s ''```''
      then let body = (if CHR 0x0A \<in> set s then tl (dropWhile (\<lambda>c. c \<noteq> CHR 0x0A) s) else s)
           in py_strip (if ends_with body ''```'' then take (length body - 3) body else body)
      else s)"

end
