(* ===== verification/Agents.thy ===== *)
theory Agents
  imports Json
begin

section \<open>Agents, runs, approvals and ICP versions (lead_engine/agent_registry.py, icp_store.py)\<close>

text \<open>
  The control plane of the engine: versioned agents with the scopes of their tools, the trail of their runs and
  steps, the approvals humans decide, and the versioned ICP definitions the research agent qualifies against.
  Row ids come from \<open>uuid\<close>, read at a counter; \<open>g_pg\<close> selects the database adapter, which on Postgres adds
  the tenant to every INSERT that does not carry it.  Prompts, descriptions and output schemas are not kept.
\<close>

subsection \<open>Tables\<close>

record agent_row =
  ag_id :: ident
  ag_slug :: string
  ag_name :: string
  ag_status :: string
  ag_version :: "string option"
  ag_updated :: ts

record version_row =
  av_agent :: ident
  av_version :: string
  av_provider :: "string option"
  av_policy :: json
  av_status :: string
  av_created :: ts

datatype run_status = RunRunning | RunCompleted | RunFailed

record run_row =
  ar_id :: ident
  ar_org :: "string option"
  ar_agent :: ident
  ar_version :: string
  ar_status :: run_status
  ar_error :: "string option"
  ar_created :: ts
  ar_updated :: ts

record step_row =
  as_id :: nat
  as_run :: ident
  as_name :: string
  as_status :: run_status
  as_error :: "string option"
  as_started :: ts
  as_finished :: "ts option"

datatype approval_status = ApprovalPending | ApprovalApproved | ApprovalRejected

record approval_row =
  aq_id :: ident
  aq_org :: "string option"
  aq_run :: ident
  aq_action :: string
  aq_status :: approval_status
  aq_requested :: ts
  aq_resolved :: "ts option"

datatype icp_status = IcpDraft | IcpActive | IcpRetired

record icp_row =
  iv_id :: ident
  iv_org :: "string option"
  iv_slug :: string
  iv_version :: string
  iv_definition :: json
  iv_source :: string
  iv_status :: icp_status
  iv_by :: "string option"
  iv_created :: ts
  iv_updated :: ts

record gdb =
  g_agents :: "agent_row list"
  g_versions :: "version_row list"
  g_runs :: "run_row list"
  g_steps :: "step_row list"
  g_approvals :: "approval_row list"
  g_icps :: "icp_row list"
  g_org :: "string option"
  g_pg :: bool
  g_next :: nat

datatype registry_error =
    AgentNotFound | SlugTaken string | VersionNotFound string | VersionTaken string | NotNull string
  | IcpInvalid | IcpTaken string | IcpNotFound ident

definition agent_of :: "string \<Rightarrow> gdb \<Rightarrow> agent_row option" where
  "agent_of slug g = row_of ag_slug slug (g_agents g)"

definition version_of :: "ident \<Rightarrow> string \<Rightarrow> gdb \<Rightarrow> version_row option" where
  "version_of agent v g = find (\<lambda>r. av_agent r = agent \<and> av_version r = v) (g_versions g)"

subsection \<open>Runs and steps\<close>

definition create_run ::
  "(nat \<Rightarrow> string) \<Rightarrow> ts \<Rightarrow> string \<Rightarrow> string option \<Rightarrow> (gdb, registry_error, ident) act" where
  "create_run uuid now slug version0 = (\<lambda>g.
     case agent_of slug g of
       None \<Rightarrow> (Inl AgentNotFound, g)
     | Some a \<Rightarrow>
         (let version = (if truthy version0 then version0 else ag_version a); i = ''run_'' @ uuid (g_next g) in
          case version of
            None \<Rightarrow> (Inl (NotNull ''agent_runs.version''), g)
          | Some v \<Rightarrow> (Inr i, g\<lparr>g_next := g_next g + 1, g_runs := g_runs g @
              [\<lparr>ar_id = i, ar_org = g_org g, ar_agent = ag_id a, ar_version = v, ar_status = RunRunning,
                ar_error = None, ar_created = now, ar_updated = now\<rparr>]\<rparr>)))"

definition finish_run :: "ts \<Rightarrow> ident \<Rightarrow> run_status \<Rightarrow> string option \<Rightarrow> gdb \<Rightarrow> gdb" where
  "finish_run now i st err g =
     g\<lparr>g_runs := upd_where (\<lambda>r. ar_id r = i) (\<lambda>r. r\<lparr>ar_status := st, ar_error := err, ar_updated := now\<rparr>) (g_runs g)\<rparr>"

definition start_step :: "ts \<Rightarrow> ident \<Rightarrow> string \<Rightarrow> gdb \<Rightarrow> nat \<times> gdb" where
  "start_step now run name g =
     (length (g_steps g), g\<lparr>g_steps := g_steps g @
        [\<lparr>as_id = length (g_steps g), as_run = run, as_name = name, as_status = RunRunning, as_error = None,
          as_started = now, as_finished = None\<rparr>]\<rparr>)"

definition finish_step :: "ts \<Rightarrow> nat \<Rightarrow> run_status \<Rightarrow> string option \<Rightarrow> gdb \<Rightarrow> gdb" where
  "finish_step now i st err g =
     g\<lparr>g_steps := upd_where (\<lambda>s. as_id s = i)
        (\<lambda>s. s\<lparr>as_status := st, as_error := err, as_finished := Some now\<rparr>) (g_steps g)\<rparr>"

text \<open>The runs of workers that died.\<close>

definition reclaim_stale_runs :: "ts \<Rightarrow> int \<Rightarrow> gdb \<Rightarrow> nat \<times> gdb" where
  "reclaim_stale_runs now hours g =
     (let stale = (\<lambda>r. ar_status r = RunRunning \<and> ar_updated r < now - hours * 3600) in
      (rowcount stale (g_runs g),
       g\<lparr>g_runs := upd_where stale (\<lambda>r. r\<lparr>ar_status := RunFailed,
          ar_error := Some (''stale run reaped: no update for '' @ show_int hours @ ''h (worker died)''),
          ar_updated := now\<rparr>) (g_runs g)\<rparr>))"

subsection \<open>Agents and versions\<close>

definition create_agent :: "ts \<Rightarrow> string \<Rightarrow> string \<Rightarrow> string \<Rightarrow> (gdb, registry_error, agent_row option) act" where
  "create_agent now slug name status = (\<lambda>g.
     if agent_of slug g \<noteq> None then (Inl (SlugTaken slug), g)
     else let a = \<lparr>ag_id = ''agent:'' @ (if truthy (g_org g) then the (g_org g) else ''platform'') @ '':'' @ slug,
                   ag_slug = slug, ag_name = name, ag_status = status, ag_version = None, ag_updated = now\<rparr>;
              g' = g\<lparr>g_agents := g_agents g @ [a]\<rparr>
          in (Inr (agent_of slug g'), g'))"

text \<open>Only the name and the status can be changed; with neither, nothing is written.\<close>

definition update_agent :: "ts \<Rightarrow> string \<Rightarrow> string option \<Rightarrow> string option \<Rightarrow> gdb \<Rightarrow> agent_row option \<times> gdb" where
  "update_agent now slug name status g =
     (if name = None \<and> status = None then (agent_of slug g, g)
      else let g' = g\<lparr>g_agents := upd_where (\<lambda>a. ag_slug a = slug)
                  (\<lambda>a. a\<lparr>ag_name := or_default name (ag_name a), ag_status := or_default status (ag_status a),
                         ag_updated := now\<rparr>) (g_agents g)\<rparr>
           in (agent_of slug g', g'))"

definition archive_agent :: "ts \<Rightarrow> string \<Rightarrow> gdb \<Rightarrow> bool \<times> gdb" where
  "archive_agent now slug g = (let (a, g') = update_agent now slug None (Some ''archived'') g in (a \<noteq> None, g'))"

definition create_version ::
  "ts \<Rightarrow> string \<Rightarrow> string \<Rightarrow> string option \<Rightarrow> json \<Rightarrow> string \<Rightarrow> (gdb, registry_error, version_row option) act" where
  "create_version now slug v provider policy status = (\<lambda>g.
     case agent_of slug g of
       None \<Rightarrow> (Inl AgentNotFound, g)
     | Some a \<Rightarrow>
         if version_of (ag_id a) v g \<noteq> None then (Inl (VersionTaken v), g)
         else let g' = g\<lparr>g_versions := g_versions g @
                  [\<lparr>av_agent = ag_id a, av_version = v, av_provider = provider,
                    av_policy = (if py_true policy then policy else JNull), av_status = status, av_created = now\<rparr>]\<rparr>
              in (Inr (version_of (ag_id a) v g'), g'))"

definition set_active_version :: "ts \<Rightarrow> string \<Rightarrow> string \<Rightarrow> (gdb, registry_error, agent_row option) act" where
  "set_active_version now slug v = (\<lambda>g.
     case agent_of slug g of
       None \<Rightarrow> (Inl AgentNotFound, g)
     | Some a \<Rightarrow>
         if version_of (ag_id a) v g = None then (Inl (VersionNotFound v), g)
         else let g' = g\<lparr>g_agents := upd_where (\<lambda>x. ag_slug x = slug)
                  (\<lambda>x. x\<lparr>ag_version := Some v, ag_updated := now\<rparr>) (g_agents g)\<rparr>
              in (Inr (agent_of slug g'), g'))"

definition get_active_version :: "string \<Rightarrow> gdb \<Rightarrow> version_row option" where
  "get_active_version slug g =
     (case agent_of slug g of
        None \<Rightarrow> None
      | Some a \<Rightarrow> if truthy (ag_version a) then version_of (ag_id a) (the (ag_version a)) g else None)"

subsection \<open>Approvals\<close>

definition request_approval :: "(nat \<Rightarrow> string) \<Rightarrow> ts \<Rightarrow> ident \<Rightarrow> string \<Rightarrow> gdb \<Rightarrow> ident \<times> gdb" where
  "request_approval uuid now run action g =
     (let i = ''approval_'' @ uuid (g_next g) in
      (i, g\<lparr>g_next := g_next g + 1, g_approvals := g_approvals g @
        [\<lparr>aq_id = i, aq_org = (if g_pg g then g_org g else None), aq_run = run, aq_action = action,
          aq_status = ApprovalPending, aq_requested = now, aq_resolved = None\<rparr>]\<rparr>))"

definition resolve_approval :: "ts \<Rightarrow> ident \<Rightarrow> approval_status \<Rightarrow> gdb \<Rightarrow> bool \<times> gdb" where
  "resolve_approval now i st g =
     (let mine = (\<lambda>a. aq_id a = i \<and> aq_status a = ApprovalPending) in
      (rowcount mine (g_approvals g) > 0,
       g\<lparr>g_approvals := upd_where mine (\<lambda>a. a\<lparr>aq_status := st, aq_resolved := Some now\<rparr>) (g_approvals g)\<rparr>))"

definition approvals :: "approval_status \<Rightarrow> gdb \<Rightarrow> approval_row list" where
  "approvals st g = sort_key aq_requested
     (filter (\<lambda>a. aq_status a = st \<and> (truthy (g_org g) \<longrightarrow> aq_org a = g_org g)) (g_approvals g))"

subsection \<open>ICP versions (icp_store.py)\<close>

definition icp_org :: "gdb \<Rightarrow> string option" where
  "icp_org g = (if g_pg g \<or> truthy (g_org g) then g_org g else Some ''shared'')"

text \<open>\<open>_org_filter_sql\<close>.\<close>

definition icp_mine :: "gdb \<Rightarrow> icp_row \<Rightarrow> bool" where
  "icp_mine g r \<longleftrightarrow> iv_org r = (if truthy (icp_org g) then icp_org g else if g_pg g then None else Some ''shared'')"

definition get_icp :: "ident \<Rightarrow> gdb \<Rightarrow> icp_row option" where
  "get_icp i g = (case row_of iv_id i (g_icps g) of
     None \<Rightarrow> None
   | Some r \<Rightarrow> if \<not> g_pg g \<and> iv_org r \<noteq> icp_org g then None else Some r)"

definition list_versions :: "string \<Rightarrow> gdb \<Rightarrow> icp_row list" where
  "list_versions slug g = sort_key (\<lambda>r. - iv_created r) (filter (\<lambda>r. iv_slug r = slug \<and> icp_mine g r) (g_icps g))"

definition active_icp :: "string \<Rightarrow> gdb \<Rightarrow> icp_row option" where
  "active_icp slug g = first_min (\<lambda>r. - iv_created r)
     (filter (\<lambda>r. iv_slug r = slug \<and> iv_status r = IcpActive \<and> icp_mine g r) (g_icps g))"

definition clean_slug :: "string \<Rightarrow> string" where
  "clean_slug s = map (\<lambda>c. if c = CHR '' '' then CHR ''-'' else c) (py_lower (py_strip s))"

definition create_icp ::
  "(nat \<Rightarrow> string) \<Rightarrow> ts \<Rightarrow> string \<Rightarrow> json \<Rightarrow> string \<Rightarrow> string option \<Rightarrow> string option
     \<Rightarrow> (gdb, registry_error, icp_row option) act" where
  "create_icp uuid now slug0 def0 source by_whom version0 = (\<lambda>g.
     if slug0 = [] \<or> \<not> is_dict def0 then (Inl IcpInvalid, g)
     else let slug = clean_slug slug0;
              version = (if truthy version0 then the version0 else ''v'' @ show_nat (length (list_versions slug g) + 1));
              org = icp_org g; i = ''icp_'' @ take 12 (uuid (g_next g)) in
          if \<exists>r \<in> set (g_icps g). iv_slug r = slug \<and> iv_version r = version \<and> iv_org r = org
          then (Inl (IcpTaken version), g)
          else let g' = g\<lparr>g_next := g_next g + 1, g_icps := g_icps g @
                  [\<lparr>iv_id = i, iv_org = org, iv_slug = slug, iv_version = version, iv_definition = def0,
                    iv_source = source, iv_status = IcpDraft, iv_by = by_whom, iv_created = now, iv_updated = now\<rparr>]\<rparr>
               in (Inr (get_icp i g'), g'))"

definition retire :: "ts \<Rightarrow> icp_row \<Rightarrow> icp_row" where
  "retire now r = r\<lparr>iv_status := IcpRetired, iv_updated := now\<rparr>"

definition make_active :: "ts \<Rightarrow> icp_row \<Rightarrow> icp_row" where
  "make_active now r = r\<lparr>iv_status := IcpActive, iv_updated := now\<rparr>"

definition activate_icp :: "ts \<Rightarrow> ident \<Rightarrow> (gdb, registry_error, icp_row option) act" where
  "activate_icp now i = (\<lambda>g.
     case get_icp i g of
       None \<Rightarrow> (Inl (IcpNotFound i), g)
     | Some r \<Rightarrow>
         if iv_status r = IcpActive then (Inr (Some r), g)
         else let g' = g\<lparr>g_icps := upd_where (\<lambda>x. iv_id x = i) (make_active now)
                  (upd_where (\<lambda>x. iv_slug x = iv_slug r \<and> iv_status x = IcpActive \<and> icp_mine g x) (retire now)
                    (g_icps g))\<rparr>
              in (Inr (get_icp i g'), g'))"

subsection \<open>Lemmas\<close>

interpretation icp_table: keyed_table iv_id .
interpretation run_table: keyed_table ar_id .
interpretation approval_table: keyed_table aq_id .

lemma icp_row_simps [simp]:
  "iv_id (retire now r) = iv_id r" "iv_slug (retire now r) = iv_slug r" "iv_org (retire now r) = iv_org r"
  "iv_status (retire now r) = IcpRetired" "iv_status (make_active now r) = IcpActive"
  "iv_id (make_active now r) = iv_id r" "iv_slug (make_active now r) = iv_slug r" "iv_org (make_active now r) = iv_org r"
  by (simp_all add: retire_def make_active_def)

text \<open>No tenant has two active versions under one slug.\<close>

definition one_active :: "icp_row list \<Rightarrow> bool" where
  "one_active t \<longleftrightarrow> distinct (map iv_id t)
     \<and> (\<forall>r \<in> set t. \<forall>s \<in> set t. iv_status r = IcpActive \<and> iv_status s = IcpActive
          \<and> iv_org r = iv_org s \<and> iv_slug r = iv_slug s \<longrightarrow> r = s)"

inductive icp_step :: "gdb \<Rightarrow> gdb \<Rightarrow> bool" where
  is_create: "''icp_'' @ take 12 (uuid (g_next g)) \<notin> iv_id ` set (g_icps g)
    \<Longrightarrow> icp_step g (snd (create_icp uuid now slug def0 source by_whom version g))"
| is_activate: "icp_step g (snd (activate_icp now i g))"

lemma get_icp_mine: "get_icp i g = Some r \<Longrightarrow> \<not> g_pg g \<Longrightarrow> icp_mine g r"
  by (auto simp: get_icp_def icp_mine_def icp_org_def split: option.splits if_splits)

lemma one_active_activated:
  assumes "one_active t" and "r \<in> set t" and "P r"
    and "\<And>x. x \<in> set t \<Longrightarrow> P x \<longleftrightarrow> iv_org x = iv_org r"
  shows "one_active (upd_where (\<lambda>x. iv_id x = iv_id r) (make_active now)
     (upd_where (\<lambda>x. iv_slug x = iv_slug r \<and> iv_status x = IcpActive \<and> P x) (retire now) t))"
proof -
  define f where "f x = (if iv_slug x = iv_slug r \<and> iv_status x = IcpActive \<and> P x then retire now x else x)" for x
  define h where "h x = (if iv_id x = iv_id r then make_active now (f x) else f x)" for x
  have f: "iv_id (f x) = iv_id x" "iv_slug (f x) = iv_slug x" "iv_org (f x) = iv_org x" for x
    by (simp_all add: f_def)
  have keys: "iv_id (h x) = iv_id x" "iv_slug (h x) = iv_slug x" "iv_org (h x) = iv_org x" for x
    by (simp_all add: h_def f)
  have eq: "upd_where (\<lambda>x. iv_id x = iv_id r) (make_active now)
     (upd_where (\<lambda>x. iv_slug x = iv_slug r \<and> iv_status x = IcpActive \<and> P x) (retire now) t) = map h t"
    by (simp add: upd_where_def h_def f_def)
  have "map iv_id (map h t) = map iv_id t" by (simp add: keys comp_def)
  then have d: "distinct (map iv_id (map h t))" using assms(1) by (simp only: one_active_def)
  have uniq: "x = r" if "x \<in> set t" "iv_id x = iv_id r" for x
    using assms(1,2) that by (auto simp: one_active_def distinct_map dest: inj_onD)
  have live: "x = r \<or> h x = x \<and> iv_status x = IcpActive \<and> \<not> (iv_slug x = iv_slug r \<and> iv_org x = iv_org r)"
    if x: "x \<in> set t" and a: "iv_status (h x) = IcpActive" for x
  proof (cases "iv_id x = iv_id r")
    case True
    then show ?thesis using uniq [OF x] by simp
  next
    case False
    then have "h x = f x" by (simp add: h_def)
    with a show ?thesis using assms(4) [OF x] by (auto simp: f_def split: if_splits)
  qed
  have "h x = h y" if x: "x \<in> set t" "iv_status (h x) = IcpActive" and y: "y \<in> set t" "iv_status (h y) = IcpActive"
    and same: "iv_org x = iv_org y" "iv_slug x = iv_slug y" for x y
  proof (cases "x = r \<or> y = r")
    case True
    then show ?thesis using live [OF x] live [OF y] same by auto
  next
    case False
    then have "iv_status x = IcpActive" "iv_status y = IcpActive" using live [OF x] live [OF y] by auto
    then have "x = y" using assms(1) x(1) y(1) same unfolding one_active_def by blast
    then show ?thesis by simp
  qed
  then have "\<forall>a \<in> set (map h t). \<forall>b \<in> set (map h t). iv_status a = IcpActive \<and> iv_status b = IcpActive
      \<and> iv_org a = iv_org b \<and> iv_slug a = iv_slug b \<longrightarrow> a = b"
    by (simp add: keys)
  with d show ?thesis unfolding eq one_active_def by blast
qed

lemma icp_mine_unique: "icp_mine g r \<Longrightarrow> icp_mine g x \<longleftrightarrow> iv_org x = iv_org r"
  by (auto simp: icp_mine_def)

lemma one_active_create:
  assumes "one_active (g_icps g)" and "''icp_'' @ take 12 (uuid (g_next g)) \<notin> iv_id ` set (g_icps g)"
  shows "one_active (g_icps (snd (create_icp uuid now slug def0 source by_whom version g)))"
  using assms by (auto simp: create_icp_def Let_def one_active_def)

text \<open>On Postgres the policies of the database show a session the rows of its own tenant only.\<close>

definition visible :: "gdb \<Rightarrow> bool" where
  "visible g \<longleftrightarrow> g_org g \<noteq> Some [] \<and> (g_pg g \<longrightarrow> (\<forall>r \<in> set (g_icps g). icp_mine g r))"

lemma get_icp_row: "get_icp i g = Some r \<Longrightarrow> row_of iv_id i (g_icps g) = Some r"
  by (auto simp: get_icp_def split: option.splits if_splits)

lemma one_active_activate:
  assumes "one_active (g_icps g)" and "visible g"
  shows "one_active (g_icps (snd (activate_icp now i g)))"
proof (cases "get_icp i g")
  case None
  then show ?thesis using assms by (simp add: activate_icp_def)
next
  case (Some r)
  have r: "r \<in> set (g_icps g)" "iv_id r = i" using row_of_Some [OF get_icp_row [OF Some]] by auto
  have mine: "icp_mine g r" using get_icp_mine [OF Some] assms(2) r(1) by (auto simp: visible_def)
  show ?thesis
    using one_active_activated [where P = "icp_mine g", OF assms(1) r(1) mine icp_mine_unique [OF mine]] assms(1)
    by (simp add: activate_icp_def Some r(2) Let_def)
qed

text \<open>Statements keep the tenant of the session and the adapter.\<close>

lemma session_kept:
  "g_org (snd (create_icp uuid now slug def0 source by_whom version g)) = g_org g"
  "g_pg (snd (create_icp uuid now slug def0 source by_whom version g)) = g_pg g"
  "g_org (snd (activate_icp now i g)) = g_org g" "g_pg (snd (activate_icp now i g)) = g_pg g"
  by (auto simp: create_icp_def activate_icp_def Let_def split: option.splits)

lemma icp_org_session: "g_org g' = g_org g \<Longrightarrow> g_pg g' = g_pg g \<Longrightarrow> icp_mine g' r = icp_mine g r"
  by (simp add: icp_mine_def icp_org_def)

lemma activated_orgs:
  assumes "r \<in> set (g_icps (snd (activate_icp now i g)))"
  shows "iv_org r \<in> iv_org ` set (g_icps g)"
proof -
  have upd: "iv_org ` set (upd_where p f t) = iv_org ` set t" if "\<And>x. iv_org (f x) = iv_org x" for p f and t :: "icp_row list"
    using that by (induction t) auto
  have "iv_org ` set (g_icps (snd (activate_icp now i g))) = iv_org ` set (g_icps g)"
    by (auto simp: activate_icp_def Let_def upd split: option.splits)
  with assms show ?thesis by blast
qed

lemma created_orgs:
  "r \<in> set (g_icps (snd (create_icp uuid now slug def0 source by_whom version g)))
    \<Longrightarrow> r \<in> set (g_icps g) \<or> iv_org r = icp_org g"
  by (auto simp: create_icp_def Let_def split: if_splits)

lemma visible_step:
  assumes "icp_step g g'" and "visible g"
  shows "visible g'"
  using assms(1)
proof (cases rule: icp_step.cases)
  case (is_create uuid now slug def0 source by_whom version)
  have "iv_org r = icp_org g \<Longrightarrow> icp_mine g r" for r
    using assms(2) by (cases "g_org g") (auto simp: icp_mine_def icp_org_def visible_def)
  then have "icp_mine g r" if "g_pg g" "r \<in> set (g_icps g')" for r
    using created_orgs [of r] that assms(2) unfolding is_create visible_def by blast
  then show ?thesis using assms(2) session_kept icp_org_session [of g' g] by (simp add: is_create(1) visible_def)
next
  case (is_activate now i)
  have "icp_mine g r" if "g_pg g" "r \<in> set (g_icps g')" for r
    using activated_orgs [of r now i g] that assms(2) unfolding is_activate visible_def icp_mine_def by auto
  then show ?thesis using assms(2) session_kept icp_org_session [of g' g] by (simp add: is_activate(1) visible_def)
qed

lemma one_active_step: "icp_step g g' \<Longrightarrow> one_active (g_icps g) \<Longrightarrow> visible g \<Longrightarrow> one_active (g_icps g')"
  by (erule icp_step.cases) (auto intro: one_active_create one_active_activate)

lemma one_active_steps:
  "icp_step\<^sup>*\<^sup>* g g' \<Longrightarrow> one_active (g_icps g) \<Longrightarrow> visible g \<Longrightarrow> one_active (g_icps g') \<and> visible g'"
  by (induction rule: rtranclp_induct) (auto intro: one_active_step visible_step)

lemma activated_row:
  assumes "get_icp i g = Some r" and "distinct (map iv_id (g_icps g))"
  obtains r' where "activate_icp now i g = (Inr (Some r'), snd (activate_icp now i g))" and "iv_status r' = IcpActive"
    and "iv_id r' = i" and "iv_slug r' = iv_slug r" and "iv_org r' = iv_org r"
    and "r' \<in> set (g_icps (snd (activate_icp now i g)))"
proof (cases "iv_status r = IcpActive")
  case True
  have "r \<in> set (g_icps g)" "iv_id r = i" using row_of_Some [OF get_icp_row [OF assms(1)]] by auto
  with True show thesis by (intro that [of r]) (simp_all add: activate_icp_def assms(1))
next
  case False
  define t where "t = upd_where (\<lambda>x. iv_id x = i) (make_active now)
    (upd_where (\<lambda>x. iv_slug x = iv_slug r \<and> iv_status x = IcpActive \<and> icp_mine g x) (retire now) (g_icps g))"
  have row: "row_of iv_id i t = Some (make_active now r)"
    using get_icp_row [OF assms(1)] False row_of_Some [OF get_icp_row [OF assms(1)]]
    by (simp add: t_def icp_table.row_of_upd_where)
  have out: "activate_icp now i g = (Inr (get_icp i (g\<lparr>g_icps := t\<rparr>)), g\<lparr>g_icps := t\<rparr>)"
    using False by (simp add: activate_icp_def assms(1) t_def Let_def)
  have "get_icp i (g\<lparr>g_icps := t\<rparr>) = Some (make_active now r)"
    using assms(1) row by (auto simp: get_icp_def icp_org_def split: option.splits if_splits)
  with row_of_Some [OF row] row_of_Some [OF get_icp_row [OF assms(1)]] show thesis
    by (intro that [of "make_active now r"]) (simp_all add: out)
qed

text \<open>C38: A tenant qualifies against one ICP definition per slug: whatever versions are created and activated in
  whatever order, at most one version of a slug is active, and activating a version makes it the one the
  agent reads, every other version of the slug being inactive.\<close>

theorem one_icp_is_active:
  assumes "icp_step\<^sup>*\<^sup>* g0 g" and "one_active (g_icps g0)" and "visible g0"
    and "get_icp i g = Some r" and "icp_mine g r"
  shows "one_active (g_icps g)
    \<and> (\<exists>r'. fst (activate_icp now i g) = Inr (Some r') \<and> iv_id r' = i
         \<and> active_icp (iv_slug r) (snd (activate_icp now i g)) = Some r')"
proof -
  have inv: "one_active (g_icps g)" "visible g" using one_active_steps [OF assms(1-3)] by auto
  define g' where "g' = snd (activate_icp now i g)"
  have inv': "one_active (g_icps g')" "g_org g' = g_org g" "g_pg g' = g_pg g"
    using one_active_activate [OF inv] session_kept by (simp_all add: g'_def)
  have "distinct (map iv_id (g_icps g))" using inv(1) by (simp add: one_active_def)
  then obtain r' where out: "activate_icp now i g = (Inr (Some r'), g')" and r': "iv_status r' = IcpActive" "iv_id r' = i"
    "iv_slug r' = iv_slug r" "iv_org r' = iv_org r" "r' \<in> set (g_icps g')"
    unfolding g'_def by (rule activated_row [OF assms(4)])
  have mine: "icp_mine g' x \<longleftrightarrow> iv_org x = iv_org r" for x
    using icp_mine_unique [OF assms(5)] icp_org_session [OF inv'(2,3)] by simp
  let ?live = "filter (\<lambda>x. iv_slug x = iv_slug r \<and> iv_status x = IcpActive \<and> icp_mine g' x) (g_icps g')"
  have mem: "r' \<in> set ?live" using r' mine by simp
  have only: "x = r'" if "x \<in> set ?live" for x
    using that r' mine inv'(1) unfolding one_active_def by simp
  have "?live \<noteq> []" using mem by (metis empty_iff empty_set)
  then have "first_min (\<lambda>r. - iv_created r) ?live \<noteq> None" by (simp only: first_min_None_iff not_False_eq_True)
  then obtain x where x: "first_min (\<lambda>r. - iv_created r) ?live = Some x" by blast
  have "active_icp (iv_slug r) g' = Some r'"
    unfolding active_icp_def x only [OF first_min_Some_mem [OF x]] by (rule refl)
  moreover have "fst (activate_icp now i g) = Inr (Some r')" by (simp only: out fst_conv)
  ultimately show ?thesis using inv(1) r'(2) unfolding g'_def by blast
qed

definition empty_registry :: gdb where
  "empty_registry = \<lparr>g_agents = [], g_versions = [], g_runs = [], g_steps = [], g_approvals = [], g_icps = [],
     g_org = None, g_pg = False, g_next = 0\<rparr>"

definition two_icps :: gdb where
  "two_icps = snd (create_icp show_nat 20 ''Dental'' (JObj []) ''manual'' None None
     (snd (activate_icp 15 ''icp_0'' (snd (create_icp show_nat 10 ''Dental'' (JObj []) ''manual'' None None empty_registry)))))"

lemma two_icps_reached: "icp_step\<^sup>*\<^sup>* empty_registry two_icps"
proof -
  let ?g1 = "snd (create_icp show_nat 10 ''Dental'' (JObj []) ''manual'' None None empty_registry)"
  let ?g2 = "snd (activate_icp 15 ''icp_0'' ?g1)"
  have "icp_step empty_registry ?g1" by (rule is_create) code_simp
  moreover have "icp_step ?g1 ?g2" by (rule is_activate)
  moreover have "icp_step ?g2 two_icps" unfolding two_icps_def by (rule is_create) code_simp
  ultimately show ?thesis by (meson converse_rtranclp_into_rtranclp rtranclp.rtrancl_refl)
qed

lemma one_icp_is_active_witness:
  "map_option iv_version (active_icp ''dental'' two_icps) = Some ''v1''
   \<and> map_option iv_version (active_icp ''dental'' (snd (activate_icp 30 ''icp_1'' two_icps))) = Some ''v2''"
proof -
  have "one_active (g_icps empty_registry)" "visible empty_registry"
    by (simp_all add: one_active_def visible_def empty_registry_def)
  moreover obtain r where r: "get_icp ''icp_1'' two_icps = Some r" "icp_mine two_icps r" "iv_slug r = ''dental''"
    "iv_version r = ''v2''"
  proof -
    have "(case get_icp ''icp_1'' two_icps of None \<Rightarrow> False
        | Some r \<Rightarrow> icp_mine two_icps r \<and> iv_slug r = ''dental'' \<and> iv_version r = ''v2'')" by code_simp
    then show thesis using that by (auto split: option.splits)
  qed
  ultimately obtain r' where "iv_id r' = ''icp_1''"
    "active_icp ''dental'' (snd (activate_icp 30 ''icp_1'' two_icps)) = Some r'"
    using one_icp_is_active [OF two_icps_reached _ _ r(1,2), of 30] by (auto simp: r(3))
  moreover have "map_option iv_version (active_icp ''dental'' two_icps) = Some ''v1''" by code_simp
  moreover have "list_all (\<lambda>x. iv_id x = ''icp_1'' \<longrightarrow> iv_version x = ''v2'')
      (g_icps (snd (activate_icp 30 ''icp_1'' two_icps)))" by code_simp
  ultimately show ?thesis
    by (auto simp: active_icp_def list_all_iff dest: first_min_Some_mem)
qed

text \<open>An approval is decided once: the first decision on a pending approval takes effect and says so, every later
  one reports failure and changes nothing, and no decision touches another approval.\<close>

theorem approval_decided_once:
  assumes "row_of aq_id i (g_approvals g) = Some a" and "aq_status a = ApprovalPending" and "st \<noteq> ApprovalPending"
  shows "let (ok, g') = resolve_approval now i st g in
      ok \<and> row_of aq_id i (g_approvals g') = Some (a\<lparr>aq_status := st, aq_resolved := Some now\<rparr>)
      \<and> (\<forall>later st'. resolve_approval later i st' g' = (False, g'))
      \<and> (\<forall>k. k \<noteq> i \<longrightarrow> row_of aq_id k (g_approvals g') = row_of aq_id k (g_approvals g))"
proof -
  let ?mine = "\<lambda>a. aq_id a = i \<and> aq_status a = ApprovalPending"
  let ?f = "\<lambda>a. a\<lparr>aq_status := st, aq_resolved := Some now\<rparr>"
  let ?t = "upd_where ?mine ?f (g_approvals g)"
  have "rowcount ?mine (g_approvals g) > 0" using rowcount_pos [OF assms(1)] assms(2) by simp
  moreover have "row_of aq_id i ?t = Some (?f a)"
    using approval_table.row_of_upd_key [OF _ assms(1), of ?f] assms(2) by simp
  moreover have none: "rowcount ?mine ?t = 0"
  proof -
    have none: "\<not> ?mine (if ?mine x then ?f x else x)" for x :: approval_row using assms(3) by simp
    show ?thesis
      unfolding rowcount_0_iff
    proof
      fix r assume "r \<in> set ?t"
      then obtain x where r: "r = (if ?mine x then ?f x else x)" unfolding set_upd_where by blast
      show "\<not> ?mine r" unfolding r by (rule none)
    qed
  qed
  moreover have "row_of aq_id k ?t = row_of aq_id k (g_approvals g)" if "k \<noteq> i" for k
    using that by (intro approval_table.row_of_upd_other) auto
  ultimately show ?thesis
    using upd_where_rowcount_0 [OF none] by (simp add: resolve_approval_def Let_def)
qed

lemma approval_decided_once_witness:
  "let g = snd (request_approval show_nat 5 ''run_1'' ''code.patch'' empty_registry);
       (ok, g') = resolve_approval 9 ''approval_0'' ApprovalApproved g
   in ok \<and> fst (resolve_approval 10 ''approval_0'' ApprovalRejected g') = False"
proof -
  define g where "g = snd (request_approval show_nat 5 ''run_1'' ''code.patch'' empty_registry)"
  obtain a where a: "row_of aq_id ''approval_0'' (g_approvals g) = Some a" "aq_status a = ApprovalPending"
  proof -
    have "row_of aq_id ''approval_0'' (g_approvals g) \<noteq> None
      \<and> aq_status (the (row_of aq_id ''approval_0'' (g_approvals g))) = ApprovalPending"
      unfolding g_def by code_simp
    then show thesis using that by force
  qed
  show ?thesis
    using approval_decided_once [OF a, of ApprovalApproved 9]
    unfolding g_def [symmetric] Let_def by (auto simp: case_prod_beta)
qed

end
