(* ===== verification/Normalize.thy ===== *)
theory Normalize
  imports PyStr Complex_Main
begin

section \<open>Normalization (lead_engine/pipeline/normalize.py)\<close>

text \<open>
  Text, domains and phone numbers in the form deduplication and filtering compare.  Text may be Arabic:
  it is a list of code points, and the tables of the Unicode database that \<open>str.lower\<close>, the word, space and digit classes
  of \<open>re\<close> consult are the argument \<open>u\<close>; what is needed of them is \<open>unicode_ok\<close>.
\<close>

type_synonym utext = "nat list"

record unicode =
  u_lower :: "nat \<Rightarrow> nat list"
  u_upper :: "nat \<Rightarrow> nat list"
  u_word :: "nat \<Rightarrow> bool"
  u_space :: "nat \<Rightarrow> bool"
  u_digit :: "nat \<Rightarrow> bool"
  u_alpha :: "nat \<Rightarrow> bool"

definition lower :: "unicode \<Rightarrow> utext \<Rightarrow> utext" where
  "lower u s = concat (map (u_lower u) s)"

definition upper :: "unicode \<Rightarrow> utext \<Rightarrow> utext" where
  "upper u s = concat (map (u_upper u) s)"

definition strip :: "unicode \<Rightarrow> utext \<Rightarrow> utext" where
  "strip u s = rev (dropWhile (u_space u) (rev (dropWhile (u_space u) s)))"

definition ascii :: "string \<Rightarrow> utext" where
  "ascii s = map of_char s"

definition text_or :: "utext option \<Rightarrow> utext" where
  "text_or t = or_default t []"

subsection \<open>Names\<close>

definition AR_NORMALIZE :: "nat \<Rightarrow> nat" where
  "AR_NORMALIZE c =
     (if c \<in> {1571, 1573, 1570} then 1575 else if c = 1609 then 1610 else if c = 1577 then 1607
      else if c = 1572 then 1608 else if c = 1574 then 1610 else c)"

text \<open>\<open>re.sub\<close> of a character class with \<open>+\<close>: every maximal run becomes the replacement.\<close>

function sub_runs :: "('a \<Rightarrow> bool) \<Rightarrow> 'a list \<Rightarrow> 'a list \<Rightarrow> 'a list" where
  "sub_runs p r [] = []"
| "sub_runs p r (c # s) = (if p c then r @ sub_runs p r (dropWhile p s) else c # sub_runs p r s)"
  by pat_completeness auto
termination
  by (relation "measure (\<lambda>(p, r, s). length s)") (auto simp: le_imp_less_Suc length_dropWhile_le)

definition is_punct :: "unicode \<Rightarrow> nat \<Rightarrow> bool" where
  "is_punct u c \<longleftrightarrow> \<not> u_word u c \<and> \<not> (1536 \<le> c \<and> c \<le> 1791) \<and> \<not> u_space u c"

definition normalize_text :: "unicode \<Rightarrow> utext option \<Rightarrow> utext" where
  "normalize_text u s =
     (if text_or s = [] then []
      else strip u (sub_runs (u_space u) [32] (sub_runs (is_punct u) [32]
             (map AR_NORMALIZE (lower u (text_or s))))))"

text \<open>\<open>s.split()\<close>: the maximal runs of characters outside a class.\<close>

function words :: "(nat \<Rightarrow> bool) \<Rightarrow> utext \<Rightarrow> utext list" where
  "words sep s =
     (case dropWhile sep s of [] \<Rightarrow> []
      | c # t \<Rightarrow> (c # takeWhile (\<lambda>x. \<not> sep x) t) # words sep (dropWhile (\<lambda>x. \<not> sep x) t))"
  by pat_completeness auto
termination
proof (relation "measure (\<lambda>(sep, s). length s)", simp)
  fix sep s and c :: nat and t
  assume "dropWhile sep s = c # t"
  then have "Suc (length t) \<le> length s" using length_dropWhile_le [of sep s] by simp
  then show "((sep, dropWhile (\<lambda>x. \<not> sep x) t), sep, s) \<in> measure (\<lambda>(sep, s). length s)"
    using length_dropWhile_le [of "\<lambda>x. \<not> sep x" t] by simp
qed

declare words.simps [simp del]

subsection \<open>Domains\<close>

definition netloc_of :: "utext \<Rightarrow> utext" where
  "netloc_of url =
     (let s = takeWhile (\<lambda>c. c \<noteq> 58) url; rest = dropWhile (\<lambda>c. c \<noteq> 58) url;
          letter = (\<lambda>c. (65 \<le> c \<and> c \<le> 90) \<or> (97 \<le> c \<and> c \<le> 122));
          after = (if rest \<noteq> [] \<and> s \<noteq> [] \<and> letter (hd s)
                      \<and> list_all (\<lambda>c. letter c \<or> (48 \<le> c \<and> c \<le> 57) \<or> c \<in> {43, 45, 46}) s
                   then tl rest else url)
      in if starts_with after [47, 47] then takeWhile (\<lambda>c. c \<notin> {47, 63, 35}) (drop 2 after) else [])"

text \<open>\<open>urlparse\<close> raises ValueError on a network location with only one of the two brackets.\<close>

definition bad_brackets :: "utext \<Rightarrow> bool" where
  "bad_brackets netloc \<longleftrightarrow> (91 \<in> set netloc) \<noteq> (93 \<in> set netloc)"

definition domain_from_url :: "unicode \<Rightarrow> utext \<Rightarrow> utext" where
  "domain_from_url u url =
     (if bad_brackets (netloc_of url) then [] else remove_prefix (ascii ''www.'') (takeWhile (\<lambda>c. c \<noteq> 58)
       (rev (takeWhile (\<lambda>c. c \<noteq> 64) (rev (lower u (netloc_of url)))))))"

definition SOCIAL_DOMAINS :: "string list" where
  "SOCIAL_DOMAINS = [''facebook.com'', ''instagram.com'', ''linkedin.com'', ''twitter.com'', ''x.com'',
     ''tiktok.com'', ''youtube.com'', ''snapchat.com'', ''wa.me'', ''whatsapp.com'', ''google.com'',
     ''goo.gl'', ''maps.app.goo.gl'', ''reddit.com'', ''quora.com'']"

definition DIRECTORY_DOMAINS :: "string list" where
  "DIRECTORY_DOMAINS = [''whatclinic.com'', ''healthgrades.com'', ''zocdoc.com'', ''vitals.com'',
     ''ratemds.com'', ''bookimed.com'', ''doctors.com'', ''dentistry.com'', ''dentalcare.com'',
     ''yellowpages.com'', ''yell.com'', ''yelp.com'', ''houzz.com'', ''tripadvisor.com'', ''expedia.com'',
     ''booking.com'', ''b2bmap.com'', ''kompass.com'', ''tradekey.com'', ''dnb.com'', ''waze.com'',
     ''yellowpages.com.eg'', ''dalilmasr.com'']"

definition hosted_on :: "string list \<Rightarrow> utext \<Rightarrow> bool" where
  "hosted_on sites domain \<longleftrightarrow> domain \<noteq> [] \<and>
     list_ex (\<lambda>d. domain = ascii d \<or> ends_with domain (46 # ascii d)) sites"

definition is_social :: "utext \<Rightarrow> bool" where
  "is_social domain = hosted_on SOCIAL_DOMAINS domain"

definition is_directory :: "utext \<Rightarrow> bool" where
  "is_directory domain = hosted_on DIRECTORY_DOMAINS domain"

subsection \<open>Phone numbers\<close>

definition DIGIT_MAP :: "nat \<Rightarrow> nat" where
  "DIGIT_MAP c =
     (if 1632 \<le> c \<and> c \<le> 1641 then c - 1632 + 48 else if 1776 \<le> c \<and> c \<le> 1785 then c - 1776 + 48 else c)"

definition COUNTRY_DIAL :: "(utext \<times> utext) list" where
  "COUNTRY_DIAL = map (\<lambda>(c, d). (ascii c, ascii d))
     [(''SA'', ''966''), (''EG'', ''20''), (''AE'', ''971''), (''KW'', ''965''), (''QA'', ''974''),
      (''BH'', ''973''), (''OM'', ''968''), (''JO'', ''962'')]"

definition generic_number :: "utext \<Rightarrow> utext" where
  "generic_number digits =
     43 # (if starts_with digits [48] \<and> length digits \<ge> 8 then tl digits else digits)"

definition normalize_phone :: "unicode \<Rightarrow> utext option \<Rightarrow> utext \<Rightarrow> utext" where
  "normalize_phone u phone country =
     (let raw = map DIGIT_MAP (strip u (text_or phone)); digits = filter (u_digit u) raw in
      if digits = [] then []
      else if starts_with raw [43] then 43 # digits
      else if starts_with digits [48, 48] then 43 # drop 2 digits
      else case map_of COUNTRY_DIAL (upper u country) of
             None \<Rightarrow> generic_number digits
           | Some dial \<Rightarrow>
               if starts_with digits dial \<and> length digits > length dial + 6 then 43 # digits
               else if starts_with digits [48] then 43 # dial @ tl digits
               else if length digits \<in> {8, 9} then 43 # dial @ digits
               else generic_number digits)"

text \<open>What the tables must satisfy: the ten ASCII digits are digits, a plus sign and a blank are not, and no
  digit is a blank.\<close>

definition unicode_ok :: "unicode \<Rightarrow> bool" where
  "unicode_ok u \<longleftrightarrow> (\<forall>c \<in> {48..57}. u_digit u c) \<and> \<not> u_digit u 43 \<and> \<not> u_space u 43
     \<and> (\<forall>c. u_digit u c \<longrightarrow> \<not> u_space u c)"

definition phone_shape :: "unicode \<Rightarrow> utext \<Rightarrow> bool" where
  "phone_shape u t \<longleftrightarrow> t = [] \<or> (\<exists>ds. t = 43 # ds \<and> list_all (\<lambda>c. u_digit u c \<and> DIGIT_MAP c = c) ds)"

lemma DIGIT_MAP_idem [simp]: "DIGIT_MAP (DIGIT_MAP c) = DIGIT_MAP c"
  by (auto simp: DIGIT_MAP_def)

lemma dial_digits: "map_of COUNTRY_DIAL c = Some dial \<Longrightarrow> \<forall>d \<in> set dial. 48 \<le> d \<and> d \<le> 57"
  by (auto simp: COUNTRY_DIAL_def ascii_def split: if_splits)

lemma list_all_dropped: "list_all p xs \<Longrightarrow> list_all p (drop n xs)"
  by (auto simp: list_all_iff dest: in_set_dropD)

lemma list_all_tl: "list_all p xs \<Longrightarrow> list_all p (tl xs)"
  by (cases xs) auto

lemma normalize_phone_shape:
  assumes "unicode_ok u"
  shows "phone_shape u (normalize_phone u phone country)"
proof -
  let ?ok = "\<lambda>c. u_digit u c \<and> DIGIT_MAP c = c"
  define digits where "digits = filter (u_digit u) (map DIGIT_MAP (strip u (text_or phone)))"
  have d: "list_all ?ok digits" by (auto simp: digits_def list_all_iff)
  have dial: "list_all ?ok dial" if "map_of COUNTRY_DIAL c = Some dial" for c dial
    using dial_digits [OF that] assms by (auto simp: list_all_iff unicode_ok_def DIGIT_MAP_def)
  have g: "phone_shape u (generic_number digits)"
    using d by (auto simp: generic_number_def phone_shape_def list_all_tl)
  show ?thesis
    unfolding normalize_phone_def Let_def digits_def [symmetric]
    using d dial g by (auto simp: phone_shape_def list_all_dropped list_all_tl split: option.splits)
qed

lemma strip_shape:
  assumes "unicode_ok u" and "phone_shape u t"
  shows "strip u t = t"
proof (cases t)
  case (Cons a ds)
  with assms(2) have t: "a = 43" "list_all (\<lambda>c. u_digit u c \<and> DIGIT_MAP c = c) ds" by (auto simp: phone_shape_def)
  have "\<not> u_space u (hd (rev t))"
  proof (cases ds rule: rev_cases)
    case Nil
    with Cons t assms(1) show ?thesis by (simp add: unicode_ok_def)
  next
    case (snoc xs x)
    with Cons t assms(1) show ?thesis by (simp add: unicode_ok_def)
  qed
  then have "dropWhile (u_space u) (rev t) = rev t" using Cons by (cases "rev t") auto
  moreover have "dropWhile (u_space u) t = t" using Cons t(1) assms(1) by (simp add: unicode_ok_def)
  ultimately show ?thesis by (simp add: strip_def)
qed (simp add: strip_def)

text \<open>Phone numbers have one canonical form: the result is empty or a plus sign followed by digits, in
  which Arabic-Indic digits are written as ASCII ones, and, unless no digit is left, normalizing it again, under whatever country
  hint, changes nothing, so that numbers may be compared as keys.\<close>

theorem phone_canonical:
  assumes "unicode_ok u"
  shows "phone_shape u (normalize_phone u phone country)
    \<and> (normalize_phone u phone country \<noteq> [43] \<longrightarrow>
         normalize_phone u (Some (normalize_phone u phone country)) country' = normalize_phone u phone country)"
proof -
  let ?t = "normalize_phone u phone country"
  note shape = normalize_phone_shape [OF assms, of phone country]
  have "normalize_phone u (Some ?t) country' = ?t" if some: "?t \<noteq> [43]"
  proof (cases ?t)
    case Nil
    then show ?thesis by (simp add: normalize_phone_def text_or_def strip_def)
  next
    case (Cons a ds)
    with shape have t: "a = 43" "list_all (\<lambda>c. u_digit u c \<and> DIGIT_MAP c = c) ds" by (auto simp: phone_shape_def)
    then have ds: "map DIGIT_MAP ds = ds" "filter (u_digit u) ds = ds"
      by (auto simp: list_all_iff map_idI filter_id_conv)
    have "map DIGIT_MAP ?t = ?t" using Cons t(1) ds(1) by (simp add: DIGIT_MAP_def)
    moreover have "filter (u_digit u) ?t = ds" using Cons t(1) ds(2) assms by (simp add: unicode_ok_def)
    ultimately show ?thesis
      using strip_shape [OF assms shape] Cons t(1) some
      by (simp add: normalize_phone_def [of u "Some _"] text_or_def)
  qed
  with shape show ?thesis by blast
qed

definition ascii_unicode :: unicode where
  "ascii_unicode = \<lparr>u_lower = (\<lambda>c. [if 65 \<le> c \<and> c \<le> 90 then c + 32 else c]),
     u_upper = (\<lambda>c. [if 97 \<le> c \<and> c \<le> 122 then c - 32 else c]),
     u_word = (\<lambda>c. (48 \<le> c \<and> c \<le> 57) \<or> (65 \<le> c \<and> c \<le> 90) \<or> c = 95 \<or> (97 \<le> c \<and> c \<le> 122) \<or> 128 \<le> c),
     u_space = (\<lambda>c. c \<in> {9, 10, 11, 12, 13, 32}),
     u_digit = (\<lambda>c. (48 \<le> c \<and> c \<le> 57) \<or> (1632 \<le> c \<and> c \<le> 1641)),
     u_alpha = (\<lambda>c. (65 \<le> c \<and> c \<le> 90) \<or> (97 \<le> c \<and> c \<le> 122) \<or> (1569 \<le> c \<and> c \<le> 1610))\<rparr>"

lemma ascii_unicode_ok: "unicode_ok ascii_unicode"
  by (auto simp: unicode_ok_def ascii_unicode_def)

lemma phone_canonical_witness:
  "normalize_phone ascii_unicode (Some (normalize_phone ascii_unicode (Some (ascii ''055 123-4567'')) (ascii ''sa''))) []
    = normalize_phone ascii_unicode (Some (ascii ''055 123-4567'')) (ascii ''sa'')"
proof -
  have "normalize_phone ascii_unicode (Some (ascii ''055 123-4567'')) (ascii ''sa'') \<noteq> [43]" by code_simp
  with phone_canonical [OF ascii_unicode_ok] show ?thesis by blast
qed

end
