(* ===== verification/LeadRules.thy ===== *)
theory LeadRules
  imports Normalize
begin

section \<open>The rules of the lead pipeline (lead_engine/pipeline: icp, filters, legal_gate, orchestrator)\<close>

text \<open>
  The pure decisions the pipeline and the research agent share: which queries an ICP turns into, which candidates
  the hard filter keeps, how a lead is scored, what the legal policy allows and in which stage a lead ends.  Weights
  and scores are exact rationals where the source has floats rounded to one decimal.
\<close>

subsection \<open>Planning (icp.py)\<close>

definition CITY_ALIASES :: "(utext \<times> (utext \<times> utext)) list" where
  "CITY_ALIASES =
    [([1583, 1576, 1610], (ascii ''Dubai'', [1583, 1576, 1610])),
     (ascii ''dubai'', (ascii ''Dubai'', [1583, 1576, 1610])),
     ([1575, 1604, 1602, 1575, 1607, 1585, 1577], (ascii ''Cairo'', [1575, 1604, 1602, 1575, 1607, 1585, 1577])),
     (ascii ''cairo'', (ascii ''Cairo'', [1575, 1604, 1602, 1575, 1607, 1585, 1577])),
     ([1604, 1606, 1583, 1606], (ascii ''London'', [1604, 1606, 1583, 1606])),
     (ascii ''london'', (ascii ''London'', [1604, 1606, 1583, 1606])),
     ([1606, 1610, 1608, 1610, 1608, 1585, 1603], (ascii ''New York'', [1606, 1610, 1608, 1610, 1608, 1585, 1603])),
     (ascii ''new york'', (ascii ''New York'', [1606, 1610, 1608, 1610, 1608, 1585, 1603])),
     ([1573, 1587, 1591, 1606, 1576, 1608, 1604], (ascii ''Istanbul'', [1573, 1587, 1591, 1606, 1576, 1608, 1604])),
     (ascii ''istanbul'', (ascii ''Istanbul'', [1573, 1587, 1591, 1606, 1576, 1608, 1604])),
     ([1575, 1604, 1583, 1608, 1581, 1577], (ascii ''Doha'', [1575, 1604, 1583, 1608, 1581, 1577])),
     (ascii ''doha'', (ascii ''Doha'', [1575, 1604, 1583, 1608, 1581, 1577])),
     ([1575, 1604, 1605, 1606, 1575, 1605, 1577], (ascii ''Manama'', [1575, 1604, 1605, 1606, 1575, 1605, 1577])),
     (ascii ''manama'', (ascii ''Manama'', [1575, 1604, 1605, 1606, 1575, 1605, 1577])),
     ([1575, 1604, 1603, 1608, 1610, 1578], (ascii ''Kuwait City'', [1575, 1604, 1603, 1608, 1610, 1578])),
     (ascii ''kuwait'', (ascii ''Kuwait City'', [1575, 1604, 1603, 1608, 1610, 1578])),
     ([1575, 1604, 1585, 1610, 1575, 1590], (ascii ''Riyadh'', [1575, 1604, 1585, 1610, 1575, 1590])),
     (ascii ''riyadh'', (ascii ''Riyadh'', [1575, 1604, 1585, 1610, 1575, 1590])),
     ([1580, 1583, 1577], (ascii ''Jeddah'', [1580, 1583, 1577])),
     (ascii ''jeddah'', (ascii ''Jeddah'', [1580, 1583, 1577])),
     ([1575, 1604, 1583, 1605, 1575, 1605], (ascii ''Dammam'', [1575, 1604, 1583, 1605, 1575, 1605])),
     (ascii ''dammam'', (ascii ''Dammam'', [1575, 1604, 1583, 1605, 1575, 1605])),
     ([1575, 1604, 1582, 1576, 1585], (ascii ''Khobar'', [1575, 1604, 1582, 1576, 1585])),
     (ascii ''khobar'', (ascii ''Khobar'', [1575, 1604, 1582, 1576, 1585])),
     ([1605, 1603, 1577], (ascii ''Makkah'', [1605, 1603, 1607])),
     ([1605, 1603, 1607], (ascii ''Makkah'', [1605, 1603, 1607])),
     (ascii ''makkah'', (ascii ''Makkah'', [1605, 1603, 1607])),
     ([1575, 1604, 1605, 1583, 1610, 1606, 1577], (ascii ''Madinah'', [1575, 1604, 1605, 1583, 1610, 1606, 1607])),
     (ascii ''medina'', (ascii ''Madinah'', [1575, 1604, 1605, 1583, 1610, 1606, 1607])),
     ([1571, 1576, 1607, 1575], (ascii ''Abha'', [1575, 1576, 1607, 1575])),
     (ascii ''abha'', (ascii ''Abha'', [1575, 1576, 1607, 1575])),
     ([1575, 1604, 1591, 1575, 1574, 1601], (ascii ''Taif'', [1575, 1604, 1591, 1575, 1610, 1601])),
     (ascii ''taif'', (ascii ''Taif'', [1575, 1604, 1591, 1575, 1610, 1601]))]"

definition INDUSTRY_KEYWORDS :: "(utext \<times> (utext list \<times> utext list)) list" where
  "INDUSTRY_KEYWORDS =
    [(ascii ''dental'', ([ascii ''dental clinic'', ascii ''dentist''],
        [[1593, 1610, 1575, 1583, 1577, 32, 1571, 1587, 1606, 1575, 1606], [1593, 1610, 1575, 1583, 1575, 1578, 32, 1571, 1587, 1606, 1575, 1606], [1591, 1576, 1610, 1576, 32, 1571, 1587, 1606, 1575, 1606]])),
     (ascii ''saas'', ([ascii ''b2b software'', ascii ''saas company''],
        [[1588, 1585, 1603, 1577, 32, 1576, 1585, 1605, 1580, 1610, 1575, 1578], [1581, 1604, 1608, 1604, 32, 1587, 1581, 1575, 1576, 1610, 1577]])),
     (ascii ''marketing'', ([ascii ''marketing agency'', ascii ''digital advertising''],
        [[1608, 1603, 1575, 1604, 1577, 32, 1578, 1587, 1608, 1610, 1602], [1578, 1587, 1608, 1610, 1602, 32, 1585, 1602, 1605, 1610]])),
     (ascii ''realestate'', ([ascii ''real estate company'', ascii ''property development''],
        [[1588, 1585, 1603, 1577, 32, 1593, 1602, 1575, 1585, 1575, 1578], [1578, 1591, 1608, 1610, 1585, 32, 1593, 1602, 1575, 1585, 1610]])),
     (ascii ''logistics'', ([ascii ''logistics company'', ascii ''freight forwarding''],
        [[1588, 1585, 1603, 1577, 32, 1582, 1583, 1605, 1575, 1578, 32, 1604, 1608, 1580, 1587, 1578, 1610, 1577], [1588, 1581, 1606]])),
     (ascii ''b2b'', ([ascii ''b2b services'', ascii ''consulting firm''],
        [[1582, 1583, 1605, 1575, 1578, 32, 1571, 1593, 1605, 1575, 1604], [1575, 1587, 1578, 1588, 1575, 1585, 1575, 1578]]))]"

record city =
  ct_name :: utext
  ct_ar :: "utext option"

record icp =
  ic_id :: utext
  ic_title :: utext
  ic_country :: utext
  ic_policy :: utext
  ic_cities :: "city list"
  ic_industry :: utext
  ic_en :: "utext list"
  ic_ar :: "utext list"
  ic_min_branches :: "int option"
  ic_roles :: "utext list"
  ic_per_query :: int
  ic_cap :: "int option"
  ic_credits :: int
  ic_people :: int

text \<open>\<open>', '.join\<close> and its like are \<open>join_with\<close>; unknown cities keep the name they were given.\<close>

definition resolve_city :: "unicode \<Rightarrow> utext \<Rightarrow> utext \<times> utext" where
  "resolve_city u c = or_default (map_of CITY_ALIASES (lower u (strip u c))) (strip u c, strip u c)"

definition resolve_cities :: "unicode \<Rightarrow> utext list \<Rightarrow> (utext \<times> utext) list" where
  "resolve_cities u cs = rev (remdups (rev (map (resolve_city u) cs)))"

definition SA_CITIES :: "utext list" where
  "SA_CITIES = map ascii [''Riyadh'', ''Jeddah'', ''Dammam'', ''Khobar'', ''Makkah'', ''Madinah'', ''Abha'', ''Taif'']"

definition ADHOC_ROLES :: "utext list" where
  "ADHOC_ROLES = map ascii [''CEO'', ''Founder'', ''Owner'', ''Managing Director''] @
     [[1605, 1583, 1610, 1585], [1605, 1575, 1604, 1603],
      [1575, 1604, 1585, 1574, 1610, 1587, 32, 1575, 1604, 1578, 1606, 1601, 1610, 1584, 1610]]"

definition keywords_for :: "utext \<Rightarrow> utext list \<times> utext list" where
  "keywords_for industry = or_default (map_of INDUSTRY_KEYWORDS industry)
     ([industry @ ascii '' company'', industry], [[1588, 1585, 1603, 1577, 32] @ industry, industry])"

definition build_adhoc_icp :: "unicode \<Rightarrow> utext list \<Rightarrow> utext \<Rightarrow> int \<Rightarrow> int \<Rightarrow> icp" where
  "build_adhoc_icp u cs industry max_queries max_results =
     (let resolved = resolve_cities u cs; (en, ar) = keywords_for industry;
          names = (if resolved = [] then [ascii ''Global''] else map fst resolved);
          sa = list_ex (\<lambda>n. n \<in> set SA_CITIES) names
      in \<lparr>ic_id = ascii ''adhoc_'' @ industry @ ascii ''_'' @ take 40 (join_with (ascii ''_'') names),
          ic_title = ascii ''Ad-hoc '' @ industry @ [32, 8212, 32] @ join_with (ascii '', '') names,
          ic_country = ascii (if sa then ''SA'' else ''GLOBAL''), ic_policy = ascii (if sa then ''sa'' else ''standard''),
          ic_cities = map (\<lambda>(n, a). \<lparr>ct_name = n, ct_ar = Some a\<rparr>) resolved, ic_industry = industry,
          ic_en = en, ic_ar = ar, ic_min_branches = Some 0, ic_roles = ADHOC_ROLES, ic_per_query = max_results,
          ic_cap = Some max_queries, ic_credits = 50, ic_people = 30\<rparr>)"

record query =
  qu_text :: utext
  qu_city :: utext
  qu_arabic :: bool

text \<open>The queries of one city; an Arabic keyword needs the city's Arabic name, and is a KeyError without it.\<close>

definition city_queries :: "icp \<Rightarrow> city \<Rightarrow> query list option" where
  "city_queries icp c =
     (let en = map (\<lambda>kw. \<lparr>qu_text = kw @ ascii '' in '' @ ct_name c, qu_city = ct_name c, qu_arabic = False\<rparr>) (ic_en icp)
      in if ic_ar icp = [] then Some en
         else map_option (\<lambda>a. en @
            map (\<lambda>kw. \<lparr>qu_text = kw @ [32] @ a, qu_city = ct_name c, qu_arabic = True\<rparr>) (ic_ar icp)) (ct_ar c))"

text \<open>One round over the cities: each gives the query at the current depth while the cap leaves room.\<close>

fun one_round :: "nat \<Rightarrow> int \<Rightarrow> 'a list list \<Rightarrow> 'a list \<Rightarrow> 'a list" where
  "one_round depth cap [] qs = qs"
| "one_round depth cap (g # gs) qs =
     one_round depth cap gs (if depth < length g \<and> int (length qs) < cap then qs @ [g ! depth] else qs)"

definition deepest :: "'a list list \<Rightarrow> nat" where
  "deepest gs = foldr (\<lambda>g n. max (length g) n) gs 0"

lemma deepest_gt: "d < deepest gs \<longleftrightarrow> (\<exists>g \<in> set gs. d < length g)"
  by (induction gs) (auto simp: deepest_def)

function round_robin :: "'a list list \<Rightarrow> int \<Rightarrow> nat \<Rightarrow> 'a list \<Rightarrow> 'a list" where
  "round_robin gs cap depth qs =
     (if int (length qs) < cap \<and> list_ex (\<lambda>g. depth < length g) gs
      then round_robin gs cap (depth + 1) (one_round depth cap gs qs) else qs)"
  by pat_completeness auto
termination
proof (relation "measure (\<lambda>(gs, cap, depth, qs). deepest gs - depth)", simp)
  fix gs :: "'a list list" and cap depth and qs :: "'a list"
  assume "int (length qs) < cap \<and> list_ex (\<lambda>g. depth < length g) gs"
  then have "depth < deepest gs" by (auto simp: deepest_gt list_ex_iff)
  then show "((gs, cap, depth + 1, one_round depth cap gs qs), gs, cap, depth, qs)
      \<in> measure (\<lambda>(gs, cap, depth, qs). deepest gs - depth)" by simp
qed

declare round_robin.simps [simp del]

text \<open>\<open>queries[:cap]\<close>: a negative bound counts from the end.\<close>

definition take_py :: "int \<Rightarrow> 'a list \<Rightarrow> 'a list" where
  "take_py n xs = (if n < 0 then take (nat (int (length xs) + n)) xs else take (nat n) xs)"

definition choose_queries :: "int option \<Rightarrow> 'a list list \<Rightarrow> 'a list" where
  "choose_queries cap0 per_city =
     (let cap = (case cap0 of None \<Rightarrow> None | Some n \<Rightarrow> if n = 0 then None else Some n) in
      case cap of
        None \<Rightarrow> concat per_city
      | Some n \<Rightarrow> if length per_city \<le> 1 then take_py n (concat per_city) else round_robin per_city n 0 [])"

record search_plan =
  sp_queries :: "query list"
  sp_titles :: "utext list"
  sp_locations :: "utext list"

fun all_some :: "'a option list \<Rightarrow> 'a list option" where
  "all_some [] = Some []"
| "all_some (None # xs) = None"
| "all_some (Some x # xs) = map_option ((#) x) (all_some xs)"

definition build_plan :: "icp \<Rightarrow> search_plan option" where
  "build_plan icp = map_option (\<lambda>per_city.
     \<lparr>sp_queries = choose_queries (ic_cap icp) per_city, sp_titles = ic_roles icp,
      sp_locations = map ct_name (ic_cities icp)\<rparr>) (all_some (map (city_queries icp) (ic_cities icp)))"

definition city_terms :: "unicode \<Rightarrow> icp \<Rightarrow> utext list" where
  "city_terms u icp = filter (\<lambda>t. t \<noteq> [])
     (concat (map (\<lambda>c. [normalize_text u (Some (ct_name c)), normalize_text u (ct_ar c)]) (ic_cities icp)))"

definition industry_terms :: "unicode \<Rightarrow> icp \<Rightarrow> utext list" where
  "industry_terms u icp = filter (\<lambda>t. t \<noteq> [])
     (map (\<lambda>k. normalize_text u (Some k)) (ic_en icp @ ic_ar icp @ [ic_industry icp]))"

subsection \<open>Filtering and scoring (filters.py)\<close>

record lead_view =
  lv_name :: "utext option"
  lv_domain :: "utext option"
  lv_snippet :: "utext option"
  lv_website :: "utext option"
  lv_city :: "utext option"
  lv_social :: "utext option"
  lv_branches :: "int option"
  lv_email :: "utext option"
  lv_email_status :: "string option"
  lv_phone :: "utext option"
  lv_dm :: "utext option"
  lv_qualification :: "rat option"
  lv_urls :: nat
  lv_sources :: "string list"
  lv_types :: "string list"
  lv_purpose :: string
  lv_review :: bool

datatype filter_reason = IndustryMismatch | CityMismatch | TooFewBranches | FilterOk

definition filter_text :: "unicode \<Rightarrow> lead_view \<Rightarrow> utext" where
  "filter_text u l = normalize_text u (Some (join_with [32]
     (map text_or [lv_name l, lv_domain l, lv_snippet l, lv_website l, lv_city l, lv_social l])))"

definition hard_filter :: "unicode \<Rightarrow> icp \<Rightarrow> lead_view \<Rightarrow> bool \<times> filter_reason" where
  "hard_filter u icp l =
     (let blob = filter_text u l; least = or_default (ic_min_branches icp) 0 in
      if \<not> list_ex (\<lambda>t. contains t blob) (industry_terms u icp) then (False, IndustryMismatch)
      else if \<not> list_ex (\<lambda>t. contains t blob) (city_terms u icp) then (False, CityMismatch)
      else case lv_branches l of
             Some b \<Rightarrow> if least \<noteq> 0 \<and> b < least then (False, TooFewBranches) else (True, FilterOk)
           | None \<Rightarrow> (True, FilterOk))"

record weights =
  we_qualification :: rat
  we_evidence :: rat
  we_contact :: rat
  we_verification :: rat

text \<open>The weights of the settings, each with its default, scaled so that they sum to one together with any further
  weights the settings hold; negative ones count as zero.\<close>

definition scaled_weights ::
  "rat list \<Rightarrow> rat option \<Rightarrow> rat option \<Rightarrow> rat option \<Rightarrow> rat option \<Rightarrow> weights" where
  "scaled_weights others q e c v =
     (let ws = [or_default q (1/2), or_default e (1/5), or_default c (1/5), or_default v (1/10)];
          positive = sum_list (filter (\<lambda>w. w > 0) (ws @ others)); total = (if positive = 0 then 1 else positive)
      in \<lparr>we_qualification = max (ws ! 0) 0 / total, we_evidence = max (ws ! 1) 0 / total,
          we_contact = max (ws ! 2) 0 / total, we_verification = max (ws ! 3) 0 / total\<rparr>)"

definition contact_part :: "lead_view \<Rightarrow> rat" where
  "contact_part l =
     (let mail = truthy (lv_email l) \<and> lv_email_status l \<noteq> Some ''INVALID'' in
      if mail \<and> truthy (lv_phone l) then 1
      else if mail \<or> truthy (lv_phone l) then 6/10
      else if truthy (lv_dm l) then 3/10 else 0)"

definition verification_part :: "lead_view \<Rightarrow> rat" where
  "verification_part l =
     (if lv_email_status l = Some ''DELIVERABLE'' then 1
      else if lv_email_status l \<in> {Some ''RISKY'', Some ''CATCH_ALL''} then 1/2 else 0)"

definition score_lead :: "weights \<Rightarrow> lead_view \<Rightarrow> rat" where
  "score_lead w l =
     100 * (we_qualification w * (or_default (lv_qualification l) 0 / 100)
       + we_evidence w * min 1 (of_nat (lv_urls l) / 3)
       + we_contact w * contact_part l + we_verification w * verification_part l)"

subsection \<open>The legal gate (legal_gate.py)\<close>

record type_rule =
  tr_storage :: "bool option"
  tr_review :: bool
  tr_retention :: "int option"

record legal_rules =
  lr_types :: "string \<Rightarrow> type_rule option"
  lr_sources :: "string \<Rightarrow> bool option"
  lr_purposes :: "string \<Rightarrow> bool"
  lr_retention :: "int option"

datatype legal_verdict = LegalRejected | LegalReview | LegalAccepted

record legal_result =
  lg_storage :: bool
  lg_review :: bool
  lg_approved :: bool
  lg_retention :: int
  lg_expires :: ts
  lg_decision :: legal_verdict

definition infer_types :: "lead_view \<Rightarrow> string list" where
  "infer_types l = ''company_public_data'' #
     (if truthy (lv_email l) \<or> truthy (lv_phone l) then [''professional_contact''] else [])"

definition types_of :: "lead_view \<Rightarrow> string list" where
  "types_of l = (if lv_types l = [] then infer_types l else lv_types l)"

definition legal_gate :: "ts \<Rightarrow> legal_rules \<Rightarrow> lead_view \<Rightarrow> legal_result" where
  "legal_gate now p l =
     (let rules = map (lr_types p) (types_of l);
          storage = \<not> list_ex (\<lambda>r. case r of None \<Rightarrow> False | Some x \<Rightarrow> tr_storage x = Some False) rules;
          approved = (lv_sources l \<noteq> [] \<and> list_all (\<lambda>s. lr_sources p s = Some True) (lv_sources l));
          review = (list_ex (\<lambda>r. case r of None \<Rightarrow> True | Some x \<Rightarrow> tr_review x) rules \<or> \<not> approved
                    \<or> \<not> lr_purposes p (lv_purpose l));
          kept = List.map_filter (\<lambda>r. case r of None \<Rightarrow> None | Some x \<Rightarrow> tr_retention x) rules;
          days = (if kept = [] then or_default (lr_retention p) 30 else Min (set kept))
      in \<lparr>lg_storage = storage, lg_review = review, lg_approved = approved, lg_retention = days,
          lg_expires = now + days * 86400,
          lg_decision = (if \<not> storage then LegalRejected else if review then LegalReview else LegalAccepted)\<rparr>)"

subsection \<open>The stage of a lead (orchestrator.py: decide\_stage)\<close>

datatype lead_stage = StageAccepted | StageReview | StageRejected

definition ACCEPT_THRESHOLD :: rat where
  "ACCEPT_THRESHOLD = 60"

text \<open>The stage, and the review flag the function leaves on the lead.\<close>

definition decide_stage :: "lead_view \<Rightarrow> legal_result \<Rightarrow> lead_stage \<times> bool" where
  "decide_stage l v =
     (let review = (lg_review v \<or> lv_review l) in
      if \<not> lg_storage v then (StageRejected, review)
      else if truthy (lv_email l) \<and> lv_email_status l = Some ''INVALID'' then (StageReview, True)
      else if review then (StageReview, review)
      else if or_default (lv_qualification l) 0 \<ge> ACCEPT_THRESHOLD then (StageAccepted, review)
      else (StageReview, review))"

subsection \<open>Round robin reads the columns\<close>

lemma one_round_take:
  assumes "qs = take (nat cap) all" and "cap \<ge> 0"
  shows "one_round depth cap gs qs =
    take (nat cap) (qs @ map (\<lambda>g. g ! depth) (filter (\<lambda>g. depth < length g) gs))"
  using assms(1)
proof (induction gs arbitrary: qs all)
  case Nil
  then show ?case by simp
next
  case (Cons g gs)
  have le: "length qs \<le> nat cap" using Cons.prems by simp
  show ?case
  proof (cases "depth < length g \<and> int (length qs) < cap")
    case True
    then have "length (qs @ [g ! depth]) \<le> nat cap" by (simp add: nat_le_iff) linarith
    then have "qs @ [g ! depth] = take (nat cap) (qs @ [g ! depth])" by (simp only: take_all)
    with Cons.IH [OF this] True show ?thesis by simp
  next
    case False
    then consider "\<not> depth < length g" | "depth < length g" "length qs = nat cap" using le assms(2) by linarith
    then show ?thesis
    proof cases
      case 1
      with Cons.IH [OF Cons.prems] show ?thesis by simp
    next
      case 2
      then have "\<not> int (length qs) < cap" using assms(2) by linarith
      with 2 Cons.IH [OF Cons.prems] show ?thesis by simp
    qed
  qed
qed

lemma columns_from:
  "concat (drop depth (transpose gs)) =
     (if list_ex (\<lambda>g. depth < length g) gs
      then map (\<lambda>g. g ! depth) (filter (\<lambda>g. depth < length g) gs) @ concat (drop (depth + 1) (transpose gs)) else [])"
proof -
  have len: "length (transpose gs) = deepest gs" by (simp add: length_transpose deepest_def comp_def)
  show ?thesis
  proof (cases "depth < deepest gs")
    case True
    then have "drop depth (transpose gs) = transpose gs ! depth # drop (depth + 1) (transpose gs)"
      by (simp add: Cons_nth_drop_Suc len)
    moreover have "transpose gs ! depth = map (\<lambda>g. g ! depth) (filter (\<lambda>g. depth < length g) gs)"
      using True by (simp add: nth_transpose len)
    ultimately show ?thesis using True by (auto simp: deepest_gt list_ex_iff)
  next
    case False
    then have "\<not> list_ex (\<lambda>g. depth < length g) gs" by (auto simp: deepest_gt list_ex_iff)
    with False len show ?thesis by simp
  qed
qed

lemma take_take_append: "take n (take n xs @ ys) = take n (xs @ ys)"
  by (cases "n \<le> length xs") simp_all

lemma round_robin_columns:
  assumes "cap \<ge> 0" and "qs = take (nat cap) all"
  shows "round_robin gs cap depth qs = take (nat cap) (qs @ concat (drop depth (transpose gs)))"
  using assms(2)
proof (induction gs cap depth qs arbitrary: all rule: round_robin.induct)
  case (1 gs cap depth qs)
  show ?case
  proof (cases "int (length qs) < cap \<and> list_ex (\<lambda>g. depth < length g) gs")
    case True
    then have c: "cap \<ge> 0" by linarith
    let ?col = "map (\<lambda>g. g ! depth) (filter (\<lambda>g. depth < length g) gs)"
    have r: "one_round depth cap gs qs = take (nat cap) (qs @ ?col)"
      by (rule one_round_take [OF 1(2) c])
    have "round_robin gs cap depth qs = round_robin gs cap (depth + 1) (one_round depth cap gs qs)"
      using True by (subst round_robin.simps) simp
    also have "\<dots> = take (nat cap) (take (nat cap) (qs @ ?col) @ concat (drop (depth + 1) (transpose gs)))"
      using 1(1) [OF True r] r by simp
    also have "\<dots> = take (nat cap) ((qs @ ?col) @ concat (drop (depth + 1) (transpose gs)))"
      by (rule take_take_append)
    finally show ?thesis using True columns_from [of depth gs] by simp
  next
    case False
    then consider "\<not> list_ex (\<lambda>g. depth < length g) gs" | "length qs \<ge> nat cap" by linarith
    then have "take (nat cap) (qs @ concat (drop depth (transpose gs))) = qs"
      using 1(2) columns_from [of depth gs] by cases auto
    with False show ?thesis by (subst round_robin.simps) auto
  qed
qed

lemma all_some_Some: "all_some xs = Some ys \<Longrightarrow> xs = map Some ys"
  by (induction xs arbitrary: ys rule: all_some.induct) auto

subsection \<open>Properties\<close>

lemma nth_column: "i < deepest gs \<Longrightarrow> transpose gs ! i = map (\<lambda>g. g ! i) (filter (\<lambda>g. i < length g) gs)"
  by (subst nth_transpose) (simp_all add: length_transpose deepest_def comp_def)

text \<open>With several cities and a bound, the planner takes the queries round by round: its loop, which always ends,
  computes the first \<open>cap\<close> entries of the columns of the table of queries, so the bound is kept and no city gets a
  further query before every other city that has one left got as many.\<close>

theorem queries_taken_by_columns:
  assumes "1 < length per_city" and "0 < cap"
  shows "choose_queries (Some cap) per_city = take (nat cap) (concat (transpose per_city))
    \<and> int (length (choose_queries (Some cap) per_city)) \<le> cap
    \<and> (\<forall>i < deepest per_city. transpose per_city ! i = map (\<lambda>g. g ! i) (filter (\<lambda>g. i < length g) per_city))"
proof -
  have "choose_queries (Some cap) per_city = take (nat cap) (concat (transpose per_city))"
    using assms round_robin_columns [of cap "[]" "[]" per_city 0] by (simp add: choose_queries_def)
  then show ?thesis using assms(2) nth_column [of _ per_city] by simp
qed

lemma queries_taken_by_columns_witness:
  "choose_queries (Some 4) [[1, 2, 3], [4], [5, 6 :: nat]] = [1, 4, 5, 2]"
proof -
  have "choose_queries (Some 4) [[1, 2, 3], [4], [5, 6 :: nat]] = take 4 (concat (transpose [[1, 2, 3], [4], [5, 6]]))"
    using queries_taken_by_columns [of "[[1, 2, 3], [4], [5, 6 :: nat]]" 4] by simp
  then show ?thesis by simp
qed

text \<open>The weights are non-negative and sum to one, unless all are zero or less.\<close>

lemma scaled_weights_ok:
  "let w = scaled_weights others q e c v in
     0 \<le> we_qualification w \<and> 0 \<le> we_evidence w \<and> 0 \<le> we_contact w \<and> 0 \<le> we_verification w
     \<and> we_qualification w + we_evidence w + we_contact w + we_verification w \<le> 1"
proof -
  define a b d f where "a = or_default q (1/2)" and "b = or_default e (1/5)" and "d = or_default c (1/5)"
    and "f = or_default v (1/10)"
  define more where "more = sum_list (filter (\<lambda>w. w > 0) others)"
  define positive where "positive = sum_list (filter (\<lambda>w. w > 0) ([a, b, d, f] @ others))"
  have more: "0 \<le> more" unfolding more_def by (rule sum_list_nonneg) auto
  have sum: "positive = max a 0 + max b 0 + max d 0 + max f 0 + more"
    by (simp add: positive_def max_def more_def)
  have nonneg: "0 \<le> positive" unfolding sum using more by simp
  let ?t = "if positive = 0 then 1 else positive"
  have t: "0 < ?t" using nonneg by simp
  have w: "scaled_weights others q e c v = \<lparr>we_qualification = max a 0 / ?t, we_evidence = max b 0 / ?t,
      we_contact = max d 0 / ?t, we_verification = max f 0 / ?t\<rparr>"
    by (simp add: scaled_weights_def a_def b_def d_def f_def positive_def Let_def)
  have "max a 0 / ?t + max b 0 / ?t + max d 0 / ?t + max f 0 / ?t = (positive - more) / ?t"
    by (simp add: sum add_divide_distrib)
  also have "\<dots> \<le> 1" using more t by (auto simp: divide_le_eq)
  finally have "max a 0 / ?t + max b 0 / ?t + max d 0 / ?t + max f 0 / ?t \<le> 1" .
  then show ?thesis using t by (auto simp: w Let_def)
qed

lemma score_parts:
  "0 \<le> contact_part l" "contact_part l \<le> 1" "0 \<le> verification_part l" "verification_part l \<le> 1"
  by (simp_all add: contact_part_def verification_part_def Let_def)

text \<open>The score of a lead lies between 0 and 100 whatever weights the settings give, negative or partial ones
  included.\<close>

theorem lead_score_in_range:
  assumes "0 \<le> or_default (lv_qualification l) 0" and "or_default (lv_qualification l) 0 \<le> 100"
  shows "0 \<le> score_lead (scaled_weights others q e c v) l \<and> score_lead (scaled_weights others q e c v) l \<le> 100"
proof -
  define w where "w = scaled_weights others q e c v"
  define x1 x2 x3 x4 where "x1 = or_default (lv_qualification l) 0 / 100" and "x2 = min 1 (of_nat (lv_urls l) / 3 :: rat)"
    and "x3 = contact_part l" and "x4 = verification_part l"
  have x: "0 \<le> x1" "x1 \<le> 1" "0 \<le> x2" "x2 \<le> 1" "0 \<le> x3" "x3 \<le> 1" "0 \<le> x4" "x4 \<le> 1"
    using assms score_parts [of l] by (simp_all add: x1_def x2_def x3_def x4_def)
  have ws: "0 \<le> we_qualification w" "0 \<le> we_evidence w" "0 \<le> we_contact w" "0 \<le> we_verification w"
    "we_qualification w + we_evidence w + we_contact w + we_verification w \<le> 1"
    using scaled_weights_ok [of others q e c v] by (simp_all add: w_def Let_def)
  have le: "we_qualification w * x1 \<le> we_qualification w" "we_evidence w * x2 \<le> we_evidence w"
    "we_contact w * x3 \<le> we_contact w" "we_verification w * x4 \<le> we_verification w"
    using x ws by (auto intro: mult_left_le)
  have s: "score_lead w l = 100 * (we_qualification w * x1 + we_evidence w * x2 + we_contact w * x3 + we_verification w * x4)"
    by (simp add: score_lead_def x1_def x2_def x3_def x4_def)
  have "0 \<le> we_qualification w * x1 + we_evidence w * x2 + we_contact w * x3 + we_verification w * x4"
    using x ws by simp
  with le ws(5) show ?thesis unfolding w_def [symmetric] s by simp
qed

definition plain_lead :: lead_view where
  "plain_lead = \<lparr>lv_name = Some (ascii ''Care''), lv_domain = None, lv_snippet = None, lv_website = None, lv_city = None,
     lv_social = None, lv_branches = None, lv_email = Some (ascii ''a@b.co''), lv_email_status = Some ''INVALID'',
     lv_phone = None, lv_dm = None, lv_qualification = Some 90, lv_urls = 1, lv_sources = [''search_api''],
     lv_types = [], lv_purpose = ''lead_generation'', lv_review = False\<rparr>"

lemma lead_score_in_range_witness:
  "score_lead (scaled_weights [2] (Some 9) None (Some (-3)) None) plain_lead \<le> 100"
  using lead_score_in_range [of plain_lead "[2]" "Some 9" None "Some (-3)" None] by (simp add: plain_lead_def)

definition forbidden :: "legal_rules \<Rightarrow> lead_view \<Rightarrow> bool" where
  "forbidden p l \<longleftrightarrow> (\<exists>t \<in> set (types_of l). \<exists>r. lr_types p t = Some r \<and> tr_storage r = Some False)"

definition cleared :: "legal_rules \<Rightarrow> lead_view \<Rightarrow> bool" where
  "cleared p l \<longleftrightarrow> (\<forall>t \<in> set (types_of l). \<exists>r. lr_types p t = Some r \<and> \<not> tr_review r)
     \<and> lv_sources l \<noteq> [] \<and> (\<forall>s \<in> set (lv_sources l). lr_sources p s = Some True) \<and> lr_purposes p (lv_purpose l)"

lemma legal_gate_simps:
  "lg_storage (legal_gate now p l) \<longleftrightarrow> \<not> forbidden p l"
  "lg_review (legal_gate now p l) \<longleftrightarrow> \<not> cleared p l"
proof -
  show "lg_storage (legal_gate now p l) \<longleftrightarrow> \<not> forbidden p l"
    by (auto simp: legal_gate_def Let_def forbidden_def list_ex_iff split: option.splits)
  have "(\<exists>t \<in> set (types_of l). case lr_types p t of None \<Rightarrow> True | Some x \<Rightarrow> tr_review x)
      \<longleftrightarrow> \<not> (\<forall>t \<in> set (types_of l). \<exists>r. lr_types p t = Some r \<and> \<not> tr_review r)"
    by (auto split: option.splits)
  then show "lg_review (legal_gate now p l) \<longleftrightarrow> \<not> cleared p l"
    by (simp add: legal_gate_def Let_def cleared_def list_ex_iff list_all_iff) blast
qed

text \<open>C39: Acceptance is never a default: a lead is accepted without a human only when no data type of it is forbidden,
  every one of its data types has a rule that asks for no review, it has a source and every source is approved, its
  purpose is in the policy, its score reaches the threshold and its address was not proved invalid; a data type
  whose storage is forbidden rejects it whatever else holds.\<close>

theorem acceptance_is_explicit:
  "(fst (decide_stage l (legal_gate now p l)) = StageAccepted \<longleftrightarrow>
      \<not> forbidden p l \<and> cleared p l \<and> \<not> lv_review l \<and> 60 \<le> or_default (lv_qualification l) 0
      \<and> \<not> (truthy (lv_email l) \<and> lv_email_status l = Some ''INVALID''))
   \<and> (fst (decide_stage l (legal_gate now p l)) = StageRejected \<longleftrightarrow> forbidden p l)"
  by (simp add: decide_stage_def Let_def legal_gate_simps ACCEPT_THRESHOLD_def)

end
