(* ===== verification/Research.thy ===== *)
theory Research
  imports Router Truth Agents LeadRules "HOL-Library.AList"
begin

section \<open>Research jobs (lead_engine/research/manager.py)\<close>

text \<open>
  A research job is a row of the jobs table and a context row with its objective, plan, budgets and counters.
  The desk is everything one connection sees: the router with its registry and cache, the jobs, the truth layer,
  the agent registry, the contexts and the leads; each part carries the tenant of the connection.  The counters
  column holds numbers and the four marks of an unfinished finalization, which are fields of their own here.
  \<open>utcnow()\<close> is the router's clock, so time passes in calls only.  A user may stop the job before any reading of its
  state: \<open>rn_stops\<close> says before which.  Values the model or a client supplies are JSON.
\<close>

subsection \<open>Environment and state\<close>

record verdict =
  vd_score :: rat
  vd_tier :: json
  vd_why :: "json list"
  vd_conf :: rat
  vd_unknown :: "json list"
  vd_blockers :: "json list"
  vd_deterministic :: bool
  vd_local :: bool

type_synonym counters = "(string \<times> int) list"
type_synonym limits_view = "(string \<times> int \<times> int) list \<times> rat option"

record report =
  pg_state :: "job_state option"
  pg_pause :: "string option"
  pg_objective :: "string option"
  pg_counters :: counters
  pg_budgets :: limits_view
  pg_stop :: "string option"
  pg_stop_detail :: "string option"
  pg_candidates :: int
  pg_verified :: nat
  pg_facts :: nat
  pg_conflicts :: nat
  pg_questions :: nat
  pg_visits :: nat

record found_company =
  fo_name :: string
  fo_domain :: "string option"
  fo_url :: json
  fo_error :: bool

datatype tool_out =
    ToolError string
  | BudgetStop string
  | Searched string nat "found_company list"
  | Investigated string
  | Saved ident fact_status string
  | CheckedFact ident outcome json fact_status
  | Listed subject_view
  | Qualified verdict
  | Status report
  | Asked nat string

record action_result =
  ax_tool :: json
  ax_ok :: bool
  ax_out :: "tool_out option"

datatype prompt =
    PlanPrompt string json
  | ActorPrompt string "(string \<times> json) list" report "action_result list" "(string \<times> string \<times> fact_status \<times> string) list"
  | RetryPrompt prompt
  | FactsPrompt json qualification_input

record renv =
  rn_respond :: responder
  rn_cf :: settings
  rn_u :: unicode
  rn_uuid :: "nat \<Rightarrow> string"
  rn_parse :: "string \<Rightarrow> json option"
  rn_str :: "json \<Rightarrow> string"
  rn_render :: "prompt \<Rightarrow> string"
  rn_snap :: "limits_view \<Rightarrow> string"
  rn_addr_ok :: "string \<Rightarrow> bool"
  rn_stops :: "nat \<Rightarrow> bool"
  rn_deadline :: "int option"
  rn_backoff :: int
  rn_research :: "(string \<times> json) list"
  rn_weights :: weights
  rn_legal :: legal_rules
  rn_manus :: "(nat \<Rightarrow> json option \<times> nat) option"

record rcontext =
  rc_job :: ident
  rc_org :: "string option"
  rc_objective :: string
  rc_icp :: "ident option"
  rc_run :: "ident option"
  rc_plan :: "(string \<times> json) list option"
  rc_budgets :: "(string \<times> json) list"
  rc_counters :: counters
  rc_finalizing :: bool
  rc_stop_mark :: "(string \<times> string) option"
  rc_verdicts :: "(string \<times> verdict) list option"
  rc_tried :: "ident list option"
  rc_stop :: "string option"
  rc_detail :: "string option"
  rc_parent :: "ident option"
  rc_created :: ts
  rc_updated :: ts

text \<open>The legal decision of a lead, or the mark that its personal data were erased.\<close>

datatype legal_mark = LegalIs legal_verdict | RetentionErased

record rlead =
  rl_id :: string
  rl_org :: string
  rl_job :: "ident option"
  rl_name :: string
  rl_domain :: "string option"
  rl_city :: "string option"
  rl_country :: "string option"
  rl_industry :: "string option"
  rl_branches :: "int option"
  rl_phone :: "string option"
  rl_email :: "string option"
  rl_email_status :: "fact_status option"
  rl_dm :: "string option"
  rl_dm_title :: "string option"
  rl_linkedin :: "string option"
  rl_website :: "string option"
  rl_qualification :: rat
  rl_tier :: json
  rl_score :: rat
  rl_stage :: lead_stage
  rl_legal :: legal_mark
  rl_local :: bool
  rl_social :: "string option"
  rl_verdict :: "verdict option"
  rl_retention :: "int option"
  rl_extra :: "(string \<times> json) list"
  rl_disposition :: "string option"
  rl_note :: "string option"
  rl_decided_at :: "ts option"
  rl_decided_by :: "string option"
  rl_created :: ts
  rl_updated :: ts

record desk =
  k_router :: world
  k_jobs :: jdb
  k_truth :: tdb
  k_agents :: gdb
  k_contexts :: "rcontext list"
  k_leads :: "rlead list"
  k_reads :: nat
  k_manus :: nat

datatype rfault =
    JobFault jerror | TruthFault truth_error | RegistryFault registry_error | NoCapacity string "string list"
  | ProviderCrash string | ScopeDenied string | QualificationError string | PyFault py_fault | NoContext ident
  | Diverges

type_synonym 'a rx = "(desk, rfault, 'a) act"

definition now_k :: "desk \<Rightarrow> ts" where
  "now_k w = now_of (k_router w)"

subsection \<open>The parts of the desk\<close>

definition in_jobs :: "(ts \<Rightarrow> (jdb, jerror, 'a) act) \<Rightarrow> 'a rx" where
  "in_jobs m = (\<lambda>w. case m (now_k w) (k_jobs w) of
     (Inl e, d) \<Rightarrow> (Inl (JobFault e), w\<lparr>k_jobs := d\<rparr>) | (Inr x, d) \<Rightarrow> (Inr x, w\<lparr>k_jobs := d\<rparr>))"

definition in_truth :: "(ts \<Rightarrow> (tdb, truth_error, 'a) act) \<Rightarrow> 'a rx" where
  "in_truth m = (\<lambda>w. case m (now_k w) (k_truth w) of
     (Inl e, d) \<Rightarrow> (Inl (TruthFault e), w\<lparr>k_truth := d\<rparr>) | (Inr x, d) \<Rightarrow> (Inr x, w\<lparr>k_truth := d\<rparr>))"

definition in_registry :: "(ts \<Rightarrow> (gdb, registry_error, 'a) act) \<Rightarrow> 'a rx" where
  "in_registry m = (\<lambda>w. case m (now_k w) (k_agents w) of
     (Inl e, d) \<Rightarrow> (Inl (RegistryFault e), w\<lparr>k_agents := d\<rparr>) | (Inr x, d) \<Rightarrow> (Inr x, w\<lparr>k_agents := d\<rparr>))"

definition pure_of :: "py_fault + 'a \<Rightarrow> 'a rx" where
  "pure_of r = (case r of Inl e \<Rightarrow> throw (PyFault e) | Inr x \<Rightarrow> ret x)"

text \<open>A call through the router.  The body of an answer is the text of a dict.\<close>

definition body_of :: "renv \<Rightarrow> string \<Rightarrow> (string \<times> json) list" where
  "body_of e text = (case rn_parse e text of Some (JObj kvs) \<Rightarrow> kvs | _ \<Rightarrow> [])"

definition ask ::
  "renv \<Rightarrow> bool \<Rightarrow> string option \<Rightarrow> string option \<Rightarrow> string \<Rightarrow> string \<Rightarrow> ident option
     \<Rightarrow> ((string \<times> json) list \<times> string) rx" where
  "ask e use_cache cache_type prefer task payload job = (\<lambda>w.
     case route (rn_respond e) (rn_cf e) use_cache cache_type prefer task payload job (k_router w) of
       (Inl (NoProviderAvailable t tried), r) \<Rightarrow> (Inl (NoCapacity t tried), w\<lparr>k_router := r\<rparr>)
     | (Inl (Uncaught x), r) \<Rightarrow> (Inl (ProviderCrash x), w\<lparr>k_router := r\<rparr>)
     | (Inr ro, r) \<Rightarrow> (Inr (body_of e (ro_body ro), ro_provider ro), w\<lparr>k_router := r\<rparr>))"

subsection \<open>Contexts\<close>

definition context_of :: "ident \<Rightarrow> desk \<Rightarrow> rcontext option" where
  "context_of jid w = row_of rc_job jid (k_contexts w)"

definition need_context :: "ident \<Rightarrow> rcontext rx" where
  "need_context jid = (\<lambda>w. case context_of jid w of None \<Rightarrow> (Inl (NoContext jid), w) | Some c \<Rightarrow> (Inr c, w))"

definition upd_context :: "ident \<Rightarrow> (rcontext \<Rightarrow> rcontext) \<Rightarrow> desk \<Rightarrow> desk" where
  "upd_context jid f w = w\<lparr>k_contexts :=
     upd_where (\<lambda>c. rc_job c = jid) (\<lambda>c. (f c)\<lparr>rc_updated := now_k w\<rparr>) (k_contexts w)\<rparr>"

definition DEFAULT_BUDGETS :: "(string \<times> json) list" where
  "DEFAULT_BUDGETS = [(''max_steps'', JInt 40), (''max_tool_calls'', JInt 120), (''max_searches'', JInt 60),
     (''max_model_calls'', JInt 80), (''max_browse_calls'', JInt 30), (''max_time_minutes'', JInt 30),
     (''max_candidates'', JInt 200)]"

definition default_budgets :: "(string \<times> json) list \<Rightarrow> (string \<times> json) list" where
  "default_budgets cfg = map (\<lambda>(k, v). (k, or_default (map_of cfg k) v)) DEFAULT_BUDGETS"

definition merge_budgets :: "(string \<times> json) list \<Rightarrow> (string \<times> json) list \<Rightarrow> (string \<times> json) list" where
  "merge_budgets base extra = foldl (\<lambda>acc (k, v). AList.update k v acc) base extra"

definition create_research ::
  "renv \<Rightarrow> ident \<Rightarrow> string \<Rightarrow> ident option \<Rightarrow> string option \<Rightarrow> (string \<times> json) list \<Rightarrow> ident option \<Rightarrow> ident rx" where
  "create_research e fresh objective0 icp slug budgets parent = (\<lambda>w.
     let objective = py_strip objective0; org = db_org (k_jobs w) in
     if objective = [] \<or> t_pg (k_truth w) \<and> \<not> truthy org then (Inl (PyFault ValueError), w)
     else seq (in_jobs (\<lambda>now. create_job now fresh (if truthy slug then the slug else ''agentic'')
                 [(''kind'', Some ''research''), (''objective'', Some objective), (''parent_job_id'', parent)])) (\<lambda>jid.
          seq (modify (\<lambda>w. w\<lparr>k_contexts := k_contexts w @
                 [\<lparr>rc_job = jid, rc_org = org, rc_objective = objective, rc_icp = icp, rc_run = None, rc_plan = None,
                   rc_budgets = merge_budgets (default_budgets (rn_research e)) budgets, rc_counters = [],
                   rc_finalizing = False, rc_stop_mark = None, rc_verdicts = None, rc_tried = None, rc_stop = None,
                   rc_detail = None, rc_parent = parent, rc_created = now_k w, rc_updated = now_k w\<rparr>]\<rparr>)) (\<lambda>_.
          ret jid)) w)"

definition set_plan :: "ident \<Rightarrow> (string \<times> json) list \<Rightarrow> unit rx" where
  "set_plan jid plan = modify (upd_context jid (\<lambda>c. c\<lparr>rc_plan := Some plan\<rparr>))"

subsection \<open>Counters and marks\<close>

definition counter_of :: "rcontext \<Rightarrow> string \<Rightarrow> int" where
  "counter_of c key = or_default (map_of (rc_counters c) key) 0"

definition counter :: "ident \<Rightarrow> string \<Rightarrow> desk \<Rightarrow> int" where
  "counter jid key w = (case context_of jid w of None \<Rightarrow> 0 | Some c \<Rightarrow> counter_of c key)"

definition put_counter :: "string \<Rightarrow> int \<Rightarrow> rcontext \<Rightarrow> rcontext" where
  "put_counter key n c = c\<lparr>rc_counters := AList.update key n (rc_counters c)\<rparr>"

definition bump_counter :: "ident \<Rightarrow> string \<Rightarrow> int \<Rightarrow> int rx" where
  "bump_counter jid key n = seq (need_context jid) (\<lambda>c.
     seq (modify (upd_context jid (put_counter key (counter_of c key + n)))) (\<lambda>_. ret (counter_of c key + n)))"

definition set_counter :: "ident \<Rightarrow> string \<Rightarrow> int \<Rightarrow> unit rx" where
  "set_counter jid key n = seq (need_context jid) (\<lambda>c. modify (upd_context jid (put_counter key n)))"

definition set_mark :: "ident \<Rightarrow> (rcontext \<Rightarrow> rcontext) \<Rightarrow> unit rx" where
  "set_mark jid f = seq (need_context jid) (\<lambda>c. modify (upd_context jid f))"

definition clear_marks :: "ident \<Rightarrow> unit rx" where
  "clear_marks jid = modify (\<lambda>w. case context_of jid w of
     None \<Rightarrow> w
   | Some c \<Rightarrow>
       if \<not> rc_finalizing c \<and> rc_verdicts c = None \<and> rc_stop_mark c = None \<and> rc_tried c = None then w
       else upd_context jid (\<lambda>c. c\<lparr>rc_finalizing := False, rc_verdicts := None, rc_stop_mark := None,
              rc_tried := None\<rparr>) w)"

subsection \<open>Budgets\<close>

definition LIMIT_COUNTERS :: "(string \<times> string) list" where
  "LIMIT_COUNTERS = [(''max_steps'', ''steps''), (''max_tool_calls'', ''tool_calls''), (''max_searches'', ''searches''),
     (''max_model_calls'', ''model_calls''), (''max_browse_calls'', ''browse_calls''), (''max_candidates'', ''candidates'')]"

text \<open>The first limit that is reached, and what was looked at until then.\<close>

fun scan_limits ::
  "rcontext \<Rightarrow> (string \<times> json) list \<Rightarrow> (string \<times> int \<times> int) list \<Rightarrow> py_fault + string option \<times> (string \<times> int \<times> int) list" where
  "scan_limits c [] snap = Inr (None, snap)"
| "scan_limits c ((key, limit) # bs) snap =
     (if starts_with key ''max_'' \<and> py_true limit
      then case map_of LIMIT_COUNTERS key of
             None \<Rightarrow> scan_limits c bs snap
           | Some ck \<Rightarrow> (case as_int limit of
                 Inl e \<Rightarrow> Inl e
               | Inr n \<Rightarrow> let snap' = snap @ [(ck, counter_of c ck, n)] in
                   if counter_of c ck \<ge> n then Inr (Some key, snap') else scan_limits c bs snap')
      else scan_limits c bs snap)"

definition over_time :: "ts \<Rightarrow> rcontext \<Rightarrow> py_fault + bool \<times> rat option" where
  "over_time now c =
     (let minutes = kv_get (rc_budgets c) ''max_time_minutes''; spent = of_int (now - rc_created c) / 60 in
      if \<not> py_true minutes then Inr (False, None)
      else case as_float minutes of
             Inr m \<Rightarrow> Inr (spent \<ge> m, Some spent)
           | Inl ValueError \<Rightarrow> Inr (False, Some spent)
           | Inl e \<Rightarrow> Inl e)"

definition check_budget :: "ts \<Rightarrow> rcontext \<Rightarrow> py_fault + string option \<times> limits_view" where
  "check_budget now c =
     (case scan_limits c (rc_budgets c) [] of
        Inl e \<Rightarrow> Inl e
      | Inr (Some key, snap) \<Rightarrow> Inr (Some key, (snap, None))
      | Inr (None, snap) \<Rightarrow> (case over_time now c of
            Inl e \<Rightarrow> Inl e
          | Inr (late, spent) \<Rightarrow> Inr (if late then Some ''max_time_minutes'' else None, (snap, spent))))"

definition budget_check :: "ident \<Rightarrow> (string option \<times> limits_view) rx" where
  "budget_check jid = (\<lambda>w. case context_of jid w of
     None \<Rightarrow> (Inr (None, ([], None)), w)
   | Some c \<Rightarrow> pure_of (check_budget (now_k w) c) w)"

subsection \<open>States\<close>

definition cancel_research :: "ident \<Rightarrow> job_state rx" where
  "cancel_research jid =
     seq (modify (upd_context jid (\<lambda>c. c\<lparr>rc_stop := Some ''USER_STOPPED'', rc_detail := Some ''cancelled by user''\<rparr>))) (\<lambda>_.
     in_jobs (\<lambda>now. transition now jid CANCELLED (Some ''user stop: user'')))"

text \<open>The stop request of the API, refused when the job is settled already; then the state as the orchestrator reads it.\<close>

definition user_stop :: "ident \<Rightarrow> desk \<Rightarrow> desk" where
  "user_stop jid w =
     (case state_of (k_jobs w) jid of
        None \<Rightarrow> w
      | Some s \<Rightarrow> if s \<in> {COMPLETED, CANCELLED, FAILED} then w else snd (cancel_research jid w))"

definition read_state :: "renv \<Rightarrow> ident \<Rightarrow> job_state rx" where
  "read_state e jid = (\<lambda>w.
     in_jobs (\<lambda>_. current jid)
       ((if rn_stops e (k_reads w) then user_stop jid w else w)\<lparr>k_reads := k_reads w + 1\<rparr>))"

definition set_phase :: "ident \<Rightarrow> job_state \<Rightarrow> string option \<Rightarrow> job_state rx" where
  "set_phase jid st reason = in_jobs (\<lambda>now. transition now jid st reason)"

definition pause_for_capacity :: "ident \<Rightarrow> string \<Rightarrow> ts \<Rightarrow> unit rx" where
  "pause_for_capacity jid reason resume_at = in_jobs (\<lambda>now. pause now jid reason resume_at)"

definition waiting_for_user :: "ident \<Rightarrow> string \<Rightarrow> job_state rx" where
  "waiting_for_user jid question = in_jobs (\<lambda>now. transition now jid WAITING_FOR_USER (Some question))"

definition ready_for_review :: "ident \<Rightarrow> string \<Rightarrow> string \<Rightarrow> job_state rx" where
  "ready_for_review jid reason detail =
     seq (modify (upd_context jid (\<lambda>c. c\<lparr>rc_stop := Some reason, rc_detail := Some detail\<rparr>))) (\<lambda>_.
     in_jobs (\<lambda>now. transition now jid READY_FOR_REVIEW (Some reason)))"

definition complete_research :: "ident \<Rightarrow> job_state rx" where
  "complete_research jid = in_jobs (\<lambda>now. transition now jid COMPLETED None)"

text \<open>What the API and the chat narrate; the router's usage figures are left out.\<close>

definition progress :: "ident \<Rightarrow> report rx" where
  "progress jid = seq (budget_check jid) (\<lambda>(_, snap) w.
     let c = context_of jid w; row = row_of j_id jid (jobs (k_jobs w)); t = k_truth w;
         mine = (\<lambda>f. f_job f = Some jid)
     in (Inr \<lparr>pg_state = map_option j_state row, pg_pause = (case row of None \<Rightarrow> None | Some r \<Rightarrow> j_pause_reason r),
          pg_objective = map_option rc_objective c, pg_counters = (case c of None \<Rightarrow> [] | Some x \<Rightarrow> rc_counters x),
          pg_budgets = snap, pg_stop = (case c of None \<Rightarrow> None | Some x \<Rightarrow> rc_stop x),
          pg_stop_detail = (case c of None \<Rightarrow> None | Some x \<Rightarrow> rc_detail x),
          pg_candidates = counter jid ''candidates'' w,
          pg_verified = rowcount (\<lambda>f. f_status f = Verified \<and> mine f) (facts t), pg_facts = rowcount mine (facts t),
          pg_conflicts = rowcount (\<lambda>c. c_res c = Open \<and> c_job c = Some jid) (conflict_rows t),
          pg_questions = rowcount (\<lambda>q. q_job q = jid \<and> q_status q = QOpen) (questions t),
          pg_visits = rowcount (\<lambda>v. v_job v = jid) (visits t)\<rparr>, w))"

end
