(* ===== verification/Acquisition.thy ===== *)
theory Acquisition
  imports Normalize "HOL-Library.List_Lexorder"
begin

section \<open>Company identity, planning and intent (domain/acquisition)\<close>

text \<open>
  The pure decisions of the acquisition domain: what a discovery result is, when two names are the same company,
  which queries an ICP turns into and which purchase intent a text shows.  Texts are lists of code points and the
  Unicode tables are the argument \<open>u\<close>.  The contact patterns of \<open>extract_contacts\<close> are not modelled here; the
  intent markers are matched in the lower-cased text.
\<close>

subsection \<open>Sites\<close>

definition SOCIAL_DOMAINS :: "string list" where
  "SOCIAL_DOMAINS = [''facebook.com'', ''instagram.com'', ''linkedin.com'', ''twitter.com'',
     ''x.com'', ''tiktok.com'', ''youtube.com'', ''wa.me'', ''whatsapp.com'']"

definition EDITORIAL_HINTS :: "string list" where
  "EDITORIAL_HINTS = [''blog'', ''article'', ''news'', ''magazine'', ''/blog/'', ''best-'', ''top-10'']"

definition DIRECTORY_DOMAINS :: "string list" where
  "DIRECTORY_DOMAINS = [''whatclinic.com'', ''healthgrades.com'', ''zocdoc.com'',
     ''vitals.com'', ''ratemds.com'', ''bookimed.com'', ''doctors.com'',
     ''dentistry.com'', ''yellowpages.com'', ''yell.com'', ''yelp.com'',
     ''houzz.com'', ''tripadvisor.com'', ''booking.com'', ''b2bmap.com'',
     ''kompass.com'', ''dnb.com'']"

definition is_directory :: "utext option \<Rightarrow> bool" where
  "is_directory domain = hosted_on DIRECTORY_DOMAINS (text_or domain)"

definition is_social :: "utext option \<Rightarrow> bool" where
  "is_social domain = hosted_on SOCIAL_DOMAINS (text_or domain)"

definition domain_from_url :: "unicode \<Rightarrow> utext \<Rightarrow> utext option" where
  "domain_from_url u url =
     (let host = remove_prefix (ascii ''www.'') (lower u (netloc_of url)) in
      if bad_brackets (netloc_of url) \<or> host = [] then None else Some host)"

definition looks_editorial :: "unicode \<Rightarrow> utext \<Rightarrow> utext \<Rightarrow> bool" where
  "looks_editorial u title url =
     list_ex (\<lambda>h. contains (ascii h) (lower u (title @ [32] @ url))) EDITORIAL_HINTS"

definition normalize_name :: "unicode \<Rightarrow> utext \<Rightarrow> utext" where
  "normalize_name u name = join_with [32] (words (u_space u) (lower u name))"

subsection \<open>The matching key of a name\<close>

definition GENERIC_TOKENS :: "utext list" where
  "GENERIC_TOKENS =
    [ascii ''clinic'', ascii ''clinics'', ascii ''center'', ascii ''centre'', ascii ''centers'',
     ascii ''centres'', ascii ''dental'', ascii ''dentist'', ascii ''dentistry'', ascii ''medical'',
     ascii ''hospital'', ascii ''group'', ascii ''co'', ascii ''company'', ascii ''ltd'', ascii ''llc'',
     ascii ''the'', ascii ''and'', ascii ''of'', ascii ''in'', ascii ''care'', ascii ''specialty'',
     ascii ''specialized'', ascii ''specialist'', ascii ''polyclinic'', ascii ''service'',
     ascii ''services'', ascii ''health'', ascii ''healthcare'', ascii ''department'', ascii ''dept'',
     ascii ''unit'', [1582, 1583, 1605, 1575, 1578], [1602, 1587, 1605], [1608, 1581, 1583, 1607],
     ascii ''saudi'', ascii ''arabia'', ascii ''ksa'', ascii ''riyadh'', ascii ''jeddah'', ascii ''jedda'',
     ascii ''dammam'', ascii ''khobar'', ascii ''mecca'', ascii ''makkah'', ascii ''medina'',
     ascii ''madinah'', ascii ''egypt'', ascii ''cairo'', ascii ''giza'', ascii ''alexandria'',
     ascii ''uae'', ascii ''dubai'', ascii ''abudhabi'', [1575, 1604, 1587, 1593, 1608, 1583, 1610, 1607],
     [1585, 1610, 1575, 1590], [1580, 1583, 1607], [1583, 1605, 1575, 1605], [1582, 1576, 1585],
     [1605, 1603, 1607], [1605, 1583, 1610, 1606, 1607], [1605, 1589, 1585], [1602, 1575, 1607, 1585, 1607],
     [1583, 1576, 1610], ascii ''best'', ascii ''top'', ascii ''leading'', ascii ''trusted'', ascii ''your'',
     ascii ''for'', ascii ''with'', ascii ''near'', ascii ''you'', ascii ''all'', ascii ''needs'',
     ascii ''excellence'', ascii ''premium'', ascii ''quality'', [1575, 1601, 1590, 1604],
     [1575, 1588, 1607, 1585], [1583, 1604, 1610, 1604], [1583, 1604, 1610, 1604, 1603],
     [1588, 1575, 1605, 1604], [1575, 1604, 1588, 1575, 1605, 1604],
     [1604, 1575, 1582, 1578, 1610, 1575, 1585], [1575, 1582, 1578, 1610, 1575, 1585],
     [1593, 1610, 1575, 1583, 1607], [1593, 1610, 1575, 1583, 1575, 1578], [1605, 1585, 1603, 1586],
     [1605, 1585, 1575, 1603, 1586], [1605, 1580, 1605, 1593], [1588, 1585, 1603, 1607],
     [1605, 1572, 1587, 1587, 1607], [1605, 1587, 1578, 1588, 1601, 1610], [1575, 1587, 1606, 1575, 1606],
     [1591, 1576], [1591, 1576, 1610], [1601, 1610], [1608]]"

definition TITLE_FORMS :: "(utext \<times> utext) list" where
  "TITLE_FORMS =
    [([1583], [1583, 1603, 1578, 1608, 1585]),
     (ascii ''dr'', [1583, 1603, 1578, 1608, 1585]),
     (ascii ''doctor'', [1583, 1603, 1578, 1608, 1585]),
     ([1583, 1603, 1578, 1608, 1585, 1607], [1583, 1603, 1578, 1608, 1585]),
     ([1575, 1604, 1583, 1603, 1578, 1608, 1585], [1583, 1603, 1578, 1608, 1585]),
     ([1575, 1604, 1583, 1603, 1578, 1608, 1585, 1607], [1583, 1603, 1578, 1608, 1585]),
     (ascii ''prof'', [1576, 1585, 1608, 1601, 1610, 1587, 1608, 1585]),
     (ascii ''professor'', [1576, 1585, 1608, 1601, 1610, 1587, 1608, 1585]),
     ([1571], []),
     ([1575], [])]"

definition AR_FOLD :: "nat \<Rightarrow> nat" where
  "AR_FOLD c = (case map_of [(1571, 1575), (1573, 1575), (1570, 1575), (1649, 1575), (1609, 1610), (1574, 1610), (1577, 1607), (1572, 1608), (1711, 1603), (1705, 1603), (1740, 1610)] c of None \<Rightarrow> c | Some d \<Rightarrow> d)"

definition DIGITS :: "nat \<Rightarrow> nat" where
  "DIGITS c = DIGIT_MAP c"

text \<open>Bracketed parts become a blank; a bracket that is never closed stays.\<close>

function drop_parens :: "utext \<Rightarrow> utext" where
  "drop_parens [] = []"
| "drop_parens (c # s) =
     (if c \<in> {40, 91} \<and> dropWhile (\<lambda>x. x \<notin> {41, 93}) s \<noteq> []
      then 32 # drop_parens (tl (dropWhile (\<lambda>x. x \<notin> {41, 93}) s))
      else c # drop_parens s)"
  by pat_completeness auto
termination
proof (relation "measure length", simp)
  fix c :: nat and s :: utext
  show "(tl (dropWhile (\<lambda>x. x \<notin> {41, 93}) s), c # s) \<in> measure length"
    using length_dropWhile_le [of "\<lambda>x. x \<notin> {41, 93}" s] by (simp add: le_imp_less_Suc diff_le_mono2 le_diff_conv)
qed simp

definition is_mark :: "nat \<Rightarrow> bool" where
  "is_mark c \<longleftrightarrow> (1611 \<le> c \<and> c \<le> 1631) \<or> c = 1648 \<or> c = 1600"

definition is_separator :: "unicode \<Rightarrow> nat \<Rightarrow> bool" where
  "is_separator u c \<longleftrightarrow> (\<not> u_word u c \<and> \<not> (1536 \<le> c \<and> c \<le> 1791))
     \<or> c \<in> {1548, 1563, 1567, 1748} \<or> (1642 \<le> c \<and> c \<le> 1645)"

text \<open>The Arabic article, possibly fused with a preposition, before at least three word characters.\<close>

definition strip_article :: "unicode \<Rightarrow> utext \<Rightarrow> utext" where
  "strip_article u t =
     (let fits = (\<lambda>p. starts_with t p \<and> length (takeWhile (u_word u) (drop (length p) t)) \<ge> 3) in
      case find fits [[1604, 1575, 1604], [1608, 1575, 1604], [1576, 1575, 1604], [1603, 1575, 1604], [1575, 1604], [1604, 1604]] of
        None \<Rightarrow> t | Some p \<Rightarrow> drop (length p) t)"

definition title_form :: "utext \<Rightarrow> utext" where
  "title_form t = (case map_of TITLE_FORMS t of None \<Rightarrow> t | Some f \<Rightarrow> f)"

definition name_tokens :: "unicode \<Rightarrow> utext \<Rightarrow> utext list" where
  "name_tokens u name =
     (let s = map AR_FOLD (filter (\<lambda>c. \<not> is_mark c) (drop_parens (map DIGITS (lower u name))));
          s = map (\<lambda>c. if c = 64 then 32 else c) s;
          ts = map title_form (words (is_separator u) s);
          ts = map (strip_article u) (filter (\<lambda>t. t \<notin> {ascii ''al'', ascii ''el''}) ts)
      in map (\<lambda>t. if t = [1604, 1591, 1576] then [1591, 1576] else t) ts)"

definition distinctive :: "unicode \<Rightarrow> utext \<Rightarrow> utext list" where
  "distinctive u name = filter (\<lambda>t. t \<noteq> [] \<and> t \<notin> set GENERIC_TOKENS) (name_tokens u name)"

definition name_key :: "unicode \<Rightarrow> utext option \<Rightarrow> utext" where
  "name_key u name =
     (if \<not> truthy name then []
      else let d = distinctive u (the name) in
        if \<not> list_ex (list_ex (u_alpha u)) d then []
        else join_with [32] (sort (remdups d)))"

definition name_match_is_safe :: "unicode \<Rightarrow> utext option \<Rightarrow> utext option \<Rightarrow> utext option \<Rightarrow> utext option \<Rightarrow> bool" where
  "name_match_is_safe u cand_domain exist_domain cand_city exist_city =
     (let cd = lower u (text_or cand_domain); ed = lower u (text_or exist_domain);
          cc = lower u (strip u (text_or cand_city)); ec = lower u (strip u (text_or exist_city)) in
      if cd \<noteq> [] \<and> ed \<noteq> [] \<and> cd \<noteq> ed then False
      else if cc \<noteq> [] \<and> ec \<noteq> [] \<and> cc \<noteq> ec then False
      else True)"

subsection \<open>What a discovery result is\<close>

datatype identity = Social | Editorial | Existing | New

definition resolve_identity :: "unicode \<Rightarrow> utext \<Rightarrow> utext \<Rightarrow> bool \<Rightarrow> bool \<Rightarrow> identity" where
  "resolve_identity u name url known_by_domain known_by_name =
     (let domain = domain_from_url u url in
      if is_social domain then Social
      else if is_directory domain then Editorial
      else if looks_editorial u name url then Editorial
      else if known_by_domain \<or> known_by_name then Existing
      else New)"

text \<open>The separators of page titles: a dash or bar between blanks, or a bar, colon or comma before blanks.\<close>

definition title_sep :: "unicode \<Rightarrow> utext \<Rightarrow> nat" where
  "title_sep u s =
     (let a = length (takeWhile (u_space u) s); rest = dropWhile (u_space u) s;
          b = length (takeWhile (u_space u) (tl rest)) in
      if rest \<noteq> [] \<and> b > 0 \<and> ((a > 0 \<and> hd rest \<in> {45, 124, 8211, 8212, 187}) \<or> hd rest \<in> {124, 58, 1548})
      then a + 1 + b else 0)"

function split_title :: "unicode \<Rightarrow> utext \<Rightarrow> utext list" where
  "split_title u s =
     (if s = [] then [[]]
      else if title_sep u s > 0 then [] # split_title u (drop (title_sep u s) s)
      else (case split_title u (tl s) of [] \<Rightarrow> [[hd s]] | w # ws \<Rightarrow> (hd s # w) # ws))"
  by pat_completeness auto
termination by (relation "measure (\<lambda>(u, s). length s)") auto

declare split_title.simps [simp del]

definition alnum :: "unicode \<Rightarrow> utext \<Rightarrow> utext" where
  "alnum u t = filter (\<lambda>c. (97 \<le> c \<and> c \<le> 122) \<or> (48 \<le> c \<and> c \<le> 57) \<or> (1536 \<le> c \<and> c \<le> 1791)) (lower u t)"

definition domain_label :: "unicode \<Rightarrow> utext \<Rightarrow> utext" where
  "domain_label u domain = alnum u (takeWhile (\<lambda>c. c \<noteq> 46) (remove_prefix (ascii ''www.'') (lower u domain)))"

definition business_name_from_title :: "unicode \<Rightarrow> utext \<Rightarrow> utext option \<Rightarrow> utext" where
  "business_name_from_title u title0 domain =
     (let title = join_with [32] (words (u_space u) title0) in
      if title = [] \<or> \<not> truthy domain then title
      else let parts = filter (\<lambda>p. p \<noteq> []) (map (strip u) (split_title u title)) in
        if length parts < 2 then title
        else let label = domain_label u (the domain) in
          if length label < 4 then title
          else if label \<in> set GENERIC_TOKENS \<or> name_key u (Some label) = [] then title
          else (case filter (\<lambda>p. let flat = alnum u p in
                       length flat \<ge> 4 \<and> (contains label flat \<or> contains flat label) \<and> length flat \<le> length label + 12) parts of
                  [hit] \<Rightarrow> hit | _ \<Rightarrow> title))"

subsection \<open>Planning (domain/acquisition/icp.py)\<close>

record city =
  ci_name :: utext
  ci_ar :: "utext option"

record icp =
  ic_cities :: "city list"
  ic_keywords_en :: "utext list"
  ic_keywords_ar :: "utext list"
  ic_max_queries :: "nat option"
  ic_per_query :: "nat option"
  ic_country :: "utext option"
  ic_industry :: "utext option"

record query =
  qy_text :: utext
  qy_city :: utext
  qy_lang :: string

definition city_queries :: "icp \<Rightarrow> city \<Rightarrow> query list" where
  "city_queries icp c =
     map (\<lambda>kw. \<lparr>qy_text = kw @ ascii '' in '' @ ci_name c, qy_city = ci_name c, qy_lang = ''en''\<rparr>) (ic_keywords_en icp)
     @ map (\<lambda>kw. \<lparr>qy_text = kw @ [32] @ or_default (ci_ar c) (ci_name c), qy_city = ci_name c, qy_lang = ''ar''\<rparr>)
         (ic_keywords_ar icp)"

record query_plan =
  pl_queries :: "query list"
  pl_per_query :: nat

definition build_query_plan :: "icp \<Rightarrow> query_plan" where
  "build_query_plan icp =
     (let queries = concat (map (city_queries icp) (ic_cities icp)) in
      \<lparr>pl_queries = (case ic_max_queries icp of None \<Rightarrow> queries | Some 0 \<Rightarrow> queries | Some n \<Rightarrow> take n queries),
       pl_per_query = or_default (ic_per_query icp) 6\<rparr>)"

definition is_empty_plan :: "query_plan \<Rightarrow> bool" where
  "is_empty_plan plan \<longleftrightarrow> pl_queries plan = []"

subsection \<open>Purchase intent (domain/acquisition/intent.py)\<close>

definition INTENT_MARKERS :: "(string \<times> utext list) list" where
  "INTENT_MARKERS =
    [(''hiring'', [ascii ''we are hiring'', [119, 101, 39, 114, 101, 32, 104, 105, 114, 105, 110, 103],
        ascii ''now hiring'', ascii ''join our team'', ascii ''careers'',
        [1608, 1592, 1575, 1574, 1601], [1606, 1608, 1592, 1601],
        [1575, 1606, 1590, 1605, 32, 1604, 1601, 1585, 1610, 1602]]),
     (''expansion'', [ascii ''new branch'', ascii ''opening soon'', ascii ''expansion'', ascii ''franchise'',
        ascii ''new clinic'', ascii ''second location'',
        [1601, 1585, 1593, 32, 1580, 1583, 1610, 1583], [1575, 1601, 1578, 1578, 1575, 1581],
        [1578, 1608, 1587, 1593],
        [1601, 1585, 1593, 1606, 1575, 32, 1575, 1604, 1580, 1583, 1610, 1583]]),
     (''funding'', [ascii ''raised'', ascii ''funding'', ascii ''seed round'', ascii ''series a'',
        ascii ''investment'', [1578, 1605, 1608, 1610, 1604],
        [1580, 1608, 1604, 1577, 32, 1575, 1587, 1578, 1579, 1605, 1575, 1585, 1610, 1577]]),
     (''marketing_active'', [ascii ''book now'', ascii ''book appointment'',
        [1575, 1581, 1580, 1586, 32, 1605, 1608, 1593, 1583], ascii ''special offer'',
        ascii ''discount'', [1593, 1585, 1590, 32, 1582, 1575, 1589], [1582, 1589, 1605]])]"

text \<open>\<open>re.search\<close> for an alternation of words: the leftmost place, and there the first word of the list.\<close>

fun search_words :: "utext list \<Rightarrow> utext \<Rightarrow> utext option" where
  "search_words ws [] = find (\<lambda>w. w = []) ws"
| "search_words ws (c # s) = (case find (\<lambda>w. starts_with (c # s) w) ws of Some w \<Rightarrow> Some w | None \<Rightarrow> search_words ws s)"

definition detect_intent :: "unicode \<Rightarrow> utext \<Rightarrow> (string \<times> utext) list" where
  "detect_intent u text =
     (let blob = normalize_name u text in
      if blob = [] then []
      else List.map_filter (\<lambda>(kind, ws). map_option (\<lambda>w. (kind, w)) (search_words ws blob)) INTENT_MARKERS)"

subsection \<open>Properties\<close>

text \<open>What the key relies on of the Unicode tables: a blank is not a word character.\<close>

definition blank_separates :: "unicode \<Rightarrow> bool" where
  "blank_separates u \<longleftrightarrow> \<not> u_word u 32"

lemma words_avoid: "w \<in> set (words sep s) \<Longrightarrow> \<forall>c \<in> set w. \<not> sep c"
proof (induction sep s rule: words.induct)
  case (1 sep s)
  show ?case
  proof (cases "dropWhile sep s")
    case Nil
    then have "words sep s = []" by (subst words.simps) (simp only: Nil list.case)
    with 1(2) show ?thesis by simp
  next
    case (Cons c t)
    then have "\<not> sep c" using hd_dropWhile [of sep s] by simp
    moreover from Cons have "words sep s = (c # takeWhile (\<lambda>x. \<not> sep x) t) # words sep (dropWhile (\<lambda>x. \<not> sep x) t)"
      by (subst words.simps) simp
    with 1(2) have "w = c # takeWhile (\<lambda>x. \<not> sep x) t \<or> w \<in> set (words sep (dropWhile (\<lambda>x. \<not> sep x) t))" by simp
    moreover have "\<forall>x \<in> set (takeWhile (\<lambda>x. \<not> sep x) t). \<not> sep x" by (auto dest: set_takeWhileD)
    moreover note ih = 1(1) [OF Cons]
    ultimately show ?thesis by (metis set_ConsD)
  qed
qed

lemma title_form_avoids: "32 \<notin> set t \<Longrightarrow> 32 \<notin> set (title_form t)"
proof -
  have "\<forall>(k, f) \<in> set TITLE_FORMS. 32 \<notin> set f" by code_simp
  then show "32 \<notin> set t \<Longrightarrow> 32 \<notin> set (title_form t)"
    by (auto simp: title_form_def split: option.splits dest: map_of_SomeD)
qed

lemma tokens_avoid_blank:
  assumes "blank_separates u" and "t \<in> set (name_tokens u name)"
  shows "32 \<notin> set t"
proof -
  have sep: "is_separator u 32" using assms(1) by (simp add: is_separator_def blank_separates_def)
  have article: "32 \<notin> set (strip_article u x)" if "32 \<notin> set x" for x
    using that by (auto simp: strip_article_def Let_def split: option.splits dest: in_set_dropD)
  have words: "32 \<notin> set w" if "w \<in> set (words (is_separator u) s)" for w s
    using words_avoid [OF that] sep by auto
  show ?thesis
    using assms(2) by (auto simp: name_tokens_def Let_def dest!: words) (metis article title_form_avoids)
qed

text \<open>The key of a company name is canonical: two names get the same non-empty key exactly when they have the same
  set of distinctive words, whatever their order, repetition, case, articles, titles, Arabic spelling variants or
  generic words; a key never contains a generic word.\<close>

theorem name_key_canonical:
  assumes "blank_separates u" and "name_key u (Some a) \<noteq> []" and "name_key u (Some b) \<noteq> []"
  shows "(name_key u (Some a) = name_key u (Some b) \<longleftrightarrow> set (distinctive u a) = set (distinctive u b))
    \<and> set (split_on 32 (name_key u (Some a))) = set (distinctive u a)
    \<and> set (distinctive u a) \<inter> set GENERIC_TOKENS = {}"
proof -
  have key: "name_key u (Some x) = join_with [32] (sort (remdups (distinctive u x)))" and ne: "distinctive u x \<noteq> []"
    if "name_key u (Some x) \<noteq> []" for x
    using that by (auto simp: name_key_def Let_def split: if_splits)
  have split: "split_on 32 (name_key u (Some x)) = sort (remdups (distinctive u x))" if "name_key u (Some x) \<noteq> []" for x
    unfolding key [OF that]
  proof (rule split_on_join_with)
    show "sort (remdups (distinctive u x)) \<noteq> []" using ne [OF that] by (metis remdups_eq_nil_iff set_empty set_sort)
    show "\<forall>w \<in> set (sort (remdups (distinctive u x))). 32 \<notin> set w"
      using tokens_avoid_blank [OF assms(1)] by (auto simp: distinctive_def)
  qed
  have "name_key u (Some a) = name_key u (Some b) \<longleftrightarrow> sort (remdups (distinctive u a)) = sort (remdups (distinctive u b))"
    using split [OF assms(2)] split [OF assms(3)] key [OF assms(2)] key [OF assms(3)] by metis
  also have "\<dots> \<longleftrightarrow> set (distinctive u a) = set (distinctive u b)"
    by (metis set_remdups set_sort sorted_list_of_set_sort_remdups)
  finally show ?thesis using split [OF assms(2)] by (auto simp: distinctive_def)
qed

lemma name_key_canonical_witness:
  "name_key ascii_unicode (Some (ascii ''Zed (x)'')) = name_key ascii_unicode (Some (ascii ''zed clinic''))"
proof -
  have folded: "map (\<lambda>c. if c = 64 then 32 else c) (map AR_FOLD (filter (\<lambda>c. \<not> is_mark c)
        (drop_parens (map DIGITS (lower ascii_unicode (ascii ''Zed (x)'')))))) = [122, 101, 100, 32, 32]"
    "map (\<lambda>c. if c = 64 then 32 else c) (map AR_FOLD (filter (\<lambda>c. \<not> is_mark c)
        (drop_parens (map DIGITS (lower ascii_unicode (ascii ''zed clinic''))))))
      = [122, 101, 100, 32, 99, 108, 105, 110, 105, 99]"
    by (simp_all add: ascii_def lower_def ascii_unicode_def DIGITS_def DIGIT_MAP_def is_mark_def AR_FOLD_def)
  have split: "words (is_separator ascii_unicode) [122, 101, 100, 32, 32] = [[122, 101, 100]]"
    "words (is_separator ascii_unicode) [122, 101, 100, 32, 99, 108, 105, 110, 105, 99]
      = [[122, 101, 100], [99, 108, 105, 110, 105, 99]]"
    by (simp_all add: words.simps is_separator_def ascii_unicode_def)
  have forms: "title_form [122, 101, 100] = [122, 101, 100]"
    "title_form [99, 108, 105, 110, 105, 99] = [99, 108, 105, 110, 105, 99]"
    by (simp_all add: title_form_def TITLE_FORMS_def ascii_def)
  have bare: "strip_article ascii_unicode [122, 101, 100] = [122, 101, 100]"
    "strip_article ascii_unicode [99, 108, 105, 110, 105, 99] = [99, 108, 105, 110, 105, 99]"
    by (simp_all add: strip_article_def)
  have "name_tokens ascii_unicode (ascii ''Zed (x)'') = [[122, 101, 100]]"
    "name_tokens ascii_unicode (ascii ''zed clinic'') = [[122, 101, 100], [99, 108, 105, 110, 105, 99]]"
    unfolding name_tokens_def Let_def folded split by (simp_all add: forms bare ascii_def)
  moreover have "[122, 101, 100] \<notin> set GENERIC_TOKENS" "[99, 108, 105, 110, 105, 99] \<in> set GENERIC_TOKENS"
    by (simp_all add: GENERIC_TOKENS_def ascii_def)
  ultimately have d: "distinctive ascii_unicode (ascii ''Zed (x)'') = [[122, 101, 100]]"
    "distinctive ascii_unicode (ascii ''zed clinic'') = [[122, 101, 100]]"
    by (simp_all add: distinctive_def)
  have "name_key ascii_unicode (Some (ascii ''Zed (x)'')) \<noteq> []" "name_key ascii_unicode (Some (ascii ''zed clinic'')) \<noteq> []"
    by (simp_all add: name_key_def d Let_def) (simp_all add: ascii_def ascii_unicode_def)
  moreover have "blank_separates ascii_unicode"
    by (simp add: blank_separates_def ascii_unicode_def)
  ultimately show ?thesis
    using name_key_canonical [of ascii_unicode "ascii ''Zed (x)''" "ascii ''zed clinic''"] by (simp only: d) simp
qed

text \<open>The plan of the V6 planner keeps its bound by cutting the list of queries at the end: when the first city
  alone fills the bound, no other city is ever searched, however many the ICP names.\<close>

theorem plan_starves_later_cities:
  assumes "ic_cities icp = c # cs" and "ic_max_queries icp = Some n" and "0 < n" and "n \<le> length (city_queries icp c)"
  shows "length (pl_queries (build_query_plan icp)) = n
    \<and> pl_queries (build_query_plan icp) = take n (city_queries icp c)
    \<and> list_all (\<lambda>q. qy_city q = ci_name c) (pl_queries (build_query_plan icp))
    \<and> \<not> is_empty_plan (build_query_plan icp)"
proof -
  obtain m where m: "n = Suc m" using assms(3) by (cases n) auto
  have q: "pl_queries (build_query_plan icp) = take n (city_queries icp c)"
    using assms(1,2,4) by (simp add: build_query_plan_def Let_def m)
  have "\<forall>q \<in> set (city_queries icp c). qy_city q = ci_name c" by (auto simp: city_queries_def)
  with q assms(3,4) show ?thesis by (auto simp: list_all_iff is_empty_plan_def dest: in_set_takeD)
qed

definition two_cities :: icp where
  "two_cities = \<lparr>ic_cities = [\<lparr>ci_name = ascii ''Riyadh'', ci_ar = None\<rparr>, \<lparr>ci_name = ascii ''Jeddah'', ci_ar = None\<rparr>],
     ic_keywords_en = [ascii ''dentist'', ascii ''dental clinic''], ic_keywords_ar = [], ic_max_queries = Some 2,
     ic_per_query = None, ic_country = Some (ascii ''SA''), ic_industry = None\<rparr>"

lemma plan_starves_later_cities_witness:
  "list_all (\<lambda>q. qy_city q = ascii ''Riyadh'') (pl_queries (build_query_plan two_cities))"
proof -
  have "ic_cities two_cities = \<lparr>ci_name = ascii ''Riyadh'', ci_ar = None\<rparr> # [\<lparr>ci_name = ascii ''Jeddah'', ci_ar = None\<rparr>]"
    "ic_max_queries two_cities = Some 2" "(0::nat) < 2"
    "2 \<le> length (city_queries two_cities \<lparr>ci_name = ascii ''Riyadh'', ci_ar = None\<rparr>)" by code_simp+
  from plan_starves_later_cities [OF this, THEN conjunct2, THEN conjunct2, THEN conjunct1] show ?thesis
    by (simp only: city.select_convs)
qed

end
