(* ===== verification/Contacts.thy ===== *)
theory Contacts
  imports Acquisition
begin

section \<open>Contacts in free text (domain/acquisition/company.py: extract_contacts)\<close>

text \<open>
  A pattern is what a backtracking matcher makes of it: the rests of the text after each way to match, in the order
  the engine tries them, so that the first is the match.  \<open>findall\<close> takes matches from left to right without
  overlap.
\<close>

subsection \<open>Backtracking patterns\<close>

type_synonym pattern = "utext \<Rightarrow> utext list"

definition one_of :: "(nat \<Rightarrow> bool) \<Rightarrow> pattern" where
  "one_of p s = (case s of [] \<Rightarrow> [] | c # t \<Rightarrow> if p c then [t] else [])"

definition lit :: "utext \<Rightarrow> pattern" where
  "lit w s = (if starts_with s w then [drop (length w) s] else [])"

definition then_p :: "pattern \<Rightarrow> pattern \<Rightarrow> pattern" where
  "then_p a b s = concat (map b (a s))"

definition or_p :: "pattern \<Rightarrow> pattern \<Rightarrow> pattern" where
  "or_p a b s = a s @ b s"

definition opt_p :: "pattern \<Rightarrow> pattern" where
  "opt_p a s = a s @ [s]"

text \<open>\<open>a{lo,hi}\<close>, greedy.\<close>

fun repeat_p :: "nat \<Rightarrow> nat \<Rightarrow> pattern \<Rightarrow> pattern" where
  "repeat_p lo 0 a s = (if lo = 0 then [s] else [])"
| "repeat_p lo (Suc hi) a s = concat (map (repeat_p (lo - 1) hi a) (a s)) @ (if lo = 0 then [s] else [])"

text \<open>\<open>[p]{lo,}\<close>, greedy: the longest run of the class first.\<close>

definition many_p :: "nat \<Rightarrow> (nat \<Rightarrow> bool) \<Rightarrow> pattern" where
  "many_p lo p s = map (\<lambda>n. drop n s) (rev [lo..<Suc (length (takeWhile p s))])"

function find_all :: "pattern \<Rightarrow> utext \<Rightarrow> utext list" where
  "find_all p s =
     (if s = [] then []
      else case p s of
          r # _ \<Rightarrow> if length r < length s then take (length s - length r) s # find_all p r else find_all p (tl s)
        | [] \<Rightarrow> find_all p (tl s))"
  by pat_completeness auto
termination by (relation "measure (\<lambda>(p, s). length s)") auto

declare find_all.simps [simp del]

subsection \<open>Emails and phone numbers\<close>

definition is_letter :: "nat \<Rightarrow> bool" where
  "is_letter c \<longleftrightarrow> (65 \<le> c \<and> c \<le> 90) \<or> (97 \<le> c \<and> c \<le> 122)"

definition is_dec :: "nat \<Rightarrow> bool" where
  "is_dec c \<longleftrightarrow> 48 \<le> c \<and> c \<le> 57"

definition EMAIL_RE :: pattern where
  "EMAIL_RE = then_p (many_p 1 (\<lambda>c. is_letter c \<or> is_dec c \<or> c \<in> {46, 95, 37, 43, 45}))
     (then_p (one_of (\<lambda>c. c = 64))
     (then_p (many_p 1 (\<lambda>c. is_letter c \<or> is_dec c \<or> c \<in> {46, 45}))
     (then_p (one_of (\<lambda>c. c = 46)) (many_p 2 is_letter))))"

definition gap :: "unicode \<Rightarrow> pattern" where
  "gap u = opt_p (one_of (\<lambda>c. u_space u c \<or> c = 45))"

definition digits_p :: "unicode \<Rightarrow> nat \<Rightarrow> nat \<Rightarrow> pattern" where
  "digits_p u lo hi = repeat_p lo hi (one_of (u_digit u))"

definition PHONE_RE :: "unicode \<Rightarrow> pattern" where
  "PHONE_RE u = or_p
     (then_p (or_p (then_p (or_p (lit [43]) (lit [48, 48])) (lit [57, 54, 54])) (lit [48]))
       (then_p (gap u) (then_p (digits_p u 2 3) (repeat_p 2 2 (then_p (gap u) (digits_p u 3 4))))))
     (then_p (lit [43]) (then_p (digits_p u 1 3) (then_p (gap u) (then_p (digits_p u 2 4)
       (repeat_p 1 2 (then_p (gap u) (digits_p u 3 4)))))))"

definition WILD_EMAILS :: "utext list" where
  "WILD_EMAILS = map ascii [''example.com'', ''domain.com'', ''email.com'', ''yourdomain'', ''sentry.io'',
     ''wixpress'', ''@2x'', ''.png'', ''.jpg'', ''.webp'', ''.svg'']"

text \<open>Appending what is not there yet.\<close>

fun add_new :: "'a list \<Rightarrow> 'a list \<Rightarrow> 'a list" where
  "add_new acc [] = acc"
| "add_new acc (x # xs) = add_new (if x \<in> set acc then acc else acc @ [x]) xs"

definition strip_dots :: "utext \<Rightarrow> utext" where
  "strip_dots s = rev (dropWhile (\<lambda>c. c = 46) (rev (dropWhile (\<lambda>c. c = 46) s)))"

definition emails_in :: "unicode \<Rightarrow> utext \<Rightarrow> utext list" where
  "emails_in u text =
     add_new [] (filter (\<lambda>c. \<not> list_ex (\<lambda>bad. contains bad c) WILD_EMAILS)
       (map (\<lambda>raw. strip_dots (lower u raw)) (find_all EMAIL_RE text)))"

definition phones_in :: "unicode \<Rightarrow> utext \<Rightarrow> utext list" where
  "phones_in u text =
     add_new [] (filter (\<lambda>d. length (filter is_dec d) \<ge> 9)
       (map (filter (\<lambda>c. c = 43 \<or> is_dec c)) (find_all (PHONE_RE u) text)))"

definition extract_contacts :: "unicode \<Rightarrow> utext \<Rightarrow> utext list \<times> utext list" where
  "extract_contacts u text = (take 3 (emails_in u text), take 2 (phones_in u text))"

subsection \<open>What a pattern can match\<close>

definition matches :: "pattern \<Rightarrow> (utext \<Rightarrow> bool) \<Rightarrow> bool" where
  "matches p L \<longleftrightarrow> (\<forall>s r. r \<in> set (p s) \<longrightarrow> (\<exists>w. s = w @ r \<and> L w))"

named_theorems pattern_intros "languages of patterns"

lemma matches_one_of [pattern_intros]: "matches (one_of p) (\<lambda>w. \<exists>c. w = [c] \<and> p c)"
  by (auto simp: matches_def one_of_def split: list.splits if_splits)

lemma matches_then [pattern_intros]:
  assumes "matches a A" and "matches b B"
  shows "matches (then_p a b) (\<lambda>w. \<exists>x y. w = x @ y \<and> A x \<and> B y)"
  unfolding matches_def
proof (intro allI impI)
  fix s r
  assume "r \<in> set (then_p a b s)"
  then obtain q where q: "q \<in> set (a s)" "r \<in> set (b q)" by (auto simp: then_p_def)
  obtain x where "s = x @ q" "A x" using assms(1) q(1) by (auto simp: matches_def)
  moreover obtain y where "q = y @ r" "B y" using assms(2) q(2) by (auto simp: matches_def)
  ultimately show "\<exists>w. s = w @ r \<and> (\<exists>x y. w = x @ y \<and> A x \<and> B y)" by auto
qed

lemma matches_many [pattern_intros]: "matches (many_p lo p) (\<lambda>w. lo \<le> length w \<and> list_all p w)"
  unfolding matches_def
proof (intro allI impI)
  fix s r
  assume "r \<in> set (many_p lo p s)"
  then obtain n where n: "lo \<le> n" "n \<le> length (takeWhile p s)" "r = drop n s"
    by (auto simp: many_p_def less_Suc_eq_le)
  have len: "n \<le> length s" using n(2) length_takeWhile_le [of p s] by linarith
  have "take n s = take n (takeWhile p s)"
    using n(2) by (metis append_take_drop_id takeWhile_dropWhile_id take_append append.right_neutral diff_is_0_eq take0)
  then have "list_all p (take n s)"
    using set_takeWhileD [of _ p s] by (auto simp: list_all_iff dest: in_set_takeD)
  then show "\<exists>w. s = w @ r \<and> lo \<le> length w \<and> list_all p w"
    using n len by (intro exI [of _ "take n s"]) simp
qed

lemma matches_mono: "matches p L \<Longrightarrow> (\<And>w. L w \<Longrightarrow> M w) \<Longrightarrow> matches p M"
  unfolding matches_def by blast

lemma find_all_cases:
  assumes "w \<in> set (find_all p s)"
  shows "s \<noteq> [] \<and> (w \<in> set (find_all p (tl s))
    \<or> (\<exists>r. r \<in> set (p s) \<and> length r < length s \<and> (w = take (length s - length r) s \<or> w \<in> set (find_all p r))))"
proof -
  have eq: "find_all p s = (if s = [] then [] else case p s of
      r # _ \<Rightarrow> if length r < length s then take (length s - length r) s # find_all p r else find_all p (tl s)
    | [] \<Rightarrow> find_all p (tl s))"
    by (rule find_all.simps)
  show ?thesis
  proof (cases "p s")
    case Nil
    then show ?thesis using assms unfolding eq by (simp split: if_splits)
  next
    case (Cons r rs)
    then show ?thesis using assms unfolding eq by (auto split: if_splits)
  qed
qed

lemma find_all_matches: "matches p L \<Longrightarrow> w \<in> set (find_all p s) \<Longrightarrow> L w"
proof (induction "length s" arbitrary: s rule: less_induct)
  case less
  from find_all_cases [OF less.prems(2)]
  consider "s \<noteq> []" "w \<in> set (find_all p (tl s))"
    | r where "r \<in> set (p s)" "length r < length s" "w = take (length s - length r) s"
    | r where "length r < length s" "w \<in> set (find_all p r)" by blast
  then show ?case
  proof cases
    case 1
    then show ?thesis using less.hyps [of "tl s"] less.prems(1) by simp
  next
    case 2
    then obtain x where "s = x @ r" "L x" using less.prems(1) by (auto simp: matches_def)
    with 2(3) show ?thesis by simp
  next
    case 3
    then show ?thesis using less.hyps less.prems(1) by blast
  qed
qed

lemma set_add_new: "set (add_new acc xs) = set acc \<union> set xs"
  by (induction acc xs rule: add_new.induct) auto

lemma distinct_add_new: "distinct acc \<Longrightarrow> distinct (add_new acc xs)"
  by (induction acc xs rule: add_new.induct) auto

text \<open>An address: a mailbox name, possibly empty, and a host with a dot and at least two letters after it.\<close>

definition address :: "utext \<Rightarrow> bool" where
  "address w \<longleftrightarrow> (\<exists>l h t. w = l @ [64] @ h @ [46] @ t \<and> 64 \<notin> set (l @ h @ t) \<and> 2 \<le> length t \<and> list_all is_letter t)"

definition lower_ok :: "unicode \<Rightarrow> bool" where
  "lower_ok u \<longleftrightarrow> (\<forall>c < 128. u_lower u c = [if 65 \<le> c \<and> c \<le> 90 then c + 32 else c])"

lemma lower_append [simp]: "lower u (a @ b) = lower u a @ lower u b"
  by (simp add: lower_def)

lemma lower_ascii:
  assumes "lower_ok u" and "\<forall>c \<in> set s. c < 128"
  shows "lower u s = map (\<lambda>c. if 65 \<le> c \<and> c \<le> 90 then c + 32 else c) s"
  using assms(2) by (induction s) (use assms(1) in \<open>auto simp: lower_def lower_ok_def\<close>)

lemma email_raw:
  assumes "w \<in> set (find_all EMAIL_RE text)"
  shows "address w \<and> (\<forall>c \<in> set w. c < 128)"
proof -
  have "matches EMAIL_RE (\<lambda>w. address w \<and> (\<forall>c \<in> set w. c < 128))"
    unfolding EMAIL_RE_def
  proof (rule matches_mono, (rule pattern_intros)+)
    fix w
    assume "\<exists>x y. w = x @ y \<and> (1 \<le> length x \<and> list_all (\<lambda>c. is_letter c \<or> is_dec c \<or> c \<in> {46, 95, 37, 43, 45}) x) \<and>
      (\<exists>x' y'. y = x' @ y' \<and> (\<exists>c. x' = [c] \<and> c = 64) \<and>
        (\<exists>h z. y' = h @ z \<and> (1 \<le> length h \<and> list_all (\<lambda>c. is_letter c \<or> is_dec c \<or> c \<in> {46, 45}) h) \<and>
          (\<exists>d t. z = d @ t \<and> (\<exists>c. d = [c] \<and> c = 46) \<and> 2 \<le> length t \<and> list_all is_letter t)))"
    then obtain l h t where w: "w = l @ [64] @ h @ [46] @ t" and t: "2 \<le> length t" "list_all is_letter t"
      and l: "list_all (\<lambda>c. is_letter c \<or> is_dec c \<or> c \<in> {46, 95, 37, 43, 45}) l"
      and h: "list_all (\<lambda>c. is_letter c \<or> is_dec c \<or> c \<in> {46, 45}) h" by auto
    have "\<forall>c \<in> set (l @ h @ t). c \<noteq> 64 \<and> c < 128"
      using l h t(2) by (auto simp: list_all_iff is_letter_def is_dec_def)
    with w t show "address w \<and> (\<forall>c \<in> set w. c < 128)" unfolding address_def by fastforce
  qed
  then show ?thesis using find_all_matches assms by blast
qed

lemma strip_dots_split:
  assumes "strip_dots s = e"
  obtains a b where "s = a @ e @ b" "set (a @ b) \<subseteq> {46}"
proof
  define r where "r = dropWhile (\<lambda>c. c = 46) s"
  have "e = rev (dropWhile (\<lambda>c. c = 46) (rev r))" using assms by (simp add: strip_dots_def r_def)
  then have "r = e @ rev (takeWhile (\<lambda>c. c = 46) (rev r))"
    by (metis rev_append rev_rev_ident takeWhile_dropWhile_id)
  then show "s = takeWhile (\<lambda>c. c = 46) s @ e @ rev (takeWhile (\<lambda>c. c = 46) (rev r))"
    by (metis r_def takeWhile_dropWhile_id)
  show "set (takeWhile (\<lambda>c. c = 46) s @ rev (takeWhile (\<lambda>c. c = 46) (rev r))) \<subseteq> {46}"
    by (auto dest: set_takeWhileD)
qed

lemma address_stripped:
  assumes "lower_ok u" and "w \<in> set (find_all EMAIL_RE text)"
  shows "address (strip_dots (lower u w))"
proof -
  let ?f = "\<lambda>c::nat. if 65 \<le> c \<and> c \<le> 90 then c + 32 else c"
  obtain l h t where w: "w = l @ [64] @ h @ [46] @ t" and no: "64 \<notin> set (l @ h @ t)"
    and t: "2 \<le> length t" "list_all is_letter t"
    using email_raw [OF assms(2)] by (auto simp: address_def)
  have low: "lower u w = map ?f l @ [64] @ map ?f h @ [46] @ map ?f t"
    using lower_ascii [OF assms(1)] email_raw [OF assms(2)] by (simp add: w)
  have lt: "list_all is_letter (map ?f t)" using t(2) by (auto simp: list_all_iff is_letter_def)
  obtain a b where ab: "lower u w = a @ strip_dots (lower u w) @ b" "set (a @ b) \<subseteq> {46}"
    by (rule strip_dots_split [OF refl])
  have b: "b = []"
  proof (rule ccontr)
    assume "b \<noteq> []"
    then have "last (lower u w) = last b" using ab(1) by (metis append_is_Nil_conv last_appendR)
    moreover have "last b = 46" using ab(2) \<open>b \<noteq> []\<close> by (metis Un_iff last_in_set set_append singletonD subsetD)
    moreover have ne: "map ?f t \<noteq> []" using t(1) by auto
    then have "last (lower u w) = last (map ?f t)" by (simp add: low)
    moreover have "is_letter (last (map ?f t))"
      using lt last_in_set [OF ne] by (simp add: list_all_iff)
    ultimately show False by (simp add: is_letter_def)
  qed
  have len: "length a \<le> length (map ?f l)"
  proof (rule ccontr)
    assume "\<not> ?thesis"
    then have "(a @ strip_dots (lower u w) @ b) ! length (map ?f l) \<in> set a" by (simp add: nth_append)
    then have "lower u w ! length (map ?f l) \<in> set a" by (simp only: ab(1) [symmetric])
    moreover have "lower u w ! length (map ?f l) = 64" by (simp only: low append_Cons nth_append_length)
    ultimately show False using ab(2) by auto
  qed
  have "strip_dots (lower u w) = drop (length a) (a @ strip_dots (lower u w) @ b)" by (simp add: b)
  also have "\<dots> = drop (length a) (lower u w)" by (simp only: ab(1) [symmetric])
  also have "\<dots> = drop (length a) (map ?f l) @ [64] @ map ?f h @ [46] @ map ?f t"
    using len by (simp add: low)
  finally have "strip_dots (lower u w) = drop (length a) (map ?f l) @ [64] @ map ?f h @ [46] @ map ?f t" .
  moreover have "64 \<notin> set (drop (length a) (map ?f l) @ map ?f h @ map ?f t)"
    using no by (auto dest!: in_set_dropD split: if_splits)
  moreover have "2 \<le> length (map ?f t)" using t(1) by simp
  ultimately show ?thesis using lt unfolding address_def by blast
qed

lemma phones_in_shape:
  assumes "d \<in> set (phones_in u text)"
  shows "9 \<le> length (filter is_dec d) \<and> list_all (\<lambda>c. c = 43 \<or> is_dec c) d"
  using assms by (auto simp: phones_in_def set_add_new list_all_iff)

lemma dots_stripped: "extract_contacts ascii_unicode (ascii ''call ...@b.co'') = ([ascii ''@b.co''], [])"
  by code_simp

text \<open>The contacts read out of free text are well formed whatever the text: at most three different addresses,
  each a mailbox and a host separated by the only at sign, the host with a dot and two or more letters at its end,
  and at most two different numbers of nine or more ASCII digits; but a mailbox of dots only is stripped to an
  address without a mailbox name.\<close>

theorem contacts_well_formed:
  assumes "lower_ok u"
  shows "list_all address (fst (extract_contacts u text))
    \<and> distinct (fst (extract_contacts u text)) \<and> length (fst (extract_contacts u text)) \<le> 3
    \<and> list_all (\<lambda>d. 9 \<le> length (filter is_dec d) \<and> list_all (\<lambda>c. c = 43 \<or> is_dec c) d) (snd (extract_contacts u text))
    \<and> distinct (snd (extract_contacts u text)) \<and> length (snd (extract_contacts u text)) \<le> 2
    \<and> fst (extract_contacts ascii_unicode (ascii ''call ...@b.co'')) = [ascii ''@b.co'']"
proof -
  have "list_all address (emails_in u text)"
    using address_stripped [OF assms] by (auto simp: list_all_iff emails_in_def set_add_new)
  moreover have "fst (extract_contacts ascii_unicode (ascii ''call ...@b.co'')) = [ascii ''@b.co'']"
    by (simp add: dots_stripped)
  moreover have "distinct (emails_in u text)" "distinct (phones_in u text)"
    by (simp_all add: emails_in_def phones_in_def distinct_add_new)
  ultimately show ?thesis
    using phones_in_shape [where u = u]
    by (auto simp: extract_contacts_def list_all_iff distinct_take dest: in_set_takeD)
qed

lemma lower_ok_ascii: "lower_ok ascii_unicode"
  by (simp add: lower_ok_def ascii_unicode_def)

lemma contacts_well_formed_witness:
  "list_all address (fst (extract_contacts ascii_unicode (ascii ''x@y.sa'')))"
  using contacts_well_formed [OF lower_ok_ascii] by blast

end
