(* ===== verification/ResearchFacts.thy ===== *)
theory ResearchFacts
  imports Research Contacts
begin

section \<open>From texts and facts to judgements (normalize.py, email.py, research/qualification.py)\<close>

text \<open>
  What the agent's tools compute: contacts and names out of search results, the outcome of an email check, and the
  qualification of a company from its stored facts.  The wording of prompts is the argument \<open>rn_render\<close>, Python's
  \<open>str()\<close> of a value that is not a string is \<open>rn_str\<close>, and whether \<open>parseaddr\<close> gives an address back is \<open>rn_addr_ok\<close>.
\<close>

subsection \<open>Search results (pipeline/normalize.py)\<close>

text \<open>The separators of page titles: a bar, dashes and the closing guillemet with any blanks, a hyphen only between blanks.\<close>

fun title_head :: "unicode \<Rightarrow> utext \<Rightarrow> utext" where
  "title_head u [] = []"
| "title_head u (c # s) =
     (if c \<in> {124, 8211, 8212, 187} then []
      else if u_space u c \<and> (case dropWhile (u_space u) s of d # e # _ \<Rightarrow> d = 45 \<and> u_space u e | _ \<Rightarrow> False) then []
      else c # title_head u s)"

definition clean_title :: "unicode \<Rightarrow> utext \<Rightarrow> utext" where
  "clean_title u t = strip u (title_head u t)"

text \<open>\<open>findall\<close> of a pattern that looks at the character before the match.\<close>

function find_after :: "(nat option \<Rightarrow> pattern) \<Rightarrow> nat option \<Rightarrow> utext \<Rightarrow> utext list" where
  "find_after p before s =
     (if s = [] then []
      else case p before s of
          r # _ \<Rightarrow> if length r < length s
                    then take (length s - length r) s # find_after p (Some (s ! (length s - length r - 1))) r
                    else find_after p (Some (hd s)) (tl s)
        | [] \<Rightarrow> find_after p (Some (hd s)) (tl s))"
  by pat_completeness auto
termination by (relation "measure (\<lambda>(p, before, s). length s)") auto

declare find_after.simps [simp del]

definition digit_run :: "unicode \<Rightarrow> nat \<Rightarrow> nat \<Rightarrow> pattern" where
  "digit_run u lo hi = repeat_p lo hi (one_of (u_digit u))"

definition lead_digit :: pattern where
  "lead_digit = one_of (\<lambda>c. 49 \<le> c \<and> c \<le> 57)"

definition boundary :: "unicode \<Rightarrow> nat option \<Rightarrow> nat option \<Rightarrow> bool" where
  "boundary u a b \<longleftrightarrow> (case a of None \<Rightarrow> False | Some c \<Rightarrow> u_word u c) \<noteq> (case b of None \<Rightarrow> False | Some c \<Rightarrow> u_word u c)"

definition first_of :: "utext \<Rightarrow> nat option" where
  "first_of s = (case s of [] \<Rightarrow> None | c # _ \<Rightarrow> Some c)"

definition local_number :: "unicode \<Rightarrow> nat option \<Rightarrow> pattern" where
  "local_number u before s =
     (if boundary u before (first_of s)
      then filter (\<lambda>r. boundary u (Some (s ! (length s - length r - 1))) (first_of r))
             (then_p (digit_run u 2 4) (then_p (gap u) (then_p (digit_run u 3 4) (then_p (gap u) (digit_run u 3 5)))) s)
      else [])"

definition PHONE_PATTERNS :: "unicode \<Rightarrow> (nat option \<Rightarrow> pattern) list" where
  "PHONE_PATTERNS u =
     [\<lambda>_. then_p (lit [43]) (then_p lead_digit (digit_run u 6 14)),
      \<lambda>_. then_p (lit [48, 48]) (then_p lead_digit (digit_run u 6 13)),
      \<lambda>_. then_p (lit (ascii ''9200'')) (digit_run u 5 5),
      \<lambda>_. then_p (lit [48]) (then_p (one_of (\<lambda>c. 53 \<le> c \<and> c \<le> 57)) (digit_run u 8 8)),
      local_number u]"

definition phones_of :: "unicode \<Rightarrow> utext \<Rightarrow> utext \<Rightarrow> utext list" where
  "phones_of u text country =
     take 3 (add_new [] (filter (\<lambda>n. let k = length (filter (u_digit u) n) in 7 \<le> k \<and> k \<le> 16)
       (map (\<lambda>m. normalize_phone u (Some m) country)
         (concat (map (\<lambda>p. find_after p None text) (PHONE_PATTERNS u))))))"

definition snippet_contacts :: "unicode \<Rightarrow> utext \<Rightarrow> utext \<Rightarrow> utext list \<times> utext option" where
  "snippet_contacts u text country =
     (phones_of u text country,
      case find_all EMAIL_RE text of [] \<Rightarrow> None | m # _ \<Rightarrow> Some (lower u m))"

subsection \<open>Email verification (providers/email.py)\<close>

definition DISPOSABLE_DOMAINS :: "string list" where
  "DISPOSABLE_DOMAINS = [''mailinator.com'', ''guerrillamail.com'', ''10minutemail.com'', ''temp-mail.org'',
     ''yopmail.com'', ''throwawaymail.com'', ''getnada.com'', ''trashmail.com'']"

definition ROLE_ACCOUNTS :: "string list" where
  "ROLE_ACCOUNTS = [''info'', ''sales'', ''contact'', ''admin'', ''administrator'', ''office'', ''hello'',
     ''support'', ''careers'', ''hr'', ''booking'', ''appointments'', ''marketing'',
     ''enquiries'', ''inquiries'', ''reception'', ''frontdesk'', ''email'']"

definition alpha :: "char \<Rightarrow> bool" where
  "alpha c \<longleftrightarrow> ascii_lower c \<noteq> ascii_upper c"

text \<open>The local part and the domain of \<open>rpartition('@')\<close>.\<close>

definition after_last :: "char \<Rightarrow> string \<Rightarrow> string" where
  "after_last c s = rev (takeWhile (\<lambda>x. x \<noteq> c) (rev s))"

definition before_last :: "char \<Rightarrow> string \<Rightarrow> string" where
  "before_last c s = rev (tl (dropWhile (\<lambda>x. x \<noteq> c) (rev s)))"

definition email_syntax :: "string \<Rightarrow> bool" where
  "email_syntax s \<longleftrightarrow> CHR ''@'' \<in> set s \<and>
     (let l = before_last CHR ''@'' s; d = after_last CHR ''@'' s in
      l \<noteq> [] \<and> list_all (\<lambda>c. alpha c \<or> is_digit c \<or> c \<in> set ''._%+-'') l
      \<and> list_all (\<lambda>c. alpha c \<or> is_digit c \<or> c \<in> set ''.-'') d
      \<and> CHR ''.'' \<in> set d \<and> before_last CHR ''.'' d \<noteq> []
      \<and> 2 \<le> length (after_last CHR ''.'' d) \<and> list_all alpha (after_last CHR ''.'' d))"

type_synonym dict = "(string \<times> json) list"

definition email_result :: "string \<Rightarrow> json \<Rightarrow> string \<Rightarrow> string \<Rightarrow> json \<Rightarrow> dict" where
  "email_result status conf reason how provider =
     [(''provider'', provider), (''status'', JStr status), (''confidence'', conf),
      (''details'', JObj [(''reason'', JStr reason)]), (''method'', JStr how), (''units'', JInt 0)]"

text \<open>Whatever goes wrong in the router leaves the address unknown.\<close>

definition via_provider :: "renv \<Rightarrow> string \<Rightarrow> dict rx" where
  "via_provider e email =
     catch (seq (ask e True (Some ''email_verification'') None ''email_verify''
                   (rn_str e (JObj [(''email'', JStr email)])) None)
             (\<lambda>(body, provider). ret (AList.update ''via'' (JStr provider) body)))
       (\<lambda>_. ret (email_result ''UNKNOWN'' (JReal (1/10)) ''no_verifier'' ''none'' (JStr ''pipeline'')))"

definition item :: "dict \<Rightarrow> string \<Rightarrow> py_fault + json" where
  "item d k = (case map_of d k of None \<Rightarrow> Inl KeyError | Some v \<Rightarrow> Inr v)"

fun number :: "json \<Rightarrow> py_fault + rat" where
  "number (JInt i) = Inr (of_int i)"
| "number (JReal q) = Inr q"
| "number (JBool b) = Inr (if b then 1 else 0)"
| "number _ = Inl TypeError"

definition role_verdict :: "dict \<Rightarrow> dict rx" where
  "role_verdict base = seq (pure_of (item base ''status'')) (\<lambda>status.
     if status \<noteq> JStr ''DELIVERABLE'' then ret base
     else seq (pure_of (item base ''confidence'')) (\<lambda>c.
          seq (pure_of (number c)) (\<lambda>q.
          seq (pure_of (item base ''provider'')) (\<lambda>p.
          ret (email_result ''RISKY'' (JReal (min q (1/2))) ''role_account'' ''role_account'' p)))))"

definition verify_email :: "renv \<Rightarrow> string \<Rightarrow> dict rx" where
  "verify_email e email0 =
     (let email = py_lower (py_strip email0); domain = after_last CHR ''@'' email in
      if \<not> email_syntax email \<or> \<not> rn_addr_ok e email
      then ret (email_result ''INVALID'' (JReal (99/100)) ''syntax'' ''syntax'' (JStr ''pipeline''))
      else if domain \<in> set DISPOSABLE_DOMAINS
      then ret (email_result ''INVALID'' (JReal (9/10)) ''disposable_domain'' ''disposable'' (JStr ''pipeline''))
      else if before_last CHR ''@'' email \<in> set ROLE_ACCOUNTS
      then seq (via_provider e email) role_verdict
      else via_provider e email)"

definition fact_outcome :: "dict \<Rightarrow> outcome" where
  "fact_outcome d =
     (if kv_get d ''status'' = JStr ''DELIVERABLE'' then OutVerified
      else if kv_get d ''status'' = JStr ''INVALID'' then OutRefuted else OutOther)"

text \<open>How values reach the columns of the truth layer: a confidence is a number or NULL, a text is its string.\<close>

definition number_or_null :: "json \<Rightarrow> rat option" where
  "number_or_null v = (case number v of Inl _ \<Rightarrow> None | Inr q \<Rightarrow> Some q)"

definition text_of :: "renv \<Rightarrow> json \<Rightarrow> string" where
  "text_of e v = (case v of JStr s \<Rightarrow> s | _ \<Rightarrow> rn_str e v)"

definition text_or_null :: "renv \<Rightarrow> json \<Rightarrow> string option" where
  "text_or_null e v = (if v = JNull then None else Some (text_of e v))"

text \<open>\<open>(verdict.get('details') or {}).get('reason')\<close>, as it is written beside the status into the quote of a check.\<close>

definition check_quote :: "renv \<Rightarrow> dict \<Rightarrow> py_fault + string" where
  "check_quote e vd = (case kv_get vd ''details'' of
     JObj kvs \<Rightarrow> Inr (rn_str e (JObj [(''status'', kv_get vd ''status''), (''reason'', kv_get kvs ''reason'')]))
   | v \<Rightarrow> if py_true v then Inl AttributeError
          else Inr (rn_str e (JObj [(''status'', kv_get vd ''status''), (''reason'', JNull)])))"

definition check_address :: "renv \<Rightarrow> ident \<Rightarrow> string \<Rightarrow> (outcome \<times> json \<times> fact option) rx" where
  "check_address e fact_id email = seq (verify_email e email) (\<lambda>vd.
     seq (pure_of (check_quote e vd)) (\<lambda>quote.
     seq (in_truth (\<lambda>now. verify_fact (cf_ttl (rn_cf e)) now fact_id (fact_outcome vd)
             (number_or_null (kv_get vd ''confidence'')) None (text_or_null e (kv_get vd ''via'')) (Some quote)))
       (\<lambda>f. ret (fact_outcome vd, kv_get vd ''status'', f))))"

subsection \<open>Qualification (research/qualification.py)\<close>

datatype check_verdict = CheckPass | CheckFail | CheckUnknown

record check =
  ch_value :: "string option"
  ch_verdict :: check_verdict
  ch_basis :: string

fun status_text :: "fact_status \<Rightarrow> string" where
  "status_text Verified = ''VERIFIED''"
| "status_text Conflicted = ''CONFLICTED''"
| "status_text Stale = ''STALE''"
| "status_text Unverified = ''UNVERIFIED''"
| "status_text Inferred = ''INFERRED''"

text \<open>\<open>[c.get(key, '') for c in icp.get('cities', [])]\<close>.\<close>

fun get_each :: "string \<Rightarrow> json list \<Rightarrow> py_fault + json list" where
  "get_each key [] = Inr []"
| "get_each key (JObj kvs # cs) = (case get_each key cs of
     Inl f \<Rightarrow> Inl f | Inr vs \<Rightarrow> Inr (or_default (map_of kvs key) (JStr []) # vs))"
| "get_each key (c # cs) = Inl AttributeError"

fun iterate :: "json \<Rightarrow> py_fault + json list" where
  "iterate (JList xs) = Inr xs"
| "iterate (JStr s) = Inr (map (\<lambda>c. JStr (utf8 [c])) (points s))"
| "iterate (JObj kvs) = Inr (map (\<lambda>(k, _). JStr k) kvs)"
| "iterate _ = Inl TypeError"

definition icp_cities :: "json \<Rightarrow> py_fault + json list" where
  "icp_cities icp = (case icp of
     JObj kvs \<Rightarrow>
       (case iterate (or_default (map_of kvs ''cities'') (JList [])) of
          Inl f \<Rightarrow> Inl f
        | Inr cs \<Rightarrow> (case get_each ''name'' cs of
              Inl f \<Rightarrow> Inl f
            | Inr ns \<Rightarrow> (case get_each ''ar'' cs of Inl f \<Rightarrow> Inl f | Inr as \<Rightarrow> Inr (ns @ as))))
   | _ \<Rightarrow> Inl AttributeError)"

definition city_fits :: "renv \<Rightarrow> string \<Rightarrow> json \<Rightarrow> bool" where
  "city_fits e city c \<longleftrightarrow> py_true c \<and>
     (let n = normalize_text (rn_u e) (Some (points city)); m = normalize_text (rn_u e) (Some (points (text_of e c)))
      in m \<noteq> [] \<and> contains m n \<or> contains n m)"

definition deterministic_checks :: "renv \<Rightarrow> qualification_input \<Rightarrow> json \<Rightarrow> py_fault + check list" where
  "deterministic_checks e q icp =
     (case icp_cities icp of
        Inl f \<Rightarrow> Inl f
      | Inr cities \<Rightarrow>
          let city = map_of (qi_values q) ''city''; st = map_of (qi_statuses q) ''city'';
              basis = ''city fact is '' @ (case st of None \<Rightarrow> ''None'' | Some s \<Rightarrow> status_text s) in
          Inr (if cities = [] then []
               else if \<not> truthy city then [\<lparr>ch_value = None, ch_verdict = CheckUnknown, ch_basis = ''no city fact stored''\<rparr>]
               else if list_ex (city_fits e (the city)) cities
               then [\<lparr>ch_value = city, ch_verdict = CheckPass, ch_basis = basis\<rparr>]
               else if st = Some Verified
               then [\<lparr>ch_value = city, ch_verdict = CheckFail, ch_basis = basis @ '' and contradicts ICP''\<rparr>]
               else [\<lparr>ch_value = city, ch_verdict = CheckUnknown,
                      ch_basis = basis @ ''; unverified facts do not trigger hard rejection''\<rparr>]))"

text \<open>The score and the tier; whatever is wrong with them is one kind of error.\<close>

definition read_score :: "json option \<Rightarrow> (rat \<times> json) option" where
  "read_score data = (case data of
     Some (JObj kvs) \<Rightarrow> (case map_of kvs ''fit_score'' of
         None \<Rightarrow> None
       | Some v \<Rightarrow> (case as_float v of
             Inl _ \<Rightarrow> None
           | Inr s \<Rightarrow> if 0 \<le> s \<and> s \<le> 100
               then Some (s, if py_true (kv_get kvs ''tier'') then kv_get kvs ''tier''
                             else JStr (if s \<ge> 75 then ''A'' else if s \<ge> 50 then ''B'' else ''C''))
               else None))
   | _ \<Rightarrow> None)"

text \<open>The rest of the answer is read outside the \<open>try\<close>: a value of the wrong type is an exception of its own.\<close>

definition read_verdict :: "string \<Rightarrow> dict \<Rightarrow> rat \<Rightarrow> json \<Rightarrow> verdict rx" where
  "read_verdict provider kvs score tier =
     seq (pure_of (as_list (kv_get kvs ''why''))) (\<lambda>why.
     seq (pure_of (float_or (kv_get kvs ''confidence'') (1/2))) (\<lambda>conf.
     seq (pure_of (as_list (kv_get kvs ''unknown_fields''))) (\<lambda>unknown.
     seq (pure_of (as_list (kv_get kvs ''blockers''))) (\<lambda>blockers.
     ret \<lparr>vd_score = score, vd_tier = tier, vd_why = why, vd_conf = conf, vd_unknown = unknown,
          vd_blockers = blockers, vd_deterministic = False, vd_local = (provider = ''ollama'')\<rparr>))))"

definition rejected_verdict :: "check list \<Rightarrow> verdict" where
  "rejected_verdict fails =
     \<lparr>vd_score = 0, vd_tier = JStr ''C'',
      vd_why = map (\<lambda>c. JStr (utf8 [1605, 1585, 1601, 1608, 1590, 32, 1581, 1578, 1605, 1610, 1611, 1575, 58, 32]
          @ ''city_match'' @ utf8 [32, 8212, 32] @ ch_basis c)) fails,
      vd_conf = 1, vd_unknown = [], vd_blockers = map (\<lambda>_. JStr ''city_match'') fails,
      vd_deterministic = True, vd_local = False\<rparr>"

definition stripped_text :: "dict \<Rightarrow> py_fault + string" where
  "stripped_text body = (case or_default (map_of body ''text'') (JStr []) of
     JStr s \<Rightarrow> Inr (strip_fences s) | v \<Rightarrow> if py_true v then Inl AttributeError else Inr [])"

definition read_answer :: "renv \<Rightarrow> string \<Rightarrow> dict \<Rightarrow> verdict rx" where
  "read_answer e provider body =
     seq (pure_of (stripped_text body)) (\<lambda>text.
       case read_score (rn_parse e text) of
         None \<Rightarrow> throw (QualificationError ''unparseable qualification output'')
       | Some (s, tier) \<Rightarrow> read_verdict provider (case rn_parse e text of Some (JObj kvs) \<Rightarrow> kvs | _ \<Rightarrow> []) s tier)"

definition facts_of_subject :: "string \<Rightarrow> string \<Rightarrow> qualification_input rx" where
  "facts_of_subject kind subject = (\<lambda>w.
     let (q, d) = facts_for_qualification (now_k w) kind subject (k_truth w) in (Inr q, w\<lparr>k_truth := d\<rparr>))"

definition ask_model :: "renv \<Rightarrow> prompt \<Rightarrow> ident option \<Rightarrow> (dict \<times> string) rx" where
  "ask_model e p job =
     catch (ask e True None None ''reasoning'' (rn_render e p) job)
       (\<lambda>f. case f of NoCapacity t tried \<Rightarrow> throw (QualificationError ''no LLM available for qualification'')
             | _ \<Rightarrow> throw f)"

definition qualify_from_facts :: "renv \<Rightarrow> string \<Rightarrow> string \<Rightarrow> json \<Rightarrow> ident option \<Rightarrow> verdict rx" where
  "qualify_from_facts e kind subject icp job =
     seq (facts_of_subject kind subject) (\<lambda>q.
       if qi_values q = [] then throw (QualificationError (''no facts stored for '' @ subject))
       else seq (pure_of (deterministic_checks e q icp)) (\<lambda>checks.
         let fails = filter (\<lambda>c. ch_verdict c = CheckFail) checks in
         if fails \<noteq> [] then ret (rejected_verdict fails)
         else seq (ask_model e (FactsPrompt icp q) job) (\<lambda>(body, provider). read_answer e provider body)))"

end
