(* ===== verification/ResearchTools.thy ===== *)
theory ResearchTools
  imports ResearchFacts
begin

section \<open>The tools of the research agent (research/tools.py, research/openmanus.py)\<close>

text \<open>
  The only actions the agent can take.  Tool names and arguments come from the model and are arbitrary JSON.  The
  browsing service is \<open>rn_manus\<close>: what its n-th HTTP request yields, \<open>None\<close> for a RequestException, and how many
  milliseconds it takes; the environment without the service is \<open>None\<close>.
\<close>

subsection \<open>Subjects\<close>

definition is_slug_char :: "nat \<Rightarrow> bool" where
  "is_slug_char c \<longleftrightarrow> (97 \<le> c \<and> c \<le> 122) \<or> (48 \<le> c \<and> c \<le> 57) \<or> (1536 \<le> c \<and> c \<le> 1791)"

definition strip_dashes :: "utext \<Rightarrow> utext" where
  "strip_dashes s = rev (dropWhile (\<lambda>c. c = 45) (rev (dropWhile (\<lambda>c. c = 45) s)))"

definition slug_of :: "unicode \<Rightarrow> utext \<Rightarrow> string" where
  "slug_of u name =
     (let s = take 60 (strip_dashes (sub_runs (\<lambda>c. \<not> is_slug_char c) [45] (lower u (strip u name))))
      in if s = [] then ''unknown'' else utf8 s)"

definition split_head :: "char \<Rightarrow> string \<Rightarrow> string" where
  "split_head c s = takeWhile (\<lambda>x. x \<noteq> c) s"

definition clean_domain :: "unicode \<Rightarrow> string \<Rightarrow> string" where
  "clean_domain u d = split_head CHR ''/'' (remove_prefix ''www.'' (remove_prefix ''https://''
     (remove_prefix ''http://'' (utf8 (lower u (strip u (points d)))))))"

text \<open>\<open>args.get('domain')\<close> and \<open>args.get('name')\<close>; the kind of a subject is always \<open>company\<close>.\<close>

definition subject_of :: "renv \<Rightarrow> json \<Rightarrow> json \<Rightarrow> py_fault + string" where
  "subject_of e domain name =
     (case strip_arg domain of
        Inl f \<Rightarrow> Inl f
      | Inr d0 \<Rightarrow>
          let d = clean_domain (rn_u e) (case domain of JStr s \<Rightarrow> s | _ \<Rightarrow> []) in
          if d \<noteq> [] then Inr d
          else case strip_arg name of
                 Inl f \<Rightarrow> Inl f
               | Inr _ \<Rightarrow> Inr (''name:'' @ slug_of (rn_u e) (case name of JStr s \<Rightarrow> points s | _ \<Rightarrow> [])))"

definition canonical_subject :: "renv \<Rightarrow> json \<Rightarrow> py_fault + string" where
  "canonical_subject e args = (case args of
     JObj kvs \<Rightarrow> subject_of e (kv_get kvs ''domain'') (kv_get kvs ''name'') | _ \<Rightarrow> Inl AttributeError)"

definition arg :: "json \<Rightarrow> string \<Rightarrow> json rx" where
  "arg args k = pure_of (dict_get args k)"

subsection \<open>Recording\<close>

definition record_obs :: "renv \<Rightarrow> observation \<Rightarrow> fact option rx" where
  "record_obs e ob = in_truth (\<lambda>now. record_fact (rn_uuid e) (cf_ttl (rn_cf e)) now ob)"

definition company_count :: "ident \<Rightarrow> desk \<Rightarrow> nat" where
  "company_count jid w = length (remdups (map f_subject
     (filter (\<lambda>f. f_job f = Some jid \<and> f_kind f = ''company'') (facts (k_truth w)))))"

definition count_candidates :: "ident \<Rightarrow> unit rx" where
  "count_candidates jid = (\<lambda>w. set_counter jid ''candidates'' (int (company_count jid w)) w)"

subsection \<open>search\_companies\<close>

definition found_fact :: "string \<Rightarrow> string \<Rightarrow> string \<Rightarrow> string option \<Rightarrow> string \<Rightarrow> string \<Rightarrow> string option \<Rightarrow> ident \<Rightarrow> ident
     \<Rightarrow> observation" where
  "found_fact subject field v url provider query quote jid run =
     \<lparr>ob_kind = ''company'', ob_subject = subject, ob_field = field, ob_value = Some v, ob_url = url,
      ob_skind = ''search_api'', ob_provider = Some provider, ob_query = Some query, ob_quote = quote,
      ob_job = Some jid, ob_run = Some run, ob_vkind = ''text'', ob_conf = None, ob_inferred = False\<rparr>"

definition record_each :: "renv \<Rightarrow> observation list \<Rightarrow> unit rx" where
  "record_each e obs = for_each (\<lambda>ob. seq (record_obs e ob) (\<lambda>_. ret ())) obs"

text \<open>The facts one result carries, in the order they are saved.\<close>

definition facts_found ::
  "string \<Rightarrow> string \<Rightarrow> utext list \<times> utext option \<Rightarrow> string option \<Rightarrow> string option \<Rightarrow> string \<Rightarrow> string \<Rightarrow> string \<Rightarrow> ident \<Rightarrow> ident
     \<Rightarrow> observation list" where
  "facts_found subject name contacts city url snippet provider query jid run =
     (let f = (\<lambda>field v quote. found_fact subject field v url provider query quote jid run);
          quote = Some (cut_text 200 snippet) in
      (if name \<noteq> [] then [f ''name'' name None] else [])
      @ (case fst contacts of [] \<Rightarrow> [] | p # _ \<Rightarrow> [f ''phone'' (utf8 p) quote])
      @ (case snd contacts of None \<Rightarrow> [] | Some m \<Rightarrow> if m = [] then [] else [f ''email'' (utf8 m) quote])
      @ (if truthy city then [f ''city'' (the city) None] else [])
      @ (if truthy url then [f ''website'' (the url) None] else []))"

definition result_text :: "renv \<Rightarrow> dict \<Rightarrow> string \<Rightarrow> string" where
  "result_text e r k = text_of e (or_default (map_of r k) (JStr []))"

definition need_text :: "json \<Rightarrow> py_fault + string" where
  "need_text v = (case v of JStr s \<Rightarrow> Inr s | _ \<Rightarrow> if py_true v then Inl TypeError else Inr [])"

text \<open>One search result.  Anything that goes wrong while saving is noted on the candidate.\<close>

definition keep_found ::
  "renv \<Rightarrow> ident \<Rightarrow> ident \<Rightarrow> string \<Rightarrow> string \<Rightarrow> string option \<Rightarrow> string \<Rightarrow> json \<Rightarrow> found_company rx" where
  "keep_found e jid run provider query city country r =
     (case r of
        JObj kvs \<Rightarrow>
          seq (pure_of (case or_default (map_of kvs ''url'') (JStr []) of JStr s \<Rightarrow> Inr s | _ \<Rightarrow> Inl TypeError)) (\<lambda>url.
          seq (pure_of (need_text (kv_get kvs ''title''))) (\<lambda>title.
          let domain = Normalize.domain_from_url (rn_u e) (points url); social = Normalize.is_social domain;
              name = utf8 (clean_title (rn_u e) (points title)); snippet = result_text e kvs ''snippet'';
              contacts = snippet_contacts (rn_u e) (points (name @ '' '' @ snippet)) (points country);
              found = (\<lambda>err. \<lparr>fo_name = name, fo_domain = (if social then None else Some (utf8 domain)),
                              fo_url = kv_get kvs ''url'', fo_error = err\<rparr>) in
          seq (pure_of (subject_of e (JStr (utf8 domain)) (JStr name))) (\<lambda>subject.
          if social
          then seq (in_truth (\<lambda>now. add_visit now jid url (Some name) None (Some ''social profile discovered'')))
                 (\<lambda>_. ret (found False))
          else catch (seq (record_each e (facts_found subject name contacts city
                         (text_or_null e (kv_get kvs ''url'')) snippet provider query jid run)) (\<lambda>_. ret (found False)))
                 (\<lambda>_. ret (found True)))))
      | _ \<Rightarrow> throw (PyFault AttributeError))"

fun keep_all :: "(json \<Rightarrow> found_company rx) \<Rightarrow> json list \<Rightarrow> found_company list rx" where
  "keep_all f [] = ret []"
| "keep_all f (r # rs) = seq (f r) (\<lambda>x. seq (keep_all f rs) (\<lambda>xs. ret (x # xs)))"

definition tool_search :: "renv \<Rightarrow> ident \<Rightarrow> ident \<Rightarrow> json \<Rightarrow> tool_out rx" where
  "tool_search e jid run args =
     seq (arg args ''query'') (\<lambda>q0. seq (pure_of (strip_arg q0)) (\<lambda>query.
     if query = [] then ret (ToolError ''query'')
     else seq (arg args ''max_results'') (\<lambda>m. seq (pure_of (int_or m 8)) (\<lambda>n.
          seq (ask e True (Some ''search_results'') None ''web_search''
                (rn_str e (JObj [(''query'', JStr query), (''max_results'', JInt n)])) (Some jid)) (\<lambda>(body, provider).
          seq (bump_counter jid ''searches'' 1) (\<lambda>_.
          seq (arg args ''city'') (\<lambda>city. seq (arg args ''country'') (\<lambda>country.
          seq (pure_of (iterate (or_default (map_of body ''results'') (JList [])))) (\<lambda>rows.
          seq (keep_all (keep_found e jid run provider query
                 (if py_true city then text_or_null e city else None)
                 (if py_true country then text_of e country else ''SA'')) rows) (\<lambda>found.
          seq (count_candidates jid) (\<lambda>_.
          ret (Searched provider (length found) found))))))))))))"

subsection \<open>research\_company\<close>

definition http :: "renv \<Rightarrow> (json option) rx" where
  "http e = (\<lambda>w. case rn_manus e of
     None \<Rightarrow> (Inr None, w)
   | Some f \<Rightarrow> (let (ans, ms) = f (k_manus w) in
       (Inr ans, w\<lparr>k_manus := k_manus w + 1, k_router := (k_router w)\<lparr>w_ms := w_ms (k_router w) + int ms\<rparr>\<rparr>)))"

definition sleep :: "int \<Rightarrow> desk \<Rightarrow> desk" where
  "sleep ms w = w\<lparr>k_router := (k_router w)\<lparr>w_ms := w_ms (k_router w) + ms\<rparr>\<rparr>"

definition ms_of :: "desk \<Rightarrow> int" where
  "ms_of w = w_ms (k_router w)"

lemma http_ms: "http e w = (r, w') \<Longrightarrow> ms_of w \<le> ms_of w'"
  by (auto simp: http_def ms_of_def split: option.splits prod.splits)

lemma sleep_ms [simp]: "ms_of (sleep ms w) = ms_of w + ms"
  by (simp add: sleep_def ms_of_def)

text \<open>Polling until a final status or the deadline.  Every round sleeps two seconds, so it ends.\<close>

function poll_task :: "renv \<Rightarrow> int \<Rightarrow> desk \<Rightarrow> (rfault + json option) \<times> desk" where
  "poll_task e til w =
     (if ms_of w < til
      then case http e w of
          (Inl f, w1) \<Rightarrow> (Inl f, w1)
        | (Inr None, w1) \<Rightarrow> (Inr None, w1)
        | (Inr (Some (JObj kvs)), w1) \<Rightarrow>
            if kv_get kvs ''status'' \<in> {JStr ''completed'', JStr ''failed''} then (Inr (Some (JObj kvs)), w1)
            else poll_task e til (sleep 2000 w1)
        | (Inr (Some _), w1) \<Rightarrow> (Inl (PyFault AttributeError), w1)
      else (Inr (Some (JObj [(''status'', JStr ''timeout''), (''error'', JStr ''runtime poll timeout'')])), w))"
  by pat_completeness auto
termination
  by (relation "measure (\<lambda>(e, til, w). nat (til - ms_of w))") (auto dest!: sym [THEN http_ms])

declare poll_task.simps [simp del]

record investigation =
  in_status :: string
  in_url :: "string option"
  in_title :: "string option"
  in_http :: "int option"
  in_summary :: "string option"
  in_facts :: "observation list"

definition no_investigation :: "string \<Rightarrow> investigation" where
  "no_investigation st = \<lparr>in_status = st, in_url = None, in_title = None, in_http = None, in_summary = None, in_facts = []\<rparr>"

text \<open>The facts of an answer that have a field and a value.\<close>

fun manus_facts :: "renv \<Rightarrow> string \<Rightarrow> ident \<Rightarrow> ident \<Rightarrow> json list \<Rightarrow> py_fault + observation list" where
  "manus_facts e subject jid run [] = Inr []"
| "manus_facts e subject jid run (JObj f # fs) =
     (case manus_facts e subject jid run fs of
        Inl x \<Rightarrow> Inl x
      | Inr obs \<Rightarrow>
          if \<not> py_true (kv_get f ''field'') \<or> kv_get f ''value'' \<in> {JNull, JStr []} then Inr obs
          else Inr (\<lparr>ob_kind = ''company'', ob_subject = subject, ob_field = text_of e (kv_get f ''field''),
                 ob_value = Some (text_of e (kv_get f ''value'')), ob_url = text_or_null e (kv_get f ''source_url''),
                 ob_skind = ''openmanus'', ob_provider = Some ''openmanus'', ob_query = None,
                 ob_quote = text_or_null e (kv_get f ''quote''), ob_job = Some jid, ob_run = Some run,
                 ob_vkind = ''text'', ob_conf = None, ob_inferred = py_true (kv_get f ''inferred'')\<rparr> # obs))"
| "manus_facts e subject jid run (f # fs) = Inl AttributeError"

fun int_or_null :: "json \<Rightarrow> int option" where
  "int_or_null (JInt i) = Some i"
| "int_or_null _ = None"

definition read_investigation :: "renv \<Rightarrow> string \<Rightarrow> ident \<Rightarrow> ident \<Rightarrow> dict \<Rightarrow> investigation rx" where
  "read_investigation e subject jid run final =
     (if kv_get final ''status'' \<noteq> JStr ''completed''
      then seq (pure_of (case or_default (map_of final ''status'') (JStr ''failed'') of
               JStr s \<Rightarrow> Inr s | _ \<Rightarrow> Inl AttributeError)) (\<lambda>st. ret (no_investigation (py_upper st)))
      else case kv_get final ''result'' of
             JObj res \<Rightarrow>
               seq (pure_of (if py_true (kv_get res ''facts'') then iterate (kv_get res ''facts'') else Inr [])) (\<lambda>fs.
               seq (pure_of (manus_facts e subject jid run fs)) (\<lambda>obs.
               ret \<lparr>in_status = ''COMPLETED'', in_url = text_or_null e (kv_get res ''url''),
                    in_title = text_or_null e (kv_get res ''title''), in_http = int_or_null (kv_get res ''http_status''),
                    in_summary = text_or_null e (kv_get res ''summary''), in_facts = obs\<rparr>))
           | v \<Rightarrow> if py_true v then throw (PyFault AttributeError) else ret (no_investigation ''COMPLETED''))"

definition research_company :: "renv \<Rightarrow> string \<Rightarrow> ident \<Rightarrow> ident \<Rightarrow> investigation rx" where
  "research_company e subject jid run =
     seq (http e) (\<lambda>sub. case sub of
         None \<Rightarrow> ret (no_investigation ''UNAVAILABLE'')
       | Some (JObj kvs) \<Rightarrow>
           if map_of kvs ''task_id'' = None then throw (PyFault KeyError)
           else seq (\<lambda>w. poll_task e (ms_of w + 250000) w) (\<lambda>ans. case ans of
               None \<Rightarrow> ret (no_investigation ''UNAVAILABLE'')
             | Some (JObj final) \<Rightarrow> read_investigation e subject jid run final
             | Some _ \<Rightarrow> throw (PyFault AttributeError))
       | Some _ \<Rightarrow> throw (PyFault TypeError))"

definition tool_research_company :: "renv \<Rightarrow> ident \<Rightarrow> ident \<Rightarrow> json \<Rightarrow> tool_out rx" where
  "tool_research_company e jid run args =
     seq (pure_of (canonical_subject e args)) (\<lambda>subject.
     if rn_manus e = None then ret (Investigated ''UNAVAILABLE'')
     else seq (research_company e subject jid run) (\<lambda>r.
          seq (bump_counter jid ''browse_calls'' 1) (\<lambda>_.
          seq (record_each e (in_facts r)) (\<lambda>_.
          seq (in_truth (\<lambda>now. add_visit now jid (if truthy (in_url r) then the (in_url r) else ''openmanus://'' @ subject)
                 (in_title r) (in_http r) (in_summary r))) (\<lambda>_.
          ret (Investigated (in_status r)))))))"

subsection \<open>Facts\<close>

definition COUNTED_FIELDS :: "string list" where
  "COUNTED_FIELDS = [''domain'', ''name'', ''city'', ''country'', ''email'', ''phone'']"

definition saved_obs :: "renv \<Rightarrow> string \<Rightarrow> string \<Rightarrow> dict \<Rightarrow> ident \<Rightarrow> ident \<Rightarrow> observation" where
  "saved_obs e subject field kvs jid run =
     \<lparr>ob_kind = ''company'', ob_subject = subject, ob_field = field, ob_value = Some (text_of e (kv_get kvs ''value'')),
      ob_url = text_or_null e (kv_get kvs ''source_url''),
      ob_skind = (if py_true (kv_get kvs ''source_kind'') then text_of e (kv_get kvs ''source_kind'') else ''search_api''),
      ob_provider = text_or_null e (kv_get kvs ''provider''), ob_query = text_or_null e (kv_get kvs ''query''),
      ob_quote = text_or_null e (kv_get kvs ''quote''), ob_job = Some jid, ob_run = Some run, ob_vkind = ''text'',
      ob_conf = None, ob_inferred = py_true (kv_get kvs ''inferred'')\<rparr>"

definition tool_save_fact :: "renv \<Rightarrow> ident \<Rightarrow> ident \<Rightarrow> json \<Rightarrow> tool_out rx" where
  "tool_save_fact e jid run args =
     seq (pure_of (canonical_subject e args)) (\<lambda>subject.
     seq (arg args ''field'') (\<lambda>f0. seq (pure_of (strip_arg f0)) (\<lambda>field.
     seq (arg args ''value'') (\<lambda>v.
     if field = [] \<or> v \<in> {JNull, JStr []} then ret (ToolError ''field, value'')
     else seq (record_obs e (saved_obs e subject field (case args of JObj kvs \<Rightarrow> kvs | _ \<Rightarrow> []) jid run)) (\<lambda>fo.
          seq (if field \<in> set COUNTED_FIELDS then count_candidates jid else ret ()) (\<lambda>_.
          case fo of None \<Rightarrow> throw (PyFault TypeError)
            | Some f \<Rightarrow> ret (Saved (f_id f) (f_status f) subject)))))))"

definition tool_verify_fact :: "renv \<Rightarrow> ident \<Rightarrow> json \<Rightarrow> tool_out rx" where
  "tool_verify_fact e jid args =
     seq (arg args ''fact_id'') (\<lambda>i.
     seq (if py_true i then in_truth (\<lambda>_. get_fact (text_of e i)) else ret None) (\<lambda>fo.
     case fo of
       None \<Rightarrow> ret (ToolError ''fact_id'')
     | Some f \<Rightarrow>
         if f_field f \<noteq> ''email'' then ret (ToolError ''only email facts are verified'')
         else seq (check_address e (f_id f) (f_value f)) (\<lambda>(out, st, fo').
              seq (bump_counter jid ''verifications'' 1) (\<lambda>_.
              case fo' of None \<Rightarrow> throw (PyFault TypeError)
                | Some f' \<Rightarrow> ret (CheckedFact (f_id f) out st (f_status f'))))))"

definition tool_list_facts :: "renv \<Rightarrow> json \<Rightarrow> tool_out rx" where
  "tool_list_facts e args = seq (pure_of (canonical_subject e args)) (\<lambda>subject w.
     let (v, d) = snapshot (now_k w) ''company'' subject (k_truth w) in (Inr (Listed v), w\<lparr>k_truth := d\<rparr>))"

definition GENERAL_ICP :: json where
  "GENERAL_ICP = JObj [(''industry'', JStr ''general''), (''cities'', JList []), (''keywords_en'', JList []),
     (''keywords_ar'', JList []), (''criteria'', JObj [])]"

definition active_icp_of :: "ident \<Rightarrow> desk \<Rightarrow> json" where
  "active_icp_of jid w =
     (let pinned = (case context_of jid w of None \<Rightarrow> None
          | Some c \<Rightarrow> if truthy (rc_icp c) then get_icp (the (rc_icp c)) (k_agents w) else None) in
      case pinned of
        Some r \<Rightarrow> iv_definition r
      | None \<Rightarrow> (case active_icp ''agentic'' (k_agents w) of Some r \<Rightarrow> iv_definition r | None \<Rightarrow> GENERAL_ICP))"

definition tool_qualify :: "renv \<Rightarrow> ident \<Rightarrow> json \<Rightarrow> tool_out rx" where
  "tool_qualify e jid args =
     seq (pure_of (canonical_subject e args)) (\<lambda>subject.
     seq (arg args ''icp'') (\<lambda>icp0.
     seq (gets (active_icp_of jid)) (\<lambda>own.
     catch (seq (qualify_from_facts e ''company'' subject (if py_true icp0 then icp0 else own) (Some jid)) (\<lambda>v.
            seq (bump_counter jid ''qualifications'' 1) (\<lambda>_. ret (Qualified v))))
       (\<lambda>f. case f of QualificationError m \<Rightarrow> ret (ToolError m) | _ \<Rightarrow> throw f))))"

definition tool_status :: "ident \<Rightarrow> tool_out rx" where
  "tool_status jid = seq (progress jid) (\<lambda>p. ret (Status p))"

definition tool_ask_user :: "renv \<Rightarrow> ident \<Rightarrow> json \<Rightarrow> tool_out rx" where
  "tool_ask_user e jid args =
     seq (arg args ''question'') (\<lambda>q0. seq (pure_of (strip_arg q0)) (\<lambda>question.
     if question = [] then ret (ToolError ''question'')
     else seq (arg args ''subject_id'') (\<lambda>s.
          seq (in_truth (\<lambda>now. add_open_question now jid question ''company'' (text_or_null e s))) (\<lambda>qid.
          seq (waiting_for_user jid question) (\<lambda>_. ret (Asked qid question))))))"

subsection \<open>The registry\<close>

datatype tool =
    SearchCompanies | ResearchCompany | SaveFact | VerifyFact | ListFacts | QualifyLead | GetStatus | AskUser

definition TOOLS :: "(string \<times> tool) list" where
  "TOOLS = [(''search_companies'', SearchCompanies), (''research_company'', ResearchCompany),
     (''save_fact'', SaveFact), (''verify_fact'', VerifyFact), (''list_facts'', ListFacts),
     (''qualify_lead'', QualifyLead), (''get_research_status'', GetStatus), (''ask_user'', AskUser)]"

fun scopes_of :: "tool \<Rightarrow> string list" where
  "scopes_of SearchCompanies = [''search:read'']"
| "scopes_of ResearchCompany = [''research:read'', ''evidence:write'']"
| "scopes_of SaveFact = [''evidence:write'']"
| "scopes_of VerifyFact = [''verification:run'']"
| "scopes_of ListFacts = [''facts:read'']"
| "scopes_of QualifyLead = [''qualification:run'']"
| "scopes_of GetStatus = [''jobs:read'']"
| "scopes_of AskUser = [''interaction:write'']"

fun run_tool :: "renv \<Rightarrow> ident \<Rightarrow> ident \<Rightarrow> tool \<Rightarrow> json \<Rightarrow> tool_out rx" where
  "run_tool e jid run SearchCompanies args = tool_search e jid run args"
| "run_tool e jid run ResearchCompany args = tool_research_company e jid run args"
| "run_tool e jid run SaveFact args = tool_save_fact e jid run args"
| "run_tool e jid run VerifyFact args = tool_verify_fact e jid args"
| "run_tool e jid run ListFacts args = tool_list_facts e args"
| "run_tool e jid run QualifyLead args = tool_qualify e jid args"
| "run_tool e jid run GetStatus args = tool_status jid"
| "run_tool e jid run AskUser args = tool_ask_user e jid args"

text \<open>The trail of the run.\<close>

definition begin_step :: "ident \<Rightarrow> string \<Rightarrow> nat rx" where
  "begin_step run name = (\<lambda>w. let (i, g) = start_step (now_k w) run name (k_agents w) in (Inr i, w\<lparr>k_agents := g\<rparr>))"

definition end_step :: "nat \<Rightarrow> run_status \<Rightarrow> string option \<Rightarrow> unit rx" where
  "end_step i st err = modify (\<lambda>w. w\<lparr>k_agents := finish_step (now_k w) i st err (k_agents w)\<rparr>)"

text \<open>\<open>TOOLS.get(name)\<close>: a list or a dict cannot be looked up.\<close>

fun find_tool :: "json \<Rightarrow> py_fault + tool option" where
  "find_tool (JStr s) = Inr (map_of TOOLS s)"
| "find_tool (JList xs) = Inl TypeError"
| "find_tool (JObj kvs) = Inl TypeError"
| "find_tool _ = Inr None"

definition perform :: "renv \<Rightarrow> ident \<Rightarrow> ident \<Rightarrow> tool \<Rightarrow> json \<Rightarrow> tool_out rx" where
  "perform e jid run t args =
     seq (begin_step run ''tool'') (\<lambda>i.
     seq (catch (seq (run_tool e jid run t args) (\<lambda>out. seq (end_step i RunCompleted None) (\<lambda>_. ret out)))
            (\<lambda>f. seq (end_step i RunFailed (Some ''exception'')) (\<lambda>_. throw f))) (\<lambda>out.
     seq (bump_counter jid ''tool_calls'' 1) (\<lambda>_. ret out)))"

definition execute_tool :: "renv \<Rightarrow> string list \<Rightarrow> ident \<Rightarrow> ident \<Rightarrow> json \<Rightarrow> json \<Rightarrow> tool_out rx" where
  "execute_tool e scopes jid run name args0 =
     seq (pure_of (find_tool name)) (\<lambda>spec.
     case spec of
       None \<Rightarrow> ret (ToolError ''unknown tool'')
     | Some t \<Rightarrow>
         if \<not> set (scopes_of t) \<subseteq> set scopes then throw (ScopeDenied ''scopes'')
         else seq (budget_check jid) (\<lambda>(exceeded, _).
              case exceeded of
                Some key \<Rightarrow> ret (BudgetStop key)
              | None \<Rightarrow> perform e jid run t (if py_true args0 then args0 else JObj [])))"

end
