(* ===== verification/ResearchLoop.thy ===== *)
theory ResearchLoop
  imports ResearchTools
begin

section \<open>The research orchestrator (lead_engine/research/orchestrator.py)\<close>

text \<open>
  One run of a research job: plan, turns of the agent, then the finalization up to the review gate.  The loop of turns
  takes fuel; running out of it is the fault \<open>Diverges\<close>, and how much fuel is enough is proved below.  A run may
  stop anywhere: what it has learned is in the desk, from which the next run resumes.
\<close>

subsection \<open>The agent\<close>

definition AGENT_SLUG :: string where
  "AGENT_SLUG = ''lead-research''"

text \<open>Building a set of a list raises TypeError on an unhashable element, a list or a dict.  The numbers, booleans and nulls of
  the set are left out of the model's list: they are equal to no scope of a tool, which are strings.\<close>

fun hashable :: "json \<Rightarrow> bool" where
  "hashable (JList xs) = False"
| "hashable (JObj kvs) = False"
| "hashable _ = True"

definition agent_scopes :: "desk \<Rightarrow> py_fault + string list" where
  "agent_scopes w = (case get_active_version AGENT_SLUG (k_agents w) of
     None \<Rightarrow> Inr []
   | Some v \<Rightarrow> (case av_policy v of
         JObj kvs \<Rightarrow> (case as_list (kv_get kvs ''scopes'') of
             Inl f \<Rightarrow> Inl f
           | Inr xs \<Rightarrow> if list_all hashable xs
               then Inr (List.map_filter (\<lambda>x. case x of JStr s \<Rightarrow> Some s | _ \<Rightarrow> None) xs) else Inl TypeError)
       | p \<Rightarrow> if py_true p then Inl AttributeError else Inr []))"

definition pinned_provider :: "desk \<Rightarrow> string option" where
  "pinned_provider w = (case get_active_version AGENT_SLUG (k_agents w) of
     None \<Rightarrow> None
   | Some v \<Rightarrow> if truthy (av_provider v) \<and> av_provider v \<noteq> Some ''router'' then av_provider v else None)"

definition out_of_time :: "renv \<Rightarrow> desk \<Rightarrow> bool" where
  "out_of_time e w = (case rn_deadline e of None \<Rightarrow> False | Some d \<Rightarrow> ms_of w + 25000 \<ge> d)"

definition ask_pinned :: "renv \<Rightarrow> ident \<Rightarrow> prompt \<Rightarrow> dict rx" where
  "ask_pinned e jid p = seq (gets pinned_provider) (\<lambda>prefer.
     seq (ask e False None prefer ''reasoning'' (rn_render e p) (Some jid)) (\<lambda>(body, _).
     seq (bump_counter jid ''model_calls'' 1) (\<lambda>_. ret body)))"

definition parse_json :: "renv \<Rightarrow> dict \<Rightarrow> py_fault + dict option" where
  "parse_json e body = (case stripped_text body of
     Inl f \<Rightarrow> Inl f | Inr t \<Rightarrow> Inr (case rn_parse e t of Some (JObj kvs) \<Rightarrow> Some kvs | _ \<Rightarrow> None))"

definition facts_digest :: "ident \<Rightarrow> desk \<Rightarrow> (string \<times> string \<times> fact_status \<times> string) list" where
  "facts_digest jid w = map (\<lambda>f. (f_subject f, f_field f, f_status f, f_value f))
     (take 40 (sort_key (\<lambda>f. - f_collected f) (filter (\<lambda>f. f_job f = Some jid) (facts (k_truth w)))))"

subsection \<open>Planning\<close>

definition planned_icp :: "ident \<Rightarrow> desk \<Rightarrow> json" where
  "planned_icp jid w = (case context_of jid w of
     None \<Rightarrow> JObj []
   | Some c \<Rightarrow> if \<not> truthy (rc_icp c) then JObj []
       else case get_icp (the (rc_icp c)) (k_agents w) of None \<Rightarrow> JObj [] | Some r \<Rightarrow> iv_definition r)"

definition plan_defaults :: "dict \<Rightarrow> dict" where
  "plan_defaults p = set_default ''verify_fields'' (JList [JStr ''phone'', JStr ''email''])
     (set_default ''target_candidates'' (JInt 30) (set_default ''queries'' (JList []) p))"

definition make_plan :: "renv \<Rightarrow> ident \<Rightarrow> string \<Rightarrow> dict rx" where
  "make_plan e jid objective = seq (gets (planned_icp jid)) (\<lambda>icp.
     seq (ask_pinned e jid (PlanPrompt objective icp)) (\<lambda>body.
     seq (pure_of (parse_json e body)) (\<lambda>p. ret (plan_defaults (or_default p [])))))"

subsection \<open>A turn\<close>

record turn =
  tn_done :: bool
  tn_actions :: "action_result list"

fun tool_ok :: "tool_out \<Rightarrow> bool" where
  "tool_ok (ToolError m) = False"
| "tool_ok (BudgetStop k) = False"
| "tool_ok _ = True"

text \<open>Whatever a tool raises is an observation for the model; an action that is not a dict is an error of the turn.\<close>

definition run_action :: "renv \<Rightarrow> string list \<Rightarrow> ident \<Rightarrow> ident \<Rightarrow> json \<Rightarrow> action_result rx" where
  "run_action e scopes jid run action =
     seq (arg action ''tool'') (\<lambda>name. seq (arg action ''args'') (\<lambda>args.
     catch (seq (execute_tool e scopes jid run name args)
              (\<lambda>out. ret \<lparr>ax_tool = name, ax_ok = tool_ok out, ax_out = Some out\<rparr>))
       (\<lambda>_. ret \<lparr>ax_tool = name, ax_ok = False, ax_out = None\<rparr>)))"

fun run_actions :: "renv \<Rightarrow> string list \<Rightarrow> ident \<Rightarrow> ident \<Rightarrow> json list \<Rightarrow> action_result list rx" where
  "run_actions e scopes jid run [] = ret []"
| "run_actions e scopes jid run (a # as) = seq (run_action e scopes jid run a) (\<lambda>x.
     seq (run_actions e scopes jid run as) (\<lambda>xs. ret (x # xs)))"

definition act_on :: "renv \<Rightarrow> string list \<Rightarrow> ident \<Rightarrow> ident \<Rightarrow> nat \<Rightarrow> dict \<Rightarrow> turn rx" where
  "act_on e scopes jid run i data =
     seq (pure_of (first_items 4 (kv_get data ''actions''))) (\<lambda>actions.
     seq (run_actions e scopes jid run actions) (\<lambda>done.
     seq (end_step i RunCompleted None) (\<lambda>_.
     ret \<lparr>tn_done = py_true (kv_get data ''done''), tn_actions = done\<rparr>)))"

definition unreadable :: "nat \<Rightarrow> turn rx" where
  "unreadable i = seq (end_step i RunFailed (Some ''model output unparseable twice'')) (\<lambda>_.
     ret \<lparr>tn_done = False, tn_actions = []\<rparr>)"

definition agent_turn :: "renv \<Rightarrow> ident \<Rightarrow> ident \<Rightarrow> string \<Rightarrow> dict \<Rightarrow> action_result list \<Rightarrow> turn rx" where
  "agent_turn e jid run objective plan prev =
     seq (\<lambda>w. pure_of (agent_scopes w) w) (\<lambda>scopes.
     seq (progress jid) (\<lambda>p.
     seq (gets (facts_digest jid)) (\<lambda>digest.
     let prompt = ActorPrompt objective plan p prev digest in
     seq (begin_step run ''turn'') (\<lambda>i.
     seq (ask_pinned e jid prompt) (\<lambda>body.
     seq (pure_of (parse_json e body)) (\<lambda>answer.
     case answer of
       Some data \<Rightarrow> act_on e scopes jid run i data
     | None \<Rightarrow>
         seq (ask_pinned e jid (RetryPrompt prompt)) (\<lambda>body2.
         seq (pure_of (parse_json e body2)) (\<lambda>answer2.
         case answer2 of Some data \<Rightarrow> act_on e scopes jid run i data | None \<Rightarrow> unreadable i))))))))"

subsection \<open>The loop\<close>

type_synonym run_result = "report \<times> bool"

definition summary_of :: "ident \<Rightarrow> run_result rx" where
  "summary_of jid = seq (progress jid) (\<lambda>p. ret (p, False))"

definition yield_summary :: "ident \<Rightarrow> run_result rx" where
  "yield_summary jid = seq (progress jid) (\<lambda>p. ret (p, True))"

datatype loop_end = Leave run_result | Stop "(string \<times> string) option"

definition STALL_ROUNDS_LIMIT :: nat where
  "STALL_ROUNDS_LIMIT = 3"

fun discover ::
  "renv \<Rightarrow> ident \<Rightarrow> ident \<Rightarrow> string \<Rightarrow> dict \<Rightarrow> nat \<Rightarrow> int \<Rightarrow> nat \<Rightarrow> action_result list \<Rightarrow> loop_end rx" where
  "discover e jid run objective plan 0 seen stall prev = throw Diverges"
| "discover e jid run objective plan (Suc fuel) seen stall prev =
     seq (read_state e jid) (\<lambda>st.
     if st \<in> {CANCELLED, PAUSED, COMPLETED, FAILED, WAITING_FOR_USER}
     then seq (summary_of jid) (\<lambda>s. ret (Leave s))
     else seq (gets (out_of_time e)) (\<lambda>late.
     if late then seq (yield_summary jid) (\<lambda>s. ret (Leave s))
     else seq (budget_check jid) (\<lambda>(exceeded, snap).
     case exceeded of
       Some key \<Rightarrow> ret (Stop (Some (''BUDGET_EXHAUSTED'', key @ '': '' @ rn_snap e snap)))
     | None \<Rightarrow>
         seq (bump_counter jid ''steps'' 1) (\<lambda>_.
         seq (agent_turn e jid run objective plan prev) (\<lambda>t.
         seq (bump_counter jid ''model_calls'' 1) (\<lambda>_.
         seq (gets (counter jid ''candidates'')) (\<lambda>found.
         let stall' = (if found > seen then 0 else stall + 1) in
         if tn_done t then ret (Stop None)
         else if stall' \<ge> STALL_ROUNDS_LIMIT
         then ret (Stop (Some (''DIMINISHING_RETURNS'', ''no new candidates for '' @ show_nat stall' @ '' rounds'')))
         else seq (read_state e jid) (\<lambda>st'.
              if st' = WAITING_FOR_USER then seq (summary_of jid) (\<lambda>s. ret (Leave s))
              else discover e jid run objective plan fuel found stall' (tn_actions t)))))))))"

subsection \<open>Finalization\<close>

definition email_rows :: "ident \<Rightarrow> desk \<Rightarrow> fact list" where
  "email_rows jid w = filter (\<lambda>f. f_field f = ''email'' \<and> f_status f \<in> {Unverified, Verified} \<and> f_job f = Some jid)
     (facts (k_truth w))"

fun verify_each :: "renv \<Rightarrow> ident \<Rightarrow> fact list \<Rightarrow> ident list \<Rightarrow> unit rx" where
  "verify_each e jid [] tried = ret ()"
| "verify_each e jid (f # fs) tried =
     seq (read_state e jid) (\<lambda>st.
     if st \<in> {CANCELLED, PAUSED} then ret ()
     else if f_id f \<in> set tried then verify_each e jid fs tried
     else seq (gets (out_of_time e)) (\<lambda>late.
     if late then ret ()
     else seq (verify_email e (f_value f)) (\<lambda>vd.
          let tried' = sorted_fields (f_id f # tried) in
          seq (set_mark jid (\<lambda>c. c\<lparr>rc_tried := Some tried'\<rparr>)) (\<lambda>_.
          seq (pure_of (check_quote e vd)) (\<lambda>quote.
          seq (in_truth (\<lambda>now. verify_fact (cf_ttl (rn_cf e)) now (f_id f) (fact_outcome vd)
                 (number_or_null (kv_get vd ''confidence'')) None (text_or_null e (kv_get vd ''via'')) (Some quote))) (\<lambda>_.
          seq (bump_counter jid ''verifications'' 1) (\<lambda>_. verify_each e jid fs tried')))))))"

definition verify_emails :: "renv \<Rightarrow> ident \<Rightarrow> unit rx" where
  "verify_emails e jid = (\<lambda>w. verify_each e jid (email_rows jid w)
     (case context_of jid w of None \<Rightarrow> [] | Some c \<Rightarrow> or_default (rc_tried c) []) w)"

definition subjects_of :: "ident \<Rightarrow> desk \<Rightarrow> string list" where
  "subjects_of jid w = sorted_fields (remdups (map f_subject
     (filter (\<lambda>f. f_job f = Some jid \<and> f_kind f = ''company'') (facts (k_truth w)))))"

text \<open>One company.  Only a QualificationError is expected: it leaves the company without a verdict.\<close>

definition qualify_subject ::
  "renv \<Rightarrow> ident \<Rightarrow> ident \<Rightarrow> json \<Rightarrow> string \<Rightarrow> (string \<times> verdict) list \<Rightarrow> (string \<times> verdict) list rx" where
  "qualify_subject e jid run icp subject done =
     seq (begin_step run (''qualify:'' @ subject)) (\<lambda>i.
     seq (catch
       (seq (qualify_from_facts e ''company'' subject icp (Some jid)) (\<lambda>v.
        seq (bump_counter jid ''model_calls'' 1) (\<lambda>_.
        seq (end_step i RunCompleted None) (\<lambda>_.
        let done' = AList.update subject v done in
        seq (set_mark jid (\<lambda>c. c\<lparr>rc_verdicts := Some done'\<rparr>)) (\<lambda>_. ret done')))))
       (\<lambda>f. case f of QualificationError m \<Rightarrow> seq (end_step i RunFailed (Some m)) (\<lambda>_. ret done) | _ \<Rightarrow> throw f))
     (\<lambda>done'. seq (bump_counter jid ''qualifications'' 1) (\<lambda>_. ret done')))"

text \<open>\<open>None\<close> when time ran out.\<close>

fun qualify_each ::
  "renv \<Rightarrow> ident \<Rightarrow> ident \<Rightarrow> json \<Rightarrow> string list \<Rightarrow> (string \<times> verdict) list \<Rightarrow> (string \<times> verdict) list option rx" where
  "qualify_each e jid run icp [] done = ret (Some done)"
| "qualify_each e jid run icp (s # ss) done =
     seq (read_state e jid) (\<lambda>st.
     if st \<in> {CANCELLED, PAUSED} then ret (Some done)
     else if map_of done s \<noteq> None then qualify_each e jid run icp ss done
     else seq (gets (out_of_time e)) (\<lambda>late.
     if late then seq (set_mark jid (\<lambda>c. c\<lparr>rc_verdicts := Some done\<rparr>)) (\<lambda>_. ret None)
     else seq (qualify_subject e jid run icp s done) (\<lambda>done'. qualify_each e jid run icp ss done')))"

definition qualify_all :: "renv \<Rightarrow> ident \<Rightarrow> ident \<Rightarrow> (string \<times> verdict) list option rx" where
  "qualify_all e jid run = (\<lambda>w. qualify_each e jid run (active_icp_of jid w) (subjects_of jid w)
     (case context_of jid w of None \<Rightarrow> [] | Some c \<Rightarrow> or_default (rc_verdicts c) []) w)"

subsection \<open>Leads\<close>

definition tenant_of :: "desk \<Rightarrow> string" where
  "tenant_of w = (if truthy (db_org (k_jobs w)) then the (db_org (k_jobs w)) else ''shared'')"

definition branches_of :: "string option \<Rightarrow> int option" where
  "branches_of v = (case v of Some s \<Rightarrow> if s \<noteq> [] \<and> list_all is_digit s then Some (int (digits_value s)) else None
     | None \<Rightarrow> None)"

definition truthy_or :: "string option \<Rightarrow> string option \<Rightarrow> string option" where
  "truthy_or x y = (if truthy x then x else y)"

text \<open>The lead as the scorer and the legal gate see it: it has no email status and no source URLs yet.\<close>

definition view_of_research :: "qualification_input \<Rightarrow> verdict \<Rightarrow> lead_view" where
  "view_of_research q v =
     (let get = map_of (qi_values q); pt = map_option points in
      \<lparr>lv_name = pt (get ''name''), lv_domain = pt (get ''domain''), lv_snippet = None, lv_website = pt (get ''website''),
       lv_city = pt (get ''city''), lv_social = None, lv_branches = branches_of (get ''branches''),
       lv_email = pt (get ''email''), lv_email_status = None, lv_phone = pt (get ''phone''),
       lv_dm = pt (get ''decision_maker''), lv_qualification = Some (vd_score v), lv_urls = 0,
       lv_sources = [''research_agent''], lv_types = [], lv_purpose = ''lead_generation'', lv_review = False\<rparr>)"

definition thin :: "qualification_input \<Rightarrow> bool" where
  "thin q \<longleftrightarrow> length (qi_values q) < 2 \<and>
     \<not> list_ex (\<lambda>k. truthy (map_of (qi_values q) k)) [''phone'', ''email'', ''decision_maker'']"

definition status_of_email :: "string \<Rightarrow> string option \<Rightarrow> desk \<Rightarrow> fact_status option" where
  "status_of_email subject m w = (if \<not> truthy m then None
     else map_option f_status (first_min (\<lambda>f. - f_collected f)
       (filter (\<lambda>f. f_subject f = subject \<and> f_field f = ''email'' \<and> Some (f_value f) = m) (facts (k_truth w)))))"

definition research_lead :: "renv \<Rightarrow> ident \<Rightarrow> string \<Rightarrow> qualification_input \<Rightarrow> verdict \<Rightarrow> desk \<Rightarrow> rlead" where
  "research_lead e jid subject q v w =
     (let get = map_of (qi_values q); named = starts_with subject ''name:''; view = view_of_research q v;
          gate = legal_gate (now_k w) (rn_legal e) view in
      \<lparr>rl_id = tenant_of w @ '':'' @ subject, rl_org = tenant_of w, rl_job = Some jid,
       rl_name = the (truthy_or (get ''name'') (Some subject)),
       rl_domain = truthy_or (get ''domain'') (if named then None else Some subject), rl_city = get ''city'',
       rl_country = get ''country'', rl_industry = get ''industry'', rl_branches = branches_of (get ''branches''),
       rl_phone = get ''phone'', rl_email = get ''email'', rl_email_status = status_of_email subject (get ''email'') w,
       rl_dm = get ''decision_maker'', rl_dm_title = get ''decision_maker_title'', rl_linkedin = get ''linkedin'',
       rl_website = truthy_or (get ''website'') (if named then None else Some (''https://'' @ subject)),
       rl_qualification = vd_score v, rl_tier = vd_tier v, rl_score = score_lead (rn_weights e) view,
       rl_stage = (if lg_storage gate then StageReview else StageRejected), rl_legal = LegalIs (lg_decision gate),
       rl_local = vd_local v, rl_social = None, rl_verdict = Some v, rl_retention = None, rl_extra = [],
       rl_disposition = None, rl_note = None, rl_decided_at = None, rl_decided_by = None, rl_created = now_k w, rl_updated = now_k w\<rparr>)"

text \<open>\<open>Database.insert_lead\<close>: the row is replaced but for the four columns of the decision a human took on it.\<close>

definition keep_decision :: "rlead \<Rightarrow> rlead \<Rightarrow> rlead" where
  "keep_decision x l = l\<lparr>rl_disposition := rl_disposition x, rl_note := rl_note x, rl_decided_at := rl_decided_at x,
     rl_decided_by := rl_decided_by x\<rparr>"

definition upsert_row :: "rlead \<Rightarrow> rlead list \<Rightarrow> rlead list" where
  "upsert_row l t = (if row_of rl_id (rl_id l) t = None then t @ [l]
     else upd_where (\<lambda>x. rl_id x = rl_id l) (\<lambda>x. keep_decision x l) t)"

fun materialize_each :: "renv \<Rightarrow> ident \<Rightarrow> (string \<times> verdict) list \<Rightarrow> nat \<Rightarrow> int \<Rightarrow> (nat \<times> int) rx" where
  "materialize_each e jid [] kept skipped = ret (kept, skipped)"
| "materialize_each e jid ((s, v) # vs) kept skipped =
     seq (facts_of_subject ''company'' s) (\<lambda>q.
     if thin q then materialize_each e jid vs kept (skipped + 1)
     else seq (modify (\<lambda>w. w\<lparr>k_leads := upsert_row (research_lead e jid s q v w) (k_leads w)\<rparr>)) (\<lambda>_.
          materialize_each e jid vs (kept + 1) skipped))"

definition materialize :: "renv \<Rightarrow> ident \<Rightarrow> (string \<times> verdict) list \<Rightarrow> nat rx" where
  "materialize e jid vs = seq (materialize_each e jid vs 0 0) (\<lambda>(kept, skipped).
     seq (if skipped \<noteq> 0 then seq (bump_counter jid ''thin_candidates_skipped'' skipped) (\<lambda>_. ret ()) else ret ())
       (\<lambda>_. ret kept))"

subsection \<open>The review gate\<close>

definition finish_research :: "ident \<Rightarrow> ident \<Rightarrow> unit rx" where
  "finish_research jid run = seq (progress jid) (\<lambda>_.
     modify (\<lambda>w. w\<lparr>k_agents := finish_run (now_k w) run RunCompleted None (k_agents w)\<rparr>))"

definition gate :: "ident \<Rightarrow> string \<Rightarrow> string \<Rightarrow> ident \<Rightarrow> run_result rx" where
  "gate jid reason detail run =
     seq (clear_marks jid) (\<lambda>_. seq (ready_for_review jid reason detail) (\<lambda>_.
     seq (finish_research jid run) (\<lambda>_. summary_of jid)))"

definition target_of :: "ident \<Rightarrow> desk \<Rightarrow> py_fault + int" where
  "target_of jid w = (case context_of jid w of
     None \<Rightarrow> Inr 0 | Some c \<Rightarrow> int_or (kv_get (or_default (rc_plan c) []) ''target_candidates'') 0)"

definition closing :: "(string \<times> string) option \<Rightarrow> nat \<Rightarrow> int \<Rightarrow> int \<Rightarrow> string \<times> string" where
  "closing stop kept found target =
     (case stop of
        Some (reason, detail) \<Rightarrow> (reason, detail @ ''; '' @ show_nat kept @ '' leads ready for review'')
      | None \<Rightarrow>
          if target \<noteq> 0 \<and> found \<ge> target
          then (''OBJECTIVE_SATISFIED'', show_int found @ ''/'' @ show_int target @ '' candidates'')
          else (''COVERAGE_ADEQUATE'', show_int found @ '' candidates''))"

definition after_verdicts ::
  "renv \<Rightarrow> ident \<Rightarrow> ident \<Rightarrow> (string \<times> string) option \<Rightarrow> (string \<times> verdict) list \<Rightarrow> run_result rx" where
  "after_verdicts e jid run stop vs =
     seq (materialize e jid vs) (\<lambda>kept.
     seq (gets (counter jid ''candidates'')) (\<lambda>found.
     seq (\<lambda>w. pure_of (target_of jid w) w) (\<lambda>target.
     let (reason, detail) = closing stop kept found target in gate jid reason detail run)))"

definition finalize :: "renv \<Rightarrow> ident \<Rightarrow> ident \<Rightarrow> (string \<times> string) option \<Rightarrow> run_result rx" where
  "finalize e jid run stop =
     seq (set_phase jid VERIFYING (Some ''verification sweep'')) (\<lambda>_.
     seq (verify_emails e jid) (\<lambda>_.
     seq (gets (out_of_time e)) (\<lambda>late.
     if late then yield_summary jid
     else seq (set_phase jid QUALIFYING (Some ''evidence-grounded fit'')) (\<lambda>_.
          seq (qualify_all e jid run) (\<lambda>vs.
          case vs of None \<Rightarrow> yield_summary jid | Some vs \<Rightarrow> after_verdicts e jid run stop vs)))))"

subsection \<open>A run\<close>

definition ensure_run :: "renv \<Rightarrow> ident \<Rightarrow> ident rx" where
  "ensure_run e jid = (\<lambda>w.
     let old = (case context_of jid w of None \<Rightarrow> None | Some c \<Rightarrow> rc_run c);
         row = (if truthy old then row_of ar_id (the old) (g_runs (k_agents w)) else None) in
     case row of
       Some r \<Rightarrow> if ar_status r = RunRunning then (Inr (the old), w)
                 else seq (in_registry (\<lambda>now. create_run (rn_uuid e) now AGENT_SLUG None)) (\<lambda>i.
                      seq (modify (upd_context jid (\<lambda>c. c\<lparr>rc_run := Some i\<rparr>))) (\<lambda>_. ret i)) w
     | None \<Rightarrow> seq (in_registry (\<lambda>now. create_run (rn_uuid e) now AGENT_SLUG None)) (\<lambda>i.
               seq (modify (upd_context jid (\<lambda>c. c\<lparr>rc_run := Some i\<rparr>))) (\<lambda>_. ret i)) w)"

definition ensure_plan :: "renv \<Rightarrow> ident \<Rightarrow> rcontext \<Rightarrow> dict rx" where
  "ensure_plan e jid c = (case rc_plan c of
     Some (x # xs) \<Rightarrow> ret (x # xs)
   | _ \<Rightarrow> seq (set_phase jid DISCOVERING (Some ''planning'')) (\<lambda>_.
          seq (make_plan e jid (rc_objective c)) (\<lambda>p. seq (set_plan jid p) (\<lambda>_. ret p))))"

definition after_discovery :: "renv \<Rightarrow> ident \<Rightarrow> ident \<Rightarrow> loop_end \<Rightarrow> run_result rx" where
  "after_discovery e jid run r = (case r of
     Leave s \<Rightarrow> ret s
   | Stop stop \<Rightarrow>
       seq (case stop of None \<Rightarrow> ret () | Some x \<Rightarrow> set_mark jid (\<lambda>c. c\<lparr>rc_stop_mark := Some x\<rparr>)) (\<lambda>_.
       seq (set_mark jid (\<lambda>c. c\<lparr>rc_finalizing := True\<rparr>)) (\<lambda>_. finalize e jid run stop)))"

definition run_loop :: "renv \<Rightarrow> nat \<Rightarrow> ident \<Rightarrow> ident \<Rightarrow> run_result rx" where
  "run_loop e fuel jid run =
     seq (need_context jid) (\<lambda>c.
     if rc_finalizing c then finalize e jid run (rc_stop_mark c)
     else seq (ensure_plan e jid c) (\<lambda>plan.
          seq (discover e jid run (rc_objective c) plan fuel 0 0 []) (\<lambda>r. after_discovery e jid run r)))"

definition pause_run :: "renv \<Rightarrow> ident \<Rightarrow> rfault \<Rightarrow> run_result rx" where
  "pause_run e jid f = (case f of
     NoCapacity task tried \<Rightarrow>
       (\<lambda>w. seq (pause_for_capacity jid (''NO_CAPACITY:'' @ task) (now_k w + rn_backoff e)) (\<lambda>_. summary_of jid) w)
   | _ \<Rightarrow> throw f)"

definition enter_running :: "ident \<Rightarrow> job_state \<Rightarrow> unit rx" where
  "enter_running jid st = (if st = RUNNING then ret () else seq (set_phase jid RUNNING None) (\<lambda>_. ret ()))"

definition run_research :: "renv \<Rightarrow> nat \<Rightarrow> ident \<Rightarrow> run_result rx" where
  "run_research e fuel jid =
     seq (read_state e jid) (\<lambda>st.
     if st \<in> {CANCELLED, COMPLETED, FAILED, PAUSED} then summary_of jid
     else seq (enter_running jid st) (\<lambda>_.
          seq (ensure_run e jid) (\<lambda>run. catch (run_loop e fuel jid run) (pause_run e jid))))"

end
