(* ===== verification/Triples.thy ===== *)
theory Triples
  imports Prelude
begin

section \<open>Triples over computations that may raise\<close>

text \<open>
  \<open>triple P m Q E\<close>: started where \<open>P\<close> holds, \<open>m\<close> ends with a result and a state that satisfy \<open>Q\<close>, or raises with an
  exception and a state that satisfy \<open>E\<close>.
\<close>

definition triple ::
  "('s \<Rightarrow> bool) \<Rightarrow> ('s, 'e, 'a) act \<Rightarrow> ('a \<Rightarrow> 's \<Rightarrow> bool) \<Rightarrow> ('e \<Rightarrow> 's \<Rightarrow> bool) \<Rightarrow> bool" where
  "triple P m Q E \<longleftrightarrow> (\<forall>s. P s \<longrightarrow> (case m s of (Inr x, s') \<Rightarrow> Q x s' | (Inl e, s') \<Rightarrow> E e s'))"

named_theorems triple_rules "one rule for each way to build a computation"

lemma tripleI:
  assumes "\<And>s x s'. P s \<Longrightarrow> m s = (Inr x, s') \<Longrightarrow> Q x s'" and "\<And>s e s'. P s \<Longrightarrow> m s = (Inl e, s') \<Longrightarrow> E e s'"
  shows "triple P m Q E"
  using assms by (auto simp: triple_def split: prod.splits sum.splits)

lemma triple_Inr: "triple P m Q E \<Longrightarrow> P s \<Longrightarrow> m s = (Inr x, s') \<Longrightarrow> Q x s'"
  by (force simp: triple_def)

lemma triple_Inl: "triple P m Q E \<Longrightarrow> P s \<Longrightarrow> m s = (Inl e, s') \<Longrightarrow> E e s'"
  by (force simp: triple_def)

lemma triple_weaken:
  assumes "triple P m Q E" and "\<And>s. P' s \<Longrightarrow> P s" and "\<And>x s. Q x s \<Longrightarrow> Q' x s" and "\<And>e s. E e s \<Longrightarrow> E' e s"
  shows "triple P' m Q' E'"
  using assms by (fastforce simp: triple_def split: prod.splits sum.splits)

lemma triple_post: "triple P m Q E \<Longrightarrow> (\<And>x s. Q x s \<Longrightarrow> Q' x s) \<Longrightarrow> triple P m Q' E"
  by (rule triple_weaken)

lemma triple_pre: "triple P m Q E \<Longrightarrow> (\<And>s. P' s \<Longrightarrow> P s) \<Longrightarrow> triple P' m Q E"
  by (rule triple_weaken)

lemma triple_ret: "(\<And>s. P s \<Longrightarrow> Q x s) \<Longrightarrow> triple P (ret x) Q E"
  by (simp add: triple_def ret_def)

lemma triple_throw: "(\<And>s. P s \<Longrightarrow> E e s) \<Longrightarrow> triple P (throw e) Q E"
  by (simp add: triple_def throw_def)

lemma triple_gets: "(\<And>s. P s \<Longrightarrow> Q (f s) s) \<Longrightarrow> triple P (gets f) Q E"
  by (simp add: triple_def gets_def)

lemma triple_modify: "(\<And>s. P s \<Longrightarrow> Q () (f s)) \<Longrightarrow> triple P (modify f) Q E"
  by (simp add: triple_def modify_def)

lemma triple_seq [triple_rules]: "triple P m R E \<Longrightarrow> (\<And>x. triple (R x) (k x) Q E) \<Longrightarrow> triple P (seq m k) Q E"
  by (fastforce simp: triple_def seq_def split: prod.splits sum.splits)

lemma triple_if [triple_rules]:
  "(b \<Longrightarrow> triple P m Q E) \<Longrightarrow> (\<not> b \<Longrightarrow> triple P m' Q E) \<Longrightarrow> triple P (if b then m else m') Q E"
  by simp

lemma triple_option [triple_rules]:
  "(x = None \<Longrightarrow> triple P m Q E) \<Longrightarrow> (\<And>y. x = Some y \<Longrightarrow> triple P (k y) Q E) \<Longrightarrow>
    triple P (case x of None \<Rightarrow> m | Some y \<Rightarrow> k y) Q E"
  by (cases x) auto

lemma triple_assume: "(A \<Longrightarrow> triple P m Q E) \<Longrightarrow> triple (\<lambda>s. P s \<and> A) m Q E"
  by (auto simp: triple_def)

lemma triple_for_each: "(\<And>x. x \<in> set xs \<Longrightarrow> triple P (f x) (\<lambda>_. P) E) \<Longrightarrow> triple P (for_each f xs) (\<lambda>_. P) E"
  by (induction xs) (auto intro!: triple_ret triple_rules)

lemma triple_same: "(\<And>s. P s \<Longrightarrow> P (snd (m s))) \<Longrightarrow> triple P m (\<lambda>_. P) (\<lambda>_. P)"
  unfolding triple_def by (auto split: prod.splits sum.splits) (metis snd_conv)+

lemma triple_snd:
  assumes "triple P m Q E" and "P s" and "\<And>x s. Q x s \<Longrightarrow> R s" and "\<And>e s. E e s \<Longrightarrow> R s"
  shows "R (snd (m s))"
proof (cases "m s")
  case (Pair r s')
  with triple_Inr [OF assms(1,2)] triple_Inl [OF assms(1,2)] assms(3,4) show ?thesis
    by (cases r) auto
qed

text \<open>An invariant that errors need not keep: the transaction is rolled back.\<close>

definition keeps :: "('s \<Rightarrow> bool) \<Rightarrow> ('s, 'e, 'a) act \<Rightarrow> bool" where
  "keeps I m \<longleftrightarrow> triple I m (\<lambda>_. I) (\<lambda>_ _. True)"

lemma keepsI: "(\<And>s x s'. I s \<Longrightarrow> m s = (Inr x, s') \<Longrightarrow> I s') \<Longrightarrow> keeps I m"
  unfolding keeps_def by (rule tripleI) auto

lemma keepsD: "keeps I m \<Longrightarrow> I s \<Longrightarrow> m s = (Inr x, s') \<Longrightarrow> I s'"
  unfolding keeps_def by (rule triple_Inr)

lemma keeps_ret [intro]: "keeps I (ret x)"
  by (simp add: keeps_def triple_ret)

lemma keeps_throw [intro]: "keeps I (throw e)"
  by (simp add: keeps_def triple_throw)

lemma keeps_gets [intro]: "keeps I (gets f)"
  by (simp add: keeps_def triple_gets)

lemma keeps_modify: "(\<And>s. I s \<Longrightarrow> I (f s)) \<Longrightarrow> keeps I (modify f)"
  by (simp add: keeps_def triple_modify)

lemma keeps_seq: "keeps I m \<Longrightarrow> (\<And>x. keeps I (k x)) \<Longrightarrow> keeps I (seq m k)"
  unfolding keeps_def by (rule triple_seq)

lemma keeps_if: "keeps I m \<Longrightarrow> keeps I m' \<Longrightarrow> keeps I (if b then m else m')"
  by simp

lemma keeps_for_each: "(\<And>x. keeps I (f x)) \<Longrightarrow> keeps I (for_each f xs)"
  unfolding keeps_def by (rule triple_for_each)

lemma keeps_triple: "triple I m (\<lambda>x s. I s \<and> R x s) (\<lambda>_ _. True) \<Longrightarrow> keeps I m"
  unfolding keeps_def by (erule triple_post) simp

end
