(* ===== verification/ResearchSteps.thy ===== *)
theory ResearchSteps
  imports ResearchLoop Triples
begin

section \<open>What every run of the research agent keeps\<close>

text \<open>
  The interface between the orchestrator and the desk: a property of the desk that the statements of the run keep,
  each one an operation of the router, the truth layer, the registry, the job manager or the context table, is kept
  by every tool, every turn and every run, however they end and whatever the model answers.
\<close>

subsection \<open>Staying in a property\<close>

text \<open>A computation stays in \<open>I\<close>: it ends in \<open>I\<close>, returning or raising, and running out of fuel is not how it raises.\<close>

definition stays :: "(desk \<Rightarrow> bool) \<Rightarrow> 'a rx \<Rightarrow> bool" where
  "stays I m \<longleftrightarrow> triple I m (\<lambda>_. I) (\<lambda>f w. I w \<and> f \<noteq> Diverges)"

named_theorems stays_rules "one rule for each way to build a computation of the orchestrator"

lemma staysI:
  assumes "\<And>w x w'. I w \<Longrightarrow> m w = (Inr x, w') \<Longrightarrow> I w'"
    and "\<And>w f w'. I w \<Longrightarrow> m w = (Inl f, w') \<Longrightarrow> I w' \<and> f \<noteq> Diverges"
  shows "stays I m"
  unfolding stays_def by (rule tripleI) (use assms in blast)+

lemma staysI_snd:
  assumes "\<And>w. I w \<Longrightarrow> I (snd (m w))" and "\<And>w. I w \<Longrightarrow> fst (m w) \<noteq> Inl Diverges"
  shows "stays I m"
  by (rule staysI) (use assms in \<open>metis fst_conv snd_conv\<close>)+

lemma stays_Inr: "stays I m \<Longrightarrow> I w \<Longrightarrow> m w = (Inr x, w') \<Longrightarrow> I w'"
  unfolding stays_def by (rule triple_Inr)

lemma stays_Inl: "stays I m \<Longrightarrow> I w \<Longrightarrow> m w = (Inl f, w') \<Longrightarrow> I w' \<and> f \<noteq> Diverges"
  unfolding stays_def by (rule triple_Inl)

lemma stays_preserves: "stays I m \<Longrightarrow> preserves I m"
  by (auto simp: preserves_def stays_def elim!: triple_snd)

lemma stays_seq [stays_rules]: "stays I m \<Longrightarrow> (\<And>x. stays I (k x)) \<Longrightarrow> stays I (seq m k)"
  unfolding stays_def by (rule triple_seq)

lemma stays_ret [stays_rules]: "stays I (ret x)"
  by (simp add: stays_def triple_ret)

lemma stays_throw [stays_rules]: "f \<noteq> Diverges \<Longrightarrow> stays I (throw f)"
  by (simp add: stays_def triple_throw)

lemma stays_gets [stays_rules]: "stays I (gets f)"
  by (simp add: stays_def triple_gets)

lemma stays_pure [stays_rules]: "stays I (pure_of r)"
  by (cases r) (simp_all add: pure_of_def stays_ret stays_throw)

lemma stays_pure_w [stays_rules]: "stays I (\<lambda>w. pure_of (f w) w)"
  by (rule staysI) (auto simp: pure_of_def ret_def throw_def split: sum.splits)

lemma stays_modify: "(\<And>w. I w \<Longrightarrow> I (f w)) \<Longrightarrow> stays I (modify f)"
  by (simp add: stays_def triple_modify)

lemma stays_at: "(\<And>v. stays I (m v)) \<Longrightarrow> stays I (\<lambda>w. m (f w) w)"
  by (rule staysI) (auto dest: stays_Inr stays_Inl)

lemma stays_if [stays_rules]: "(b \<Longrightarrow> stays I m) \<Longrightarrow> (\<not> b \<Longrightarrow> stays I m') \<Longrightarrow> stays I (if b then m else m')"
  by simp

lemma stays_case_option [stays_rules]:
  "stays I m \<Longrightarrow> (\<And>y. stays I (k y)) \<Longrightarrow> stays I (case x of None \<Rightarrow> m | Some y \<Rightarrow> k y)"
  by (cases x) auto

lemma stays_case_prod [stays_rules]: "(\<And>a b. stays I (k a b)) \<Longrightarrow> stays I (case p of (a, b) \<Rightarrow> k a b)"
  by (cases p) auto

lemma triple_catch:
  assumes "triple P m Q E" and "\<And>f. triple (E f) (h f) Q E'"
  shows "triple P (catch m h) Q E'"
  using assms(1)
  by (auto simp: triple_def catch_def split: prod.splits sum.splits)
    (use triple_Inr [OF assms(2)] triple_Inl [OF assms(2)] in blast)+

lemma stays_catch [stays_rules]:
  assumes "stays I m" and "\<And>f. f \<noteq> Diverges \<Longrightarrow> stays I (h f)"
  shows "stays I (catch m h)"
  unfolding stays_def
  by (rule triple_catch [OF assms(1) [unfolded stays_def]])
    (use assms(2) in \<open>auto simp: stays_def intro: triple_assume\<close>)

lemma stays_let [stays_rules]: "stays I (k v) \<Longrightarrow> stays I (let x = v in k x)"
  by simp

lemma stays_case_json [stays_rules]:
  "stays I a \<Longrightarrow> (\<And>b. stays I (k1 b)) \<Longrightarrow> (\<And>i. stays I (k2 i)) \<Longrightarrow> (\<And>q. stays I (k3 q)) \<Longrightarrow> (\<And>s. stays I (k4 s))
    \<Longrightarrow> (\<And>xs. stays I (k5 xs)) \<Longrightarrow> (\<And>kvs. stays I (k6 kvs))
    \<Longrightarrow> stays I (case x of JNull \<Rightarrow> a | JBool b \<Rightarrow> k1 b | JInt i \<Rightarrow> k2 i | JReal q \<Rightarrow> k3 q | JStr s \<Rightarrow> k4 s
         | JList xs \<Rightarrow> k5 xs | JObj kvs \<Rightarrow> k6 kvs)"
  by (cases x) auto

lemma stays_expected [stays_rules]:
  "f \<noteq> Diverges \<Longrightarrow> (\<And>m. stays I (k m)) \<Longrightarrow> stays I (case f of QualificationError m \<Rightarrow> k m | _ \<Rightarrow> throw f)"
  by (cases f) (auto intro: stays_throw)

lemma stays_capacity [stays_rules]:
  "f \<noteq> Diverges \<Longrightarrow> (\<And>t ts. stays I (k t ts)) \<Longrightarrow> stays I (case f of NoCapacity t ts \<Rightarrow> k t ts | _ \<Rightarrow> throw f)"
  by (cases f) (auto intro: stays_throw)

lemma stays_for_each [stays_rules]: "(\<And>x. stays I (f x)) \<Longrightarrow> stays I (for_each f xs)"
  by (induction xs) (auto intro: stays_rules)

subsection \<open>The contract\<close>

lemma in_truth_parts:
  "snd (in_truth m w) = w\<lparr>k_truth := snd (m (now_k w) (k_truth w))\<rparr>" "fst (in_truth m w) \<noteq> Inl Diverges"
  by (auto simp: in_truth_def split: prod.splits sum.splits)

lemma in_jobs_parts:
  "snd (in_jobs m w) = w\<lparr>k_jobs := snd (m (now_k w) (k_jobs w))\<rparr>" "fst (in_jobs m w) \<noteq> Inl Diverges"
  by (auto simp: in_jobs_def split: prod.splits sum.splits)

lemma in_registry_parts:
  "snd (in_registry m w) = w\<lparr>k_agents := snd (m (now_k w) (k_agents w))\<rparr>" "fst (in_registry m w) \<noteq> Inl Diverges"
  by (auto simp: in_registry_def split: prod.splits sum.splits)

definition RESEARCH_MOVES :: "job_state list" where
  "RESEARCH_MOVES = [RUNNING, DISCOVERING, VERIFYING, QUALIFYING, WAITING_FOR_USER, READY_FOR_REVIEW, CANCELLED]"

text \<open>A change of a context that leaves its job, its budgets and the count of steps alone.\<close>

definition quiet :: "(rcontext \<Rightarrow> rcontext) \<Rightarrow> bool" where
  "quiet f \<longleftrightarrow> (\<forall>c. rc_job (f c) = rc_job c \<and> rc_budgets (f c) = rc_budgets c
     \<and> counter_of (f c) ''steps'' = counter_of c ''steps'')"

lemma quiet_put: "key \<noteq> ''steps'' \<Longrightarrow> quiet (put_counter key n)"
  by (auto simp: quiet_def put_counter_def counter_of_def update_conv')

locale turn_contract =
  fixes e :: renv and jid :: ident and I :: "desk \<Rightarrow> bool"
  assumes router: "I w \<Longrightarrow> I (w\<lparr>k_router := r\<rparr>)"
    and truth: "I w \<Longrightarrow> truth_step (k_truth w) d \<Longrightarrow> I (w\<lparr>k_truth := d\<rparr>)"
    and agents: "I w \<Longrightarrow> I (w\<lparr>k_agents := g\<rparr>)"
    and contexts: "I w \<Longrightarrow> quiet f \<Longrightarrow> I (upd_context jid f w)"
    and moves: "I w \<Longrightarrow> st \<in> set RESEARCH_MOVES
      \<Longrightarrow> I (w\<lparr>k_jobs := snd (transition now jid st reason (k_jobs w))\<rparr>)"
    and pauses: "I w \<Longrightarrow> I (w\<lparr>k_jobs := snd (pause now jid why tm (k_jobs w))\<rparr>)"
    and reads: "I w \<Longrightarrow> I (w\<lparr>k_reads := n\<rparr>)"
    and browses: "I w \<Longrightarrow> I (w\<lparr>k_manus := n\<rparr>)"
begin

lemma ask [stays_rules]: "stays I (ask e c t p task payload j)"
  by (rule staysI) (auto simp: ask_def router split: prod.splits sum.splits route_error.splits)

lemma need [stays_rules]: "stays I (need_context jid)"
  by (rule staysI) (auto simp: need_context_def split: option.splits)

lemma ctx [stays_rules]: "quiet f \<Longrightarrow> stays I (modify (upd_context jid f))"
  by (rule stays_modify) (rule contexts)

lemma bump [stays_rules]: "key \<noteq> ''steps'' \<Longrightarrow> stays I (bump_counter jid key n)"
  unfolding bump_counter_def by (intro stays_rules quiet_put)

lemma set_count [stays_rules]: "key \<noteq> ''steps'' \<Longrightarrow> stays I (set_counter jid key n)"
  unfolding set_counter_def by (intro stays_rules quiet_put)

lemma marks [stays_rules]: "quiet f \<Longrightarrow> stays I (set_mark jid f)"
  unfolding set_mark_def by (intro stays_rules)

lemma clears [stays_rules]: "stays I (clear_marks jid)"
proof -
  have "quiet (\<lambda>c. c\<lparr>rc_finalizing := False, rc_verdicts := None, rc_stop_mark := None, rc_tried := None\<rparr>)"
    by (simp add: quiet_def counter_of_def)
  then show ?thesis
    unfolding clear_marks_def by (intro stays_modify) (auto simp: contexts split: option.splits)
qed

lemma budget [stays_rules]: "stays I (budget_check jid)"
  by (rule staysI) (auto simp: budget_check_def pure_of_def ret_def throw_def split: option.splits sum.splits)

lemma progress [stays_rules]: "stays I (progress jid)"
  unfolding progress_def by (rule stays_seq [OF budget]) (auto intro!: staysI simp: Let_def)

text \<open>The parts of the desk.\<close>

lemma truth_part:
  assumes "\<And>w. I w \<Longrightarrow> I (w\<lparr>k_truth := snd (m (now_k w) (k_truth w))\<rparr>)"
  shows "stays I (in_truth m)"
  by (rule staysI_snd) (simp_all add: in_truth_parts assms)

lemma truths:
  assumes "\<And>d now. truth_step d (snd (m now d))"
  shows "stays I (in_truth m)"
  by (rule truth_part) (rule truth [OF _ assms])

lemma recording [stays_rules]: "stays I (record_obs e ob)"
  unfolding record_obs_def by (rule truths) (rule ts_record)

lemma visit [stays_rules]: "stays I (in_truth (\<lambda>now. add_visit now j url title st summ))"
  by (rule truths) (rule ts_visit)

lemma verify [stays_rules]: "stays I (in_truth (\<lambda>now. verify_fact ttl now i out conf url provider quote))"
  by (rule truths) (rule ts_verify)

lemma question [stays_rules]: "stays I (in_truth (\<lambda>now. add_open_question now j text kind subj))"
  by (rule truths) (rule ts_ask)

lemma fact_read [stays_rules]: "stays I (in_truth (\<lambda>_. get_fact i))"
  by (rule truth_part) (simp add: get_fact_def split: option.splits)

lemma facts_read [stays_rules]: "stays I (facts_of_subject kind subject)"
proof (rule staysI_snd)
  fix w assume w: "I w"
  have "snd (facts_of_subject kind subject w) = w\<lparr>k_truth := snd (snapshot (now_k w) kind subject (k_truth w))\<rparr>"
    by (simp add: facts_of_subject_def facts_for_qualification_def case_prod_beta Let_def)
  with truth [OF w ts_snapshot] show "I (snd (facts_of_subject kind subject w))" by simp
qed (simp add: facts_of_subject_def case_prod_beta Let_def)

lemma listing [stays_rules]:
  "stays I (\<lambda>w. let (v, d) = snapshot (now_k w) kind subject (k_truth w) in (Inr (f v), w\<lparr>k_truth := d\<rparr>))"
  by (rule staysI_snd) (simp_all add: case_prod_beta Let_def truth ts_snapshot)

lemma job_part:
  assumes "\<And>w. I w \<Longrightarrow> I (w\<lparr>k_jobs := snd (m (now_k w) (k_jobs w))\<rparr>)"
  shows "stays I (in_jobs m)"
  by (rule staysI_snd) (simp_all add: in_jobs_parts assms)

lemma move [stays_rules]: "st \<in> set RESEARCH_MOVES \<Longrightarrow> stays I (in_jobs (\<lambda>now. transition now jid st reason))"
  by (rule job_part) (rule moves)

lemma look [stays_rules]: "stays I (in_jobs (\<lambda>_. current jid))"
  by (rule job_part) (simp add: current_def split: option.splits)

lemma pausing [stays_rules]: "stays I (pause_for_capacity jid reason tm)"
  unfolding pause_for_capacity_def by (rule job_part) (rule pauses)

lemma registry [stays_rules]: "stays I (in_registry m)"
  by (rule staysI_snd) (simp_all add: in_registry_parts agents)

lemma steps [stays_rules]: "stays I (begin_step run name)" "stays I (end_step i st err)"
  by (rule staysI_snd, simp_all add: begin_step_def end_step_def agents case_prod_beta Let_def modify_def)+

lemma cancelling: "stays I (cancel_research jid)"
  unfolding cancel_research_def by (intro stays_rules) (auto simp: quiet_def counter_of_def RESEARCH_MOVES_def)

lemma read_state [stays_rules]: "stays I (read_state e jid)"
proof -
  have stop: "I (user_stop jid w)" if "I w" for w
    using preservesD [OF stays_preserves [OF cancelling] that] that
    by (auto simp: user_stop_def split: option.splits)
  have start: "I ((if b then user_stop jid w else w)\<lparr>k_reads := n\<rparr>)" if "I w" for b w n
    using reads stop that by simp
  show ?thesis
    unfolding read_state_def
    by (rule staysI) (use start stays_Inr [OF look] stays_Inl [OF look] in blast)+
qed

end

subsection \<open>Tools\<close>

context turn_contract
begin

lemma arguments [stays_rules]: "stays I (arg args k)"
  unfolding arg_def by (rule stays_pure)

lemma recordings [stays_rules]: "stays I (record_each e obs)"
  unfolding record_each_def by (intro stays_rules)

lemma counting [stays_rules]: "stays I (count_candidates jid)"
  unfolding count_candidates_def by (rule stays_at) (simp add: set_count)

lemma keeping [stays_rules]: "stays I (keep_found e jid run provider query city country r)"
  unfolding keep_found_def by (intro stays_rules; simp)

lemma keeping_all [stays_rules]: "(\<And>r. stays I (f r)) \<Longrightarrow> stays I (keep_all f rs)"
  by (induction rs) (auto intro!: stays_rules)

lemma searching: "stays I (tool_search e jid run args)"
  unfolding tool_search_def by (intro stays_rules; simp)

lemma clock: "I w \<Longrightarrow> I (sleep ms w)"
  unfolding sleep_def by (rule router)

lemma request [stays_rules]: "stays I (http f)"
proof (rule staysI_snd)
  show "I (snd (http f w))" if "I w" for w
    using router [OF browses [OF that]] that by (cases "rn_manus f") (auto simp: http_def Let_def case_prod_beta)
  show "fst (http f w) \<noteq> Inl Diverges" for w
    by (cases "rn_manus f") (auto simp: http_def Let_def case_prod_beta)
qed

lemma polling: "I w \<Longrightarrow> I (snd (poll_task f til w)) \<and> fst (poll_task f til w) \<noteq> Inl Diverges"
proof (induction f til w rule: poll_task.induct)
  case (1 f til w)
  obtain r w1 where h: "http f w = (r, w1)" by (cases "http f w")
  with stays_Inr [OF request 1(2)] stays_Inl [OF request 1(2)] have w1: "I w1" "r \<noteq> Inl Diverges"
    by (cases r; auto)+
  show ?case
  proof (cases "ms_of w < til")
    case False
    then show ?thesis using 1(2) by (simp add: poll_task.simps [of f til w])
  next
    case True
    note step = poll_task.simps [of f til w] True h
    show ?thesis
    proof (cases r)
      case (Inl x)
      with step w1 show ?thesis by simp
    next
      case (Inr ans)
      show ?thesis
      proof (cases "\<exists>kvs. ans = Some (JObj kvs) \<and> kv_get kvs ''status'' \<notin> {JStr ''completed'', JStr ''failed''}")
        case True
        then obtain kvs where kvs: "ans = Some (JObj kvs)" "kv_get kvs ''status'' \<notin> {JStr ''completed'', JStr ''failed''}"
          by blast
        have "poll_task f til w = poll_task f til (sleep 2000 w1)" using step Inr kvs by simp
        with 1(1) [OF \<open>ms_of w < til\<close> h [symmetric] Inr kvs(1) refl kvs(2) clock [OF w1(1)]] show ?thesis by simp
      next
        case False
        with step Inr w1(1) show ?thesis by (cases ans) (auto split: json.splits)
      qed
    qed
  qed
qed

lemma polling_stays [stays_rules]: "stays I (\<lambda>w. poll_task f (g w) w)"
  by (rule staysI_snd) (simp_all add: polling)

lemma browsing [stays_rules]: "stays I (research_company e subject jid run)"
  unfolding research_company_def read_investigation_def by (intro stays_rules; simp)

lemma investigating: "stays I (tool_research_company e jid run args)"
  unfolding tool_research_company_def by (intro stays_rules; simp)

lemma saving: "stays I (tool_save_fact e jid run args)"
  unfolding tool_save_fact_def by (intro stays_rules; simp)

lemma provider_check [stays_rules]: "stays I (verify_email e m)"
  unfolding verify_email_def via_provider_def role_verdict_def by (intro stays_rules; simp)

lemma address_check [stays_rules]: "stays I (check_address e i m)"
  unfolding check_address_def by (intro stays_rules; simp)

lemma checks_fact: "stays I (tool_verify_fact e jid args)"
  unfolding tool_verify_fact_def by (intro stays_rules; simp)

lemma listed: "stays I (tool_list_facts e args)"
  unfolding tool_list_facts_def by (intro stays_rules; simp)

lemma judging [stays_rules]: "stays I (qualify_from_facts e kind subject icp j)"
  unfolding qualify_from_facts_def ask_model_def read_answer_def read_verdict_def by (intro stays_rules; simp)

lemma qualifying: "stays I (tool_qualify e jid args)"
  unfolding tool_qualify_def by (intro stays_rules; simp)

lemma asking_user: "stays I (tool_ask_user e jid args)"
  unfolding tool_ask_user_def waiting_for_user_def by (intro stays_rules; simp add: RESEARCH_MOVES_def)

lemma tools [stays_rules]: "stays I (run_tool e jid run t args)"
  by (cases t) (simp_all add: searching investigating saving checks_fact listed qualifying asking_user
    stays_rules tool_status_def)

lemma executing [stays_rules]: "stays I (execute_tool e scopes jid run name args)"
  unfolding execute_tool_def perform_def by (intro stays_rules; simp)

end

end
