(* ===== verification/ResearchRun.thy ===== *)
theory ResearchRun
  imports ResearchSteps
begin

section \<open>From the steps to whole runs\<close>

text \<open>
  What the interface of the steps gives for turns, the finalization and runs.  The finalization also writes leads, and a
  run that takes turns also counts its steps: \<open>lead_contract\<close> and \<open>run_contract\<close> add that to the interface.
\<close>

subsection \<open>Turns and the finalization\<close>

context turn_contract
begin

lemma asking_model [stays_rules]: "stays I (ask_pinned e jid p)"
  unfolding ask_pinned_def by (intro stays_rules; simp)

lemma planning [stays_rules]: "stays I (make_plan e jid objective)"
  unfolding make_plan_def by (intro stays_rules; simp)

lemma one_action [stays_rules]: "stays I (run_action e scopes jid run a)"
  unfolding run_action_def by (intro stays_rules; simp)

lemma all_actions [stays_rules]: "stays I (run_actions e scopes jid run as)"
  by (induction as) (auto intro!: stays_rules)

lemma acting [stays_rules]: "stays I (act_on e scopes jid run i data)"
  unfolding act_on_def by (intro stays_rules; simp)

lemma whole_turn [stays_rules]: "stays I (agent_turn e jid run objective plan prev)"
  unfolding agent_turn_def unreadable_def by (intro stays_rules; simp)

lemma summaries [stays_rules]: "stays I (summary_of jid)" "stays I (yield_summary jid)"
  unfolding summary_of_def yield_summary_def by (intro stays_rules)+

lemma marking [stays_rules]: "stays I (set_mark jid (\<lambda>c. c\<lparr>rc_tried := a\<rparr>))" "stays I (set_mark jid (\<lambda>c. c\<lparr>rc_verdicts := v\<rparr>))"
  "stays I (set_mark jid (\<lambda>c. c\<lparr>rc_stop_mark := s\<rparr>))" "stays I (set_mark jid (\<lambda>c. c\<lparr>rc_finalizing := b\<rparr>))"
  by (intro marks, simp add: quiet_def counter_of_def)+

lemma verifying_each [stays_rules]: "stays I (verify_each e jid fs tried)"
  by (induction fs arbitrary: tried) (auto simp: Let_def intro!: stays_rules)

lemma verifying [stays_rules]: "stays I (verify_emails e jid)"
  unfolding verify_emails_def
  by (rule staysI; rule stays_Inr [OF verifying_each] stays_Inl [OF verifying_each]; assumption)

lemma one_company [stays_rules]: "stays I (qualify_subject e jid run icp subject vs)"
  unfolding qualify_subject_def by (intro stays_rules; simp)

lemma companies [stays_rules]: "stays I (qualify_each e jid run icp ss vs)"
  by (induction ss arbitrary: vs) (auto intro!: stays_rules)

lemma all_companies [stays_rules]: "stays I (qualify_all e jid run)"
  unfolding qualify_all_def by (rule staysI; rule stays_Inr [OF companies] stays_Inl [OF companies]; assumption)

end

text \<open>The finalization also writes leads.\<close>

locale lead_contract = turn_contract +
  assumes leads: "I w \<Longrightarrow> I (w\<lparr>k_leads := upsert_row (research_lead e jid s q v w0) (k_leads w)\<rparr>)"
begin

lemma lead_rows [stays_rules]:
  "stays I (modify (\<lambda>w. w\<lparr>k_leads := upsert_row (research_lead e jid s q v w) (k_leads w)\<rparr>))"
  by (rule stays_modify) (rule leads)

lemma materializing_each [stays_rules]: "stays I (materialize_each e jid vs kept skipped)"
  by (induction vs arbitrary: kept skipped) (auto intro!: stays_rules)

lemma materializing [stays_rules]: "stays I (materialize e jid vs)"
  unfolding materialize_def by (intro stays_rules; simp)

lemma context_change [stays_rules]: "quiet f \<Longrightarrow> stays I (modify (upd_context jid f))"
  by (rule ctx)

lemma gating [stays_rules]: "stays I (gate jid reason detail run)"
  unfolding gate_def ready_for_review_def finish_research_def
  by (intro stays_rules; simp add: clears stays_modify agents RESEARCH_MOVES_def quiet_def counter_of_def)

lemma closing_run [stays_rules]: "stays I (after_verdicts e jid run stop vs)"
  unfolding after_verdicts_def by (intro stays_rules; simp)

lemma finalizing [stays_rules]: "stays I (finalize e jid run stop)"
  unfolding finalize_def set_phase_def by (intro stays_rules; simp add: RESEARCH_MOVES_def)

lemma new_run [stays_rules]: "stays I (seq (in_registry m) (\<lambda>i. seq (modify (upd_context jid (\<lambda>c. c\<lparr>rc_run := Some i\<rparr>))) (\<lambda>_. ret i)))"
  by (intro stays_rules) (simp add: quiet_def counter_of_def)

lemma opening_run [stays_rules]: "stays I (ensure_run e jid)"
  unfolding ensure_run_def
  by (rule staysI) (auto simp: Let_def dest: stays_Inr [OF new_run] stays_Inl [OF new_run] split: option.splits if_splits)

lemma plan_stored [stays_rules]: "stays I (set_plan jid p)"
  unfolding set_plan_def by (intro stays_rules) (simp add: quiet_def counter_of_def)

lemma new_plan [stays_rules]:
  "stays I (seq (set_phase jid DISCOVERING r) (\<lambda>_. seq (make_plan e jid obj) (\<lambda>p. seq (set_plan jid p) (\<lambda>_. ret p))))"
  unfolding set_phase_def by (intro stays_rules) (simp add: RESEARCH_MOVES_def)

lemma opening_plan [stays_rules]: "stays I (ensure_plan e jid c)"
  unfolding ensure_plan_def by (auto split: option.splits list.splits intro!: stays_rules)

lemma leaving [stays_rules]: "stays I (after_discovery e jid run r)"
  unfolding after_discovery_def by (cases r) (auto intro!: stays_rules)

lemma entering [stays_rules]: "stays I (enter_running jid st)"
  unfolding enter_running_def set_phase_def by (intro stays_rules; simp add: RESEARCH_MOVES_def)

lemma out_of_capacity [stays_rules]: "f \<noteq> Diverges \<Longrightarrow> stays I (pause_run e jid f)"
  unfolding pause_run_def
  by (rule stays_capacity, assumption) (rule stays_at, intro stays_rules)

end

subsection \<open>Whole runs\<close>

locale run_contract = lead_contract +
  assumes counts: "I w \<Longrightarrow> I (upd_context jid (put_counter ''steps'' n) w)"
begin

lemma stepping: "stays I (bump_counter jid ''steps'' n)"
  unfolding bump_counter_def by (intro stays_rules stays_modify counts)

lemma kept_by_discovery: "preserves I (discover e jid run objective plan fuel seen stall prev)"
proof (induction fuel arbitrary: seen stall prev)
  case (Suc fuel)
  have k: "preserves I m" if "stays I m" for m :: "'b rx" using that by (rule stays_preserves)
  show ?case
    unfolding discover.simps case_prod_beta
    by (intro preserves_seq preserves_if k [OF read_state] k [OF summaries(1)] k [OF summaries(2)])
      (auto simp: Let_def split: option.splits intro!: Suc.IH preserves_seq preserves_ret k [OF budget] k [OF stepping] k [OF whole_turn]
        k [OF bump] k [OF read_state] k [OF summaries(1)])
qed (simp add: preserves_throw)

lemma kept_by_run: "preserves I (run_research e fuel jid)"
proof -
  have k: "preserves I m" if "stays I m" for m :: "'b rx" using that by (rule stays_preserves)
  have loop: "preserves I (run_loop e fuel jid run)" for run
    unfolding run_loop_def
    by (intro preserves_seq preserves_if k [OF need] k [OF finalizing] k [OF opening_plan] kept_by_discovery k [OF leaving])
  have "preserves I (pause_run e jid f)" for f
  proof (cases "f = Diverges")
    case True
    then show ?thesis by (simp add: pause_run_def preserves_throw)
  qed (rule k [OF out_of_capacity])
  then show ?thesis
    unfolding run_research_def
    by (intro preserves_seq preserves_if preserves_catch loop k [OF read_state] k [OF summaries(1)] k [OF entering]
      k [OF opening_run])
qed

end

subsection \<open>How a run ends\<close>

text \<open>The budgets of the run and how many steps it has taken.\<close>

definition at_step :: "ident \<Rightarrow> (string \<times> json) list \<Rightarrow> int \<Rightarrow> desk \<Rightarrow> bool" where
  "at_step jid b n w \<longleftrightarrow> (\<exists>c. context_of jid w = Some c \<and> rc_budgets c = b \<and> counter_of c ''steps'' = n)"

interpretation context_table: keyed_table rc_job .

lemma context_of_upd:
  assumes "\<And>c. rc_job (f c) = rc_job c"
  shows "context_of jid (upd_context jid f w) = map_option (\<lambda>c. (f c)\<lparr>rc_updated := now_k w\<rparr>) (context_of jid w)"
  unfolding context_of_def upd_context_def
  by (cases "row_of rc_job jid (k_contexts w)")
    (use assms row_of_Some [of rc_job jid "k_contexts w"] in \<open>auto simp: context_table.row_of_upd_where\<close>)

lemma context_of_parts [simp]:
  "context_of jid (w\<lparr>k_router := r\<rparr>) = context_of jid w" "context_of jid (w\<lparr>k_truth := d\<rparr>) = context_of jid w"
  "context_of jid (w\<lparr>k_agents := g\<rparr>) = context_of jid w" "context_of jid (w\<lparr>k_leads := ls\<rparr>) = context_of jid w"
  "context_of jid (w\<lparr>k_jobs := js\<rparr>) = context_of jid w" "context_of jid (w\<lparr>k_reads := n\<rparr>) = context_of jid w"
  "context_of jid (w\<lparr>k_manus := n\<rparr>) = context_of jid w"
  by (simp_all add: context_of_def)

lemma counter_of_updated [simp]: "counter_of (c\<lparr>rc_updated := t\<rparr>) k = counter_of c k"
  by (simp add: counter_of_def)

interpretation at_step: lead_contract e jid "at_step jid b n" for e jid b n
proof
  fix w f assume "at_step jid b n w" "quiet f"
  then show "at_step jid b n (upd_context jid f w)"
    by (auto simp: at_step_def quiet_def context_of_upd)
qed (auto simp: at_step_def)

text \<open>Ending at all, and with no more steps than the budget \<open>l\<close> or what was spent before.\<close>

definition in_budget :: "ident \<Rightarrow> (string \<times> json) list \<Rightarrow> int \<Rightarrow> int \<Rightarrow> desk \<Rightarrow> bool" where
  "in_budget jid b l n w \<longleftrightarrow> (\<exists>k \<le> max n l. at_step jid b k w)"

definition ends :: "ident \<Rightarrow> (string \<times> json) list \<Rightarrow> int \<Rightarrow> int \<Rightarrow> 'a rx \<Rightarrow> bool" where
  "ends jid b l n m \<longleftrightarrow> triple (at_step jid b n) m (\<lambda>_. in_budget jid b l n) (\<lambda>f w. in_budget jid b l n w \<and> f \<noteq> Diverges)"

lemma at_step_in_budget: "at_step jid b n w \<Longrightarrow> in_budget jid b l n w"
  unfolding in_budget_def by (intro exI [of _ n]) simp

lemma ends_stays: "stays (at_step jid b n) m \<Longrightarrow> ends jid b l n m"
  unfolding ends_def stays_def by (erule triple_weaken) (auto simp: at_step_in_budget)

lemma ends_in_budget:
  assumes "\<And>k. ends jid b l k m"
  shows "triple (in_budget jid b l n) m (\<lambda>_. in_budget jid b l n) (\<lambda>f w. in_budget jid b l n w \<and> f \<noteq> Diverges)"
proof -
  have up: "in_budget jid b l n w" if "in_budget jid b l k w" "k \<le> max n l" for k w
    using that unfolding in_budget_def by (meson max.bounded_iff max.cobounded2 order_trans)
  show ?thesis
  proof (rule tripleI)
    fix w x w' assume "in_budget jid b l n w" "m w = (Inr x, w')"
    then obtain k where k: "k \<le> max n l" "at_step jid b k w" "m w = (Inr x, w')" by (auto simp: in_budget_def)
    from triple_Inr [OF assms [unfolded ends_def] k(2,3)] k(1) show "in_budget jid b l n w'" by (rule up)
  next
    fix w x w' assume "in_budget jid b l n w" "m w = (Inl x, w')"
    then obtain k where k: "k \<le> max n l" "at_step jid b k w" "m w = (Inl x, w')" by (auto simp: in_budget_def)
    from triple_Inl [OF assms [unfolded ends_def] k(2,3)] up [OF _ k(1)]
    show "in_budget jid b l n w' \<and> x \<noteq> Diverges" by blast
  qed
qed

lemma ends_after: "ends jid b l n m \<Longrightarrow> (\<And>x k. ends jid b l k (f x)) \<Longrightarrow> ends jid b l n (seq m f)"
  unfolding ends_def [of _ _ _ n] by (erule triple_seq) (rule ends_in_budget)

lemma ends_seq:
  assumes "stays (at_step jid b n) m" and "\<And>x. ends jid b l n (f x)"
  shows "ends jid b l n (seq m f)"
  unfolding ends_def
  by (rule triple_seq [where R = "\<lambda>_. at_step jid b n"])
    (use assms in \<open>auto simp: ends_def stays_def at_step_in_budget intro: triple_weaken\<close>)

lemma ends_catch:
  assumes "ends jid b l n m" and "\<And>f k. f \<noteq> Diverges \<Longrightarrow> ends jid b l k (h f)"
  shows "ends jid b l n (catch m h)"
  unfolding ends_def
  by (rule triple_catch [OF assms(1) [unfolded ends_def]], rule triple_assume, rule ends_in_budget, rule assms(2))

lemma scan_reaches:
  assumes "(k, JInt l) \<in> set bs" and "starts_with k ''max_''" and "l \<noteq> 0" and "map_of LIMIT_COUNTERS k = Some ck"
    and "scan_limits c bs snap = Inr (None, snap')"
  shows "counter_of c ck < l"
  using assms by (induction c bs snap rule: scan_limits.induct) (auto simp: Let_def split: if_splits option.splits sum.splits)

lemma steps_remain:
  assumes "(''max_steps'', JInt l) \<in> set b" and "l \<noteq> 0" and "at_step jid b n w"
    and "budget_check jid w = (Inr (None, snap), w')"
  shows "n < l"
  using assms scan_reaches [OF assms(1) _ assms(2), of "''steps''" _ "[]"]
  by (auto simp: at_step_def budget_check_def check_budget_def pure_of_def ret_def throw_def LIMIT_COUNTERS_def
    split: option.splits sum.splits prod.splits if_splits)

lemma ends_if: "(c \<Longrightarrow> ends jid b l n m) \<Longrightarrow> (\<not> c \<Longrightarrow> ends jid b l n m') \<Longrightarrow> ends jid b l n (if c then m else m')"
  by simp

lemma ends_bump:
  assumes "n < l" and "\<And>x. ends jid b l (n + 1) (f x)"
  shows "ends jid b l n (seq (bump_counter jid ''steps'' 1) f)"
proof -
  have "triple (at_step jid b n) (bump_counter jid ''steps'' 1) (\<lambda>_. at_step jid b (n + 1))
      (\<lambda>f w. in_budget jid b l n w \<and> f \<noteq> Diverges)"
  proof (rule tripleI)
    fix w x w' assume "at_step jid b n w" "bump_counter jid ''steps'' 1 w = (Inr x, w')"
    then obtain c where c: "context_of jid w = Some c" "rc_budgets c = b" "counter_of c ''steps'' = n"
      and w': "w' = upd_context jid (put_counter ''steps'' (n + 1)) w"
      by (auto simp: at_step_def bump_counter_def need_context_def seq_def modify_def ret_def)
    show "at_step jid b (n + 1) w'"
      unfolding at_step_def w'
      by (subst context_of_upd) (simp_all add: c put_counter_def counter_of_def update_conv')
  next
    fix w x w' assume "at_step jid b n w" "bump_counter jid ''steps'' 1 w = (Inl x, w')"
    then show "in_budget jid b l n w' \<and> x \<noteq> Diverges"
      by (auto simp: at_step_def bump_counter_def need_context_def seq_def modify_def ret_def)
  qed
  then show ?thesis
    unfolding ends_def [of _ _ _ n]
    by (rule triple_seq)
      (rule triple_weaken [OF assms(2) [unfolded ends_def]]; use assms(1) in \<open>auto simp: in_budget_def max_def split: if_splits\<close>)
qed

lemma ends_budget:
  assumes "(''max_steps'', JInt l) \<in> set b" and "l \<noteq> 0"
    and "\<And>k snap. ends jid b l n (f (Some k, snap))" and "\<And>snap. n < l \<Longrightarrow> ends jid b l n (f (None, snap))"
  shows "ends jid b l n (seq (budget_check jid) f)"
  unfolding ends_def
proof (rule triple_seq [where R = "\<lambda>r w. at_step jid b n w \<and> (fst r = None \<longrightarrow> n < l)"])
  show "triple (at_step jid b n) (budget_check jid) (\<lambda>r w. at_step jid b n w \<and> (fst r = None \<longrightarrow> n < l))
      (\<lambda>f w. in_budget jid b l n w \<and> f \<noteq> Diverges)"
  proof (rule tripleI)
    fix w x w' assume w: "at_step jid b n w" "budget_check jid w = (Inr x, w')"
    with stays_Inr [OF at_step.budget w] steps_remain [OF assms(1,2) w(1)]
    show "at_step jid b n w' \<and> (fst x = None \<longrightarrow> n < l)" by (cases x) auto
  qed (use stays_Inl [OF at_step.budget] at_step_in_budget in blast)
next
  fix x show "triple (\<lambda>w. at_step jid b n w \<and> (fst x = None \<longrightarrow> n < l)) (f x) (\<lambda>_. in_budget jid b l n)
      (\<lambda>f w. in_budget jid b l n w \<and> f \<noteq> Diverges)"
    using assms(3,4) [unfolded ends_def] by (cases x; cases "fst x") (auto simp: triple_def)
qed

lemma ends_ret: "ends jid b l n (ret x)"
  by (auto simp: ends_def at_step_in_budget intro: triple_ret)

lemma discovery_ends:
  assumes "(''max_steps'', JInt l) \<in> set b" and "l \<noteq> 0" and "nat (l - n) < fuel"
  shows "ends jid b l n (discover e jid run objective plan fuel seen stall prev)"
  using assms(3)
proof (induction fuel arbitrary: n seen stall prev)
  case (Suc fuel)
  have look: "ends jid b l k (seq (read_state e jid) f)" if "\<And>x. ends jid b l k (f x)" for k f
    by (rule ends_seq [OF at_step.read_state that])
  have sums: "ends jid b l k (seq (summary_of jid) (\<lambda>s. ret (Leave s)))" "ends jid b l k (seq (yield_summary jid) (\<lambda>s. ret (Leave s)))" for k
    by (rule ends_seq, rule at_step.summaries, rule ends_ret)+
  have "nat (l - (n + 1)) < fuel" if "n < l" using that Suc.prems by linarith
  note again = Suc.IH [OF this]
  show ?case
    unfolding discover.simps case_prod_beta
    by (intro look ends_if sums ends_seq [OF stays_gets] ends_budget [OF assms(1,2)]; simp add: ends_ret Let_def;
      intro conjI impI ends_bump ends_seq [OF at_step.whole_turn] ends_seq [OF at_step.bump] ends_seq [OF stays_gets]; simp;
      intro conjI impI ends_ret look sums ends_if again; simp)
qed simp

lemma plan_ends: "ends jid b l n (ensure_plan e jid c)"
  by (rule ends_stays) (rule at_step.opening_plan)

lemma rest_ends: "ends jid b l k (after_discovery e jid run r)"
  by (rule ends_stays) (rule at_step.leaving)

lemma loop_ends:
  assumes "(''max_steps'', JInt l) \<in> set b" and "l \<noteq> 0" and "nat (l - n) < fuel"
  shows "ends jid b l n (run_loop e fuel jid run)"
proof -
  have go: "ends jid b l n (seq (discover e jid run obj plan fuel 0 0 []) (\<lambda>r. after_discovery e jid run r))" for obj plan
    by (rule ends_after [OF discovery_ends [OF assms] rest_ends])
  show ?thesis
    unfolding run_loop_def
    by (intro ends_seq [OF at_step.need] ends_if ends_stays [OF at_step.finalizing] ends_seq [OF at_step.opening_plan] go)
qed

lemma run_ends:
  assumes "(''max_steps'', JInt l) \<in> set b" and "l \<noteq> 0" and "nat (l - n) < fuel"
  shows "ends jid b l n (run_research e fuel jid)"
proof -
  have "ends jid b l n (catch (run_loop e fuel jid run) (pause_run e jid))" for run
    by (intro ends_catch loop_ends [OF assms] ends_stays at_step.out_of_capacity)
  then show ?thesis
    unfolding run_research_def
    by (intro ends_seq [OF at_step.read_state] ends_if ends_stays [OF at_step.summaries(1)] ends_seq [OF at_step.entering]
      ends_seq [OF at_step.opening_run])
qed

end
