(* ===== verification/WorkerTick.thy ===== *)
theory WorkerTick
  imports JobQueue
begin

section \<open>One scheduling step (lead_engine/worker.py)\<close>

text \<open>
  \<open>run_worker_tick\<close> reaps, leases one job, drives it and settles the lease.  The two ways of driving
  a job (the research orchestrator and the benchmark pipeline) are arguments: functions on the
  database that return a summary or raise.  The two sweeps that may raise (stale agent runs, data
  retention) are given by their outcome, \<open>None\<close> when they raise.  Delivery of events is modelled with
  the outbox; here the tick reports which failure event it emits and how often it flushes the outbox.
\<close>

record summary =
  s_state :: "job_state option"
  s_yielded :: bool
  s_pause_reason :: "string option"

datatype tick_state = InState job_state | AfterFail fail_result

record tick_result =
  t_reclaimed :: nat
  t_stale :: nat
  t_paused_expired :: nat
  t_woken :: nat
  t_retention :: int
  t_leased :: bool
  t_job :: "ident option"
  t_state :: "tick_state option"
  t_error :: "string option"
  t_yielded :: bool
  t_emitted :: "(string \<times> ident \<times> string) list"
  t_flushes :: nat

text \<open>\<open>ResearchJobManager.is_research\<close>: the job's params carry the kind.\<close>

definition is_research :: "ident \<Rightarrow> jdb \<Rightarrow> bool" where
  "is_research jid d =
     (case row_of j_id jid (jobs d) of
        None \<Rightarrow> False
      | Some r \<Rightarrow> map_of (j_params r) ''kind'' = Some (Some ''research''))"

text \<open>Python's \<open>or\<close> on an optional string.\<close>

definition or_str :: "string option \<Rightarrow> string \<Rightarrow> string" where
  "or_str x d = (if truthy x then the x else d)"

definition tick_sweeps ::
  "ts \<Rightarrow> nat option \<Rightarrow> nat option \<Rightarrow> jdb \<Rightarrow> tick_result \<times> jdb" where
  "tick_sweeps now stale retention d0 =
     (let (reclaimed, d1) = reclaim_expired now d0;
          (dropped, d2) = expire_stale_paused now 48 d1;
          (woken, d3) = wake_due_paused now d2
      in (\<lparr>t_reclaimed = reclaimed, t_stale = (case stale of None \<Rightarrow> 0 | Some n \<Rightarrow> n),
           t_paused_expired = dropped, t_woken = woken,
           t_retention = (case retention of None \<Rightarrow> -1 | Some n \<Rightarrow> int n),
           t_leased = False, t_job = None, t_state = None, t_error = None, t_yielded = False,
           t_emitted = [], t_flushes = 0\<rparr>, d3))"

definition settle_research ::
  "ts \<Rightarrow> ident \<Rightarrow> summary \<Rightarrow> tick_result \<Rightarrow> jdb \<Rightarrow> tick_result \<times> jdb" where
  "settle_research now jid s res d =
     (let state = (case s_state s of None \<Rightarrow> READY_FOR_REVIEW | Some st \<Rightarrow> st)
      in if s_yielded s
         then (res\<lparr>t_yielded := True, t_state := Some (InState state)\<rparr>, yield_slice now jid d)
         else if state = PAUSED
         then (res\<lparr>t_state := Some (InState state)\<rparr>,
               snd (fail now jid (or_str (s_pause_reason s) ''paused'') d))
         else (res\<lparr>t_state := Some (InState state)\<rparr>, release now jid d))"

definition settle_benchmark ::
  "ts \<Rightarrow> ident \<Rightarrow> summary \<Rightarrow> tick_result \<Rightarrow> jdb \<Rightarrow> tick_result \<times> jdb" where
  "settle_benchmark now jid s res d =
     (let state = (case s_state s of None \<Rightarrow> COMPLETED | Some st \<Rightarrow> st);
          d' = (if state = PAUSED
                then snd (fail now jid (or_str (s_pause_reason s) ''paused'') d)
                else complete now jid d)
      in (res\<lparr>t_state := Some (InState state), t_flushes := Suc (t_flushes res)\<rparr>, d'))"

definition settle_error :: "ts \<Rightarrow> ident \<Rightarrow> string \<Rightarrow> tick_result \<Rightarrow> jdb \<Rightarrow> tick_result \<times> jdb" where
  "settle_error now jid reason res d =
     (let (st, d') = fail now jid reason d
      in (res\<lparr>t_state := Some (AfterFail st), t_error := Some reason,
             t_emitted := t_emitted res @ [(''job.failed'', jid, reason)],
             t_flushes := Suc (t_flushes res)\<rparr>, d'))"

text \<open>The try block: drive the leased job and settle it, on every path.\<close>

definition drive_job ::
  "ts \<Rightarrow> (ident \<Rightarrow> (jdb, string, summary) act) \<Rightarrow> (ident \<Rightarrow> (jdb, string, summary) act)
    \<Rightarrow> ident \<Rightarrow> tick_result \<Rightarrow> jdb \<Rightarrow> tick_result \<times> jdb" where
  "drive_job later research benchmark jid res d =
     (if is_research jid d
      then (case research jid d of
              (Inl e, d') \<Rightarrow> settle_error later jid e res d'
            | (Inr s, d') \<Rightarrow> settle_research later jid s res d')
      else (case benchmark jid d of
              (Inl e, d') \<Rightarrow> settle_error later jid e res d'
            | (Inr s, d') \<Rightarrow> settle_benchmark later jid s res d'))"

definition run_worker_tick ::
  "bool \<Rightarrow> ident list \<Rightarrow> ts \<Rightarrow> ts \<Rightarrow> string \<Rightarrow> int \<Rightarrow> nat option \<Rightarrow> nat option
    \<Rightarrow> (ident \<Rightarrow> (jdb, string, summary) act) \<Rightarrow> (ident \<Rightarrow> (jdb, string, summary) act)
    \<Rightarrow> jdb \<Rightarrow> tick_result \<times> jdb" where
  "run_worker_tick pg locked now later worker secs stale retention research benchmark d0 =
     (let (res, d1) = tick_sweeps now stale retention d0;
          (leased, d2) = lease_next pg locked now worker secs d1
      in case leased of
           None \<Rightarrow> (res, d2)
         | Some job \<Rightarrow>
             drive_job later research benchmark (j_id job)
               (res\<lparr>t_leased := True, t_job := Some (j_id job)\<rparr>) d2)"

subsection \<open>Lemmas\<close>

text \<open>Every way of settling a job clears its lease.\<close>

definition lease_free :: "ident \<Rightarrow> jdb \<Rightarrow> bool" where
  "lease_free jid d \<longleftrightarrow>
     (\<exists>r. row_of j_id jid (jobs d) = Some r \<and> j_lease r = None \<and> j_worker r = None)"

lemma lease_free_upd:
  assumes "row_of j_id jid (jobs d) = Some r" and "\<And>r. j_id (f r) = j_id r"
    and "\<And>r. j_lease (f r) = None" and "\<And>r. j_worker (f r) = None"
    and "jobs d' = upd_where (\<lambda>x. j_id x = jid) f (jobs d)"
  shows "lease_free jid d'"
  unfolding lease_free_def assms(5)
  using job_table.row_of_upd_own [of f, OF assms(2,1)] assms(3,4) by auto

lemma lease_free_complete: "row_of j_id jid (jobs d) = Some r \<Longrightarrow> lease_free jid (complete now jid d)"
  by (erule lease_free_upd) (auto simp: complete_def)

lemma lease_free_release: "row_of j_id jid (jobs d) = Some r \<Longrightarrow> lease_free jid (release now jid d)"
  by (erule lease_free_upd) (auto simp: release_def)

lemma lease_free_yield: "row_of j_id jid (jobs d) = Some r \<Longrightarrow> lease_free jid (yield_slice now jid d)"
  by (erule lease_free_upd [where f = "yielded_row now"]) (auto simp: yield_slice_def yielded_row_def)

lemma lease_free_fail:
  assumes "row_of j_id jid (jobs d) = Some r"
  shows "lease_free jid (snd (fail now jid why d))"
proof (cases "py_or (j_attempts r) 0 < py_or (j_max_attempts r) 3")
  case True
  with assms show ?thesis
    by (intro lease_free_upd [OF assms,
          where f = "retry_row now why (backoff (py_or (j_attempts r) 0))"])
       (auto simp: fail_def retry_row_def)
next
  case False
  with assms show ?thesis
    by (intro lease_free_upd [OF assms, where f = "gave_up_row now why"])
       (auto simp: fail_def gave_up_row_def)
qed

lemmas lease_free_intros = lease_free_complete lease_free_release lease_free_yield lease_free_fail

lemma settle_research_free:
  "row_of j_id jid (jobs d) = Some r \<Longrightarrow> lease_free jid (snd (settle_research now jid s res d))"
  by (simp add: settle_research_def Let_def lease_free_intros)

lemma settle_benchmark_free:
  "row_of j_id jid (jobs d) = Some r \<Longrightarrow> lease_free jid (snd (settle_benchmark now jid s res d))"
  by (simp add: settle_benchmark_def Let_def lease_free_intros)

lemma settle_error_free:
  "row_of j_id jid (jobs d) = Some r \<Longrightarrow> lease_free jid (snd (settle_error now jid e res d))"
  using lease_free_fail [of jid d r now e] by (auto simp: settle_error_def split: prod.splits)

text \<open>A way of driving a job that never deletes rows of the jobs table.\<close>

definition keeps_rows :: "(ident \<Rightarrow> (jdb, string, summary) act) \<Rightarrow> bool" where
  "keeps_rows run \<longleftrightarrow> (\<forall>jid k d. row_of j_id k (jobs d) \<noteq> None \<longrightarrow> row_of j_id k (jobs (snd (run jid d))) \<noteq> None)"

lemma keeps_rowsD:
  assumes "keeps_rows run" and "row_of j_id k (jobs d) \<noteq> None" and "run jid d = (x, d')"
  obtains r where "row_of j_id k (jobs d') = Some r"
  using assms unfolding keeps_rows_def by (metis not_None_eq snd_conv)

lemma settle_job:
  "t_job (fst (settle_research now jid s res d)) = t_job res"
  "t_job (fst (settle_benchmark now jid s res d)) = t_job res"
  "t_job (fst (settle_error now jid e res d)) = t_job res"
  by (simp_all add: settle_research_def settle_benchmark_def settle_error_def Let_def split: prod.splits)

lemma leased_row_present:
  assumes "lease_next pg l now w secs d = (Some job, d')"
  shows "row_of j_id (j_id job) (jobs d') \<noteq> None"
proof -
  obtain r where r: "r \<in> set (jobs d)" "job = leased_row pg now w secs r"
    and d': "d' = d\<lparr>jobs := upd_where (\<lambda>x. j_id x = j_id r) (leased_row pg now w secs) (jobs d)\<rparr>"
    by (rule lease_next_Some [OF assms]) blast
  have "map j_id (jobs d') = map j_id (jobs d)" by (simp add: d' job_table.keys_upd_where)
  then have "j_id ` set (jobs d') = j_id ` set (jobs d)" by (metis set_map)
  with r show ?thesis by (simp add: row_of_None_iff)
qed

lemma drive_job_settles:
  assumes "keeps_rows research" and "keeps_rows benchmark" and "row_of j_id jid (jobs d) \<noteq> None"
  shows "lease_free jid (snd (drive_job later research benchmark jid res d))
    \<and> t_job (fst (drive_job later research benchmark jid res d)) = t_job res"
proof -
  let ?run = "if is_research jid d then research else benchmark"
  obtain x d' where run: "?run jid d = (x, d')" by (cases "?run jid d")
  have "keeps_rows ?run" using assms(1,2) by simp
  from keeps_rowsD [OF this assms(3) run]
  obtain r where row: "row_of j_id jid (jobs d') = Some r" .
  from run settle_research_free [OF row] settle_benchmark_free [OF row] settle_error_free [OF row]
  show ?thesis
    by (cases "is_research jid d"; cases x) (simp_all add: drive_job_def settle_job)
qed

lemma tick_sweeps_job: "t_job (fst (tick_sweeps now stale ret_days d)) = None"
  by (simp add: tick_sweeps_def case_prod_unfold Let_def)

subsection \<open>Properties\<close>

text \<open>A tick never strands a lease: whichever way driving the job ends (returning any summary,
  yielding, pausing or raising), the job the tick reports has neither a lease nor a worker afterwards,
  provided that driving a job does not delete rows of the jobs table.\<close>

theorem tick_never_strands_a_lease:
  assumes "keeps_rows research" and "keeps_rows benchmark"
    and "run_worker_tick pg locked now later w secs stale ret_days research benchmark d = (res, d')"
    and "t_job res = Some jid"
  shows "lease_free jid d'"
proof -
  obtain res0 d1 where sw: "tick_sweeps now stale ret_days d = (res0, d1)"
    by (cases "tick_sweeps now stale ret_days d")
  obtain leased d2 where l: "lease_next pg locked now w secs d1 = (leased, d2)"
    by (cases "lease_next pg locked now w secs d1")
  show ?thesis
  proof (cases leased)
    case None
    with assms(3,4) sw l tick_sweeps_job [of now stale ret_days d] show ?thesis
      by (simp add: run_worker_tick_def)
  next
    case (Some job)
    let ?res = "res0\<lparr>t_leased := True, t_job := Some (j_id job)\<rparr>"
    have eq: "drive_job later research benchmark (j_id job) ?res d2 = (res, d')"
      using assms(3) sw l Some by (simp add: run_worker_tick_def)
    have "lease_free (j_id job) d' \<and> t_job res = Some (j_id job)"
      using drive_job_settles [OF assms(1,2) leased_row_present [OF l [unfolded Some]], of later ?res]
      unfolding eq by simp
    with assms(4) show ?thesis by simp
  qed
qed

definition pausing_run :: "ident \<Rightarrow> (jdb, string, summary) act" where
  "pausing_run jid = (\<lambda>d.
     (Inr \<lparr>s_state = Some PAUSED, s_yielded = False, s_pause_reason = Some ''no provider''\<rparr>,
      snd (pause 150 jid ''NO_AVAILABLE_PROVIDER'' 1950 d)))"

lemma keeps_rows_pausing: "keeps_rows pausing_run"
proof -
  have "budget_view (jobs (snd (pause 150 jid ''NO_AVAILABLE_PROVIDER'' 1950 d))) = budget_view (jobs d)" for jid d
    using keeps_pause by (simp only: keeps_budget_def)
  moreover have "j_id ` set t = fst ` set (budget_view t)" for t
    by (force simp: budget_view_def)
  ultimately show ?thesis
    by (simp add: keeps_rows_def pausing_run_def row_of_None_iff)
qed

definition last_attempt_db :: jdb where
  "last_attempt_db = \<lparr>jobs = [stuck_job\<lparr>j_state := QUEUED, j_resume_at := None, j_attempts := Some 2\<rparr>],
     job_events = [], db_org = None\<rparr>"

lemma last_attempt_tick:
  "fst (run_worker_tick False [] 100 200 ''w1'' 600 None None pausing_run pausing_run last_attempt_db) =
     \<lparr>t_reclaimed = 0, t_stale = 0, t_paused_expired = 0, t_woken = 0, t_retention = -1, t_leased = True,
      t_job = Some ''job-1'', t_state = Some (InState PAUSED), t_error = None, t_yielded = False,
      t_emitted = [], t_flushes = 1\<rparr>
   \<and> state_of (snd (run_worker_tick False [] 100 200 ''w1'' 600 None None pausing_run pausing_run
       last_attempt_db)) ''job-1'' = Some FAILED"
  by (simp add: run_worker_tick_def tick_sweeps_def reclaim_expired_def expire_stale_paused_def
      wake_due_paused_def Let_def last_attempt_db_def stuck_job_def LEASED_STATES_def rowcount_def
      lease_next_def leasable_def first_min_def coalesce_def leased_row_def drive_job_def is_research_def
      pausing_run_def pause_def transition_def current_def seq_def transition_write_def modify_def
      set_state_def settle_benchmark_def fail_def py_or_def gave_up_row_def state_of_def)

theorem tick_never_strands_a_lease_witness:
  "lease_free ''job-1'' (snd (run_worker_tick False [] 100 200 ''w1'' 600 None None
     pausing_run pausing_run last_attempt_db))"
  by (rule tick_never_strands_a_lease [OF keeps_rows_pausing keeps_rows_pausing surjective_pairing])
     (simp add: last_attempt_tick)

text \<open>Running out of capacity is not free: when a benchmark job pauses because no provider is
  available, the tick hands it to \<open>fail\<close>, so that it loses its PAUSED state at once: it is requeued
  while attempts remain, and FAILED when the pause happened on its last attempt.\<close>

theorem capacity_pause_consumes_the_job:
  assumes "row_of j_id jid (jobs d) = Some r" and "\<not> is_research jid d"
    and "benchmark jid d = (Inr s, d1)" and "s_state s = Some PAUSED"
    and "row_of j_id jid (jobs d1) = Some r1"
  shows "state_of (snd (drive_job now research benchmark jid res d)) jid =
    Some (if py_or (j_attempts r1) 0 < py_or (j_max_attempts r1) 3 then QUEUED else FAILED)"
  using assms
  by (auto simp: drive_job_def settle_benchmark_def Let_def state_of_def fail_def retry_row_def
      gave_up_row_def job_table.row_of_upd_where dest: row_of_Some)

theorem capacity_pause_consumes_the_job_witness:
  "state_of (snd (drive_job 200 pausing_run pausing_run ''job-1'' undefined
     (snd (lease_next False [] 100 ''w1'' 600 last_attempt_db)))) ''job-1'' = Some FAILED"
proof -
  let ?d = "snd (lease_next False [] 100 ''w1'' 600 last_attempt_db)"
  obtain r where r: "row_of j_id ''job-1'' (jobs ?d) = Some r"
    by (simp add: last_attempt_db_def stuck_job_def lease_next_def leasable_def first_min_def coalesce_def)
  obtain s d1 where s: "pausing_run ''job-1'' ?d = (Inr s, d1)" "s_state s = Some PAUSED"
    and d1: "d1 = snd (pause 150 ''job-1'' ''NO_AVAILABLE_PROVIDER'' 1950 ?d)"
    by (simp add: pausing_run_def)
  obtain r1 where r1: "row_of j_id ''job-1'' (jobs d1) = Some r1"
    and a: "j_attempts r1 = Some 3" "j_max_attempts r1 = Some 3"
    by (simp add: d1 last_attempt_db_def stuck_job_def lease_next_def leasable_def first_min_def coalesce_def
        leased_row_def pause_def transition_def current_def seq_def transition_write_def modify_def
        set_state_def rowcount_def)
  have "\<not> is_research ''job-1'' ?d"
    by (simp add: is_research_def last_attempt_db_def stuck_job_def lease_next_def leasable_def
        first_min_def coalesce_def leased_row_def)
  from capacity_pause_consumes_the_job [where benchmark = pausing_run, OF r this s r1] a
  show ?thesis by (simp add: py_or_def)
qed

end
