(* ===== verification/ResearchSafety.thy ===== *)
theory ResearchSafety
  imports ResearchRun WorkerTick
begin

section \<open>What a run of the research agent can and cannot do\<close>

text \<open>
  The interface of the runs on four properties of the desk: the truth layer stays honest, the jobs table changes by
  moves of the job manager, which are then shown to be the chains of legal transitions its contract allows, leads only
  await review, and the steps stay in their budget.  The worker's tick is then
  run with this orchestrator as its way of driving research jobs.
\<close>

subsection \<open>Jobs\<close>

inductive research_step :: "ident \<Rightarrow> jdb \<Rightarrow> jdb \<Rightarrow> bool" for jid where
  rs_move: "st \<in> set RESEARCH_MOVES \<Longrightarrow> research_step jid d (snd (transition now jid st reason d))"
| rs_pause: "research_step jid d (snd (pause now jid why tm d))"

interpretation jobs_run: run_contract e jid "\<lambda>w. (research_step jid)\<^sup>*\<^sup>* d (k_jobs w)" for e jid d
  by unfold_locales
    (auto simp: upd_context_def intro: rtranclp.rtrancl_into_rtrancl rs_move rs_pause)

lemma research_jobs: "(research_step jid)\<^sup>*\<^sup>* (k_jobs w) (k_jobs (snd (run_research e fuel jid w)))"
  using preservesD [OF jobs_run.kept_by_run, of jid "k_jobs w" w e fuel] by simp

text \<open>A move of the job changes no other row, removes none, and never completes or fails it.\<close>

definition supervised :: "ident \<Rightarrow> jdb \<Rightarrow> jdb \<Rightarrow> bool" where
  "supervised jid d d' \<longleftrightarrow> map j_id (jobs d') = map j_id (jobs d)
     \<and> (\<forall>k. k \<noteq> jid \<longrightarrow> row_of j_id k (jobs d') = row_of j_id k (jobs d))
     \<and> (\<forall>st \<in> {COMPLETED, FAILED}. state_of d' jid = Some st \<longrightarrow> state_of d jid = Some st)"

lemma supervised_refl: "supervised jid d d"
  by (simp add: supervised_def)

lemma supervised_trans: "supervised jid d d' \<Longrightarrow> supervised jid d' d'' \<Longrightarrow> supervised jid d d''"
  by (simp add: supervised_def)

lemma supervised_transition:
  assumes "st \<notin> {COMPLETED, FAILED}"
  shows "supervised jid d (snd (transition now jid st reason d))"
proof (cases "transition now jid st reason d")
  case (Pair r d')
  show ?thesis
  proof (cases r)
    case (Inl x)
    with Pair transition_raises_unchanged [of now jid st reason d] show ?thesis by (auto simp: supervised_refl)
  next
    case (Inr x)
    with Pair obtain row where js: "row_of j_id jid (jobs d) = Some row"
        "jobs d' = upd_where (\<lambda>y. j_id y = jid \<and> j_state y = j_state row) (set_state now st reason) (jobs d)"
      by (metis transition_ok)
    then have "state_of d' jid = Some st" by (simp add: state_of_def job_table.row_of_upd_key)
    with js assms Pair show ?thesis
      by (auto simp: supervised_def job_table.row_of_upd_other job_table.keys_upd_where)
  qed
qed

lemma supervised_pause: "supervised jid d (snd (pause now jid why tm d))"
proof (cases "transition now jid PAUSED (Some why) d")
  case (Pair r d')
  have one: "supervised jid d d'" using supervised_transition [of PAUSED jid d now "Some why"] Pair by simp
  have "supervised jid d' (d'\<lparr>jobs := upd_where (\<lambda>r. j_id r = jid) (\<lambda>r. r\<lparr>j_resume_at := Some tm\<rparr>) (jobs d')\<rparr>)"
    by (cases "row_of j_id jid (jobs d')")
      (simp_all add: supervised_def job_table.row_of_upd_other job_table.row_of_upd_where job_table.keys_upd_where state_of_def)
  with one Pair show ?thesis
    by (cases r) (auto simp: pause_def seq_def modify_def intro: supervised_trans)
qed

lemma supervised_steps: "(research_step jid)\<^sup>*\<^sup>* d d' \<Longrightarrow> supervised jid d d'"
proof (induction rule: rtranclp_induct)
  case (step d1 d2)
  from step.hyps(2) have "supervised jid d1 d2"
    by cases (auto simp: supervised_pause RESEARCH_MOVES_def intro!: supervised_transition)
  with step.IH show ?case by (rule supervised_trans)
qed (rule supervised_refl)

text \<open>The contract of the job manager for one job: a log that is a chain of legal transitions and a row that follows it.\<close>

definition RUN_TARGETS :: "job_state set" where
  "RUN_TARGETS = {RUNNING, DISCOVERING, VERIFYING, QUALIFYING, WAITING_FOR_USER, READY_FOR_REVIEW, CANCELLED, PAUSED}"

definition managed :: "ident \<Rightarrow> jdb \<Rightarrow> jdb \<Rightarrow> bool" where
  "managed jid d d' \<longleftrightarrow>
     map j_id (jobs d') = map j_id (jobs d) \<and> (\<forall>k. k \<noteq> jid \<longrightarrow> row_of j_id k (jobs d') = row_of j_id k (jobs d))
     \<and> (\<exists>evs. job_events d' = job_events d @ evs \<and> (\<forall>e \<in> set evs. e_job e = jid \<and> e_to e \<in> RUN_TARGETS)
          \<and> (case row_of j_id jid (jobs d) of
                None \<Rightarrow> evs = [] \<and> jobs d' = jobs d
              | Some r \<Rightarrow> \<exists>r'. row_of j_id jid (jobs d') = Some r' \<and> chain (j_state r) evs (j_state r')
                  \<and> r' = r\<lparr>j_state := j_state r', j_pause_reason := j_pause_reason r', j_resume_at := j_resume_at r',
                          j_updated := j_updated r'\<rparr>))"

lemma managed_refl: "managed jid d d"
  by (auto simp: managed_def split: option.splits)

lemma managed_trans:
  assumes "managed jid d d'" and "managed jid d' d''"
  shows "managed jid d d''"
proof (cases "row_of j_id jid (jobs d)")
  case None
  with assms show ?thesis by (auto simp: managed_def)
next
  case (Some r)
  obtain evs r' where 1: "job_events d' = job_events d @ evs" "\<forall>e \<in> set evs. e_job e = jid \<and> e_to e \<in> RUN_TARGETS"
      "row_of j_id jid (jobs d') = Some r'" "chain (j_state r) evs (j_state r')"
      "r' = r\<lparr>j_state := j_state r', j_pause_reason := j_pause_reason r', j_resume_at := j_resume_at r', j_updated := j_updated r'\<rparr>"
    using assms(1) Some by (auto simp: managed_def)
  obtain evs' r'' where 2: "job_events d'' = job_events d' @ evs'" "\<forall>e \<in> set evs'. e_job e = jid \<and> e_to e \<in> RUN_TARGETS"
      "row_of j_id jid (jobs d'') = Some r''" "chain (j_state r') evs' (j_state r'')"
      "r'' = r'\<lparr>j_state := j_state r'', j_pause_reason := j_pause_reason r'', j_resume_at := j_resume_at r'', j_updated := j_updated r''\<rparr>"
    using assms(2) 1(3) by (auto simp: managed_def)
  have "r'' = r\<lparr>j_state := j_state r'', j_pause_reason := j_pause_reason r'', j_resume_at := j_resume_at r'', j_updated := j_updated r''\<rparr>"
    by (subst 2(5), subst 1(5)) simp
  moreover have "job_events d'' = job_events d @ (evs @ evs')" "\<forall>e \<in> set (evs @ evs'). e_job e = jid \<and> e_to e \<in> RUN_TARGETS"
    using 1(1,2) 2(1,2) by auto
  moreover have "map j_id (jobs d'') = map j_id (jobs d)" "\<forall>k. k \<noteq> jid \<longrightarrow> row_of j_id k (jobs d'') = row_of j_id k (jobs d)"
    using assms by (simp_all add: managed_def)
  ultimately show ?thesis
    unfolding managed_def Some option.case using chain_append [OF 1(4) 2(4)] 2(3) by blast
qed

lemma managed_transition:
  assumes "st \<in> RUN_TARGETS"
  shows "managed jid d (snd (transition now jid st reason d))"
proof (cases "transition now jid st reason d")
  case (Pair r d')
  show ?thesis
  proof (cases r)
    case (Inl x)
    with Pair transition_raises_unchanged [of now jid st reason d] show ?thesis by (auto simp: managed_refl)
  next
    case (Inr x)
    with Pair have "transition now jid st reason d = (Inr x, d')" by simp
    then obtain row where js: "row_of j_id jid (jobs d) = Some row" "st \<in> set (TRANSITIONS (j_state row))"
        "jobs d' = upd_where (\<lambda>y. j_id y = jid \<and> j_state y = j_state row) (set_state now st reason) (jobs d)"
        "job_events d' = job_events d @ [\<lparr>e_ts = now, e_job = jid, e_from = j_state row, e_to = st, e_reason = reason\<rparr>]"
      by (rule transition_ok)
    let ?ev = "\<lparr>e_ts = now, e_job = jid, e_from = j_state row, e_to = st, e_reason = reason\<rparr>"
    have row: "row_of j_id jid (jobs d') = Some (set_state now st reason row)"
      using js(1,3) by (simp add: job_table.row_of_upd_key)
    have "map j_id (jobs d') = map j_id (jobs d)" "\<forall>k. k \<noteq> jid \<longrightarrow> row_of j_id k (jobs d') = row_of j_id k (jobs d)"
      unfolding js(3) by (simp_all add: job_table.row_of_upd_other job_table.keys_upd_where)
    moreover have "set_state now st reason row = row\<lparr>j_state := j_state (set_state now st reason row),
        j_pause_reason := j_pause_reason (set_state now st reason row), j_resume_at := j_resume_at (set_state now st reason row),
        j_updated := j_updated (set_state now st reason row)\<rparr>"
      by (simp add: set_state_def)
    moreover have "chain (j_state row) [?ev] (j_state (set_state now st reason row))"
      using js(2) by (simp add: set_state_def)
    moreover have "\<forall>e \<in> set [?ev]. e_job e = jid \<and> e_to e \<in> RUN_TARGETS" using assms by simp
    ultimately have "managed jid d d'"
      unfolding managed_def js(1) option.case using row js(4) by blast
    with Pair show ?thesis by simp
  qed
qed

lemma managed_pause: "managed jid d (snd (pause now jid why tm d))"
proof (cases "transition now jid PAUSED (Some why) d")
  case (Pair r d')
  have one: "managed jid d d'" using managed_transition [of PAUSED jid d now "Some why"] Pair by (simp add: RUN_TARGETS_def)
  have "managed jid d' (d'\<lparr>jobs := upd_where (\<lambda>r. j_id r = jid) (\<lambda>r. r\<lparr>j_resume_at := Some tm\<rparr>) (jobs d')\<rparr>)"
  proof (cases "row_of j_id jid (jobs d')")
    case None
    then have "\<forall>x \<in> set (jobs d'). j_id x \<noteq> jid" by (auto simp: row_of_None_iff)
    then have "upd_where (\<lambda>r. j_id r = jid) (\<lambda>r. r\<lparr>j_resume_at := Some tm\<rparr>) (jobs d') = jobs d'"
      by (induction "jobs d'") (auto simp: upd_where_def map_idI)
    with None show ?thesis by (simp add: managed_def)
  next
    case (Some x)
    then show ?thesis
      by (simp add: managed_def job_table.row_of_upd_other job_table.row_of_upd_where job_table.keys_upd_where)
  qed
  with one Pair show ?thesis
    by (cases r) (auto simp: pause_def seq_def modify_def intro: managed_trans)
qed

lemma managed_steps: "(research_step jid)\<^sup>*\<^sup>* d d' \<Longrightarrow> managed jid d d'"
proof (induction rule: rtranclp_induct)
  case (step d1 d2)
  from step.hyps(2) have "managed jid d1 d2"
    by cases (auto simp: managed_pause RESEARCH_MOVES_def RUN_TARGETS_def intro!: managed_transition)
  with step.IH show ?case by (rule managed_trans)
qed (rule managed_refl)

interpretation leads_kept: turn_contract e jid "\<lambda>w. k_leads w = t" for e jid t
  by unfold_locales (auto simp: upd_context_def)

subsection \<open>Leads\<close>

definition from_run :: "ident \<Rightarrow> rlead \<Rightarrow> bool" where
  "from_run jid l \<longleftrightarrow> rl_job l = Some jid
     \<and> rl_stage l = (if rl_legal l = LegalIs LegalRejected then StageRejected else StageReview)"

text \<open>Every lead is the one that was there or one of this run that awaits review; what a human decided stays.\<close>

definition awaits_review :: "ident \<Rightarrow> rlead option \<Rightarrow> rlead option \<Rightarrow> bool" where
  "awaits_review jid old new \<longleftrightarrow> (case new of
       None \<Rightarrow> old = None
     | Some l' \<Rightarrow> (case old of
           None \<Rightarrow> rl_disposition l' = None \<and> from_run jid l'
         | Some l \<Rightarrow> rl_disposition l' = rl_disposition l \<and> (l' = l \<or> from_run jid l')))"

definition review_only :: "ident \<Rightarrow> rlead list \<Rightarrow> rlead list \<Rightarrow> bool" where
  "review_only jid t t' \<longleftrightarrow> (\<forall>i. awaits_review jid (row_of rl_id i t) (row_of rl_id i t'))"

lemma keep_decision_simps [simp]:
  "rl_id (keep_decision x l) = rl_id l" "rl_disposition (keep_decision x l) = rl_disposition x"
  by (simp_all add: keep_decision_def)

lemma row_of_replaced:
  "(\<And>x. rl_id (f x) = k) \<Longrightarrow> row_of rl_id i (upd_where (\<lambda>x. rl_id x = k) f t) =
    (if i = k then map_option f (row_of rl_id i t) else row_of rl_id i t)"
  by (induction t) auto

lemma row_of_upsert:
  "row_of rl_id i (upsert_row l t) = (if i = rl_id l
     then Some (case row_of rl_id i t of None \<Rightarrow> l | Some x \<Rightarrow> keep_decision x l) else row_of rl_id i t)"
proof (cases "row_of rl_id (rl_id l) t")
  case None
  then show ?thesis by (cases "row_of rl_id i t") (auto simp: upsert_row_def)
next
  case (Some x)
  then show ?thesis by (simp add: upsert_row_def row_of_replaced)
qed

lemma review_only_refl: "review_only jid t t"
  by (auto simp: review_only_def awaits_review_def split: option.splits)

lemma from_run_disposition [simp]: "from_run jid (keep_decision x l) = from_run jid l"
  by (simp add: from_run_def keep_decision_def)

lemma fresh_lead: "rl_disposition (research_lead e jid s q v w) = None"
  by (simp add: research_lead_def Let_def)

lemma from_run_research: "from_run jid (research_lead e jid s q v w)"
  by (simp add: from_run_def research_lead_def Let_def legal_gate_def)

lemma upsert_review:
  assumes "review_only jid t t'" and "from_run jid l" and "rl_disposition l = None"
  shows "review_only jid t (upsert_row l t')"
  unfolding review_only_def
proof
  fix i
  have "awaits_review jid (row_of rl_id i t) (row_of rl_id i t')" using assms(1) by (simp add: review_only_def)
  then show "awaits_review jid (row_of rl_id i t) (row_of rl_id i (upsert_row l t'))"
    using assms(2,3) unfolding row_of_upsert awaits_review_def
    by (cases "row_of rl_id i t'"; cases "row_of rl_id i t") auto
qed

interpretation leads_run: run_contract e jid "\<lambda>w. review_only jid t (k_leads w)" for e jid t
proof unfold_locales
  fix w s q v w0 assume "review_only jid t (k_leads w)"
  then show "review_only jid t (k_leads (w\<lparr>k_leads := upsert_row (research_lead e jid s q v w0) (k_leads w)\<rparr>))"
    by (simp add: upsert_review from_run_research fresh_lead)
qed (auto simp: upd_context_def)

interpretation honest_run: run_contract e jid "\<lambda>w. honest (k_truth w)" for e jid
  by unfold_locales (auto simp: upd_context_def intro: honest_step)

subsection \<open>A desk and an environment to try things on\<close>

definition quiet_env :: renv where
  "quiet_env = \<lparr>rn_respond = demo_respond, rn_cf = demo_settings, rn_u = ascii_unicode, rn_uuid = show_nat,
     rn_parse = (\<lambda>_. None), rn_str = (\<lambda>_. []), rn_render = (\<lambda>_. ''prompt''), rn_snap = (\<lambda>_. []), rn_addr_ok = (\<lambda>_. True),
     rn_stops = (\<lambda>_. False), rn_deadline = None, rn_backoff = 1800, rn_research = [],
     rn_weights = \<lparr>we_qualification = 35/100, we_evidence = 20/100, we_contact = 35/100, we_verification = 10/100\<rparr>,
     rn_legal = \<lparr>lr_types = (\<lambda>_. None), lr_sources = (\<lambda>_. None), lr_purposes = (\<lambda>_. False), lr_retention = None\<rparr>,
     rn_manus = None\<rparr>"

definition research_job :: "job_state \<Rightarrow> job" where
  "research_job st = \<lparr>j_id = ''r-1'', j_icp = ''agentic'', j_state = st, j_params = [(''kind'', Some ''research'')],
     j_pause_reason = None, j_resume_at = None, j_worker = None, j_lease = None, j_attempts = Some 0,
     j_max_attempts = Some 3, j_created = 1, j_updated = 1, j_org = ''shared''\<rparr>"

definition dentists :: rcontext where
  "dentists = \<lparr>rc_job = ''r-1'', rc_org = None, rc_objective = ''dental clinics in Riyadh'', rc_icp = None, rc_run = None,
     rc_plan = None, rc_budgets = DEFAULT_BUDGETS, rc_counters = [(''steps'', 2)], rc_finalizing = False,
     rc_stop_mark = None, rc_verdicts = None, rc_tried = None, rc_stop = None, rc_detail = None, rc_parent = None,
     rc_created = 1, rc_updated = 1\<rparr>"

definition desk_with :: "job_state \<Rightarrow> desk" where
  "desk_with st = \<lparr>k_router = demo_world, k_jobs = \<lparr>jobs = [research_job st], job_events = [], db_org = None\<rparr>,
     k_truth = empty_truth, k_agents = empty_registry, k_contexts = [dentists], k_leads = [], k_reads = 0, k_manus = 0\<rparr>"

lemma desk_context: "context_of ''r-1'' (desk_with st) = Some dentists"
  by (simp add: context_of_def desk_with_def dentists_def)

text \<open>A model that asks the user a question and says in the same answer that it is done.\<close>

definition asking_respond :: responder where
  "asking_respond n a task payload = (Answers \<lparr>an_body = ''body'', an_units = 1, an_remaining = None,
       an_credits = None, an_prompt = 0, an_completion = 0\<rparr>, 20)"

fun asking_parse :: "string \<Rightarrow> json option" where
  "asking_parse s = (if s = ''body'' then Some (JObj [(''text'', JStr ''turn'')])
       else if s = ''turn'' then Some (JObj [(''done'', JBool True), (''actions'', JList [JObj [(''tool'', JStr ''ask_user''),
         (''args'', JObj [(''question'', JStr ''which city?'')])]])])
       else None)"

definition asking_env :: renv where
  "asking_env = quiet_env\<lparr>rn_respond := asking_respond, rn_parse := asking_parse\<rparr>"

definition asking_registry :: gdb where
  "asking_registry = empty_registry\<lparr>
     g_agents := [\<lparr>ag_id = ''a-1'', ag_slug = AGENT_SLUG, ag_name = ''research'', ag_status = ''ACTIVE'', ag_version = Some ''v1'', ag_updated = 1\<rparr>],
     g_versions := [\<lparr>av_agent = ''a-1'', av_version = ''v1'', av_provider = None,
       av_policy = JObj [(''scopes'', JList [JStr ''interaction:write''])], av_status = ''ACTIVE'', av_created = 1\<rparr>]\<rparr>"

definition asking_desk :: "job_state \<Rightarrow> desk" where
  "asking_desk st = (desk_with st)\<lparr>k_agents := asking_registry,
     k_router := demo_world\<lparr>w_reg := \<lparr>rg_rows = [(search_row ''brave'' 1 Active None)\<lparr>pr_task := ''reasoning''\<rparr>],
       rg_usage = [], rg_org = None, rg_pg = False\<rparr>\<rparr>\<rparr>"

subsection \<open>Properties\<close>

text \<open>C4: A research run ends.  With a step budget other than zero, fuel for the steps that are left and one more is
  enough: the loop of turns never runs out of it, whatever the model, the providers and the user do, and the run takes
  no more steps than the budget allows.\<close>

theorem research_run_ends:
  assumes "context_of jid w = Some c" and "(''max_steps'', JInt l) \<in> set (rc_budgets c)" and "l \<noteq> 0"
    and "nat (l - counter_of c ''steps'') < fuel"
  shows "fst (run_research e fuel jid w) \<noteq> Inl Diverges
    \<and> counter jid ''steps'' (snd (run_research e fuel jid w)) \<le> max (counter_of c ''steps'') l"
proof -
  let ?n = "counter_of c ''steps''"
  have w: "at_step jid (rc_budgets c) ?n w" using assms(1) by (simp add: at_step_def)
  note run = run_ends [OF assms(2-4), of jid e, unfolded ends_def]
  obtain r w' where r: "run_research e fuel jid w = (r, w')" by (cases "run_research e fuel jid w")
  have "in_budget jid (rc_budgets c) l ?n w' \<and> r \<noteq> Inl Diverges"
    using r triple_Inr [OF run w] triple_Inl [OF run w] by (cases r) auto
  then show ?thesis
    using r by (auto simp: in_budget_def at_step_def counter_def)
qed

lemma research_run_ends_witness:
  "fst (run_research quiet_env 39 ''r-1'' (desk_with QUEUED)) \<noteq> Inl Diverges"
  using research_run_ends [OF desk_context [of QUEUED], of 40 39 quiet_env]
  by (simp add: dentists_def DEFAULT_BUDGETS_def counter_of_def)

text \<open>C12: A run refines the job manager.  Whatever happens in it, what it has added to the log of job events is a chain
  of legal transitions of its own job, from the state the row had before to the state it has now, to working states,
  WAITING_FOR_USER, PAUSED, READY_FOR_REVIEW or CANCELLED and never to COMPLETED, FAILED, RESUMING, DEGRADED or QUEUED; of
  the row itself nothing but the state, the pause reason, the time of resumption and the time stamp has changed, and no
  other row at all.  A run on a job that is not there changes nothing of the jobs.\<close>

theorem research_refines_job_manager:
  "managed jid (k_jobs w) (k_jobs (snd (run_research e fuel jid w)))"
  by (rule managed_steps [OF research_jobs])

lemma research_refines_job_manager_witness:
  "\<exists>evs. job_events (k_jobs (snd (run_research asking_env 3 ''r-1'' (asking_desk QUEUED)))) = evs
     \<and> map e_to evs = [RUNNING, DISCOVERING, WAITING_FOR_USER] \<and> chain QUEUED evs WAITING_FOR_USER"
proof -
  let ?run = "snd (run_research asking_env 3 ''r-1'' (asking_desk QUEUED))"
  have "map e_to (job_events (k_jobs ?run)) = [RUNNING, DISCOVERING, WAITING_FOR_USER]
      \<and> map_option j_state (row_of j_id ''r-1'' (jobs (k_jobs ?run))) = Some WAITING_FOR_USER"
    by code_simp
  moreover have "job_events (k_jobs (asking_desk QUEUED)) = []"
      "row_of j_id ''r-1'' (jobs (k_jobs (asking_desk QUEUED))) = Some (research_job QUEUED)" "j_state (research_job QUEUED) = QUEUED"
    by (simp_all add: asking_desk_def desk_with_def research_job_def)
  ultimately show ?thesis
    using research_refines_job_manager [of "''r-1''" "asking_desk QUEUED" asking_env 3] by (auto simp: managed_def)
qed

text \<open>C2: The agent decides nothing.  After a run, however it ended, no other job has changed and none is gone, the job
  itself is COMPLETED or FAILED only if it was so before, and every lead is the one that was there or one of this
  run in stage REVIEW, or REJECTED by the legal policy; no decision a human has taken on a lead is changed and none is made.\<close>

theorem agent_decides_nothing:
  "supervised jid (k_jobs w) (k_jobs (snd (run_research e fuel jid w)))
   \<and> review_only jid (k_leads w) (k_leads (snd (run_research e fuel jid w)))"
  using supervised_steps [OF research_jobs, of jid w e fuel]
    preservesD [OF leads_run.kept_by_run, of jid "k_leads w" w e fuel] review_only_refl by blast

text \<open>C8: The agent keeps the truth layer honest: started on an honest store, a run leaves one, whatever the model
  claims, the providers return and wherever the run stops: no fact is VERIFIED while an open conflict names it, every
  fact has a source, and no value is recorded twice.\<close>

theorem agent_keeps_truth_honest:
  assumes "honest (k_truth w)"
  shows "honest (k_truth (snd (run_research e fuel jid w)))"
  using preservesD [OF honest_run.kept_by_run assms] .

lemma agent_keeps_truth_honest_witness:
  "honest (k_truth (snd (run_research quiet_env 39 ''r-1'' (desk_with QUEUED))))"
  by (rule agent_keeps_truth_honest) (simp add: desk_with_def honest_def empty_truth_def uncontested_def sourced_def)

text \<open>The tick with this orchestrator: \<open>ResearchOrchestrator(...).run()\<close> on the tick's own database; an exception
  reaches the tick as its text.\<close>

definition research_driver ::
  "renv \<Rightarrow> nat \<Rightarrow> (rfault \<Rightarrow> string) \<Rightarrow> desk \<Rightarrow> ident \<Rightarrow> (jdb, string, summary) act" where
  "research_driver e fuel str w jid = (\<lambda>d.
     case run_research e fuel jid (w\<lparr>k_jobs := d\<rparr>) of
       (Inl f, w') \<Rightarrow> (Inl (str f), k_jobs w')
     | (Inr (p, late), w') \<Rightarrow>
         (Inr \<lparr>s_state = pg_state p, s_yielded = late, s_pause_reason = pg_pause p\<rparr>, k_jobs w'))"

lemma driver_jobs: "snd (research_driver e fuel str w jid d) = k_jobs (snd (run_research e fuel jid (w\<lparr>k_jobs := d\<rparr>)))"
  by (auto simp: research_driver_def split: prod.splits sum.splits)

lemma research_keeps_rows: "keeps_rows (research_driver e fuel str w)"
proof -
  have "map j_id (jobs (snd (research_driver e fuel str w jid d))) = map j_id (jobs d)" for jid d
    using supervised_steps [OF research_jobs, of jid "w\<lparr>k_jobs := d\<rparr>" e fuel]
    by (simp add: supervised_def driver_jobs)
  then show ?thesis
    unfolding keeps_rows_def row_of_None_iff by (metis list.set_map)
qed

text \<open>C27: The worker and the research orchestrator together: however a tick that drives its research jobs with this
  orchestrator ends (the run returns, yields, pauses for capacity, waits for the user, is cancelled or raises), the
  job the tick reports has neither a lease nor a worker afterwards.\<close>

theorem research_tick_never_strands_a_lease:
  assumes "keeps_rows benchmark"
    and "run_worker_tick pg locked now later wk secs stale ret_days (research_driver e fuel str w) benchmark d = (res, d')"
    and "t_job res = Some jid"
  shows "lease_free jid d'"
  by (rule tick_never_strands_a_lease [OF research_keeps_rows assms])

lemma research_tick_never_strands_a_lease_witness:
  "lease_free ''r-1'' (snd (run_worker_tick False [] 100 200 ''w1'' 600 None None
     (research_driver quiet_env 39 (\<lambda>_. ''error'') (desk_with QUEUED)) pausing_run (k_jobs (desk_with QUEUED))))"
proof -
  let ?run = "research_driver quiet_env 39 (\<lambda>_. ''error'') (desk_with QUEUED)"
  let ?tick = "run_worker_tick False [] 100 200 ''w1'' 600 None None ?run pausing_run (k_jobs (desk_with QUEUED))"
  obtain res d1 where s: "tick_sweeps 100 None None (k_jobs (desk_with QUEUED)) = (res, d1)"
    by (cases "tick_sweeps 100 None None (k_jobs (desk_with QUEUED))")
  obtain l d2 where l: "lease_next False [] 100 ''w1'' 600 d1 = (l, d2)" by (cases "lease_next False [] 100 ''w1'' 600 d1")
  from s have d1: "d1 = k_jobs (desk_with QUEUED)"
    by (simp add: tick_sweeps_def reclaim_expired_def expire_stale_paused_def wake_due_paused_def Let_def desk_with_def
        research_job_def LEASED_STATES_def rowcount_def)
  with l obtain job where job: "l = Some job" "j_id job = ''r-1''"
    by (auto simp: lease_next_def leasable_def first_min_def coalesce_def leased_row_def desk_with_def research_job_def)
  from drive_job_settles [OF research_keeps_rows keeps_rows_pausing leased_row_present [OF l [unfolded job(1)]]]
  have "t_job (fst ?tick) = Some ''r-1''"
    by (simp add: run_worker_tick_def s l job)
  then show ?thesis
    by (rule research_tick_never_strands_a_lease [OF keeps_rows_pausing surjective_pairing])
qed

text \<open>C3: No effect without permission: an action of the model changes anything at all only if it is a dict that names
  a tool of the registry, the scopes of the agent hold every scope the tool declares, and no budget of the job was
  used up; whatever else happens, the action is an observation for the model and not an exception.\<close>

theorem effects_need_scope_and_budget:
  assumes "run_action e scopes jid run action w = (r, w')" and "w' \<noteq> w"
  shows "\<exists>args s t snap x. action = JObj args \<and> kv_get args ''tool'' = JStr s \<and> map_of TOOLS s = Some t
    \<and> set (scopes_of t) \<subseteq> set scopes \<and> budget_check jid w = (Inr (None, snap), w) \<and> r = Inr x"
proof -
  have same: "snd (budget_check jid w) = w"
    by (simp add: budget_check_def pure_of_def ret_def throw_def split: option.splits sum.splits)
  note step = assms [unfolded run_action_def arg_def]
  show ?thesis
  proof (cases action)
    case (JObj args)
    let ?name = "kv_get args ''tool''" and ?args = "kv_get args ''args''"
    have run: "catch (seq (execute_tool e scopes jid run ?name ?args) (\<lambda>out. ret \<lparr>ax_tool = ?name, ax_ok = tool_ok out, ax_out = Some out\<rparr>))
       (\<lambda>_. ret \<lparr>ax_tool = ?name, ax_ok = False, ax_out = None\<rparr>) w = (r, w')"
      using step(1) by (simp add: JObj pure_of_def)
    have moved: "snd (execute_tool e scopes jid run ?name ?args w) \<noteq> w"
      using run step(2) by (auto simp: act_defs split: prod.splits sum.splits)
    obtain s t where t: "?name = JStr s" "map_of TOOLS s = Some t" "set (scopes_of t) \<subseteq> set scopes"
      using moved by (cases ?name) (auto simp: execute_tool_def pure_of_def act_defs split: option.splits if_splits)
    have "\<exists>snap. budget_check jid w = (Inr (None, snap), w)"
      using moved t same
      by (cases "budget_check jid w"; cases "fst (budget_check jid w)")
        (auto simp: execute_tool_def pure_of_def act_defs split: option.splits prod.splits)
    moreover have "\<exists>x. r = Inr x"
      using run by (auto simp: act_defs split: prod.splits sum.splits)
    ultimately show ?thesis using JObj t by blast
  qed (use step in \<open>auto simp: pure_of_def act_defs\<close>)
qed

definition empty_question :: json where
  "empty_question = JObj [(''tool'', JStr ''ask_user''), (''args'', JObj [(''question'', JStr [])])]"

lemma effects_need_scope_and_budget_witness:
  "set (scopes_of AskUser) \<subseteq> set [''interaction:write'']
   \<and> (\<exists>snap. budget_check ''r-1'' (desk_with RUNNING) = (Inr (None, snap), desk_with RUNNING))"
proof -
  let ?w = "desk_with RUNNING"
  let ?out = "run_action quiet_env [''interaction:write''] ''r-1'' ''run'' empty_question ?w"
  have "check_budget 5 dentists = Inr (None, [(''steps'', 2, 40), (''tool_calls'', 0, 120), (''searches'', 0, 60),
      (''model_calls'', 0, 80), (''browse_calls'', 0, 30), (''candidates'', 0, 200)], Some (4/60))"
    by (simp add: check_budget_def over_time_def dentists_def DEFAULT_BUDGETS_def kv_get_def LIMIT_COUNTERS_def counter_of_def)
  moreover have "now_k ?w = 5" by (simp add: now_k_def now_of_def sec_of_def desk_with_def demo_world_def)
  ultimately have budget: "budget_check ''r-1'' ?w = (Inr (None, [(''steps'', 2, 40), (''tool_calls'', 0, 120),
      (''searches'', 0, 60), (''model_calls'', 0, 80), (''browse_calls'', 0, 30), (''candidates'', 0, 200)], Some (4/60)), ?w)"
    by (simp add: budget_check_def desk_context pure_of_def ret_def)
  have agents: "k_agents ?w = empty_registry" "g_steps empty_registry = []"
    by (simp_all add: desk_with_def empty_registry_def)
  have "g_steps (k_agents (snd ?out)) \<noteq> []"
    by (simp add: run_action_def arg_def empty_question_def kv_get_def pure_of_def execute_tool_def TOOLS_def catch_def
        budget perform_def begin_step_def start_step_def tool_ask_user_def end_step_def finish_step_def
        bump_counter_def need_context_def seq_def ret_def throw_def modify_def py_strip_def desk_context upd_context_def
        agents)
  moreover have "g_steps (k_agents ?w) = []" by (simp add: agents)
  ultimately have "snd ?out \<noteq> ?w" by metis
  from effects_need_scope_and_budget [OF surjective_pairing this] show ?thesis by auto
qed

lemma jobs_of_context [simp]: "k_jobs (upd_context jid f w) = k_jobs w"
  by (simp add: upd_context_def)







end
