(* ===== verification/LeadDesk.thy ===== *)
theory LeadDesk
  imports ResearchSafety
begin

section \<open>The human desk (api/review\_api.py, privacy.py)\<close>

text \<open>
  What people do to leads: decide, ask for more research, requalify, settle conflicts, have data erased; and the sweep that
  erases what the retention window no longer covers.  The office is the desk with the audit trail and the events that
  were emitted.  The actor is the subject of the request's claims.  A job that a decision creates is queued, or left to
  a background task that runs it later; its payload for the dashboard is the snapshot it is built from.
\<close>

subsection \<open>State\<close>

datatype human_decision = APPROVE_CONTACT | REJECT | RESEARCH_MORE | SAVE_FOR_LATER

fun decision_text :: "human_decision \<Rightarrow> string" where
  "decision_text APPROVE_CONTACT = ''APPROVE_CONTACT''"
| "decision_text REJECT = ''REJECT''"
| "decision_text RESEARCH_MORE = ''RESEARCH_MORE''"
| "decision_text SAVE_FOR_LATER = ''SAVE_FOR_LATER''"

datatype audit_action = LeadDecided human_decision | LeadRequalified | ConflictResolved | PrivacyErase

record audit_row =
  au_actor :: string
  au_action :: audit_action
  au_id :: ident
  au_ts :: ts

record office =
  of_desk :: desk
  of_audit :: "audit_row list"
  of_events :: "(string option \<times> human_decision \<times> ident) list"

datatype http_error = NotFound | Conflict409 | BadRequest | ServerError rfault

type_synonym 'a ox = "(office, http_error, 'a) act"

definition now_o :: "office \<Rightarrow> ts" where
  "now_o o1 = now_k (of_desk o1)"

definition leads_o :: "office \<Rightarrow> rlead list" where
  "leads_o o1 = k_leads (of_desk o1)"

definition set_leads :: "(rlead list \<Rightarrow> rlead list) \<Rightarrow> office \<Rightarrow> office" where
  "set_leads f o1 = o1\<lparr>of_desk := (of_desk o1)\<lparr>k_leads := f (k_leads (of_desk o1))\<rparr>\<rparr>"

definition on_desk :: "(rfault \<Rightarrow> http_error) \<Rightarrow> 'a rx \<Rightarrow> 'a ox" where
  "on_desk err m = (\<lambda>o1. case m (of_desk o1) of
     (Inl f, w) \<Rightarrow> (Inl (err f), o1\<lparr>of_desk := w\<rparr>) | (Inr x, w) \<Rightarrow> (Inr x, o1\<lparr>of_desk := w\<rparr>))"

definition audit :: "string \<Rightarrow> audit_action \<Rightarrow> ident \<Rightarrow> unit ox" where
  "audit actor action i = modify (\<lambda>o1. o1\<lparr>of_audit := of_audit o1 @
     [\<lparr>au_actor = actor, au_action = action, au_id = i, au_ts = now_o o1\<rparr>]\<rparr>)"

subsection \<open>Review\<close>

definition get_lead :: "ident \<Rightarrow> rlead ox" where
  "get_lead i = (\<lambda>o1.
     let w = of_desk o1; org = db_org (k_jobs w);
         mine = (\<lambda>l. if t_pg (k_truth w) then truthy org \<longrightarrow> Some (rl_org l) = org else rl_org l = tenant_of w)
     in case find (\<lambda>l. rl_id l = i \<and> mine l) (leads_o o1) of None \<Rightarrow> (Inl NotFound, o1) | Some l \<Rightarrow> (Inr l, o1))"

definition more_about :: "rlead \<Rightarrow> string option \<Rightarrow> string" where
  "more_about l note =
     utf8 [1593, 1605, 1617, 1602, 32, 1575, 1604, 1576, 1581, 1579, 32, 1593, 1606, 32]
     @ (if truthy (rl_domain l) then the (rl_domain l) else if rl_name l \<noteq> [] then rl_name l else rl_id l)
     @ (if truthy note then utf8 [32, 8212, 32] @ cut_text 200 (the note) else [])"

definition research_more :: "renv \<Rightarrow> (string \<Rightarrow> string option) \<Rightarrow> ident \<Rightarrow> rlead \<Rightarrow> string option \<Rightarrow> ident rx" where
  "research_more e env fresh l note =
     seq (create_research e fresh (more_about l note) None None [] (rl_job l)) (\<lambda>jid.
     seq (if platform_mode env then modify (\<lambda>w. w\<lparr>k_jobs := enqueue (now_k w) jid (k_jobs w)\<rparr>) else ret ()) (\<lambda>_.
     ret jid))"

definition decided :: "ts \<Rightarrow> string \<Rightarrow> human_decision \<Rightarrow> string option \<Rightarrow> rlead \<Rightarrow> rlead" where
  "decided now actor action note l =
     l\<lparr>rl_disposition := Some (decision_text action), rl_note := note, rl_decided_at := Some now,
       rl_decided_by := Some actor, rl_updated := now\<rparr>"

definition lead_decision ::
  "renv \<Rightarrow> (string \<Rightarrow> string option) \<Rightarrow> ident \<Rightarrow> string \<Rightarrow> ident \<Rightarrow> human_decision \<Rightarrow> string option \<Rightarrow> ident option ox" where
  "lead_decision e env fresh actor i action note =
     seq (get_lead i) (\<lambda>l.
     seq (gets now_o) (\<lambda>now.
     seq (if action = RESEARCH_MORE then seq (on_desk ServerError (research_more e env fresh l note)) (\<lambda>j. ret (Some j))
          else ret None) (\<lambda>child.
     seq (modify (set_leads (upd_where (\<lambda>x. rl_id x = i) (decided now actor action note)))) (\<lambda>_.
     seq (audit actor (LeadDecided action) i) (\<lambda>_.
     seq (modify (\<lambda>o1. o1\<lparr>of_events := of_events o1 @ [(db_org (k_jobs (of_desk o1)), action, i)]\<rparr>)) (\<lambda>_.
     ret child))))))"

definition lead_subject :: "renv \<Rightarrow> rlead \<Rightarrow> py_fault + string" where
  "lead_subject e l = subject_of e (case rl_domain l of None \<Rightarrow> JNull | Some d \<Rightarrow> JStr d) (JStr (rl_name l))"

definition icp_for :: "ident option \<Rightarrow> json ox" where
  "icp_for version = (\<lambda>o1. let g = k_agents (of_desk o1) in
     if truthy version
     then (case get_icp (the version) g of None \<Rightarrow> (Inl NotFound, o1) | Some r \<Rightarrow> (Inr (iv_definition r), o1))
     else (case active_icp ''agentic'' g of None \<Rightarrow> (Inl Conflict409, o1) | Some r \<Rightarrow> (Inr (iv_definition r), o1)))"

definition requalified :: "ts \<Rightarrow> verdict \<Rightarrow> rlead \<Rightarrow> rlead" where
  "requalified now v l = l\<lparr>rl_qualification := vd_score v, rl_tier := vd_tier v, rl_local := vd_local v,
     rl_verdict := Some v, rl_updated := now\<rparr>"

definition qualification_failure :: "rfault \<Rightarrow> http_error" where
  "qualification_failure f = (case f of QualificationError m \<Rightarrow> Conflict409 | _ \<Rightarrow> ServerError f)"

definition present :: "renv \<Rightarrow> rlead \<Rightarrow> subject_view ox" where
  "present e l = on_desk ServerError (seq (pure_of (lead_subject e l)) (\<lambda>s w.
     let (v, d) = snapshot (now_k w) ''company'' s (k_truth w) in (Inr v, w\<lparr>k_truth := d\<rparr>)))"

definition lead_requalify :: "renv \<Rightarrow> string \<Rightarrow> ident \<Rightarrow> ident option \<Rightarrow> subject_view ox" where
  "lead_requalify e actor i version =
     seq (get_lead i) (\<lambda>l.
     seq (icp_for version) (\<lambda>icp.
     seq (on_desk qualification_failure (seq (pure_of (lead_subject e l)) (\<lambda>s. qualify_from_facts e ''company'' s icp None))) (\<lambda>v.
     seq (modify (\<lambda>o1. set_leads (upd_where (\<lambda>x. rl_id x = i) (requalified (now_o o1) v)) o1)) (\<lambda>_.
     seq (audit actor LeadRequalified i) (\<lambda>_.
     seq (get_lead i) (\<lambda>l'. present e l'))))))"

definition settle_conflict :: "string \<Rightarrow> ident \<Rightarrow> ident \<Rightarrow> string option \<Rightarrow> unit ox" where
  "settle_conflict actor cid winner note =
     seq (on_desk (\<lambda>_. BadRequest) (in_truth (\<lambda>now. resolve_conflict now cid winner note (Some actor) False))) (\<lambda>_.
     audit actor ConflictResolved cid)"

subsection \<open>Privacy\<close>

definition DEFAULT_RETENTION_DAYS :: int where
  "DEFAULT_RETENTION_DAYS = 30"

definition retention_days :: "rlead \<Rightarrow> int" where
  "retention_days l = or_default (rl_retention l) DEFAULT_RETENTION_DAYS"

text \<open>The document that takes the place of all of \<open>raw\<close>; times are seconds.\<close>

definition redacted_raw :: "ts \<Rightarrow> (string \<times> json) list" where
  "redacted_raw now = [(''retention'', JStr ''erased''), (''erased_at'', JInt now)]"

definition anonymized :: "ts \<Rightarrow> string \<Rightarrow> rlead \<Rightarrow> rlead" where
  "anonymized now reason l =
     l\<lparr>rl_email := None, rl_phone := None, rl_dm := None, rl_dm_title := None, rl_linkedin := None, rl_social := None,
       rl_verdict := None, rl_retention := None, rl_extra := redacted_raw now, rl_legal := RetentionErased,
       rl_note := Some (if truthy (rl_note l) then the (rl_note l) @ '' | '' @ reason else reason),
       rl_decided_at := Some now, rl_updated := now\<rparr>"

definition anonymize :: "ident list \<Rightarrow> string \<Rightarrow> office \<Rightarrow> nat \<times> office" where
  "anonymize is reason o1 =
     (let hit = (\<lambda>l. rl_id l \<in> set is \<and> rl_legal l \<noteq> RetentionErased) in
      (rowcount hit (leads_o o1), set_leads (upd_where hit (anonymized (now_o o1) reason)) o1))"

definition expired :: "ts \<Rightarrow> rlead \<Rightarrow> bool" where
  "expired now l \<longleftrightarrow> rl_legal l \<noteq> RetentionErased \<and> rl_created l + retention_days l * 86400 < now"

definition retain_expired :: "office \<Rightarrow> nat \<times> office" where
  "retain_expired o1 = anonymize (map rl_id (filter (expired (now_o o1)) (leads_o o1))) ''retention window elapsed'' o1"

definition erase_lead :: "ident \<Rightarrow> string \<Rightarrow> office \<Rightarrow> bool \<times> office" where
  "erase_lead i actor o1 =
     (if row_of rl_id i (leads_o o1) = None then (False, o1)
      else let (n, o2) = anonymize [i] (''erased-by-request by '' @ actor) o1 in
           (True, if n \<noteq> 0 then snd (audit actor PrivacyErase i o2) else o2))"

subsection \<open>Decisions on record\<close>

definition disposition_of :: "ident \<Rightarrow> office \<Rightarrow> string option" where
  "disposition_of i o1 = (case row_of rl_id i (leads_o o1) of None \<Rightarrow> None | Some l \<Rightarrow> rl_disposition l)"

definition decision_in :: "ident \<Rightarrow> audit_row \<Rightarrow> human_decision option" where
  "decision_in i a = (case au_action a of LeadDecided d \<Rightarrow> if au_id a = i then Some d else None | _ \<Rightarrow> None)"

text \<open>The last decision of the audit trail on a lead.\<close>

definition last_decision :: "ident \<Rightarrow> audit_row list \<Rightarrow> string option" where
  "last_decision i t = (case rev (List.map_filter (decision_in i) t) of [] \<Rightarrow> None | d # _ \<Rightarrow> Some (decision_text d))"

definition on_record :: "office \<Rightarrow> bool" where
  "on_record o1 \<longleftrightarrow> (\<forall>i. disposition_of i o1 = last_decision i (of_audit o1))"

text \<open>The six columns are empty, and of \<open>raw\<close> there is the stub of the erasure, with at most the verdict of a later
  requalification beside it.\<close>

definition no_personal_data :: "rlead \<Rightarrow> bool" where
  "no_personal_data l \<longleftrightarrow> rl_email l = None \<and> rl_phone l = None \<and> rl_dm l = None \<and> rl_dm_title l = None
     \<and> rl_linkedin l = None \<and> rl_social l = None \<and> rl_retention l = None \<and> (\<exists>t. rl_extra l = redacted_raw t)"

definition erased_clean :: "rlead list \<Rightarrow> bool" where
  "erased_clean t \<longleftrightarrow> (\<forall>l \<in> set t. rl_legal l = RetentionErased \<longrightarrow> no_personal_data l)"

text \<open>Both, and the leads are unique.\<close>

definition office_ok :: "office \<Rightarrow> bool" where
  "office_ok o1 \<longleftrightarrow> on_record o1 \<and> erased_clean (leads_o o1)"

lemma last_decision_snoc:
  "last_decision i (t @ [a]) = (case decision_in i a of None \<Rightarrow> last_decision i t | Some d \<Rightarrow> Some (decision_text d))"
  by (simp add: last_decision_def List.map_filter_def split: option.splits)

lemma office_ok_cong:
  assumes "office_ok o1" and "\<And>i. disposition_of i o2 = disposition_of i o1" and "erased_clean (leads_o o1) \<Longrightarrow> erased_clean (leads_o o2)"
    and "\<And>i. last_decision i (of_audit o2) = last_decision i (of_audit o1)"
  shows "office_ok o2"
  using assms by (simp add: office_ok_def on_record_def)

lemma leads_o_simps [simp]:
  "leads_o (set_leads f o1) = f (leads_o o1)" "of_audit (set_leads f o1) = of_audit o1"
  "leads_o (o1\<lparr>of_audit := a\<rparr>) = leads_o o1" "leads_o (o1\<lparr>of_events := v\<rparr>) = leads_o o1"
  "leads_o (o1\<lparr>of_desk := w\<rparr>) = k_leads w"
  by (simp_all add: leads_o_def set_leads_def)

interpretation lead_table: keyed_table rl_id .

lemma disposition_of_upd:
  assumes "\<And>l. rl_id (f l) = rl_id l" and "\<And>l. rl_disposition (f l) = rl_disposition l"
  shows "disposition_of i (set_leads (upd_where p f) o1) = disposition_of i o1"
  using assms by (cases "row_of rl_id i (leads_o o1)") (simp_all add: disposition_of_def lead_table.row_of_upd_where)

text \<open>What happens on the desk leaves decisions alone; what it does to leads it does as a research run would.\<close>

lemma review_only_disposition:
  assumes "review_only j (leads_o o1) (leads_o o2)"
  shows "disposition_of i o2 = disposition_of i o1"
proof -
  have "awaits_review j (row_of rl_id i (leads_o o1)) (row_of rl_id i (leads_o o2))"
    using assms by (simp add: review_only_def)
  then show ?thesis
    by (auto simp: awaits_review_def disposition_of_def split: option.splits)
qed

definition clean_desk :: "desk \<Rightarrow> bool" where
  "clean_desk w \<longleftrightarrow> erased_clean (k_leads w)"

lemma erased_clean_upsert:
  assumes "erased_clean t" and "rl_legal l \<noteq> RetentionErased"
  shows "erased_clean (upsert_row l t)"
  using assms by (auto simp: erased_clean_def upsert_row_def set_upd_where keep_decision_def)

interpretation clean_run: run_contract e jid clean_desk for e jid
  by unfold_locales
    (auto simp: clean_desk_def upd_context_def intro!: erased_clean_upsert simp: research_lead_def Let_def)

lemma snd_on_desk: "snd (on_desk err m o1) = o1\<lparr>of_desk := snd (m (of_desk o1))\<rparr>"
  by (auto simp: on_desk_def split: prod.splits sum.splits)

lemma preserves_on_desk:
  assumes "\<And>t. preserves (\<lambda>w. review_only j t (k_leads w)) m" and "preserves clean_desk m"
  shows "preserves office_ok (on_desk err m)"
proof (rule preservesI)
  fix o1 assume o1: "office_ok o1"
  let ?w = "snd (m (of_desk o1))"
  have "review_only j (k_leads (of_desk o1)) (k_leads ?w)"
    using preservesD [OF assms(1), of "k_leads (of_desk o1)" "of_desk o1"] review_only_refl by blast
  moreover have "erased_clean (k_leads ?w)"
    using preservesD [OF assms(2), of "of_desk o1"] o1
    by (simp add: clean_desk_def office_ok_def leads_o_def)
  ultimately show "office_ok (snd (on_desk err m o1))"
    unfolding snd_on_desk by (intro office_ok_cong [OF o1] review_only_disposition) (simp_all add: leads_o_def)
qed

lemma preserves_leads_kept:
  assumes "\<And>w. k_leads (snd (m w)) = k_leads w"
  shows "preserves office_ok (on_desk err m)"
  by (rule preserves_on_desk [where j = "[]"]) (simp_all add: preserves_def assms clean_desk_def)

lemma get_lead_kept: "snd (get_lead i o1) = o1"
  by (simp add: get_lead_def Let_def split: option.splits)

lemma preserves_get_lead: "preserves office_ok (get_lead i)"
  by (simp add: preserves_def get_lead_kept)

lemma preserves_icp_for: "preserves office_ok (icp_for v)"
  by (auto simp: preserves_def icp_for_def Let_def split: option.splits)

lemma preserves_audit: "(\<And>d. action \<noteq> LeadDecided d) \<Longrightarrow> preserves office_ok (audit actor action i)"
  unfolding audit_def
  by (rule preserves_modify, erule office_ok_cong)
    (auto simp: office_ok_def disposition_of_def last_decision_snoc decision_in_def split: audit_action.splits)

lemma erased_clean_upd:
  assumes "erased_clean t"
    and "\<And>l. p l \<Longrightarrow> rl_legal l = RetentionErased \<longrightarrow> no_personal_data l \<Longrightarrow> rl_legal (f l) = RetentionErased \<longrightarrow> no_personal_data (f l)"
  shows "erased_clean (upd_where p f t)"
  using assms by (auto simp: erased_clean_def set_upd_where)

lemma office_ok_anonymize: "office_ok o1 \<Longrightarrow> office_ok (snd (anonymize is reason o1))"
  unfolding anonymize_def Let_def snd_conv
  by (erule office_ok_cong)
    (auto simp: anonymized_def office_ok_def no_personal_data_def intro!: disposition_of_upd erased_clean_upd)

lemma office_ok_sweep: "office_ok o1 \<Longrightarrow> office_ok (snd (retain_expired o1))"
  unfolding retain_expired_def by (rule office_ok_anonymize)

lemma office_ok_erase: "office_ok o1 \<Longrightarrow> office_ok (snd (erase_lead i actor o1))"
  using preservesD [OF preserves_audit [of PrivacyErase actor i] office_ok_anonymize]
  by (auto simp: erase_lead_def case_prod_beta Let_def office_ok_anonymize)

lemma preserves_present: "preserves office_ok (present e l)"
  unfolding present_def
  by (rule preserves_on_desk [where j = "[]"]; intro stays_preserves stays_rules leads_run.listing clean_run.listing)

lemma preserves_requalify: "preserves office_ok (lead_requalify e actor i v)"
proof -
  have "preserves office_ok (on_desk err (seq (pure_of r) (\<lambda>s. qualify_from_facts e ''company'' s icp None)))" for err r icp
    by (rule preserves_on_desk [where j = "[]"]; intro stays_preserves stays_rules leads_run.judging clean_run.judging)
  moreover have "preserves office_ok (modify (\<lambda>o1. set_leads (upd_where (\<lambda>x. rl_id x = i) (requalified (now_o o1) vd)) o1))" for vd
    by (rule preserves_modify, erule office_ok_cong)
      (auto simp: requalified_def office_ok_def no_personal_data_def intro!: disposition_of_upd erased_clean_upd)
  ultimately show ?thesis
    unfolding lead_requalify_def
    by (intro preserves_seq preserves_get_lead preserves_icp_for preserves_present preserves_audit; simp)
qed

lemma preserves_settle: "preserves office_ok (settle_conflict actor cid winner note)"
  unfolding settle_conflict_def
  by (intro preserves_seq preserves_leads_kept preserves_audit) (simp_all add: in_truth_parts)

lemma preserves_run: "preserves office_ok (on_desk err (run_research e fuel jid))"
  by (rule preserves_on_desk [where j = jid]) (rule leads_run.kept_by_run, rule clean_run.kept_by_run)

lemma create_leaves_leads: "k_leads (snd (create_research e fresh obj icp slug b parent w)) = k_leads w"
  by (auto simp: create_research_def Let_def seq_def modify_def ret_def in_jobs_def create_job_def)

lemma research_more_leaves_leads: "k_leads (snd (research_more e env fresh l note w)) = k_leads w"
proof (cases "create_research e fresh (more_about l note) None None [] (rl_job l) w")
  case (Pair r w1)
  with create_leaves_leads [of e fresh "more_about l note" None None "[]" "rl_job l" w] show ?thesis
    by (cases r) (auto simp: research_more_def seq_def modify_def ret_def)
qed

text \<open>A decision is taken and audited together.\<close>

lemma disposition_decided:
  "disposition_of k (set_leads (upd_where (\<lambda>x. rl_id x = i) (decided now actor action note)) o1) =
    (if k = i \<and> row_of rl_id i (leads_o o1) \<noteq> None then Some (decision_text action) else disposition_of k o1)"
  using row_of_Some [of rl_id k "leads_o o1"]
  by (cases "row_of rl_id k (leads_o o1)") (auto simp: disposition_of_def lead_table.row_of_upd_where decided_def)

definition settled_decision :: "string \<Rightarrow> ident \<Rightarrow> human_decision \<Rightarrow> string option \<Rightarrow> ts \<Rightarrow> 'a \<Rightarrow> 'a ox" where
  "settled_decision actor i action note now child =
     seq (modify (set_leads (upd_where (\<lambda>x. rl_id x = i) (decided now actor action note)))) (\<lambda>_.
     seq (audit actor (LeadDecided action) i) (\<lambda>_.
     seq (modify (\<lambda>o1. o1\<lparr>of_events := of_events o1 @ [(db_org (k_jobs (of_desk o1)), action, i)]\<rparr>)) (\<lambda>_.
     ret child)))"

lemma settled_decision_ok:
  assumes "office_ok o1" and "row_of rl_id i (leads_o o1) \<noteq> None"
  shows "office_ok (snd (settled_decision actor i action note now child o1))"
proof -
  let ?o2 = "set_leads (upd_where (\<lambda>x. rl_id x = i) (decided now actor action note)) o1"
  obtain a v where o3: "snd (settled_decision actor i action note now child o1) = ?o2\<lparr>of_audit := of_audit o1 @ [a], of_events := v\<rparr>"
      "au_action a = LeadDecided action" "au_id a = i"
    by (simp add: settled_decision_def audit_def seq_def modify_def ret_def)
  have d: "disposition_of k (?o2\<lparr>of_audit := x, of_events := y\<rparr>) = disposition_of k ?o2" for k x y
    by (simp add: disposition_of_def)
  have "on_record (?o2\<lparr>of_audit := of_audit o1 @ [a], of_events := v\<rparr>)"
    using assms o3(2,3) unfolding on_record_def d disposition_decided
    by (simp add: last_decision_snoc decision_in_def office_ok_def on_record_def)
  moreover have "erased_clean (leads_o ?o2)"
    using assms(1) by (auto simp: office_ok_def decided_def no_personal_data_def intro!: erased_clean_upd)
  ultimately show ?thesis unfolding o3(1) by (simp add: office_ok_def)
qed

lemma preserves_decision: "preserves office_ok (lead_decision e env fresh actor i action note)"
proof (rule preservesI)
  fix o1 assume ok: "office_ok o1"
  show "office_ok (snd (lead_decision e env fresh actor i action note o1))"
  proof (cases "fst (get_lead i o1)")
    case (Inl f)
    with ok get_lead_kept [of i o1] show ?thesis
      by (cases "get_lead i o1") (simp add: lead_decision_def seq_def)
  next
    case (Inr l)
    then have g: "get_lead i o1 = (Inr l, o1)" using get_lead_kept [of i o1] by (metis prod.collapse)
    then have "find (\<lambda>x. rl_id x = i \<and> P x) (leads_o o1) = Some l \<Longrightarrow> row_of rl_id i (leads_o o1) \<noteq> None" for P
      by (auto simp: row_of_None_iff find_Some_iff)
    with g have row: "row_of rl_id i (leads_o o1) \<noteq> None"
      by (auto simp: get_lead_def Let_def split: option.splits)
    have eq: "lead_decision e env fresh actor i action note o1 =
        seq (if action = RESEARCH_MORE then seq (on_desk ServerError (research_more e env fresh l note)) (\<lambda>j. ret (Some j))
          else ret None) (settled_decision actor i action note (now_o o1)) o1"
      by (simp add: lead_decision_def settled_decision_def [abs_def] seq_def [of "get_lead i"] g seq_gets)
    let ?m = "on_desk ServerError (research_more e env fresh l note)"
    have "preserves office_ok ?m" by (rule preserves_leads_kept) (rule research_more_leaves_leads)
    with ok have more: "office_ok (snd (?m o1))" by (rule preservesD [rotated])
    have still: "row_of rl_id i (leads_o (snd (?m o1))) \<noteq> None"
      using row by (simp add: snd_on_desk research_more_leaves_leads) (simp add: leads_o_def)
    show ?thesis
    proof (cases "action = RESEARCH_MORE")
      case True
      obtain r o2 where m: "?m o1 = (r, o2)" by (cases "?m o1")
      have "snd (lead_decision e env fresh actor i action note o1) = (case r of Inl _ \<Rightarrow> o2
          | Inr j \<Rightarrow> snd (settled_decision actor i action note (now_o o1) (Some j) o2))"
        unfolding eq using m True by (simp add: seq_def ret_def split: sum.splits)
      with more still m settled_decision_ok [of o2 i] show ?thesis by (auto split: sum.splits)
    next
      case False
      then have "lead_decision e env fresh actor i action note o1 = settled_decision actor i action note (now_o o1) None o1"
        unfolding eq by (simp add: seq_def ret_def)
      with settled_decision_ok [OF ok row] show ?thesis by simp
    qed
  qed
qed

subsection \<open>Histories\<close>

inductive office_step :: "office \<Rightarrow> office \<Rightarrow> bool" where
  os_run: "office_step o1 (snd (on_desk ServerError (run_research e fuel jid) o1))"
| os_decide: "office_step o1 (snd (lead_decision e env fresh actor i action memo o1))"
| os_requalify: "office_step o1 (snd (lead_requalify e actor i v o1))"
| os_settle: "office_step o1 (snd (settle_conflict actor cid winner memo o1))"
| os_sweep: "office_step o1 (snd (retain_expired o1))"
| os_erase: "office_step o1 (snd (erase_lead i actor o1))"

lemma office_ok_step: "office_step o1 o2 \<Longrightarrow> office_ok o1 \<Longrightarrow> office_ok o2"
  by (induction rule: office_step.induct)
    (auto intro: preservesD [OF preserves_run] preservesD [OF preserves_decision] preservesD [OF preserves_requalify]
      preservesD [OF preserves_settle] office_ok_sweep office_ok_erase)

lemma office_ok_history: "office_step\<^sup>*\<^sup>* o1 o2 \<Longrightarrow> office_ok o1 \<Longrightarrow> office_ok o2"
  by (induction rule: rtranclp_induct) (auto intro: office_ok_step)

subsection \<open>Properties\<close>

text \<open>C10: Every decision on a lead is a human's, and on record: over any history of research runs, decisions,
  requalifications, settled conflicts, retention sweeps and erasures, the disposition of a lead is the last decision on it
  that the audit trail holds, and a lead without an audited decision has none.\<close>

theorem dispositions_are_audited_decisions:
  assumes "office_step\<^sup>*\<^sup>* o1 o2" and "office_ok o1"
  shows "disposition_of i o2 = last_decision i (of_audit o2)"
  using office_ok_history [OF assms] by (simp add: office_ok_def on_record_def)

text \<open>C17: Erasure erases: whatever happened before, after an erasure on request that found the lead, its row is marked, the six
  columns with an address, phone, person or profile are empty, and the raw document is redacted: nothing is left of it but
  the stub of the erasure, neither the retention nor the verdict nor any other key.  A lead that was marked before is left as
  it is, and is as clean but for the verdict a requalification may have put into it.  The decision a human took on the lead
  stands, and nothing else of the leads has changed.\<close>

theorem erasure_forgets_the_person:
  assumes "office_step\<^sup>*\<^sup>* o0 o1" and "office_ok o0" and "erase_lead i actor o1 = (True, o2)"
  shows "(\<exists>l l'. row_of rl_id i (leads_o o1) = Some l \<and> row_of rl_id i (leads_o o2) = Some l' \<and> rl_legal l' = RetentionErased
        \<and> no_personal_data l' \<and> (if rl_legal l = RetentionErased then l' = l
             else rl_verdict l' = None \<and> rl_extra l' = redacted_raw (now_o o1)))
    \<and> disposition_of i o2 = disposition_of i o1 \<and> (\<forall>k. k \<noteq> i \<longrightarrow> row_of rl_id k (leads_o o2) = row_of rl_id k (leads_o o1))"
proof -
  have ok: "erased_clean (leads_o o1)" using office_ok_history [OF assms(1,2)] by (simp add: office_ok_def)
  obtain l where l: "row_of rl_id i (leads_o o1) = Some l"
    using assms(3) by (auto simp: erase_lead_def split: if_splits)
  let ?hit = "\<lambda>l. rl_id l \<in> set [i] \<and> rl_legal l \<noteq> RetentionErased"
  obtain reason where t: "leads_o o2 = upd_where ?hit (anonymized (now_o o1) reason) (leads_o o1)"
    using assms(3) l by (auto simp: erase_lead_def anonymize_def audit_def modify_def Let_def split: if_splits)
  have id: "rl_id (anonymized (now_o o1) reason x) = rl_id x" for x by (simp add: anonymized_def)
  let ?l = "if ?hit l then anonymized (now_o o1) reason l else l"
  have hit: "row_of rl_id i (leads_o o2) = Some ?l"
    unfolding t by (subst lead_table.row_of_upd_where [OF id]) (simp add: l)
  have "rl_id l = i" "l \<in> set (leads_o o1)" using row_of_Some [OF l] by simp_all
  with ok have "rl_legal ?l = RetentionErased \<and> no_personal_data ?l \<and> (if rl_legal l = RetentionErased then ?l = l
      else rl_verdict ?l = None \<and> rl_extra ?l = redacted_raw (now_o o1))"
    by (auto simp: erased_clean_def anonymized_def no_personal_data_def)
  moreover have "disposition_of i o2 = disposition_of i o1"
    unfolding disposition_of_def hit l by (simp add: anonymized_def)
  moreover have "row_of rl_id k (leads_o o2) = row_of rl_id k (leads_o o1)" if "k \<noteq> i" for k
    unfolding t by (rule lead_table.row_of_upd_other [OF id]) (use that in simp)
  ultimately show ?thesis using l hit by blast
qed

text \<open>C30: Erasure does not last: it leaves the facts about the company alone, so the next run that materializes the same company
  writes the address of the facts back into the row and takes the mark of the erasure off it.\<close>

theorem rerun_restores_erased_data:
  assumes "erase_lead i actor o1 = (True, o2)" and "i = tenant_of (of_desk o1) @ '':'' @ s"
    and "facts_for_qualification (now_o o1) ''company'' s (k_truth (of_desk o1)) = (q, d)"
    and "map_of (qi_values q) ''email'' = Some m" and "m \<noteq> []"
  shows "\<exists>l. row_of rl_id i (k_leads (snd (materialize_each e jid [(s, v)] 0 0 (of_desk o2)))) = Some l
    \<and> rl_email l = Some m \<and> rl_legal l \<noteq> RetentionErased"
proof -
  let ?w = "of_desk o2"
  obtain ls where w: "?w = (of_desk o1)\<lparr>k_leads := ls\<rparr>"
    using assms(1) by (auto simp: erase_lead_def anonymize_def set_leads_def audit_def modify_def Let_def split: if_splits)
  have same: "now_k ?w = now_o o1" "k_truth ?w = k_truth (of_desk o1)" "tenant_of ?w = tenant_of (of_desk o1)"
    by (simp_all add: w now_k_def now_o_def tenant_of_def)
  have "\<not> thin q" using assms(4,5) by (auto simp: thin_def truthy_iff)
  then have "k_leads (snd (materialize_each e jid [(s, v)] 0 0 ?w))
      = upsert_row (research_lead e jid s q v (?w\<lparr>k_truth := d\<rparr>)) (k_leads ?w)"
    using assms(3) same by (simp add: seq_def facts_of_subject_def modify_def ret_def)
  moreover have "rl_id (research_lead e jid s q v (?w\<lparr>k_truth := d\<rparr>)) = i"
  proof -
    have "tenant_of (?w\<lparr>k_truth := d\<rparr>) = tenant_of ?w" by (simp add: tenant_of_def)
    with assms(2) same(3) show ?thesis by (simp add: research_lead_def Let_def)
  qed
  moreover have "rl_email (research_lead e jid s q v (?w\<lparr>k_truth := d\<rparr>)) = Some m"
      "rl_legal (research_lead e jid s q v (?w\<lparr>k_truth := d\<rparr>)) \<noteq> RetentionErased"
    using assms(4) by (simp_all add: research_lead_def Let_def)
  ultimately show ?thesis
    by (auto simp: row_of_upsert keep_decision_def split: option.splits)
qed

definition acme_email :: observation where
  "acme_email = \<lparr>ob_kind = ''company'', ob_subject = ''acme.com'', ob_field = ''email'', ob_value = Some ''ceo@acme.com'',
     ob_url = Some ''https://acme.com/team'', ob_skind = ''search_api'', ob_provider = None, ob_query = None, ob_quote = None,
     ob_job = Some ''r-1'', ob_run = None, ob_vkind = ''text'', ob_conf = None, ob_inferred = False\<rparr>"

definition known_acme :: tdb where
  "known_acme = snd (record_fact show_nat (\<lambda>_. None) 5 acme_email empty_truth)"

definition acme_verdict :: verdict where
  "acme_verdict = \<lparr>vd_score = 80, vd_tier = JStr ''A'', vd_why = [], vd_conf = 1, vd_unknown = [], vd_blockers = [],
     vd_deterministic = False, vd_local = False\<rparr>"

definition desk_of_acme :: desk where
  "desk_of_acme = (desk_with QUALIFYING)\<lparr>k_truth := known_acme\<rparr>"

definition office_of_acme :: office where
  "office_of_acme = \<lparr>of_desk = snd (materialize_each quiet_env ''r-1'' [(''acme.com'', acme_verdict)] 0 0 desk_of_acme),
     of_audit = [], of_events = []\<rparr>"

lemma acme_facts:
  "map_of (qi_values (fst (facts_for_qualification 5 ''company'' ''acme.com'' known_acme))) ''email'' = Some ''ceo@acme.com''"
  by code_simp

definition acme_lead :: rlead where
  "acme_lead = research_lead quiet_env ''r-1'' ''acme.com''
     (fst (facts_for_qualification 5 ''company'' ''acme.com'' known_acme)) acme_verdict
     (desk_of_acme\<lparr>k_truth := snd (facts_for_qualification 5 ''company'' ''acme.com'' known_acme)\<rparr>)"

lemma acme_desk: "now_k desk_of_acme = 5" "k_truth desk_of_acme = known_acme" "k_leads desk_of_acme = []"
    "tenant_of desk_of_acme = ''shared''" "db_org (k_jobs desk_of_acme) = None"
  by (simp_all add: desk_of_acme_def desk_with_def now_k_def now_of_def sec_of_def demo_world_def tenant_of_def)

lemma acme_not_thin: "\<not> thin (fst (facts_for_qualification 5 ''company'' ''acme.com'' known_acme))"
  using acme_facts by (auto simp: thin_def truthy_iff)

lemma acme_office: "of_desk office_of_acme = desk_of_acme\<lparr>k_truth := snd (facts_for_qualification 5 ''company'' ''acme.com'' known_acme),
    k_leads := [acme_lead]\<rparr>"
  by (simp add: office_of_acme_def seq_def facts_of_subject_def modify_def ret_def acme_desk case_prod_beta acme_not_thin
      upsert_row_def Let_def acme_lead_def)

lemma acme_row: "rl_id acme_lead = ''shared:acme.com''" "rl_org acme_lead = ''shared''" "rl_disposition acme_lead = None"
    "rl_legal acme_lead \<noteq> RetentionErased" "rl_email acme_lead = Some ''ceo@acme.com''"
  by (simp_all add: acme_lead_def research_lead_def Let_def acme_facts tenant_of_def desk_of_acme_def desk_with_def)

lemma acme_ok: "office_ok office_of_acme"
  by (simp add: office_ok_def on_record_def erased_clean_def disposition_of_def last_decision_def leads_o_def acme_office acme_row
      List.map_filter_def) (simp add: office_of_acme_def)

lemma dispositions_are_audited_decisions_witness:
  "disposition_of ''shared:acme.com'' (snd (lead_decision quiet_env (\<lambda>_. None) ''j-2'' ''ann'' ''shared:acme.com'' APPROVE_CONTACT None
      office_of_acme)) = Some ''APPROVE_CONTACT''"
proof -
  let ?o = "snd (lead_decision quiet_env (\<lambda>_. None) ''j-2'' ''ann'' ''shared:acme.com'' APPROVE_CONTACT None office_of_acme)"
  have "disposition_of ''shared:acme.com'' ?o = last_decision ''shared:acme.com'' (of_audit ?o)"
    by (rule dispositions_are_audited_decisions [of office_of_acme], rule r_into_rtranclp, rule os_decide, rule acme_ok)
  moreover have "t_pg (k_truth (of_desk office_of_acme)) = False" by code_simp
  ultimately show ?thesis
    by (simp add: lead_decision_def get_lead_def leads_o_def acme_office acme_row acme_desk seq_def gets_def modify_def audit_def ret_def
        last_decision_snoc decision_in_def set_leads_def tenant_of_def)
qed

lemma acme_erased: "fst (erase_lead ''shared:acme.com'' ''dpo'' office_of_acme) = True"
  by (simp add: erase_lead_def leads_o_def acme_office acme_row case_prod_beta Let_def)

lemma erasure_forgets_the_person_witness:
  "\<exists>l. row_of rl_id ''shared:acme.com'' (leads_o (snd (erase_lead ''shared:acme.com'' ''dpo'' office_of_acme))) = Some l
     \<and> no_personal_data l \<and> rl_verdict l = None"
proof -
  have "erase_lead ''shared:acme.com'' ''dpo'' office_of_acme = (True, snd (erase_lead ''shared:acme.com'' ''dpo'' office_of_acme))"
    by (metis acme_erased prod.collapse)
  from erasure_forgets_the_person [OF rtranclp.rtrancl_refl acme_ok this] show ?thesis
    by (auto simp: leads_o_def acme_office acme_row split: if_splits)
qed

lemma rerun_restores_erased_data_witness:
  "\<exists>l. row_of rl_id ''shared:acme.com'' (k_leads (snd (materialize_each quiet_env ''r-2'' [(''acme.com'', acme_verdict)] 0 0
       (of_desk (snd (erase_lead ''shared:acme.com'' ''dpo'' office_of_acme)))))) = Some l \<and> rl_email l = Some ''ceo@acme.com''"
proof -
  let ?o = "office_of_acme"
  have e: "erase_lead ''shared:acme.com'' ''dpo'' ?o = (True, snd (erase_lead ''shared:acme.com'' ''dpo'' ?o))"
    by (metis acme_erased prod.collapse)
  have i: "''shared:acme.com'' = tenant_of (of_desk ?o) @ '':'' @ ''acme.com''"
    by (simp add: acme_office tenant_of_def desk_of_acme_def desk_with_def)
  have k: "k_truth (of_desk ?o) = snd (facts_for_qualification 5 ''company'' ''acme.com'' known_acme)" "now_o ?o = 5"
    using acme_desk(1) by (simp_all add: acme_office now_o_def now_k_def)
  have "map_of (qi_values (fst (facts_for_qualification 5 ''company'' ''acme.com''
      (snd (facts_for_qualification 5 ''company'' ''acme.com'' known_acme))))) ''email'' = Some ''ceo@acme.com''"
    by code_simp
  with rerun_restores_erased_data [OF e i surjective_pairing, of "''ceo@acme.com''" quiet_env "''r-2''" acme_verdict] k
  show ?thesis by (auto simp del: materialize_each.simps)
qed

end
