(* ===== verification/RateLimit.thy ===== *)
theory RateLimit
  imports PyStr Complex_Main
begin

section \<open>The API rate limiter (lead_engine/ratelimit.py)\<close>

text \<open>
  Token buckets per client and path prefix.  Times and tokens are rationals where the source has floats, so rounding is
  not modelled.  A call of \<open>allow\<close> reads the monotonic clock before it takes the lock: \<open>now\<close> is that reading, the locked
  rest of the call is one step, and \<open>serve\<close> lists the calls in the order in which they got the lock, so the times in
  its list need not be in order; nothing below assumes that they are.  The rates are those the module has read from
  the environment, which are positive.  Header values are bytes, decoded as Latin-1.
\<close>

subsection \<open>Requests\<close>

record request_scope =
  sc_type :: string
  sc_method :: string
  sc_path :: string
  sc_client :: "string option"
  sc_headers :: "(string \<times> string) list"

type_synonym environment = "string \<Rightarrow> string option"

definition EXEMPT_EXACT :: "string list" where
  "EXEMPT_EXACT = [''/health'', ''/ready'', ''/api/v1/ready'', ''/api/auth/session'', ''/api/auth/logout'']"

definition is_exempt :: "request_scope \<Rightarrow> bool" where
  "is_exempt sc \<longleftrightarrow> sc_type sc \<noteq> ''http'' \<or> sc_path sc \<in> set EXEMPT_EXACT \<or> starts_with (sc_path sc) ''/static''
     \<or> sc_method sc = ''OPTIONS'' \<or> sc_path sc = ''/api/auth/login''"

definition behind_trusted_proxy :: "environment \<Rightarrow> bool" where
  "behind_trusted_proxy env \<longleftrightarrow> truthy (env ''VERCEL'') \<or> truthy (env ''VERCEL_ENV'')"

definition is_latin_ws :: "char \<Rightarrow> bool" where
  "is_latin_ws c \<longleftrightarrow> is_ws c \<or> (of_char c :: nat) \<in> {133, 160}"

definition latin_strip :: "string \<Rightarrow> string" where
  "latin_strip s = rev (dropWhile is_latin_ws (rev (dropWhile is_latin_ws s)))"

definition first_hop :: "string \<Rightarrow> string" where
  "first_hop v = latin_strip (takeWhile (\<lambda>c. c \<noteq> CHR '','') v)"

definition client_ip :: "environment \<Rightarrow> request_scope \<Rightarrow> string" where
  "client_ip env sc =
     (let ip = (case sc_client sc of None \<Rightarrow> ''unknown'' | Some a \<Rightarrow> a) in
      if behind_trusted_proxy env
      then (case find (\<lambda>(n, v). n = ''x-forwarded-for'' \<and> first_hop v \<noteq> []) (sc_headers sc) of
              None \<Rightarrow> ip | Some (n, v) \<Rightarrow> first_hop v)
      else ip)"

definition bucket_key :: "environment \<Rightarrow> request_scope \<Rightarrow> string \<times> string" where
  "bucket_key env sc =
     (client_ip env sc, ''/'' @ join_with ''/'' (take 2 (filter (\<lambda>p. p \<noteq> []) (split_on CHR ''/'' (sc_path sc)))))"

text \<open>A bearer token of a header, if it carries one; \<open>compare_digest\<close> raises on text that is not ASCII.\<close>

definition bearer_of :: "string \<Rightarrow> string option" where
  "bearer_of v =
     (let scheme = takeWhile (\<lambda>c. c \<noteq> CHR '' '') v; token = drop (length scheme + 1) v in
      if py_lower scheme = ''bearer'' \<and> token \<noteq> [] then Some token else None)"

definition is_ascii :: "string \<Rightarrow> bool" where
  "is_ascii s \<longleftrightarrow> list_all (\<lambda>c. (of_char c :: nat) < 128) s"

definition machine_client :: "environment \<Rightarrow> request_scope \<Rightarrow> bool" where
  "machine_client env sc =
     (case env ''LEAD_ENGINE_MCP_TOKEN'' of
        None \<Rightarrow> False
      | Some expected \<Rightarrow>
          if expected = [] then False
          else case List.map_filter (\<lambda>(n, v). if n = ''authorization'' then bearer_of v else None) (sc_headers sc) of
                 [] \<Rightarrow> False
               | token # _ \<Rightarrow> is_ascii token \<and> is_ascii expected \<and> token = expected)"

subsection \<open>Buckets\<close>

record limiter =
  li_rps :: rat
  li_burst :: rat

type_synonym buckets = "string \<times> string \<Rightarrow> (rat \<times> rat) option"

definition tokens_at :: "limiter \<Rightarrow> rat \<Rightarrow> string \<times> string \<Rightarrow> buckets \<Rightarrow> rat" where
  "tokens_at l now k b =
     (let (tokens, updated) = (case b k of None \<Rightarrow> (li_burst l, now) | Some x \<Rightarrow> x) in
      min (li_burst l) (tokens + (now - updated) * li_rps l))"

definition take_token :: "limiter \<Rightarrow> rat \<Rightarrow> string \<times> string \<Rightarrow> buckets \<Rightarrow> (bool \<times> int) \<times> buckets" where
  "take_token l now k b =
     (let tokens = tokens_at l now k b in
      if tokens \<ge> 1 then ((True, 0), b(k \<mapsto> (tokens - 1, now)))
      else ((False, max 1 (\<lfloor>(1 - tokens) / li_rps l\<rfloor> + 1)), b(k \<mapsto> (tokens, now))))"

definition free_of_limits :: "environment \<Rightarrow> request_scope \<Rightarrow> bool" where
  "free_of_limits env sc \<longleftrightarrow> is_exempt sc \<or> machine_client env sc"

definition allow :: "limiter \<Rightarrow> environment \<Rightarrow> rat \<Rightarrow> request_scope \<Rightarrow> buckets \<Rightarrow> (bool \<times> int) \<times> buckets" where
  "allow l env now sc b =
     (if free_of_limits env sc then ((True, 0), b) else take_token l now (bucket_key env sc) b)"

text \<open>The requests a process serves, in the order in which they got the lock, each with its own reading of the clock.\<close>

fun serve :: "limiter \<Rightarrow> environment \<Rightarrow> (rat \<times> request_scope) list \<Rightarrow> buckets \<Rightarrow> bool list \<times> buckets" where
  "serve l env [] b = ([], b)"
| "serve l env ((t, sc) # rs) b =
     (let (r, b1) = allow l env t sc b; (oks, b2) = serve l env rs b1 in (fst r # oks, b2))"

subsection \<open>Lemmas\<close>

definition rates_ok :: "limiter \<Rightarrow> bool" where
  "rates_ok l \<longleftrightarrow> 0 < li_rps l \<and> 0 < li_burst l"

text \<open>What a bucket can still give until \<open>t1\<close> to calls that read the clock between \<open>t0\<close> and \<open>t1\<close>.\<close>

definition allowance :: "limiter \<Rightarrow> rat \<Rightarrow> rat \<Rightarrow> string \<times> string \<Rightarrow> buckets \<Rightarrow> rat" where
  "allowance l t0 t1 k b =
     (let cap = li_burst l + (t1 - t0) * li_rps l in
      case b k of None \<Rightarrow> cap | Some (tokens, updated) \<Rightarrow> min cap (tokens + (t1 - updated) * li_rps l))"

lemma elapsed: "rates_ok l \<Longrightarrow> t \<le> t' \<Longrightarrow> 0 \<le> (t' - t) * li_rps l"
  by (simp add: rates_ok_def)

lemma take_token_bucket:
  "snd (take_token l t k b) k = Some (tokens_at l t k b - (if fst (fst (take_token l t k b)) then 1 else 0), t)"
  "fst (fst (take_token l t k b)) \<longleftrightarrow> 1 \<le> tokens_at l t k b"
  by (simp_all add: take_token_def Let_def)

lemma tokens_within_allowance:
  assumes "rates_ok l" and "t0 \<le> t"
  shows "tokens_at l t k b + (t1 - t) * li_rps l \<le> allowance l t0 t1 k b"
proof -
  have split_time: "(t1 - u) * li_rps l = (t - u) * li_rps l + (t1 - t) * li_rps l" for u
    by (simp add: algebra_simps)
  have cap: "x \<le> li_burst l \<Longrightarrow> x + (t1 - t) * li_rps l \<le> li_burst l + (t1 - t0) * li_rps l" for x
    using elapsed [OF assms] split_time [of t0] by linarith
  show ?thesis
  proof (cases "b k")
    case None
    with cap [of "li_burst l"] show ?thesis by (simp add: tokens_at_def allowance_def)
  next
    case (Some x)
    obtain tok upd where x: "x = (tok, upd)" by (cases x)
    have "min (li_burst l) (tok + (t - upd) * li_rps l) + (t1 - t) * li_rps l \<le> tok + (t1 - upd) * li_rps l"
      using min.cobounded2 [of "li_burst l" "tok + (t - upd) * li_rps l"] split_time [of upd] by linarith
    with cap [OF min.cobounded1] Some x show ?thesis by (simp only: tokens_at_def allowance_def Let_def prod.case option.case min.bounded_iff)
  qed
qed

text \<open>A call takes from the allowance what it lets through, whatever the clock read in the calls before it.\<close>

lemma take_token_allowance:
  assumes "rates_ok l" and "t0 \<le> t" and "t \<le> t1"
  shows "allowance l t0 t1 k (snd (take_token l t k b)) + (if fst (fst (take_token l t k b)) then 1 else 0)
      \<le> allowance l t0 t1 k b"
    and "fst (fst (take_token l t k b)) \<Longrightarrow> 0 \<le> allowance l t0 t1 k (snd (take_token l t k b))"
    and "k' \<noteq> k \<Longrightarrow> allowance l t0 t1 k' (snd (take_token l t k b)) = allowance l t0 t1 k' b"
proof -
  have after: "allowance l t0 t1 k (snd (take_token l t k b))
      = min (li_burst l + (t1 - t0) * li_rps l)
          (tokens_at l t k b - (if fst (fst (take_token l t k b)) then 1 else 0) + (t1 - t) * li_rps l)"
    by (simp add: allowance_def take_token_bucket(1) Let_def)
  show "allowance l t0 t1 k (snd (take_token l t k b)) + (if fst (fst (take_token l t k b)) then 1 else 0)
      \<le> allowance l t0 t1 k b"
    using tokens_within_allowance [OF assms(1,2), where k = k and b = b and ?t1.0 = t1]
    unfolding after by (simp split: if_splits)
  have cap: "0 \<le> li_burst l + (t1 - t0) * li_rps l"
    using elapsed [OF assms(1), of t0 t1] assms by (simp add: rates_ok_def)
  show "0 \<le> allowance l t0 t1 k (snd (take_token l t k b))" if "fst (fst (take_token l t k b))"
    using that cap elapsed [OF assms(1,3)] unfolding after by (simp add: take_token_bucket(2))
  show "allowance l t0 t1 k' (snd (take_token l t k b)) = allowance l t0 t1 k' b" if "k' \<noteq> k"
    using that by (simp add: allowance_def take_token_def Let_def)
qed

definition counted :: "environment \<Rightarrow> string \<times> string \<Rightarrow> (rat \<times> request_scope) \<times> bool \<Rightarrow> bool" where
  "counted env k x \<longleftrightarrow> snd x \<and> \<not> free_of_limits env (snd (fst x)) \<and> bucket_key env (snd (fst x)) = k"

lemma serve_bound:
  assumes "rates_ok l" and "\<forall>x \<in> set rs. t0 \<le> fst x \<and> fst x \<le> t1"
  shows "of_nat (length (filter (counted env k) (zip rs (fst (serve l env rs b))))) \<le> max 0 (allowance l t0 t1 k b)"
  using assms(2)
proof (induction rs arbitrary: b)
  case (Cons x rs)
  obtain t sc where x: "x = (t, sc)" by (cases x)
  then have t: "t0 \<le> t" "t \<le> t1" using Cons.prems by auto
  obtain r b1 where r: "allow l env t sc b = (r, b1)" by (cases "allow l env t sc b")
  have "allowance l t0 t1 k b1 + (if counted env k (x, fst r) then 1 else 0) \<le> allowance l t0 t1 k b
      \<and> (counted env k (x, fst r) \<longrightarrow> 0 \<le> allowance l t0 t1 k b1)"
  proof (cases "free_of_limits env sc")
    case True
    with r x show ?thesis by (auto simp: allow_def counted_def)
  next
    case False
    then have eq: "take_token l t (bucket_key env sc) b = (r, b1)" using r by (simp add: allow_def)
    show ?thesis
      using take_token_allowance [OF assms(1) t, where b = b and k = "bucket_key env sc", unfolded eq] False x
      by (cases "bucket_key env sc = k") (auto simp: counted_def)
  qed
  then show ?case
    using Cons.IH [of b1] Cons.prems by (auto simp: x r max_def split: prod.splits if_splits)
qed simp

subsection \<open>Properties\<close>

text \<open>C32: The limiter holds in every window of time, whatever was served before and in whatever order the calls that
  read the clock between \<open>t0\<close> and \<open>t1\<close> then got the lock: one client gets at most the burst plus the rate times the
  length of the window through for one path prefix, requests that are exempt or carry the machine token aside; and the
  others of the requests do not change that.\<close>

theorem bucket_bounds_every_window:
  assumes "rates_ok l" and "t0 \<le> t1" and "\<forall>x \<in> set rs. t0 \<le> fst x \<and> fst x \<le> t1"
  shows "of_nat (length (filter (counted env k) (zip rs (fst (serve l env rs b))))) \<le> li_burst l + (t1 - t0) * li_rps l"
proof -
  have "0 \<le> li_burst l + (t1 - t0) * li_rps l"
    using elapsed [OF assms(1,2)] assms(1) by (simp add: rates_ok_def)
  moreover have "allowance l t0 t1 k b \<le> li_burst l + (t1 - t0) * li_rps l"
    by (simp add: allowance_def Let_def split: option.splits)
  ultimately show ?thesis using serve_bound [OF assms(1,3), of env k b] by linarith
qed

definition poll :: request_scope where
  "poll = \<lparr>sc_type = ''http'', sc_method = ''GET'', sc_path = ''/api/v1/jobs/7'', sc_client = Some ''10.0.0.1'', sc_headers = []\<rparr>"

lemma bucket_bounds_every_window_witness:
  "of_nat (length (filter (counted (\<lambda>_. None) (''10.0.0.1'', ''/api/v1''))
     (zip [(0, poll), (1, poll), (1/2, poll)]
       (fst (serve \<lparr>li_rps = 1, li_burst = 2\<rparr> (\<lambda>_. None) [(0, poll), (1, poll), (1/2, poll)] (\<lambda>_. None)))))) \<le> (3 :: rat)"
  using bucket_bounds_every_window [of "\<lparr>li_rps = 1, li_burst = 2\<rparr>" 0 1 "[(0, poll), (1, poll), (1/2, poll)]"]
  by (simp add: rates_ok_def)

text \<open>A refused client that waits as long as it was told, and no longer than that, finds a token.\<close>

lemma retry_after_is_enough:
  assumes "rates_ok l" and "1 \<le> li_burst l" and "take_token l now k b = ((False, n), b')" and "now + of_int n \<le> t"
  shows "fst (fst (take_token l t k b')) = True"
proof -
  let ?x = "tokens_at l now k b"
  have x: "\<not> 1 \<le> ?x" "n = max 1 (\<lfloor>(1 - ?x) / li_rps l\<rfloor> + 1)" "b' = b(k \<mapsto> (?x, now))"
    using assms(3) by (auto simp: take_token_def Let_def split: if_splits)
  have "(1 - ?x) / li_rps l \<le> of_int n"
    using x(2) by linarith
  then have "1 - ?x \<le> of_int n * li_rps l" using assms(1) by (simp add: rates_ok_def pos_divide_le_eq)
  also have "\<dots> \<le> (t - now) * li_rps l"
    using assms(1,4) by (intro mult_right_mono) (auto simp: rates_ok_def)
  finally have "1 \<le> tokens_at l t k b'" using x(3) assms(2) by (simp add: tokens_at_def)
  then show ?thesis by (simp add: take_token_def)
qed

end
