(* ===== verification/EventBackbone.thy ===== *)
theory EventBackbone
  imports PyStr Triples
begin

section \<open>The event backbone (lead_engine/events.py, netguard.py)\<close>

text \<open>
  The outbox of the legacy engine, its dispatch to webhooks and notifications, and the guard on outbound hosts.  Name
  resolution, the HTTP client, HMAC and JSON are arguments: \<open>nt_resolve\<close> is what the n-th look-up of a host yields
  (\<open>None\<close> for an OSError), \<open>nt_flags\<close> what the ipaddress module says of an address, \<open>nt_post\<close> the status of the n-th POST
  (\<open>None\<close> when it raises) and the seconds it takes.  Email is best effort and left out.
\<close>

subsection \<open>State\<close>

datatype event_status = Pending | Dispatched | Dead

record event_row =
  ev_id :: ident
  ev_org :: "string option"
  ev_type :: string
  ev_payload :: string
  ev_status :: event_status
  ev_attempts :: nat
  ev_error :: "string option"
  ev_created :: ts
  ev_published :: "ts option"

record hook =
  hk_id :: ident
  hk_org :: string
  hk_url :: string
  hk_secret :: "string option"
  hk_events :: "string list"
  hk_active :: bool

record delivery =
  dl_hook :: ident
  dl_event :: ident
  dl_attempt :: nat
  dl_status :: "nat option"
  dl_success :: bool
  dl_error :: "string option"

record notification =
  no_org :: string
  no_kind :: string
  no_payload :: string

record backbone =
  bb_outbox :: "event_row list"
  bb_consumed :: "(ident \<times> string) list"
  bb_hooks :: "hook list"
  bb_deliveries :: "delivery list"
  bb_notifications :: "notification list"
  bb_now :: ts
  bb_lookups :: nat
  bb_posts :: nat

record ip_flags =
  ip_private :: bool
  ip_loopback :: bool
  ip_link_local :: bool
  ip_reserved :: bool
  ip_multicast :: bool
  ip_unspecified :: bool

record net =
  nt_resolve :: "nat \<Rightarrow> string \<Rightarrow> string list option"
  nt_flags :: "string \<Rightarrow> ip_flags"
  nt_post :: "nat \<Rightarrow> string \<Rightarrow> string \<Rightarrow> nat option \<times> nat"
  nt_host :: "string \<Rightarrow> string option"
  nt_hmac :: "string \<Rightarrow> string \<Rightarrow> string"
  nt_body :: "event_row \<Rightarrow> string \<Rightarrow> string"
  nt_production :: bool

type_synonym 'a bx = "(backbone, string, 'a) act"

subsection \<open>The outbox\<close>

definition MAX_ATTEMPTS :: nat where
  "MAX_ATTEMPTS = 5"

definition emit :: "string option \<Rightarrow> string \<Rightarrow> string \<Rightarrow> ident \<Rightarrow> backbone \<Rightarrow> backbone" where
  "emit org type payload i b =
     (if row_of ev_id i (bb_outbox b) \<noteq> None then b
      else b\<lparr>bb_outbox := bb_outbox b @ [\<lparr>ev_id = i, ev_org = org, ev_type = type, ev_payload = payload, ev_status = Pending,
             ev_attempts = 0, ev_error = None, ev_created = bb_now b, ev_published = None\<rparr>]\<rparr>)"

definition mark_dispatched :: "ident \<Rightarrow> backbone \<Rightarrow> backbone" where
  "mark_dispatched i b = b\<lparr>bb_outbox := upd_where (\<lambda>r. ev_id r = i)
     (\<lambda>r. r\<lparr>ev_status := Dispatched, ev_published := Some (bb_now b), ev_error := None\<rparr>) (bb_outbox b)\<rparr>"

definition mark_retry :: "ident \<Rightarrow> string \<Rightarrow> backbone \<Rightarrow> backbone" where
  "mark_retry i error b =
     (let t = upd_where (\<lambda>r. ev_id r = i) (\<lambda>r. r\<lparr>ev_attempts := ev_attempts r + 1, ev_error := Some error\<rparr>) (bb_outbox b) in
      case row_of ev_id i t of
        None \<Rightarrow> b\<lparr>bb_outbox := t\<rparr>
      | Some r \<Rightarrow> b\<lparr>bb_outbox := (if ev_attempts r \<ge> MAX_ATTEMPTS
            then upd_where (\<lambda>r. ev_id r = i) (\<lambda>r. r\<lparr>ev_status := Dead\<rparr>) t else t)\<rparr>)"

definition consumed :: "ident \<Rightarrow> string \<Rightarrow> backbone \<Rightarrow> bool" where
  "consumed i consumer b \<longleftrightarrow> (i, consumer) \<in> set (bb_consumed b)"

definition record_consumption :: "ident \<Rightarrow> string \<Rightarrow> backbone \<Rightarrow> backbone" where
  "record_consumption i consumer b =
     (if consumed i consumer b then b else b\<lparr>bb_consumed := bb_consumed b @ [(i, consumer)]\<rparr>)"

subsection \<open>Outbound hosts (netguard.py)\<close>

definition refused :: "bool \<Rightarrow> ip_flags \<Rightarrow> bool" where
  "refused allow_loopback f \<longleftrightarrow>
     (ip_private f \<or> ip_loopback f \<or> ip_link_local f \<or> ip_reserved f \<or> ip_multicast f \<or> ip_unspecified f)
     \<and> \<not> (allow_loopback \<and> ip_loopback f)"

fun keep_ips :: "net \<Rightarrow> bool \<Rightarrow> string list \<Rightarrow> string list \<Rightarrow> string + string list" where
  "keep_ips n lo [] ips = Inr ips"
| "keep_ips n lo (a # as) ips =
     (if refused lo (nt_flags n a) then Inl ''resolves to non-public address''
      else keep_ips n lo as (if a \<in> set ips then ips else ips @ [a]))"

definition resolve_public_ips :: "net \<Rightarrow> bool \<Rightarrow> string option \<Rightarrow> string list bx" where
  "resolve_public_ips n lo host0 = (\<lambda>b.
     let host = py_lower (py_strip (case host0 of None \<Rightarrow> [] | Some h \<Rightarrow> h)) in
     if host = [] then (Inl ''missing host'', b)
     else case nt_resolve n (bb_lookups b) host of
         None \<Rightarrow> (Inr [], b\<lparr>bb_lookups := bb_lookups b + 1\<rparr>)
       | Some as \<Rightarrow> (keep_ips n lo as [], b\<lparr>bb_lookups := bb_lookups b + 1\<rparr>))"

definition pinned_post :: "net \<Rightarrow> string \<Rightarrow> string list \<Rightarrow> bool \<Rightarrow> string \<Rightarrow> nat bx" where
  "pinned_post n url ips lo signature =
     seq (resolve_public_ips n lo (nt_host n url)) (\<lambda>fresh.
     if ips \<noteq> [] \<and> fresh \<noteq> [] \<and> set fresh \<inter> set ips = {} then throw ''changed between check and delivery''
     else (\<lambda>b. case nt_post n (bb_posts b) url signature of
         (ans, secs) \<Rightarrow> (case ans of None \<Rightarrow> Inl ''request failed'' | Some st \<Rightarrow> Inr st,
                         b\<lparr>bb_posts := bb_posts b + 1, bb_now := bb_now b + int secs\<rparr>)))"

definition unsafe_url :: "net \<Rightarrow> bool \<Rightarrow> string \<Rightarrow> bool \<Rightarrow> string \<Rightarrow> unit bx" where
  "unsafe_url n lo scheme credentials url =
     (if scheme \<notin> {''http'', ''https''} then throw ''only http(s) URLs are allowed''
      else if credentials then throw ''credentials in URL are not allowed''
      else seq (resolve_public_ips n lo (nt_host n url)) (\<lambda>_. ret ()))"

subsection \<open>Webhooks\<close>

definition webhook_consumer :: "hook \<Rightarrow> string" where
  "webhook_consumer h = ''webhook:'' @ hk_id h"

definition sign :: "net \<Rightarrow> string \<Rightarrow> string \<Rightarrow> string \<Rightarrow> string" where
  "sign n secret timestamp body = ''v1='' @ nt_hmac n secret (timestamp @ ''.'' @ body)"

text \<open>Three attempts; the status code of an attempt that raises is the one of the attempt before.\<close>

fun try_post :: "net \<Rightarrow> hook \<Rightarrow> event_row \<Rightarrow> string list \<Rightarrow> string \<Rightarrow> nat list \<Rightarrow> nat option \<Rightarrow> unit bx" where
  "try_post n h e ips signature [] status = throw ''webhook delivery failed''"
| "try_post n h e ips signature (k # ks) status = (\<lambda>b.
     case pinned_post n (hk_url h) ips (\<not> nt_production n) signature b of
       (r, b1) \<Rightarrow>
         let status' = (case r of Inl _ \<Rightarrow> status | Inr st \<Rightarrow> Some st);
             ok = (case r of Inl _ \<Rightarrow> False | Inr st \<Rightarrow> st < 300);
             error = (case r of Inl x \<Rightarrow> Some x | Inr st \<Rightarrow> if st < 300 then None else Some (''HTTP '' @ show_nat st));
             b2 = b1\<lparr>bb_deliveries := bb_deliveries b1 @ [\<lparr>dl_hook = hk_id h, dl_event = ev_id e, dl_attempt = k,
                    dl_status = status', dl_success = ok, dl_error = error\<rparr>]\<rparr>
         in if ok then (Inr (), record_consumption (ev_id e) (webhook_consumer h) b2)
            else try_post n h e ips signature ks status' (b2\<lparr>bb_now := bb_now b2 + int (min 5 k)\<rparr>))"

definition deliver_signed :: "net \<Rightarrow> hook \<Rightarrow> event_row \<Rightarrow> string \<Rightarrow> unit bx" where
  "deliver_signed n h e secret = (\<lambda>b.
     if consumed (ev_id e) (webhook_consumer h) b then (Inr (), b)
     else let timestamp = show_int (bb_now b) in
       seq (catch (resolve_public_ips n (\<not> nt_production n) (nt_host n (hk_url h))) (\<lambda>_. throw ''webhook host refused''))
         (\<lambda>ips. try_post n h e ips (sign n secret timestamp (nt_body n e timestamp)) [1, 2, 3] None) b)"

definition subscribed :: "hook \<Rightarrow> event_row \<Rightarrow> bool" where
  "subscribed h e \<longleftrightarrow> (let evs = (if hk_events h = [] then [''*''] else hk_events h) in ''*'' \<in> set evs \<or> ev_type e \<in> set evs)"

definition consume_hook :: "net \<Rightarrow> event_row \<Rightarrow> hook \<Rightarrow> unit bx" where
  "consume_hook n e h = (if \<not> subscribed h e then ret ()
     else case hk_secret h of None \<Rightarrow> ret () | Some s \<Rightarrow> deliver_signed n h e s)"

definition consume_webhooks :: "net \<Rightarrow> event_row \<Rightarrow> unit bx" where
  "consume_webhooks n e = (if \<not> truthy (ev_org e) then ret ()
     else (\<lambda>b. for_each (consume_hook n e) (filter (\<lambda>h. hk_org h = the (ev_org e) \<and> hk_active h) (bb_hooks b)) b))"

subsection \<open>Notifications\<close>

definition NOTABLE :: "string list" where
  "NOTABLE = [''job.completed'', ''job.failed'', ''job.paused'', ''usage.threshold'']"

definition consume_notifications :: "event_row \<Rightarrow> unit bx" where
  "consume_notifications e = (\<lambda>b.
     if ev_type e \<notin> set NOTABLE \<or> \<not> truthy (ev_org e) \<or> consumed (ev_id e) ''notifications'' b then (Inr (), b)
     else (Inr (), record_consumption (ev_id e) ''notifications''
            (b\<lparr>bb_notifications := bb_notifications b @
               [\<lparr>no_org = the (ev_org e), no_kind = ev_type e, no_payload = ev_payload e\<rparr>]\<rparr>)))"

subsection \<open>Dispatch\<close>

record counts =
  ct_dispatched :: nat
  ct_retried :: nat
  ct_dead :: nat

definition consume :: "net \<Rightarrow> event_row \<Rightarrow> unit bx" where
  "consume n e = seq (consume_webhooks n e) (\<lambda>_. consume_notifications e)"

definition dispatch_event :: "net \<Rightarrow> event_row \<Rightarrow> counts \<times> backbone \<Rightarrow> counts \<times> backbone" where
  "dispatch_event n e = (\<lambda>(c, b).
     case consume n e b of
       (Inr _, b1) \<Rightarrow> (c\<lparr>ct_dispatched := ct_dispatched c + 1\<rparr>, mark_dispatched (ev_id e) b1)
     | (Inl x, b1) \<Rightarrow> (c\<lparr>ct_retried := ct_retried c + 1,
           ct_dead := (if ev_attempts e + 1 \<ge> MAX_ATTEMPTS then ct_dead c + 1 else ct_dead c)\<rparr>, mark_retry (ev_id e) x b1))"

definition pending_batch :: "nat \<Rightarrow> backbone \<Rightarrow> event_row list" where
  "pending_batch limit b = take limit (sort_key ev_created (filter (\<lambda>r. ev_status r = Pending) (bb_outbox b)))"

definition dispatch_pending :: "net \<Rightarrow> nat \<Rightarrow> backbone \<Rightarrow> counts \<times> backbone" where
  "dispatch_pending n limit b = fold (dispatch_event n) (pending_batch limit b) (\<lparr>ct_dispatched = 0, ct_retried = 0, ct_dead = 0\<rparr>, b)"

subsection \<open>The receiver's check\<close>

definition verify_webhook_signature :: "net \<Rightarrow> string \<Rightarrow> string \<Rightarrow> string \<Rightarrow> string \<Rightarrow> ts \<Rightarrow> int option \<Rightarrow> bool" where
  "verify_webhook_signature n secret timestamp body header now parsed \<longleftrightarrow>
     py_strip (remove_prefix ''v1='' header) = nt_hmac n secret (timestamp @ ''.'' @ body)
     \<and> (case parsed of None \<Rightarrow> False | Some t \<Rightarrow> \<bar>now - t\<bar> \<le> 300)"

end
