(* ===== verification/EventDelivery.thy ===== *)
theory EventDelivery
  imports EventBackbone
begin

section \<open>What reaches webhooks and users\<close>

text \<open>
  Lemmas and properties of the event backbone: the contract of a consumer, deliveries that happen once, events that
  settle, and what one broken webhook does to the rest.
\<close>

subsection \<open>Steps of a delivery\<close>

text \<open>Network calls move counters and the clock only.\<close>

definition same_data :: "backbone \<Rightarrow> backbone \<Rightarrow> bool" where
  "same_data b b' \<longleftrightarrow> bb_outbox b' = bb_outbox b \<and> bb_consumed b' = bb_consumed b \<and> bb_hooks b' = bb_hooks b
     \<and> bb_deliveries b' = bb_deliveries b \<and> bb_notifications b' = bb_notifications b"

lemma same_data_resolve: "same_data b (snd (resolve_public_ips n lo host b))"
  by (auto simp: resolve_public_ips_def same_data_def Let_def split: option.splits)

lemma same_data_post: "same_data b (snd (pinned_post n url ips lo signature b))"
proof (cases "resolve_public_ips n lo (nt_host n url) b")
  case (Pair r b1)
  with same_data_resolve [of b n lo "nt_host n url"] show ?thesis
    by (cases r) (auto simp: pinned_post_def seq_def throw_def same_data_def split: prod.splits option.splits)
qed

text \<open>What a predicate must not look at to be kept by the steps of a delivery.\<close>

definition data_only :: "(backbone \<Rightarrow> bool) \<Rightarrow> bool" where
  "data_only I \<longleftrightarrow> (\<forall>b b'. same_data b b' \<longrightarrow> I b \<longrightarrow> I b')"

lemma data_onlyD: "data_only I \<Longrightarrow> same_data b b' \<Longrightarrow> I b \<Longrightarrow> I b'"
  unfolding data_only_def by blast

lemma same_data_now: "same_data b (b\<lparr>bb_now := t\<rparr>)"
  by (simp add: same_data_def)

lemma consumed_simps [simp]:
  "consumed i c (record_consumption j c' b) \<longleftrightarrow> consumed i c b \<or> (i = j \<and> c = c')"
  "consumed i c (b\<lparr>bb_outbox := o1\<rparr>) = consumed i c b" "consumed i c (b\<lparr>bb_deliveries := ds\<rparr>) = consumed i c b"
  "consumed i c (b\<lparr>bb_notifications := ns\<rparr>) = consumed i c b" "consumed i c (b\<lparr>bb_now := t\<rparr>) = consumed i c b"
  "consumed i c (b\<lparr>bb_hooks := hs\<rparr>) = consumed i c b"
  by (auto simp: consumed_def record_consumption_def)

lemma recorded_fields [simp]:
  "bb_outbox (record_consumption j c b) = bb_outbox b" "bb_hooks (record_consumption j c b) = bb_hooks b"
  "bb_deliveries (record_consumption j c b) = bb_deliveries b" "bb_notifications (record_consumption j c b) = bb_notifications b"
  by (simp_all add: record_consumption_def)

lemma webhook_consumer_eq [simp]:
  "webhook_consumer h = webhook_consumer h' \<longleftrightarrow> hk_id h = hk_id h'" "webhook_consumer h \<noteq> ''notifications''"
  "''notifications'' \<noteq> webhook_consumer h"
  by (simp_all add: webhook_consumer_def)

text \<open>A delivery, step by step: a failed attempt is logged, a successful one is logged and consumes the event.\<close>

definition logged :: "hook \<Rightarrow> event_row \<Rightarrow> nat \<Rightarrow> nat option \<Rightarrow> string option \<Rightarrow> bool \<Rightarrow> backbone \<Rightarrow> backbone" where
  "logged h e k status error ok b = b\<lparr>bb_deliveries := bb_deliveries b @ [\<lparr>dl_hook = hk_id h, dl_event = ev_id e, dl_attempt = k,
     dl_status = status, dl_success = ok, dl_error = error\<rparr>]\<rparr>"

lemma logged_fields [simp]:
  "consumed i c (logged h e k st er ok b) = consumed i c b" "bb_outbox (logged h e k st er ok b) = bb_outbox b"
  "bb_hooks (logged h e k st er ok b) = bb_hooks b" "bb_consumed (logged h e k st er ok b) = bb_consumed b"
  "bb_notifications (logged h e k st er ok b) = bb_notifications b"
  by (simp_all add: logged_def consumed_def)

lemma same_data_consumed: "same_data b b' \<Longrightarrow> consumed i c b' = consumed i c b"
  by (simp add: same_data_def consumed_def)

lemma try_post_step:
  assumes "data_only I" and "I b"
    and "\<And>k st er b. I b \<Longrightarrow> I (logged h e k st er False b)"
    and "\<And>k st er b. I b \<Longrightarrow> J (record_consumption (ev_id e) (webhook_consumer h) (logged h e k st er True b))"
    and "\<And>b. I b \<Longrightarrow> J b"
  shows "J (snd (try_post n h e ips sg ks st b))"
  using assms(2)
proof (induction ks arbitrary: b st)
  case Nil
  then show ?case using assms(5) by (simp add: throw_def)
next
  case (Cons k ks)
  obtain r b1 where p: "pinned_post n (hk_url h) ips (\<not> nt_production n) sg b = (r, b1)"
    by (cases "pinned_post n (hk_url h) ips (\<not> nt_production n) sg b")
  have I1: "I b1"
    using data_onlyD [OF assms(1) same_data_post Cons.prems] p by (metis snd_conv)
  have wait: "I (b2\<lparr>bb_now := t\<rparr>)" if "I b2" for b2 t
    using data_onlyD [OF assms(1) same_data_now that] .
  show ?case
    using p I1 by (cases r)
      (auto simp: Let_def logged_def [symmetric] intro!: Cons.IH wait assms(3,4))
qed

text \<open>A target that never answers below 300 gets no delivery.\<close>

definition broken :: "net \<Rightarrow> string \<Rightarrow> bool" where
  "broken n url \<longleftrightarrow> (\<forall>k sg st. fst (nt_post n k url sg) = Some st \<longrightarrow> 300 \<le> st)"

lemma pinned_post_broken:
  "broken n url \<Longrightarrow> fst (pinned_post n url ips lo sg b) = Inr st \<Longrightarrow> 300 \<le> st"
  unfolding broken_def pinned_post_def
  by (auto simp: seq_def throw_def split: prod.splits sum.splits option.splits if_splits) (metis fst_conv)+

lemma try_post_broken:
  assumes "broken n (hk_url h)"
  shows "isl (fst (try_post n h e ips sg ks st b)) \<and> bb_consumed (snd (try_post n h e ips sg ks st b)) = bb_consumed b"
proof (induction ks arbitrary: b st)
  case Nil
  then show ?case by (simp add: throw_def)
next
  case (Cons k ks)
  let ?p = "pinned_post n (hk_url h) ips (\<not> nt_production n) sg b"
  have "fst ?p = Inr s \<Longrightarrow> \<not> s < 300" for s using pinned_post_broken [OF assms] by force
  moreover have "bb_consumed (snd ?p) = bb_consumed b" using same_data_post by (simp add: same_data_def)
  ultimately show ?case using Cons.IH by (cases ?p; cases "fst ?p") (auto simp: Let_def)
qed

lemma deliver_signed_state:
  "deliver_signed n h e s b = (if consumed (ev_id e) (webhook_consumer h) b then (Inr (), b)
     else case resolve_public_ips n (\<not> nt_production n) (nt_host n (hk_url h)) b of
         (Inl x, b1) \<Rightarrow> (Inl ''webhook host refused'', b1)
       | (Inr ips, b1) \<Rightarrow> try_post n h e ips (sign n s (show_int (bb_now b)) (nt_body n e (show_int (bb_now b)))) [1, 2, 3] None b1)"
  by (auto simp: deliver_signed_def Let_def seq_def catch_def throw_def split: prod.splits sum.splits)

lemma deliver_signed_step:
  assumes "data_only I" and "I b" and "\<not> consumed (ev_id e) (webhook_consumer h) b \<or> J b"
    and "\<And>k st er b. I b \<Longrightarrow> \<not> consumed (ev_id e) (webhook_consumer h) b \<Longrightarrow> I (logged h e k st er False b)"
    and "\<And>k st er b. I b \<Longrightarrow> \<not> consumed (ev_id e) (webhook_consumer h) b \<Longrightarrow>
       J (record_consumption (ev_id e) (webhook_consumer h) (logged h e k st er True b))"
    and "\<And>b. I b \<Longrightarrow> J b"
  shows "J (snd (deliver_signed n h e s b))"
proof (cases "consumed (ev_id e) (webhook_consumer h) b")
  case True
  with assms(3) show ?thesis by (simp add: deliver_signed_state)
next
  case False
  let ?I = "\<lambda>b. I b \<and> \<not> consumed (ev_id e) (webhook_consumer h) b"
  have data: "data_only ?I"
    using assms(1) unfolding data_only_def by (auto simp: same_data_consumed)
  obtain r b1 where r: "resolve_public_ips n (\<not> nt_production n) (nt_host n (hk_url h)) b = (r, b1)"
    by (cases "resolve_public_ips n (\<not> nt_production n) (nt_host n (hk_url h)) b")
  have b1: "?I b1"
    using data_onlyD [OF data same_data_resolve] assms(2) False r by (metis snd_conv)
  have "J (snd (try_post n h e ips sg [1, 2, 3] None b1))" for ips sg
    by (rule try_post_step [where I = ?I, OF data b1]) (auto simp: assms(4-6))
  with r b1 assms(6) False show ?thesis by (auto simp: deliver_signed_state split: sum.splits)
qed

lemma deliver_signed_keeps:
  assumes "data_only I"
    and "\<And>k st er b. I b \<Longrightarrow> \<not> consumed (ev_id e) (webhook_consumer h) b \<Longrightarrow> I (logged h e k st er False b)"
    and "\<And>k st er b. I b \<Longrightarrow> \<not> consumed (ev_id e) (webhook_consumer h) b \<Longrightarrow>
       I (record_consumption (ev_id e) (webhook_consumer h) (logged h e k st er True b))"
  shows "preserves I (deliver_signed n h e s)"
  by (rule preservesI) (rule deliver_signed_step [where I = I], use assms in auto)

subsection \<open>Consumers\<close>

text \<open>What the dispatcher relies on: a consumer leaves the outbox and the hooks alone and consumes its own event only.\<close>

definition confined :: "ident \<Rightarrow> backbone \<Rightarrow> backbone \<Rightarrow> bool" where
  "confined i b0 b \<longleftrightarrow> bb_outbox b = bb_outbox b0 \<and> bb_hooks b = bb_hooks b0
     \<and> (\<forall>j c. j \<noteq> i \<longrightarrow> consumed j c b = consumed j c b0)"

locale consumer =
  fixes run :: "net \<Rightarrow> event_row \<Rightarrow> unit bx"
  assumes kept: "preserves (confined (ev_id e) b0) (run n e)"
begin

lemma outbox: "bb_outbox (snd (run n e b)) = bb_outbox b"
  and hooks: "bb_hooks (snd (run n e b)) = bb_hooks b"
  and other_event: "j \<noteq> ev_id e \<Longrightarrow> consumed j c (snd (run n e b)) = consumed j c b"
  using preservesD [OF kept [of e b n], of b] by (auto simp: confined_def)

end

text \<open>Consumers run one after the other are a consumer.\<close>

locale two_consumers = first: consumer f + second: consumer g
  for f :: "net \<Rightarrow> event_row \<Rightarrow> unit bx" and g :: "net \<Rightarrow> event_row \<Rightarrow> unit bx"

sublocale two_consumers < both: consumer "\<lambda>n e. seq (f n e) (\<lambda>_. g n e)"
  by unfold_locales (rule preserves_seq [OF first.kept second.kept])

lemma consume_hook_rule:
  assumes "\<And>s. hk_secret h = Some s \<Longrightarrow> subscribed h e \<Longrightarrow> preserves I (deliver_signed n h e s)"
  shows "preserves I (consume_hook n e h)"
  using assms by (auto simp: consume_hook_def split: option.splits)

lemma consume_webhooks_rule:
  assumes "\<And>h s. preserves I (deliver_signed n h e s)"
  shows "preserves I (consume_webhooks n e)"
proof -
  have "preserves I (for_each (consume_hook n e) hs)" for hs
    by (rule preserves_for_each, rule consume_hook_rule, rule assms)
  then show ?thesis by (auto simp: consume_webhooks_def preserves_def ret_def)
qed

interpretation webhooks: consumer consume_webhooks
  by unfold_locales
    (rule consume_webhooks_rule, rule deliver_signed_keeps,
      auto simp: data_only_def same_data_consumed confined_def, auto simp: same_data_def)

interpretation notifying: consumer "\<lambda>_. consume_notifications"
  by unfold_locales (auto simp: consume_notifications_def preserves_def confined_def)

interpretation consumers: two_consumers consume_webhooks "\<lambda>_. consume_notifications" ..

subsection \<open>Delivered once\<close>

definition delivered :: "ident \<Rightarrow> ident \<Rightarrow> delivery \<Rightarrow> bool" where
  "delivered h i d \<longleftrightarrow> dl_hook d = h \<and> dl_event d = i \<and> dl_success d"

text \<open>Deliveries and consumptions agree: one successful delivery for each consumption of a hook, one notification for
  each consumption of the notifications.\<close>

definition once :: "backbone \<Rightarrow> bool" where
  "once b \<longleftrightarrow> (\<forall>h i. rowcount (delivered h i) (bb_deliveries b) = (if consumed i (''webhook:'' @ h) b then 1 else 0))
     \<and> length (bb_notifications b) = rowcount (\<lambda>x. snd x = ''notifications'') (bb_consumed b) \<and> distinct (bb_consumed b)"

lemma once_cong:
  assumes "once b" and "bb_deliveries b' = bb_deliveries b" and "bb_notifications b' = bb_notifications b"
    and "bb_consumed b' = bb_consumed b"
  shows "once b'"
  using assms by (simp add: once_def consumed_def)

lemma rowcount_snoc: "rowcount p (t @ [r]) = (if p r then Suc (rowcount p t) else rowcount p t)"
  by (simp add: rowcount_def)

lemma once_logged:
  assumes "once b"
  shows "once (logged h e k st er False b)"
  using assms by (simp add: once_def) (simp add: logged_def rowcount_snoc delivered_def)

lemma once_delivered:
  assumes "once b" and "\<not> consumed (ev_id e) (webhook_consumer h) b"
  shows "once (record_consumption (ev_id e) (webhook_consumer h) (logged h e k st er True b))"
proof -
  have "rowcount (delivered h' i) (bb_deliveries (logged h e k st er True b)) =
      rowcount (delivered h' i) (bb_deliveries b) + (if h' = hk_id h \<and> i = ev_id e then 1 else 0)" for h' i
    by (auto simp: logged_def rowcount_snoc delivered_def)
  moreover have "\<not> consumed i (''webhook:'' @ h') b" if "h' = hk_id h" "i = ev_id e" for h' i
    using assms(2) that by (simp add: webhook_consumer_def)
  ultimately have "rowcount (delivered h' i) (bb_deliveries (logged h e k st er True b)) =
      (if consumed i (''webhook:'' @ h') (record_consumption (ev_id e) (webhook_consumer h) (logged h e k st er True b)) then 1 else 0)" for h' i
    using assms(1) by (auto simp: once_def webhook_consumer_def)
  then show ?thesis
    using assms unfolding once_def
    by (simp add: record_consumption_def consumed_def rowcount_snoc webhook_consumer_def)
qed

lemma once_webhooks: "preserves once (consume_webhooks n e)"
  by (rule consume_webhooks_rule, rule deliver_signed_keeps)
    (auto simp: data_only_def same_data_def intro: once_logged once_delivered once_cong)

lemma once_notifications: "preserves once (consume_notifications e)"
proof (rule preservesI)
  fix b assume b: "once b"
  show "once (snd (consume_notifications e b))"
    using b by (auto simp: consume_notifications_def once_def record_consumption_def consumed_def rowcount_snoc)
qed

text \<open>The marks on the outbox are no part of it.\<close>

lemma mark_fields [simp]:
  "bb_hooks (mark_dispatched i b) = bb_hooks b" "bb_hooks (mark_retry i x b) = bb_hooks b"
  "bb_consumed (mark_dispatched i b) = bb_consumed b" "bb_consumed (mark_retry i x b) = bb_consumed b"
  "bb_deliveries (mark_dispatched i b) = bb_deliveries b" "bb_deliveries (mark_retry i x b) = bb_deliveries b"
  "bb_notifications (mark_dispatched i b) = bb_notifications b" "bb_notifications (mark_retry i x b) = bb_notifications b"
  "consumed j c (mark_dispatched i b) = consumed j c b" "consumed j c (mark_retry i x b) = consumed j c b"
  by (auto simp: mark_dispatched_def mark_retry_def Let_def consumed_def split: option.splits)

lemma dispatch_event_state:
  "snd (dispatch_event n e (c, b)) = (case consume n e b of
     (Inr _, b1) \<Rightarrow> mark_dispatched (ev_id e) b1 | (Inl x, b1) \<Rightarrow> mark_retry (ev_id e) x b1)"
  by (auto simp: dispatch_event_def split: prod.splits sum.splits)

text \<open>What every event of the batch keeps, the dispatch keeps.\<close>

lemma dispatch_keeps:
  assumes "I b" and "\<And>e c b. e \<in> set (pending_batch limit b0) \<Longrightarrow> I b \<Longrightarrow> I (snd (dispatch_event n e (c, b)))"
    and "b0 = b"
  shows "I (snd (dispatch_pending n limit b))"
proof -
  have "I (snd (fold (dispatch_event n) es cb))" if "set es \<subseteq> set (pending_batch limit b0)" and "I (snd cb)" for es cb
    using that
  proof (induction es arbitrary: cb)
    case (Cons e es)
    have "I (snd (dispatch_event n e cb))"
      using assms(2) [of e "snd cb" "fst cb"] Cons.prems by simp
    then show ?case using Cons.IH [of "dispatch_event n e cb"] Cons.prems by simp
  qed simp
  from this [of "pending_batch limit b" "(\<lparr>ct_dispatched = 0, ct_retried = 0, ct_dead = 0\<rparr>, b)"] assms(1,3) show ?thesis
    by (simp add: dispatch_pending_def)
qed

lemma once_consume: "preserves once (consume n e)"
  unfolding consume_def by (rule preserves_seq [OF once_webhooks once_notifications])

lemma once_dispatch: "once b \<Longrightarrow> once (snd (dispatch_pending n limit b))"
proof (rule dispatch_keeps [where b0 = b])
  fix e c b' assume "once b'"
  then have "once (snd (consume n e b'))"
    by (rule preservesD [OF once_consume])
  moreover obtain r b1 where "consume n e b' = (r, b1)" by (cases "consume n e b'")
  ultimately show "once (snd (dispatch_event n e (c, b')))"
    by (cases r) (simp_all add: dispatch_event_state once_cong [of b1])
qed simp_all

text \<open>What happens to the backbone: events come in, hooks are set up and taken down, time passes, and a dispatch runs.\<close>

inductive backbone_step :: "backbone \<Rightarrow> backbone \<Rightarrow> bool" where
  bs_emit: "backbone_step b (emit org type payload i b)"
| bs_hooks: "backbone_step b (b\<lparr>bb_hooks := hs\<rparr>)"
| bs_wait: "backbone_step b (b\<lparr>bb_now := t\<rparr>)"
| bs_dispatch: "backbone_step b (snd (dispatch_pending n limit b))"

lemma once_step: "backbone_step b b' \<Longrightarrow> once b \<Longrightarrow> once b'"
  by (induction rule: backbone_step.induct) (auto simp: emit_def intro: once_dispatch once_cong)

lemma once_history: "backbone_step\<^sup>*\<^sup>* b b' \<Longrightarrow> once b \<Longrightarrow> once b'"
  by (induction rule: rtranclp_induct) (auto intro: once_step)

lemma rowcount_le_1_ex: "rowcount p t = (if A then 1 else 0) \<Longrightarrow> A \<longleftrightarrow> (\<exists>d \<in> set t. p d)"
  using rowcount_0_iff [of p t] by (cases A) auto

text \<open>C18: No event reaches a webhook twice, or is notified twice: over any history of emissions, changes of the hooks and
  dispatches, whatever the targets answer and however often an event is retried, a hook has at most one successful
  delivery of an event, exactly the delivered ones are on record as consumed, and there is one notification per event
  that the notifications consumed.\<close>

theorem webhooks_delivered_at_most_once:
  assumes "backbone_step\<^sup>*\<^sup>* b b'" and "once b"
  shows "rowcount (delivered h i) (bb_deliveries b') \<le> 1
    \<and> consumed i (''webhook:'' @ h) b' = (\<exists>d \<in> set (bb_deliveries b'). delivered h i d)
    \<and> length (bb_notifications b') = card {x \<in> set (bb_consumed b'). snd x = ''notifications''}"
proof -
  have o: "once b'" by (rule once_history [OF assms])
  then have r: "rowcount (delivered h i) (bb_deliveries b') = (if consumed i (''webhook:'' @ h) b' then 1 else 0)"
    by (simp add: once_def)
  moreover have "length (bb_notifications b') = card {x \<in> set (bb_consumed b'). snd x = ''notifications''}"
    using o by (simp add: once_def rowcount_def distinct_card [symmetric])
  ultimately show ?thesis using rowcount_le_1_ex [OF r] by simp
qed

subsection \<open>Every event settles\<close>

text \<open>The dispatches a row still owes.\<close>

definition debt :: "event_row \<Rightarrow> nat" where
  "debt r = (if ev_status r = Pending then max 1 (MAX_ATTEMPTS - ev_attempts r) else 0)"

definition debts :: "backbone \<Rightarrow> nat" where
  "debts b = sum_list (map debt (bb_outbox b))"

definition retried :: "string \<Rightarrow> event_row \<Rightarrow> event_row" where
  "retried x r = r\<lparr>ev_attempts := ev_attempts r + 1, ev_error := Some x,
     ev_status := (if ev_attempts r + 1 \<ge> MAX_ATTEMPTS then Dead else ev_status r)\<rparr>"

interpretation outbox: keyed_table ev_id .

lemma upd_where_twice:
  "(\<And>r. p (f r) = p r) \<Longrightarrow> upd_where p g (upd_where p f t) = upd_where p (\<lambda>r. g (f r)) t"
  by (induction t) auto

lemma upd_rows_cong: "(\<And>r. r \<in> set t \<Longrightarrow> p r \<Longrightarrow> f r = g r) \<Longrightarrow> upd_where p f t = upd_where p g t"
  by (induction t) auto

lemma distinct_row_of: "distinct (map key t) \<Longrightarrow> r \<in> set t \<Longrightarrow> row_of key (key r) t = Some r"
  by (induction t) (auto simp: image_iff)

lemma mark_retry_outbox:
  assumes "distinct (map ev_id (bb_outbox b))"
  shows "bb_outbox (mark_retry i x b) = upd_where (\<lambda>r. ev_id r = i) (retried x) (bb_outbox b)"
proof -
  let ?f = "\<lambda>r. r\<lparr>ev_attempts := ev_attempts r + 1, ev_error := Some x\<rparr>"
  let ?t = "upd_where (\<lambda>r. ev_id r = i) ?f (bb_outbox b)"
  have row: "row_of ev_id i ?t = map_option ?f (row_of ev_id i (bb_outbox b))"
    by (subst outbox.row_of_upd_where) (auto dest: row_of_Some split: option.splits intro!: map_option_cong)
  have only: "row_of ev_id i (bb_outbox b) = Some r" if "r \<in> set (bb_outbox b)" "ev_id r = i" for r
    using distinct_row_of [OF assms that(1)] that(2) by simp
  show ?thesis
  proof (cases "row_of ev_id i (bb_outbox b)")
    case None
    then have "upd_where (\<lambda>r. ev_id r = i) g (bb_outbox b) = bb_outbox b" for g
      using only by (auto intro: upd_where_none)
    with None show ?thesis by (simp add: mark_retry_def Let_def)
  next
    case (Some r)
    have same: "r' = r" if "r' \<in> set (bb_outbox b)" "ev_id r' = i" for r' using only [OF that] Some by simp
    show ?thesis
      using Some by (auto simp: mark_retry_def Let_def row [simplified] upd_where_twice retried_def intro!: upd_rows_cong dest: same)
  qed
qed

lemma sum_list_upd_where:
  assumes "\<And>r. r \<in> set t \<Longrightarrow> p r \<Longrightarrow> f (g r) \<le> (f r :: nat)"
  shows "sum_list (map f (upd_where p g t)) \<le> sum_list (map f t)"
    and "r \<in> set t \<Longrightarrow> p r \<Longrightarrow> f (g r) < f r \<Longrightarrow> sum_list (map f (upd_where p g t)) < sum_list (map f t)"
proof -
  show le: "sum_list (map f (upd_where p g t)) \<le> sum_list (map f t)"
    using assms by (induction t) (auto intro: add_mono)
  show "sum_list (map f (upd_where p g t)) < sum_list (map f t)" if "r \<in> set t" "p r" "f (g r) < f r"
    using assms that
  proof (induction t)
    case (Cons a t)
    have t: "sum_list (map f (upd_where p g t)) \<le> sum_list (map f t)"
      using Cons.prems(1) by (induction t) (auto intro: add_mono)
    show ?case using Cons t by (cases "a = r") (auto intro: add_less_le_mono add_le_less_mono)
  qed simp
qed

lemma debt_marks: "debt (r\<lparr>ev_status := Dispatched, ev_published := w, ev_error := v\<rparr>) = 0"
    "debt (retried x r) \<le> debt r" "ev_status r = Pending \<Longrightarrow> debt (retried x r) < debt r"
    "ev_status r = Pending \<Longrightarrow> 0 < debt r"
  by (auto simp: debt_def retried_def)

text \<open>Dispatching an event pays something of its debt, and nobody else's.\<close>

lemma dispatch_event_pays:
  assumes "distinct (map ev_id (bb_outbox b))"
  shows "map ev_id (bb_outbox (snd (dispatch_event n e (c, b)))) = map ev_id (bb_outbox b)"
    and "debts (snd (dispatch_event n e (c, b))) \<le> debts b"
    and "e \<in> set (bb_outbox b) \<Longrightarrow> ev_status e = Pending \<Longrightarrow> debts (snd (dispatch_event n e (c, b))) < debts b"
proof -
  let ?b1 = "snd (consume n e b)"
  have b1: "bb_outbox ?b1 = bb_outbox b" unfolding consume_def by (rule consumers.both.outbox)
  obtain f where f: "bb_outbox (snd (dispatch_event n e (c, b))) = upd_where (\<lambda>r. ev_id r = ev_id e) f (bb_outbox b)"
      "\<And>r. ev_id (f r) = ev_id r" "\<And>r. debt (f r) \<le> debt r" "\<And>r. ev_status r = Pending \<Longrightarrow> debt (f r) < debt r"
  proof (cases "consume n e b")
    case (Pair r b2)
    show ?thesis
    proof (cases r)
      case (Inr u)
      show ?thesis
        by (rule that [of "\<lambda>r. r\<lparr>ev_status := Dispatched, ev_published := Some (bb_now b2), ev_error := None\<rparr>"])
          (use Pair Inr b1 in \<open>auto simp: dispatch_event_state mark_dispatched_def debt_marks\<close>)
    next
      case (Inl x)
      show ?thesis
        by (rule that [of "retried x"])
          (use Pair Inl b1 mark_retry_outbox [of b2 "ev_id e" x] assms in \<open>auto simp: dispatch_event_state debt_marks\<close>,
            simp add: retried_def)
    qed
  qed
  show "map ev_id (bb_outbox (snd (dispatch_event n e (c, b)))) = map ev_id (bb_outbox b)"
    unfolding f(1) by (rule outbox.keys_upd_where) (rule f(2))
  show "debts (snd (dispatch_event n e (c, b))) \<le> debts b"
    unfolding debts_def f(1) by (rule sum_list_upd_where(1)) (rule f(3))
  show "debts (snd (dispatch_event n e (c, b))) < debts b" if "e \<in> set (bb_outbox b)" "ev_status e = Pending"
    unfolding debts_def f(1) by (rule sum_list_upd_where(2)) (use f(3,4) that in auto)
qed

definition rounds :: "nat \<Rightarrow> net list \<Rightarrow> backbone \<Rightarrow> backbone" where
  "rounds limit ns = fold (\<lambda>n b. snd (dispatch_pending n limit b)) ns"

lemma rounds_simps [simp]:
  "rounds limit [] b = b" "rounds limit (n # ns) b = rounds limit ns (snd (dispatch_pending n limit b))"
  by (simp_all add: rounds_def)

definition is_pending :: "event_row \<Rightarrow> bool" where
  "is_pending r \<longleftrightarrow> ev_status r = Pending"

lemma debts_pos: "0 < debts b \<longleftrightarrow> (\<exists>r \<in> set (bb_outbox b). is_pending r)"
proof -
  have "0 < sum_list (map debt t) \<longleftrightarrow> (\<exists>r \<in> set t. is_pending r)" for t
    by (induction t) (auto simp: debt_def is_pending_def)
  then show ?thesis by (simp add: debts_def)
qed

lemma debts_bound: "debts b \<le> MAX_ATTEMPTS * rowcount is_pending (bb_outbox b)"
proof -
  have "sum_list (map debt t) \<le> MAX_ATTEMPTS * rowcount is_pending t" for t
  proof (induction t)
    case (Cons r t)
    have "debt r \<le> (if is_pending r then MAX_ATTEMPTS else 0)"
      by (simp add: debt_def is_pending_def MAX_ATTEMPTS_def)
    with Cons show ?case by (simp add: rowcount_def split: if_splits)
  qed (simp add: rowcount_def)
  then show ?thesis by (simp add: debts_def)
qed

lemma set_pending_batch: "set (pending_batch limit b) \<subseteq> {e \<in> set (bb_outbox b). is_pending e}"
  unfolding pending_batch_def is_pending_def by (auto dest: in_set_takeD)

lemma pending_batch_Nil: "1 \<le> limit \<Longrightarrow> pending_batch limit b = [] \<Longrightarrow> \<not> (\<exists>r \<in> set (bb_outbox b). is_pending r)"
proof -
  assume "1 \<le> limit" and "pending_batch limit b = []"
  then have "sort_key ev_created (filter is_pending (bb_outbox b)) = []"
    by (simp add: pending_batch_def is_pending_def [abs_def])
  then have "set (filter is_pending (bb_outbox b)) = {}" by (metis set_sort list.set(1))
  then show ?thesis by auto
qed

lemma dispatch_pays:
  assumes "distinct (map ev_id (bb_outbox b))" and "1 \<le> limit"
  shows "map ev_id (bb_outbox (snd (dispatch_pending n limit b))) = map ev_id (bb_outbox b)"
    and "debts (snd (dispatch_pending n limit b)) \<le> debts b - 1"
proof -
  let ?z = "\<lparr>ct_dispatched = 0, ct_retried = 0, ct_dead = 0\<rparr>"
  have rest: "map ev_id (bb_outbox (snd (fold (dispatch_event n) es cb))) = map ev_id (bb_outbox b)
      \<and> debts (snd (fold (dispatch_event n) es cb)) \<le> debts (snd cb)"
    if "map ev_id (bb_outbox (snd cb)) = map ev_id (bb_outbox b)" for es cb
    using that
  proof (induction es arbitrary: cb)
    case (Cons e es)
    have d: "distinct (map ev_id (bb_outbox (snd cb)))" using assms(1) Cons.prems by simp
    note pays = dispatch_event_pays(1,2) [OF d, where n = n and e = e and c = "fst cb", unfolded prod.collapse]
    show ?case using Cons.IH [of "dispatch_event n e cb"] Cons.prems pays by simp
  qed simp
  have "map ev_id (bb_outbox (snd (dispatch_pending n limit b))) = map ev_id (bb_outbox b)
      \<and> debts (snd (dispatch_pending n limit b)) \<le> debts b - 1"
  proof (cases "pending_batch limit b")
    case Nil
    then have "debts b = 0" using pending_batch_Nil [OF assms(2)] debts_pos [of b] by auto
    with Nil show ?thesis by (simp add: dispatch_pending_def)
  next
    case (Cons e es)
    then have e: "e \<in> set (bb_outbox b)" "ev_status e = Pending"
      using set_pending_batch [of limit b] by (auto simp: is_pending_def)
    note first = dispatch_event_pays(1,3) [OF assms(1), where n = n and e = e and c = ?z]
    show ?thesis
      using rest [of "dispatch_event n e (?z, b)" es] first e Cons by (simp add: dispatch_pending_def) linarith
  qed
  then show "map ev_id (bb_outbox (snd (dispatch_pending n limit b))) = map ev_id (bb_outbox b)"
    "debts (snd (dispatch_pending n limit b)) \<le> debts b - 1" by simp_all
qed

lemma rounds_settle:
  assumes "distinct (map ev_id (bb_outbox b))" and "1 \<le> limit" and "MAX_ATTEMPTS * rowcount is_pending (bb_outbox b) \<le> length ns"
  shows "\<forall>r \<in> set (bb_outbox (rounds limit ns b)). ev_status r \<noteq> Pending"
proof -
  have "debts (rounds limit ns b) \<le> debts b - length ns"
    using assms(1)
  proof (induction ns arbitrary: b)
    case (Cons n ns)
    note pays = dispatch_pays [OF Cons.prems assms(2), of n]
    have "debts (rounds limit ns (snd (dispatch_pending n limit b))) \<le> debts (snd (dispatch_pending n limit b)) - length ns"
      using Cons.prems pays(1) by (intro Cons.IH) simp
    with pays(2) show ?case by simp
  qed simp
  with debts_bound [of b] assms(3) have "debts (rounds limit ns b) = 0" by simp
  then show ?thesis using debts_pos [of "rounds limit ns b"] by (auto simp: is_pending_def)
qed

subsection \<open>One broken webhook\<close>

text \<open>The event \<open>i\<close> has reached neither the hook \<open>h\<close> nor the notifications.\<close>

definition silent :: "hook \<Rightarrow> ident \<Rightarrow> backbone \<Rightarrow> bool" where
  "silent h i b \<longleftrightarrow> \<not> consumed i (webhook_consumer h) b \<and> \<not> consumed i ''notifications'' b"

lemma deliver_broken:
  assumes "silent h (ev_id e) b" and "broken n (hk_url h)"
  shows "isl (fst (deliver_signed n h e s b))" and "silent h (ev_id e) (snd (deliver_signed n h e s b))"
proof -
  obtain r b1 where r: "resolve_public_ips n (\<not> nt_production n) (nt_host n (hk_url h)) b = (r, b1)"
    by (cases "resolve_public_ips n (\<not> nt_production n) (nt_host n (hk_url h)) b")
  then have "bb_consumed b1 = bb_consumed b" using same_data_resolve by (metis same_data_def snd_conv)
  with try_post_broken [OF assms(2)] assms(1) r show "isl (fst (deliver_signed n h e s b))"
    and "silent h (ev_id e) (snd (deliver_signed n h e s b))"
    by (auto simp: deliver_signed_state silent_def consumed_def simp del: try_post.simps split: sum.splits)
qed

lemma deliver_other:
  assumes "hk_id h' \<noteq> hk_id h"
  shows "preserves (silent h i) (deliver_signed n h' e s)"
  by (rule deliver_signed_keeps) (use assms in \<open>auto simp: data_only_def silent_def same_data_consumed\<close>)

lemma for_each_stops:
  assumes "x \<in> set xs" and "\<And>y. y \<in> set xs \<Longrightarrow> preserves S (f y)" and "\<And>s. S s \<Longrightarrow> isl (fst (f x s))" and "S s"
  shows "isl (fst (for_each f xs s)) \<and> S (snd (for_each f xs s))"
  using assms(1,2,4)
proof (induction xs arbitrary: s)
  case (Cons y ys)
  obtain r s1 where y: "f y s = (r, s1)" by (cases "f y s")
  have s1: "S s1" using preservesD [OF Cons.prems(2), of y s] Cons.prems(3) y by simp
  show ?case
  proof (cases r)
    case (Inl e)
    with y s1 show ?thesis by (simp add: seq_def)
  next
    case (Inr u)
    then have "x \<noteq> y" using assms(3) [OF Cons.prems(3)] y by auto
    then have "x \<in> set ys" using Cons.prems(1) by simp
    from Cons.IH [OF this _ s1] Cons.prems(2) show ?thesis using y Inr by (simp add: seq_def)
  qed
qed simp

lemma consume_stops:
  assumes "h \<in> set (bb_hooks b)" and "hk_active h" and "hk_org h = org" and "org \<noteq> []" and "hk_secret h = Some s"
    and "distinct (map hk_id (bb_hooks b))" and "broken n (hk_url h)" and "ev_org e = Some org" and "subscribed h e"
    and "silent h (ev_id e) b"
  shows "isl (fst (consume n e b)) \<and> silent h (ev_id e) (snd (consume n e b))"
proof -
  let ?hs = "filter (\<lambda>x. hk_org x = org \<and> hk_active x) (bb_hooks b)"
  have keep: "preserves (silent h (ev_id e)) (consume_hook n e x)" if "x \<in> set ?hs" for x
  proof (cases "x = h")
    case True
    then show ?thesis using deliver_broken(2) [OF _ assms(7)]
      by (intro consume_hook_rule) (auto simp: preserves_def)
  next
    case False
    then have "hk_id x \<noteq> hk_id h"
      using assms(1,6) that by (auto simp: distinct_map inj_on_def)
    then show ?thesis by (intro consume_hook_rule deliver_other)
  qed
  have "isl (fst (for_each (consume_hook n e) ?hs b)) \<and> silent h (ev_id e) (snd (for_each (consume_hook n e) ?hs b))"
    by (rule for_each_stops [of h])
      (use assms keep deliver_broken(1) [OF _ assms(7)] in \<open>auto simp: consume_hook_def\<close>)
  then show ?thesis
    using assms(4,8) by (auto simp: consume_def consume_webhooks_def seq_def split: prod.splits sum.splits)
qed

lemma row_kept: "row_of ev_id i (upd_where (\<lambda>r. ev_id r = k) f t) = row_of ev_id i t" if "i \<noteq> k" "\<And>r. ev_id (f r) = ev_id r"
  using that by (intro outbox.row_of_upd_other) auto

text \<open>What the dispatches keep: the event has reached nobody, and is not marked as dispatched.\<close>

definition stuck :: "hook \<Rightarrow> hook list \<Rightarrow> string \<Rightarrow> ident \<Rightarrow> ident list \<Rightarrow> backbone \<Rightarrow> bool" where
  "stuck h hs org i ids b \<longleftrightarrow> bb_hooks b = hs \<and> silent h i b \<and> map ev_id (bb_outbox b) = ids
     \<and> (\<exists>r. row_of ev_id i (bb_outbox b) = Some r \<and> ev_status r \<noteq> Dispatched \<and> ev_org r = Some org \<and> subscribed h r)"

lemma stuck_dispatch_event:
  assumes "stuck h hs org i ids b" and "h \<in> set hs" and "hk_active h" and "hk_org h = org" and "org \<noteq> []" and "hk_secret h = Some s"
    and "distinct (map hk_id hs)" and "broken n (hk_url h)" and "distinct ids"
    and "ev_id e = i \<Longrightarrow> ev_org e = Some org \<and> subscribed h e"
  shows "stuck h hs org i ids (snd (dispatch_event n e (c, b)))"
proof -
  obtain r b1 where r: "consume n e b = (r, b1)" by (cases "consume n e b")
  obtain row where row: "row_of ev_id i (bb_outbox b) = Some row" "ev_status row \<noteq> Dispatched" "ev_org row = Some org" "subscribed h row"
    using assms(1) by (auto simp: stuck_def)
  have b: "bb_hooks b = hs" "silent h i b" "map ev_id (bb_outbox b) = ids" using assms(1) by (auto simp: stuck_def)
  have b1: "bb_outbox b1 = bb_outbox b" "bb_hooks b1 = bb_hooks b"
    using consumers.both.outbox [of n e b] consumers.both.hooks [of n e b] r by (simp_all add: consume_def)
  have d: "distinct (map ev_id (bb_outbox b1))" using assms(9) b b1 by simp
  have ids: "map ev_id (bb_outbox (snd (dispatch_event n e (c, b)))) = ids"
    using dispatch_event_pays(1) [of b n e c] assms(9) b(3) by simp
  show ?thesis
  proof (cases "ev_id e = i")
    case True
    have "isl r \<and> silent h i b1"
      using consume_stops [of h b org s n e] assms(2-8,10) True b r by simp
    then obtain x where x: "r = Inl x" "silent h i b1" by (cases r) auto
    have "row_of ev_id i (bb_outbox (mark_retry i x b1)) = Some (retried x row)"
      unfolding mark_retry_outbox [OF d] b1(1) by (rule outbox.row_of_upd_own) (simp_all add: retried_def row)
    with x r ids b b1 row True show ?thesis
      by (auto simp: stuck_def dispatch_event_state silent_def retried_def subscribed_def)
  next
    case False
    then have s1: "silent h i b1"
      using consumers.both.other_event [of i e _ n b] b(2) r by (auto simp: silent_def consume_def)
    have "row_of ev_id i (bb_outbox (snd (dispatch_event n e (c, b)))) = Some row"
      using r row b1 False mark_retry_outbox [OF d]
      by (cases r) (auto simp: dispatch_event_state mark_dispatched_def row_kept retried_def)
    with s1 r ids b b1 row show ?thesis
      by (cases r) (auto simp: stuck_def dispatch_event_state silent_def)
  qed
qed

lemma stuck_rounds:
  assumes "stuck h hs org i ids b" and "h \<in> set hs" and "hk_active h" and "hk_org h = org" and "org \<noteq> []" and "hk_secret h = Some s"
    and "distinct (map hk_id hs)" and "\<forall>n \<in> set ns. broken n (hk_url h)" and "distinct ids"
  shows "stuck h hs org i ids (rounds limit ns b)"
  using assms(1,8)
proof (induction ns arbitrary: b)
  case (Cons n ns)
  have "stuck h hs org i ids (snd (dispatch_pending n limit b))"
  proof (rule dispatch_keeps [where b0 = b])
    fix e c b' assume e: "e \<in> set (pending_batch limit b)" and b': "stuck h hs org i ids b'"
    obtain row where "row_of ev_id i (bb_outbox b) = Some row" "ev_org row = Some org" "subscribed h row"
      using Cons.prems(1) by (auto simp: stuck_def)
    moreover have "row_of ev_id (ev_id e) (bb_outbox b) = Some e"
      using e set_pending_batch [of limit b] assms(9) Cons.prems(1) by (intro distinct_row_of) (auto simp: stuck_def)
    ultimately show "stuck h hs org i ids (snd (dispatch_event n e (c, b')))"
      using assms(2-7,9) Cons.prems(2) by (intro stuck_dispatch_event [OF b']) auto
  qed (use Cons.prems in auto)
  then show ?case using Cons.IH Cons.prems(2) by simp
qed simp

subsection \<open>A broken webhook silences the rest\<close>

text \<open>C28: A webhook that keeps failing takes the event with it: every dispatch of the event stops at the hook, so the user
  never gets the notification, and after at most five dispatches per pending event the event is dead.\<close>

theorem broken_webhook_silences_notifications:
  assumes "row_of ev_id i (bb_outbox b) = Some e" and "ev_status e = Pending" and "ev_org e = Some org" and "org \<noteq> []"
    and "h \<in> set (bb_hooks b)" and "hk_active h" and "hk_org h = org" and "hk_secret h = Some s" and "subscribed h e"
    and "silent h i b" and "\<forall>n \<in> set ns. broken n (hk_url h)"
    and "distinct (map hk_id (bb_hooks b))" and "distinct (map ev_id (bb_outbox b))"
    and "1 \<le> limit" and "MAX_ATTEMPTS * rowcount is_pending (bb_outbox b) \<le> length ns"
  shows "\<exists>r. row_of ev_id i (bb_outbox (rounds limit ns b)) = Some r \<and> ev_status r = Dead
    \<and> \<not> consumed i ''notifications'' (rounds limit ns b) \<and> \<not> consumed i (webhook_consumer h) (rounds limit ns b)"
proof -
  have "stuck h (bb_hooks b) org i (map ev_id (bb_outbox b)) b"
    using assms(1-3,9,10) by (simp add: stuck_def)
  then have st: "stuck h (bb_hooks b) org i (map ev_id (bb_outbox b)) (rounds limit ns b)"
    by (rule stuck_rounds) (use assms(4-8,11-13) in auto)
  then obtain r where r: "row_of ev_id i (bb_outbox (rounds limit ns b)) = Some r" "ev_status r \<noteq> Dispatched"
    by (auto simp: stuck_def)
  moreover have "ev_status r \<noteq> Pending"
    using rounds_settle [OF assms(13-15)] row_of_Some [OF r(1)] by blast
  ultimately show ?thesis using st by (cases "ev_status r") (auto simp: stuck_def silent_def)
qed

text \<open>A backbone with one event, one hook, and a target that answers 200, or 503.\<close>

definition an_event :: event_row where
  "an_event = \<lparr>ev_id = ''e-1'', ev_org = Some ''acme'', ev_type = ''job.failed'', ev_payload = [], ev_status = Pending,
     ev_attempts = 0, ev_error = None, ev_created = 1, ev_published = None\<rparr>"

definition a_hook :: hook where
  "a_hook = \<lparr>hk_id = ''h-1'', hk_org = ''acme'', hk_url = ''https://x.com'', hk_secret = Some ''k'', hk_events = [], hk_active = True\<rparr>"

definition small_backbone :: backbone where
  "small_backbone = \<lparr>bb_outbox = [an_event], bb_consumed = [], bb_hooks = [a_hook], bb_deliveries = [], bb_notifications = [],
     bb_now = 10, bb_lookups = 0, bb_posts = 0\<rparr>"

definition answering :: "nat \<Rightarrow> net" where
  "answering st = \<lparr>nt_resolve = (\<lambda>_ _. Some [''93.184.216.34'']),
     nt_flags = (\<lambda>_. \<lparr>ip_private = False, ip_loopback = False, ip_link_local = False, ip_reserved = False, ip_multicast = False,
        ip_unspecified = False\<rparr>),
     nt_post = (\<lambda>_ _ _. (Some st, 1)), nt_host = (\<lambda>_. Some ''x.com''), nt_hmac = (\<lambda>_ m. m), nt_body = (\<lambda>e _. ev_payload e),
     nt_production = True\<rparr>"

lemma small_once: "once small_backbone"
  by (simp add: once_def small_backbone_def rowcount_def consumed_def)

lemma rounds_steps: "backbone_step\<^sup>*\<^sup>* b (rounds limit ns b)"
  by (induction ns arbitrary: b) (auto intro: converse_rtranclp_into_rtranclp bs_dispatch)

lemma small_delivery: "bb_consumed (rounds 50 [answering 200, answering 200] small_backbone) =
    [(''e-1'', ''webhook:h-1''), (''e-1'', ''notifications'')]"
  by code_simp

lemma webhooks_delivered_at_most_once_witness:
  "rowcount (delivered ''h-1'' ''e-1'') (bb_deliveries (rounds 50 [answering 200, answering 200] small_backbone)) = 1"
proof -
  let ?b = "rounds 50 [answering 200, answering 200] small_backbone"
  note at = webhooks_delivered_at_most_once [OF rounds_steps small_once, of "''h-1''" "''e-1''" 50 "[answering 200, answering 200]"]
  have "consumed ''e-1'' (''webhook:'' @ ''h-1'') ?b" unfolding consumed_def small_delivery by simp
  with at have "\<exists>d \<in> set (bb_deliveries ?b). delivered ''h-1'' ''e-1'' d" by blast
  then have "rowcount (delivered ''h-1'' ''e-1'') (bb_deliveries ?b) \<noteq> 0" unfolding rowcount_0_iff by blast
  with at show ?thesis by linarith
qed

lemma broken_webhook_silences_notifications_witness:
  "\<exists>r. row_of ev_id ''e-1'' (bb_outbox (rounds 50 (replicate 5 (answering 503)) small_backbone)) = Some r \<and> ev_status r = Dead
    \<and> \<not> consumed ''e-1'' ''notifications'' (rounds 50 (replicate 5 (answering 503)) small_backbone)"
proof -
  have "\<forall>n \<in> set (replicate 5 (answering 503)). broken n (hk_url a_hook)"
    by (simp add: broken_def answering_def)
  moreover have "row_of ev_id ''e-1'' (bb_outbox small_backbone) = Some an_event" "silent a_hook ''e-1'' small_backbone"
      "subscribed a_hook an_event"
    by (simp_all add: small_backbone_def an_event_def a_hook_def silent_def consumed_def subscribed_def)
  ultimately have "\<exists>r. row_of ev_id ''e-1'' (bb_outbox (rounds 50 (replicate 5 (answering 503)) small_backbone)) = Some r
      \<and> ev_status r = Dead \<and> \<not> consumed ''e-1'' ''notifications'' (rounds 50 (replicate 5 (answering 503)) small_backbone)
      \<and> \<not> consumed ''e-1'' (webhook_consumer a_hook) (rounds 50 (replicate 5 (answering 503)) small_backbone)"
    by (intro broken_webhook_silences_notifications [where e = an_event and org = "''acme''" and s = "''k''"])
      (simp_all add: small_backbone_def an_event_def a_hook_def MAX_ATTEMPTS_def is_pending_def rowcount_def)
  then show ?thesis by blast
qed

text \<open>What the dispatcher signs, the receiver accepts for five minutes: HMAC in hexadecimal has no white space.\<close>

lemma signature_roundtrip:
  assumes "py_strip (nt_hmac n secret (timestamp @ ''.'' @ body)) = nt_hmac n secret (timestamp @ ''.'' @ body)"
  shows "verify_webhook_signature n secret timestamp body (sign n secret timestamp body) now (Some t) \<longleftrightarrow> \<bar>now - t\<bar> \<le> 300"
  using assms by (simp add: verify_webhook_signature_def sign_def remove_prefix_def starts_with_iff)

end
