(* ===== verification/Leasing.thy ===== *)
theory Leasing
  imports Lifecycle PyStr "HOL-Library.Product_Lexorder"
begin

section \<open>Fenced leasing (runtime/leasing.py)\<close>

text \<open>
  The table \<open>runtime.jobs\<close> of the V6 runtime and every operation on it.  A worker that claims a job is
  given a fresh lease token and a lease version one higher than before; each sensitive write repeats
  the pair and raises LeaseLostError when no row matches.  Tokens come from \<open>gen_random_uuid()\<close> and
  are arguments; payloads and checkpoints are opaque JSON documents.  SKIP LOCKED ignores the rows
  other transactions hold (\<open>locked\<close>); a LIMIT without ORDER BY takes rows in table order.
\<close>

type_synonym blob = string

datatype rt_state =
    Queued | Planning | Discovering | Researching | Enriching | Verifying | Scoring | Qualifying
  | Cancelling | ReadyForReview | Cancelled | Failed | PartialSuccess
  | Paused | WaitingForUser | WaitingForCapacity

definition ACTIVE_STATES :: "rt_state list" where
  "ACTIVE_STATES =
     [Planning, Discovering, Researching, Enriching, Verifying, Scoring, Qualifying, Cancelling]"

definition TERMINAL_STATES :: "rt_state list" where
  "TERMINAL_STATES = [ReadyForReview, Cancelled, Failed, PartialSuccess]"

record rt_job =
  rj_id :: ident
  rj_org :: ident
  rj_campaign :: "ident option"
  rj_type :: string
  rj_queue :: string
  rj_state :: rt_state
  rj_payload :: blob
  rj_checkpoint :: blob
  rj_attempts :: int
  rj_max_attempts :: int
  rj_priority :: int
  rj_token :: "string option"
  rj_version :: int
  rj_lease :: "ts option"
  rj_cancel_at :: "ts option"
  rj_cancelled_by :: "string option"
  rj_cancel_reason :: "string option"
  rj_error :: "string option"
  rj_worker :: "string option"
  rj_created :: ts
  rj_updated :: ts
  rj_started :: "ts option"
  rj_finished :: "ts option"

record rt_event =
  re_job :: ident
  re_org :: ident
  re_kind :: string
  re_data :: blob

record rt_db =
  rt_jobs :: "rt_job list"
  rt_events :: "rt_event list"

datatype rt_error = LeaseLost ident string

text \<open>The fence: the row is the job's, and token and version are the ones the worker was given.\<close>

definition fenced_row :: "ident \<Rightarrow> string \<Rightarrow> int \<Rightarrow> rt_job \<Rightarrow> bool" where
  "fenced_row jid tok v r \<longleftrightarrow> rj_id r = jid \<and> rj_token r = Some tok \<and> rj_version r = v"

definition update_jobs :: "(rt_job \<Rightarrow> bool) \<Rightarrow> (rt_job \<Rightarrow> rt_job) \<Rightarrow> rt_db \<Rightarrow> rt_db" where
  "update_jobs p f d = d\<lparr>rt_jobs := upd_where p f (rt_jobs d)\<rparr>"

text \<open>The shape of a fenced write: zero matching rows is a lost lease.\<close>

definition fenced_write ::
  "ident \<Rightarrow> string \<Rightarrow> int \<Rightarrow> string \<Rightarrow> (rt_job \<Rightarrow> rt_job) \<Rightarrow> (rt_db, rt_error, unit) act" where
  "fenced_write jid tok v what f = (\<lambda>d.
     if rowcount (fenced_row jid tok v) (rt_jobs d) = 0 then (Inl (LeaseLost jid what), d)
     else (Inr (), update_jobs (fenced_row jid tok v) f d))"

subsection \<open>Creating and claiming\<close>

definition create_job ::
  "ts \<Rightarrow> ident \<Rightarrow> ident \<Rightarrow> string \<Rightarrow> blob \<Rightarrow> string \<Rightarrow> ident option \<Rightarrow> int \<Rightarrow> int \<Rightarrow> rt_db \<Rightarrow> rt_db" where
  "create_job now fresh org jtype payload queue campaign max_attempts priority d =
     d\<lparr>rt_jobs := rt_jobs d @
         [\<lparr>rj_id = fresh, rj_org = org, rj_campaign = campaign, rj_type = jtype, rj_queue = queue,
           rj_state = Queued, rj_payload = payload, rj_checkpoint = ''{}'', rj_attempts = 0,
           rj_max_attempts = max_attempts, rj_priority = priority, rj_token = None, rj_version = 0,
           rj_lease = None, rj_cancel_at = None, rj_cancelled_by = None, rj_cancel_reason = None,
           rj_error = None, rj_worker = None, rj_created = now, rj_updated = now, rj_started = None,
           rj_finished = None\<rparr>],
       rt_events := rt_events d @ [\<lparr>re_job = fresh, re_org = org, re_kind = ''created'', re_data = ''{}''\<rparr>]\<rparr>"

definition claimable :: "string list \<Rightarrow> ident list \<Rightarrow> rt_job \<Rightarrow> bool" where
  "claimable queues locked r \<longleftrightarrow>
     rj_queue r \<in> set queues \<and> rj_state r = Queued \<and> rj_attempts r < rj_max_attempts r
     \<and> rj_id r \<notin> set locked"

definition claimed_row :: "ts \<Rightarrow> string \<Rightarrow> string \<Rightarrow> int \<Rightarrow> rt_job \<Rightarrow> rt_job" where
  "claimed_row now tok worker secs r =
     r\<lparr>rj_state := Planning, rj_token := Some tok, rj_version := rj_version r + 1,
       rj_lease := Some (now + secs), rj_worker := Some worker, rj_attempts := rj_attempts r + 1,
       rj_started := Some (or_default (rj_started r) now), rj_updated := now\<rparr>"

definition claim_next ::
  "ts \<Rightarrow> string \<Rightarrow> ident list \<Rightarrow> string list \<Rightarrow> string \<Rightarrow> int \<Rightarrow> rt_db \<Rightarrow> rt_job option \<times> rt_db" where
  "claim_next now tok locked queues worker secs d =
     (case first_min (\<lambda>r. (rj_priority r, rj_created r)) (filter (claimable queues locked) (rt_jobs d)) of
        None \<Rightarrow> (None, d)
      | Some r \<Rightarrow>
          (Some (claimed_row now tok worker secs r),
           update_jobs (\<lambda>x. rj_id x = rj_id r) (claimed_row now tok worker secs) d))"

subsection \<open>Fenced writes\<close>

text \<open>The heartbeat is fenced by the token alone and reports a lost lease as False.\<close>

definition heartbeat :: "ts \<Rightarrow> ident \<Rightarrow> string \<Rightarrow> int \<Rightarrow> rt_db \<Rightarrow> bool \<times> rt_db" where
  "heartbeat now jid tok secs d =
     (let p = (\<lambda>r. rj_id r = jid \<and> rj_token r = Some tok
                 \<and> rj_state r \<notin> {ReadyForReview, Cancelled, Failed})
      in (rowcount p (rt_jobs d) = 1,
          update_jobs p (\<lambda>r. r\<lparr>rj_lease := Some (now + secs), rj_updated := now\<rparr>) d))"

definition set_phase ::
  "ts \<Rightarrow> ident \<Rightarrow> string \<Rightarrow> int \<Rightarrow> rt_state \<Rightarrow> int \<Rightarrow> (rt_db, rt_error, unit) act" where
  "set_phase now jid tok v st secs =
     fenced_write jid tok v ''phase''
       (\<lambda>r. r\<lparr>rj_state := st, rj_updated := now, rj_lease := Some (now + secs)\<rparr>)"

definition save_checkpoint ::
  "ts \<Rightarrow> ident \<Rightarrow> string \<Rightarrow> int \<Rightarrow> blob \<Rightarrow> rt_state option \<Rightarrow> int \<Rightarrow> (rt_db, rt_error, unit) act" where
  "save_checkpoint now jid tok v data st secs =
     fenced_write jid tok v ''checkpoint''
       (\<lambda>r. r\<lparr>rj_checkpoint := data, rj_state := or_default st (rj_state r), rj_updated := now,
              rj_lease := Some (now + secs)\<rparr>)"

definition PARK_PREFIX :: string where "PARK_PREFIX = ''parked:''"

definition parked_row :: "ts \<Rightarrow> string \<Rightarrow> rt_job \<Rightarrow> rt_job" where
  "parked_row now reason r =
     r\<lparr>rj_state := WaitingForCapacity, rj_attempts := max (rj_attempts r - 1) 0,
       rj_error := Some (take 800 (PARK_PREFIX @ '' '' @ reason)), rj_updated := now,
       rj_lease := None, rj_token := None\<rparr>"

definition park :: "ts \<Rightarrow> ident \<Rightarrow> string \<Rightarrow> int \<Rightarrow> string \<Rightarrow> (rt_db, rt_error, unit) act" where
  "park now jid tok v reason = fenced_write jid tok v ''park'' (parked_row now reason)"

definition completed_row :: "ts \<Rightarrow> rt_state \<Rightarrow> rt_job \<Rightarrow> rt_job" where
  "completed_row now st r =
     r\<lparr>rj_state := st, rj_finished := Some now, rj_updated := now, rj_lease := None, rj_token := None\<rparr>"

definition complete :: "ts \<Rightarrow> ident \<Rightarrow> string \<Rightarrow> int \<Rightarrow> rt_state \<Rightarrow> (rt_db, rt_error, unit) act" where
  "complete now jid tok v st = fenced_write jid tok v ''completion'' (completed_row now st)"

definition failed_row :: "ts \<Rightarrow> string \<Rightarrow> rt_job \<Rightarrow> rt_job" where
  "failed_row now err r =
     r\<lparr>rj_error := Some (take 800 err), rj_updated := now,
       rj_state := (if rj_attempts r \<ge> rj_max_attempts r then Failed else Queued),
       rj_finished := (if rj_attempts r \<ge> rj_max_attempts r then Some now else None),
       rj_lease := None, rj_token := None\<rparr>"

text \<open>\<open>fail\<close> returns the state that the RETURNING clause reads back.\<close>

definition fail :: "ts \<Rightarrow> ident \<Rightarrow> string \<Rightarrow> int \<Rightarrow> string \<Rightarrow> (rt_db, rt_error, rt_state) act" where
  "fail now jid tok v err = (\<lambda>d.
     case find (fenced_row jid tok v) (rt_jobs d) of
       None \<Rightarrow> (Inl (LeaseLost jid ''failure''), d)
     | Some r \<Rightarrow> (Inr (rj_state (failed_row now err r)),
                  update_jobs (fenced_row jid tok v) (failed_row now err) d))"

definition apply_cancellation :: "ts \<Rightarrow> ident \<Rightarrow> string \<Rightarrow> int \<Rightarrow> rt_db \<Rightarrow> bool \<times> rt_db" where
  "apply_cancellation now jid tok v d =
     (let p = (\<lambda>r. fenced_row jid tok v r \<and> rj_cancel_at r \<noteq> None \<and> rj_state r \<noteq> Cancelling)
      in (rowcount p (rt_jobs d) = 1,
          update_jobs p (\<lambda>r. r\<lparr>rj_state := Cancelling, rj_updated := now\<rparr>) d))"

text \<open>The one fenced write that does not look at its row count.\<close>

definition finish_cancelled :: "ts \<Rightarrow> ident \<Rightarrow> string \<Rightarrow> int \<Rightarrow> rt_db \<Rightarrow> rt_db" where
  "finish_cancelled now jid tok v d = update_jobs (fenced_row jid tok v) (completed_row now Cancelled) d"

subsection \<open>Unfenced operations\<close>

definition request_cancel ::
  "ts \<Rightarrow> ident \<Rightarrow> ident \<Rightarrow> string \<Rightarrow> string \<Rightarrow> rt_db \<Rightarrow> bool \<times> rt_db" where
  "request_cancel now org jid by_whom reason d =
     (let p = (\<lambda>r. rj_id r = jid \<and> rj_org r = org \<and> rj_state r \<notin> {ReadyForReview, Cancelled, Failed})
      in (rowcount p (rt_jobs d) = 1,
          update_jobs p (\<lambda>r. r\<lparr>rj_cancel_at := Some now, rj_cancelled_by := Some by_whom,
                               rj_cancel_reason := Some reason, rj_updated := now\<rparr>) d))"

definition resume_job :: "ts \<Rightarrow> ident \<Rightarrow> ident \<Rightarrow> rt_db \<Rightarrow> bool \<times> rt_db" where
  "resume_job now org jid d =
     (let p = (\<lambda>r. rj_id r = jid \<and> rj_org r = org \<and> rj_state r \<in> {Paused, WaitingForUser})
      in (rowcount p (rt_jobs d) = 1, update_jobs p (\<lambda>r. r\<lparr>rj_state := Queued, rj_updated := now\<rparr>) d))"

text \<open>\<open>queues\<close> is None for all queues; \<open>LIKE 'parked:%'\<close> is a prefix test.\<close>

definition wakeable :: "ts \<Rightarrow> string list option \<Rightarrow> int \<Rightarrow> rt_job \<Rightarrow> bool" where
  "wakeable now queues min_age r \<longleftrightarrow>
     rj_state r = WaitingForCapacity
     \<and> (case rj_error r of None \<Rightarrow> False | Some e \<Rightarrow> starts_with e PARK_PREFIX)
     \<and> (case queues of None \<Rightarrow> True | Some qs \<Rightarrow> rj_queue r \<in> set qs)
     \<and> rj_updated r \<le> now - min_age"

definition wake_parked :: "ts \<Rightarrow> string list option \<Rightarrow> int \<Rightarrow> rt_db \<Rightarrow> nat \<times> rt_db" where
  "wake_parked now queues min_age d =
     (rowcount (wakeable now queues min_age) (rt_jobs d),
      update_jobs (wakeable now queues min_age) (\<lambda>r. r\<lparr>rj_state := Queued, rj_updated := now\<rparr>) d)"

definition lapsed :: "ts \<Rightarrow> rt_job \<Rightarrow> bool" where
  "lapsed now r \<longleftrightarrow>
     rj_state r \<in> set ACTIVE_STATES \<and> (case rj_lease r of None \<Rightarrow> False | Some t \<Rightarrow> t < now)"

definition dead_row :: "ts \<Rightarrow> rt_job \<Rightarrow> rt_job" where
  "dead_row now r =
     r\<lparr>rj_state := Failed, rj_finished := Some now, rj_token := None, rj_lease := None,
       rj_error := Some ''lease expired after max attempts; not requeued'', rj_updated := now\<rparr>"

definition requeued_row :: "ts \<Rightarrow> rt_job \<Rightarrow> rt_job" where
  "requeued_row now r =
     r\<lparr>rj_state := Queued, rj_token := None, rj_lease := None,
       rj_error := Some ''lease expired; requeued'', rj_updated := now\<rparr>"

definition reclaim_expired :: "ts \<Rightarrow> nat \<Rightarrow> rt_db \<Rightarrow> ident list \<times> rt_db" where
  "reclaim_expired now batch d =
     (let spent = (\<lambda>r. lapsed now r \<and> rj_attempts r \<ge> rj_max_attempts r);
          failed = map rj_id (take batch (filter spent (rt_jobs d)));
          d1 = d\<lparr>rt_jobs := upd_limit batch spent (dead_row now) (rt_jobs d)\<rparr>;
          remaining = batch - length failed
      in if remaining > 0
         then (map rj_id (take remaining (filter (lapsed now) (rt_jobs d1))) @ failed,
               d1\<lparr>rt_jobs := upd_limit remaining (lapsed now) (requeued_row now) (rt_jobs d1)\<rparr>)
         else (failed, d1))"

subsection \<open>Reads and the event log\<close>

definition get_job :: "ident \<Rightarrow> ident \<Rightarrow> rt_db \<Rightarrow> rt_job option" where
  "get_job org jid d = find (\<lambda>r. rj_id r = jid \<and> rj_org r = org) (rt_jobs d)"

definition list_jobs :: "ident \<Rightarrow> nat \<Rightarrow> rt_db \<Rightarrow> rt_job list" where
  "list_jobs org limit d =
     take limit (sort_key (\<lambda>r. - rj_created r) (filter (\<lambda>r. rj_org r = org) (rt_jobs d)))"

definition active_job_count :: "ident \<Rightarrow> rt_db \<Rightarrow> nat" where
  "active_job_count org d =
     rowcount (\<lambda>r. rj_org r = org \<and> (rj_state r = Queued \<or> rj_state r \<in> set ACTIVE_STATES)) (rt_jobs d)"

definition append_job_event :: "ident \<Rightarrow> ident \<Rightarrow> string \<Rightarrow> blob \<Rightarrow> rt_db \<Rightarrow> rt_db" where
  "append_job_event jid org kind data d =
     d\<lparr>rt_events := rt_events d @ [\<lparr>re_job = jid, re_org = org, re_kind = kind, re_data = data\<rparr>]\<rparr>"

subsection \<open>Histories\<close>

text \<open>
  Every operation as a step.  Handlers set phases and checkpoint states from ACTIVE_STATES and finish
  in states outside it; jobs are created with a fresh id and a non-negative attempt budget.
\<close>

inductive rt_step :: "rt_db \<Rightarrow> rt_db \<Rightarrow> bool" where
  s_create: "fresh \<notin> rj_id ` set (rt_jobs d) \<Longrightarrow> 0 \<le> m \<Longrightarrow>
     rt_step d (create_job now fresh org jtype payload queue campaign m priority d)"
| s_claim: "rt_step d (snd (claim_next now tok locked queues worker secs d))"
| s_heartbeat: "rt_step d (snd (heartbeat now jid tok secs d))"
| s_phase: "st \<in> set ACTIVE_STATES \<Longrightarrow> rt_step d (snd (set_phase now jid tok v st secs d))"
| s_checkpoint: "(\<And>st. st_opt = Some st \<Longrightarrow> st \<in> set ACTIVE_STATES) \<Longrightarrow>
     rt_step d (snd (save_checkpoint now jid tok v data st_opt secs d))"
| s_park: "rt_step d (snd (park now jid tok v why d))"
| s_complete: "st \<notin> set ACTIVE_STATES \<Longrightarrow> rt_step d (snd (complete now jid tok v st d))"
| s_fail: "rt_step d (snd (fail now jid tok v err d))"
| s_apply_cancel: "rt_step d (snd (apply_cancellation now jid tok v d))"
| s_finish_cancel: "rt_step d (finish_cancelled now jid tok v d)"
| s_request_cancel: "rt_step d (snd (request_cancel now org jid who why d))"
| s_resume: "rt_step d (snd (resume_job now org jid d))"
| s_wake: "rt_step d (snd (wake_parked now queues_opt age d))"
| s_reclaim: "rt_step d (snd (reclaim_expired now batch d))"
| s_event: "rt_step d (append_job_event jid org kind data d)"

text \<open>What every row keeps: a token is held exactly in the active states, and the attempt count stays
  within its budget.\<close>

definition rt_ok :: "rt_job \<Rightarrow> bool" where
  "rt_ok r \<longleftrightarrow> (rj_token r \<noteq> None \<longleftrightarrow> rj_state r \<in> set ACTIVE_STATES)
     \<and> 0 \<le> rj_attempts r \<and> rj_attempts r \<le> rj_max_attempts r"

definition row_evolves :: "rt_job \<Rightarrow> rt_job \<Rightarrow> bool" where
  "row_evolves r r' \<longleftrightarrow> rj_id r' = rj_id r \<and> rj_version r \<le> rj_version r' \<and>
     (rt_ok r \<longrightarrow> rt_ok r' \<and> (rj_state r \<in> set TERMINAL_STATES \<longrightarrow> rj_state r' = rj_state r))"

definition evolves :: "rt_job list \<Rightarrow> rt_job list \<Rightarrow> bool" where
  "evolves t t' \<longleftrightarrow> (\<exists>t1 t2. t' = t1 @ t2 \<and> list_all2 row_evolves t t1 \<and> list_all rt_ok t2)
     \<and> (distinct (map rj_id t) \<longrightarrow> distinct (map rj_id t'))"

lemmas state_sets = ACTIVE_STATES_def TERMINAL_STATES_def

lemma row_evolves_refl [simp]: "row_evolves r r"
  by (simp add: row_evolves_def)

lemma row_evolves_trans: "row_evolves a b \<Longrightarrow> row_evolves b c \<Longrightarrow> row_evolves a c"
  by (auto simp: row_evolves_def)

lemma row_evolves_ids: "list_all2 row_evolves t t' \<Longrightarrow> map rj_id t' = map rj_id t"
  by (induction rule: list_all2_induct) (auto simp: row_evolves_def)

lemma evolves_rows: "list_all2 row_evolves t t' \<Longrightarrow> evolves t t'"
  unfolding evolves_def
  by (intro conjI exI [of _ t'] exI [of _ "[]"]) (simp_all add: row_evolves_ids)

lemma rows_upd_where:
  "(\<And>r. r \<in> set t \<Longrightarrow> p r \<Longrightarrow> row_evolves r (f r)) \<Longrightarrow> list_all2 row_evolves t (upd_where p f t)"
  by (induction t) auto

lemma rows_upd_limit:
  "(\<And>r. p r \<Longrightarrow> row_evolves r (f r)) \<Longrightarrow> list_all2 row_evolves t (upd_limit n p f t)"
  by (induction n p f t rule: upd_limit.induct) (auto split: nat.splits intro: list_all2_refl)

lemma evolves_upd:
  "(\<And>r. r \<in> set (rt_jobs d) \<Longrightarrow> p r \<Longrightarrow> row_evolves r (f r)) \<Longrightarrow>
    evolves (rt_jobs d) (rt_jobs (update_jobs p f d))"
  by (simp add: update_jobs_def evolves_rows rows_upd_where)

lemma snd_fenced_write: "snd (fenced_write jid tok v what f d) = update_jobs (fenced_row jid tok v) f d"
  by (auto simp: fenced_write_def update_jobs_def upd_where_rowcount_0)

lemma snd_fail: "snd (fail now jid tok v err d) = update_jobs (fenced_row jid tok v) (failed_row now err) d"
proof (cases "find (fenced_row jid tok v) (rt_jobs d)")
  case None
  then have "upd_where (fenced_row jid tok v) (failed_row now err) (rt_jobs d) = rt_jobs d"
    by (intro upd_where_none) (simp add: find_None_iff)
  with None show ?thesis by (simp add: fail_def update_jobs_def)
qed (simp add: fail_def)

lemma claim_next_Some:
  assumes "claim_next now tok locked queues worker secs d = (Some r', d')"
  obtains r where "r \<in> set (rt_jobs d)" and "claimable queues locked r"
    and "\<And>x. x \<in> set (rt_jobs d) \<Longrightarrow> claimable queues locked x \<Longrightarrow>
           (rj_priority r, rj_created r) \<le> (rj_priority x, rj_created x)"
    and "r' = claimed_row now tok worker secs r"
    and "d' = update_jobs (\<lambda>x. rj_id x = rj_id r) (claimed_row now tok worker secs) d"
proof -
  from assms obtain r where
    m: "first_min (\<lambda>r. (rj_priority r, rj_created r)) (filter (claimable queues locked) (rt_jobs d)) = Some r"
    and rest: "r' = claimed_row now tok worker secs r"
      "d' = update_jobs (\<lambda>x. rj_id x = rj_id r) (claimed_row now tok worker secs) d"
    by (auto simp: claim_next_def split: option.splits)
  from first_min_Some_mem [OF m] have "r \<in> set (rt_jobs d)" "claimable queues locked r" by auto
  with rest first_min_least [OF m] that show thesis by simp
qed

lemma claim_next_None: "claim_next now tok locked queues worker secs d = (None, d') \<Longrightarrow> d' = d"
  by (auto simp: claim_next_def split: option.splits)

lemma claimed_row_evolves: "claimable queues locked r \<Longrightarrow> row_evolves r (claimed_row now tok w secs r)"
  by (auto simp: row_evolves_def claimable_def claimed_row_def rt_ok_def state_sets)

lemma evolves_claim:
  assumes "distinct (map rj_id (rt_jobs d))"
  shows "evolves (rt_jobs d) (rt_jobs (snd (claim_next now tok locked queues worker secs d)))"
proof (cases "claim_next now tok locked queues worker secs d")
  case (Pair res d')
  show ?thesis
  proof (cases res)
    case None
    with Pair claim_next_None have "d' = d" by blast
    with Pair show ?thesis by (simp add: evolves_rows list_all2_refl)
  next
    case (Some r')
    with Pair have c: "claim_next now tok locked queues worker secs d = (Some r', d')" by simp
    obtain r where r: "r \<in> set (rt_jobs d)" "claimable queues locked r"
      and d': "d' = update_jobs (\<lambda>x. rj_id x = rj_id r) (claimed_row now tok worker secs) d"
      by (rule claim_next_Some [OF c]) blast
    have "x = r" if "x \<in> set (rt_jobs d)" "rj_id x = rj_id r" for x
      using that assms r(1) by (auto simp: distinct_map dest: inj_onD)
    with r(2) claimed_row_evolves have "evolves (rt_jobs d) (rt_jobs d')"
      unfolding d' by (intro evolves_upd) metis
    with Pair show ?thesis by simp
  qed
qed

lemma evolves_reclaim: "evolves (rt_jobs d) (rt_jobs (snd (reclaim_expired now batch d)))"
proof -
  have dead: "row_evolves r (dead_row now r)" and requeued: "row_evolves r (requeued_row now r)"
    if "lapsed now r" for r
    using that by (auto simp: row_evolves_def lapsed_def dead_row_def requeued_row_def rt_ok_def state_sets)
  let ?p = "\<lambda>r. lapsed now r \<and> rj_attempts r \<ge> rj_max_attempts r"
  have one: "list_all2 row_evolves t (upd_limit batch ?p (dead_row now) t)" for t
    by (rule rows_upd_limit) (simp add: dead)
  have two: "list_all2 row_evolves t (upd_limit n (lapsed now) (requeued_row now) t)" for n t
    by (rule rows_upd_limit) (simp add: requeued)
  have "list_all2 row_evolves t (upd_limit n (lapsed now) (requeued_row now)
      (upd_limit batch ?p (dead_row now) t))" for n t
    by (rule list_all2_trans [OF row_evolves_trans one two])
  with one show ?thesis
    by (simp add: reclaim_expired_def Let_def evolves_rows)
qed

lemma evolves_append: "rt_ok r \<Longrightarrow> rj_id r \<notin> rj_id ` set t \<Longrightarrow> evolves t (t @ [r])"
  unfolding evolves_def
  by (intro conjI exI [of _ t] exI [of _ "[r]"]) (simp_all add: list_all2_refl)

lemma evolves_step:
  assumes "rt_step d d'" and "distinct (map rj_id (rt_jobs d))"
  shows "evolves (rt_jobs d) (rt_jobs d')"
  using assms
proof (induction rule: rt_step.induct)
  case (s_create fresh d m now org jtype payload queue campaign priority)
  then show ?case
    unfolding create_job_def by (simp add: evolves_append rt_ok_def state_sets)
next
  case (s_claim d now tok locked queues worker secs)
  then show ?case by (simp add: evolves_claim)
next
  case (s_reclaim d now batch)
  then show ?case by (simp add: evolves_reclaim)
next
  case (s_event d jid org kind data)
  then show ?case by (simp add: append_job_event_def evolves_rows list_all2_refl)
next
  case (s_checkpoint st_opt d now jid tok v data secs)
  then show ?case
    unfolding save_checkpoint_def snd_fenced_write
    by (cases st_opt) (auto intro!: evolves_upd simp: row_evolves_def rt_ok_def fenced_row_def state_sets)
qed (auto simp: heartbeat_def set_phase_def park_def complete_def apply_cancellation_def
       finish_cancelled_def request_cancel_def resume_job_def wake_parked_def snd_fenced_write snd_fail
       Let_def intro!: evolves_upd,
     auto simp: row_evolves_def rt_ok_def fenced_row_def parked_row_def completed_row_def failed_row_def
       wakeable_def state_sets)

lemma rows_keep_ok: "list_all2 row_evolves t t' \<Longrightarrow> list_all rt_ok t \<Longrightarrow> list_all rt_ok t'"
  by (induction rule: list_all2_induct) (auto simp: row_evolves_def)

lemma evolves_trans: "evolves a b \<Longrightarrow> evolves b c \<Longrightarrow> evolves a c"
proof -
  assume ab: "evolves a b" and bc: "evolves b c"
  from ab obtain b1 b2 where b: "b = b1 @ b2" "list_all2 row_evolves a b1" "list_all rt_ok b2"
    by (auto simp: evolves_def)
  from bc obtain c1 c2 where c: "c = c1 @ c2" "list_all2 row_evolves b c1" "list_all rt_ok c2"
    by (auto simp: evolves_def)
  from c(2) b(1) obtain u v where uv: "c1 = u @ v" "list_all2 row_evolves b1 u" "list_all2 row_evolves b2 v"
    by (auto simp: list_all2_append1)
  have "list_all2 row_evolves a u"
    by (rule list_all2_trans [OF row_evolves_trans b(2) uv(2)])
  moreover have "list_all rt_ok (v @ c2)" using rows_keep_ok [OF uv(3) b(3)] c(3) by simp
  ultimately show ?thesis
    using ab bc unfolding evolves_def
    by (intro conjI exI [of _ u] exI [of _ "v @ c2"]) (auto simp: c(1) uv(1))
qed

lemma evolves_history:
  assumes "rt_step\<^sup>*\<^sup>* d d'" and "distinct (map rj_id (rt_jobs d))"
  shows "evolves (rt_jobs d) (rt_jobs d')"
  using assms
proof (induction rule: rtranclp_induct)
  case base
  then show ?case by (simp add: evolves_rows list_all2_refl)
next
  case (step d1 d2)
  then have "distinct (map rj_id (rt_jobs d1))" by (auto simp: evolves_def)
  with step show ?case using evolves_step evolves_trans by blast
qed

lemma evolves_distinct: "evolves t t' \<Longrightarrow> distinct (map rj_id t) \<Longrightarrow> distinct (map rj_id t')"
  by (simp add: evolves_def)

lemma evolves_ok: "evolves t t' \<Longrightarrow> list_all rt_ok t \<Longrightarrow> list_all rt_ok t'"
  by (auto simp: evolves_def dest: rows_keep_ok)

lemma rows_row_of:
  "list_all2 row_evolves t t' \<Longrightarrow> row_of rj_id k t = Some r \<Longrightarrow>
    \<exists>r'. row_of rj_id k t' = Some r' \<and> row_evolves r r'"
  by (induction rule: list_all2_induct) (auto simp: row_evolves_def split: if_splits)

lemma evolves_row:
  "evolves t t' \<Longrightarrow> row_of rj_id k t = Some r \<Longrightarrow>
    \<exists>r'. row_of rj_id k t' = Some r' \<and> row_evolves r r'"
  by (auto simp: evolves_def dest!: rows_row_of [where k = k])

subsection \<open>Fencing\<close>

interpretation rt_table: keyed_table rj_id .

definition version_of :: "ident \<Rightarrow> rt_db \<Rightarrow> int option" where
  "version_of jid d = map_option rj_version (row_of rj_id jid (rt_jobs d))"

datatype fenced_op = SetPhase rt_state int | SaveCheckpoint blob "rt_state option" int | Park string
  | Complete rt_state | Fail string

fun run_fenced :: "fenced_op \<Rightarrow> ts \<Rightarrow> ident \<Rightarrow> string \<Rightarrow> int \<Rightarrow> (rt_db, rt_error, unit) act" where
  "run_fenced (SetPhase st secs) now jid tok v = set_phase now jid tok v st secs"
| "run_fenced (SaveCheckpoint data st secs) now jid tok v = save_checkpoint now jid tok v data st secs"
| "run_fenced (Park why) now jid tok v = park now jid tok v why"
| "run_fenced (Complete st) now jid tok v = complete now jid tok v st"
| "run_fenced (Fail err) now jid tok v = seq (fail now jid tok v err) (\<lambda>_. ret ())"

fun op_name :: "fenced_op \<Rightarrow> string" where
  "op_name (SetPhase st secs) = ''phase''"
| "op_name (SaveCheckpoint data st secs) = ''checkpoint''"
| "op_name (Park why) = ''park''"
| "op_name (Complete st) = ''completion''"
| "op_name (Fail err) = ''failure''"

text \<open>
  The contract of a fencing version: it belongs to an entity and never falls along a history, and a
  write that carries a version other than the current one is refused without effect.
\<close>

locale fencing =
  fixes current :: "'k \<Rightarrow> 'd \<Rightarrow> int option"
    and inv :: "'d \<Rightarrow> bool"
    and step :: "'d \<Rightarrow> 'd \<Rightarrow> bool"
    and refused :: "'op \<Rightarrow> 'k \<Rightarrow> int \<Rightarrow> 'd \<Rightarrow> bool"
  assumes step_inv: "inv d \<Longrightarrow> step d d' \<Longrightarrow> inv d'"
    and step_mono: "inv d \<Longrightarrow> step d d' \<Longrightarrow> current k d = Some v \<Longrightarrow> \<exists>v'. current k d' = Some v' \<and> v \<le> v'"
    and stale_refused: "inv d \<Longrightarrow> current k d = Some v' \<Longrightarrow> v \<noteq> v' \<Longrightarrow> refused op k v d"
begin

lemma history:
  assumes "step\<^sup>*\<^sup>* d d'" and "inv d" and "current k d = Some v"
  shows "inv d' \<and> (\<exists>v'. current k d' = Some v' \<and> v \<le> v')"
  using assms
proof (induction rule: rtranclp_induct)
  case (step d1 d2)
  then obtain v1 where v1: "inv d1" "current k d1 = Some v1" "v \<le> v1" by blast
  with step_mono [OF v1(1) step.hyps(2) v1(2)] step_inv [OF v1(1) step.hyps(2)] show ?case
    by (meson order_trans)
qed simp

text \<open>Once a later version has been granted, every write of an earlier holder is refused for ever.\<close>

lemma superseded:
  assumes "inv d" and "current k d = Some w" and "v < w" and "step\<^sup>*\<^sup>* d d'"
  shows "refused op k v d'"
proof -
  from history [OF assms(4,1,2)] obtain v' where "inv d'" "current k d' = Some v'" "w \<le> v'" by blast
  with assms(3) stale_refused show ?thesis by force
qed

end

definition lost :: "fenced_op \<Rightarrow> ident \<Rightarrow> int \<Rightarrow> rt_db \<Rightarrow> bool" where
  "lost op jid v d \<longleftrightarrow> (\<forall>now tok. run_fenced op now jid tok v d = (Inl (LeaseLost jid (op_name op)), d))"

lemma lost_if_no_match:
  assumes "\<And>r. r \<in> set (rt_jobs d) \<Longrightarrow> rj_id r = jid \<Longrightarrow> rj_version r \<noteq> v"
  shows "lost op jid v d"
proof -
  have none: "rowcount (fenced_row jid tok v) (rt_jobs d) = 0"
    "find (fenced_row jid tok v) (rt_jobs d) = None" for tok
    using assms by (auto simp: fenced_row_def rowcount_0_iff find_None_iff)
  show ?thesis
    by (cases op) (auto simp: lost_def set_phase_def save_checkpoint_def park_def complete_def
        fail_def fenced_write_def none seq_def)
qed

lemma unique_rt_row:
  assumes "distinct (map rj_id t)" and "row_of rj_id k t = Some r" and "x \<in> set t" and "rj_id x = k"
  shows "x = r"
proof -
  from row_of_Some [OF assms(2)] have "r \<in> set t" "rj_id r = k" by auto
  with assms(1,3,4) show ?thesis by (metis distinct_map inj_onD)
qed

interpretation rt_fence: fencing version_of "\<lambda>d. distinct (map rj_id (rt_jobs d))" rt_step lost
proof (unfold_locales, goal_cases)
  case (1 d d')
  then show ?case using evolves_step evolves_distinct by blast
next
  case (2 d d' k v)
  then show ?case
    using evolves_row [OF evolves_step] by (fastforce simp: version_of_def row_evolves_def)
next
  case (3 d k v' v op)
  then show ?case
    by (intro lost_if_no_match) (auto simp: version_of_def dest: unique_rt_row)
qed

subsection \<open>What the runtime's queue guarantees\<close>

definition empty_rt :: rt_db where
  "empty_rt = \<lparr>rt_jobs = [], rt_events = []\<rparr>"

definition one_job :: rt_db where
  "one_job = create_job 0 ''j1'' ''o1'' ''search'' ''{}'' ''default'' None 3 100 empty_rt"

lemma claim_version:
  assumes "claim_next now tok locked queues worker secs d = (Some r', d')"
    and "distinct (map rj_id (rt_jobs d))"
  shows "\<exists>r. row_of rj_id (rj_id r') (rt_jobs d) = Some r \<and> claimable queues locked r
    \<and> r' = claimed_row now tok worker secs r \<and> row_of rj_id (rj_id r') (rt_jobs d') = Some r'"
proof -
  obtain r where r: "r \<in> set (rt_jobs d)" "claimable queues locked r"
      "r' = claimed_row now tok worker secs r"
      "d' = update_jobs (\<lambda>x. rj_id x = rj_id r) (claimed_row now tok worker secs) d"
    by (rule claim_next_Some [OF assms(1)]) blast
  have id: "rj_id (claimed_row now tok worker secs x) = rj_id x" for x by (simp add: claimed_row_def)
  from r(1) obtain x where x: "row_of rj_id (rj_id r) (rt_jobs d) = Some x"
    by (cases "row_of rj_id (rj_id r) (rt_jobs d)") (auto simp: row_of_None_iff)
  with unique_rt_row [OF assms(2) x r(1)] have "row_of rj_id (rj_id r) (rt_jobs d) = Some r" by simp
  with r rt_table.row_of_upd_own [OF id this] show ?thesis by (simp add: id update_jobs_def)
qed

text \<open>C13: A worker whose job was reclaimed and claimed again is fenced out for good: once the same job
  has been granted to a second worker, every phase change, checkpoint, park, completion or failure
  that the first worker still attempts under its version raises LeaseLostError and changes nothing,
  whatever happens to the database before and after the second grant.\<close>

theorem superseded_worker_fenced_out:
  assumes "distinct (map rj_id (rt_jobs d0))"
    and "claim_next t1 tok1 locked1 queues1 w1 secs1 d0 = (Some r1, d1)"
    and "rt_step\<^sup>*\<^sup>* d1 d2"
    and "claim_next t2 tok2 locked2 queues2 w2 secs2 d2 = (Some r2, d3)"
    and "rj_id r2 = rj_id r1"
    and "rt_step\<^sup>*\<^sup>* d3 d4"
  shows "run_fenced op now (rj_id r1) tok1 (rj_version r1) d4
    = (Inl (LeaseLost (rj_id r1) (op_name op)), d4)"
proof -
  have "distinct (map rj_id (rt_jobs d1))"
    using rt_fence.step_inv [OF assms(1) s_claim] assms(2) by (metis snd_conv)
  moreover have "version_of (rj_id r1) d1 = Some (rj_version r1)"
    using claim_version [OF assms(2,1)] by (auto simp: version_of_def)
  ultimately obtain v where d2: "distinct (map rj_id (rt_jobs d2))"
      "version_of (rj_id r1) d2 = Some v" "rj_version r1 \<le> v"
    using rt_fence.history [OF assms(3)] by blast
  have d3: "distinct (map rj_id (rt_jobs d3))"
    using rt_fence.step_inv [OF d2(1) s_claim] assms(4) by (metis snd_conv)
  have "version_of (rj_id r1) d3 = Some (v + 1)"
    using claim_version [OF assms(4) d2(1)] d2(2) assms(5)
    by (auto simp: version_of_def claimed_row_def)
  with d2(3) have "lost op (rj_id r1) (rj_version r1) d4"
    by (intro rt_fence.superseded [OF d3 _ _ assms(6)]) auto
  then show ?thesis by (simp add: lost_def)
qed

lemma superseded_worker_fenced_out_witness:
  "run_fenced (Complete ReadyForReview) 50 ''j1'' ''tokA'' 1
      (snd (claim_next 40 ''tokB'' [] [''default''] ''w2'' 10
        (snd (reclaim_expired 30 10 (snd (claim_next 5 ''tokA'' [] [''default''] ''w1'' 10 one_job))))))
    = (Inl (LeaseLost ''j1'' ''completion''),
       snd (claim_next 40 ''tokB'' [] [''default''] ''w2'' 10
        (snd (reclaim_expired 30 10 (snd (claim_next 5 ''tokA'' [] [''default''] ''w1'' 10 one_job))))))"
proof -
  let ?c1 = "claim_next 5 ''tokA'' [] [''default''] ''w1'' 10 one_job"
  let ?d2 = "snd (reclaim_expired 30 10 (snd ?c1))"
  let ?c2 = "claim_next 40 ''tokB'' [] [''default''] ''w2'' 10 ?d2"
  have e1: "?c1 = (Some (the (fst ?c1)), snd ?c1)" by code_simp
  have e2: "?c2 = (Some (the (fst ?c2)), snd ?c2)" by code_simp
  have ids: "rj_id (the (fst ?c1)) = ''j1''" "rj_id (the (fst ?c2)) = ''j1''"
    "rj_version (the (fst ?c1)) = 1" by code_simp+
  have dist: "distinct (map rj_id (rt_jobs one_job))" by code_simp
  have h: "rt_step\<^sup>*\<^sup>* (snd ?c1) ?d2" by (rule r_into_rtranclp) (rule s_reclaim)
  show ?thesis
    using superseded_worker_fenced_out [OF dist e1 h e2 _ rtranclp.rtrancl_refl,
        of "Complete ReadyForReview" 50] by (simp only: ids op_name.simps)
qed

text \<open>Claiming is exclusive and fair: the job handed out was QUEUED in one of the worker's queues,
  had attempts left, was locked by no other transaction and is first by priority and age; the worker
  holds the row as it now stands, with its own token, a version one higher and one attempt more, and
  no other row is touched.\<close>

theorem claim_exclusive_and_fair:
  assumes "distinct (map rj_id (rt_jobs d))"
    and "claim_next now tok locked queues worker secs d = (Some r', d')"
  shows "\<exists>r. row_of rj_id (rj_id r') (rt_jobs d) = Some r \<and> rj_state r = Queued
      \<and> rj_queue r \<in> set queues \<and> rj_id r \<notin> set locked \<and> rj_attempts r < rj_max_attempts r
      \<and> list_all (\<lambda>x. claimable queues locked x \<longrightarrow>
            rj_priority r < rj_priority x \<or> (rj_priority r = rj_priority x \<and> rj_created r \<le> rj_created x))
          (rt_jobs d)
      \<and> row_of rj_id (rj_id r') (rt_jobs d') = Some r' \<and> rj_state r' = Planning
      \<and> rj_token r' = Some tok \<and> rj_version r' = rj_version r + 1 \<and> rj_attempts r' = rj_attempts r + 1
      \<and> rj_checkpoint r' = rj_checkpoint r
      \<and> (\<forall>k. k \<noteq> rj_id r' \<longrightarrow> row_of rj_id k (rt_jobs d') = row_of rj_id k (rt_jobs d))"
proof -
  obtain r where r: "r \<in> set (rt_jobs d)" "claimable queues locked r"
      "\<And>x. x \<in> set (rt_jobs d) \<Longrightarrow> claimable queues locked x \<Longrightarrow>
           (rj_priority r, rj_created r) \<le> (rj_priority x, rj_created x)"
      "r' = claimed_row now tok worker secs r"
      "d' = update_jobs (\<lambda>x. rj_id x = rj_id r) (claimed_row now tok worker secs) d"
    by (rule claim_next_Some [OF assms(2)]) blast
  have id: "rj_id (claimed_row now tok worker secs x) = rj_id x" for x by (simp add: claimed_row_def)
  from claim_version [OF assms(2,1)] obtain s where
    s: "row_of rj_id (rj_id r') (rt_jobs d) = Some s" "row_of rj_id (rj_id r') (rt_jobs d') = Some r'"
    by blast
  have "r = s" using unique_rt_row [OF assms(1) s(1) r(1)] r(4) by (simp add: id)
  moreover have "row_of rj_id k (rt_jobs d') = row_of rj_id k (rt_jobs d)" if "k \<noteq> rj_id r'" for k
    using that rt_table.row_of_upd_other [of "claimed_row now tok worker secs" k "\<lambda>x. rj_id x = rj_id r"]
    by (simp add: r(4,5) id update_jobs_def)
  moreover have "list_all (\<lambda>x. claimable queues locked x \<longrightarrow>
      rj_priority r < rj_priority x \<or> (rj_priority r = rj_priority x \<and> rj_created r \<le> rj_created x))
      (rt_jobs d)"
    using r(3) by (fastforce simp: list_all_iff)
  ultimately show ?thesis
    using r(2,4) s unfolding claimable_def [of queues locked r]
    by (intro exI [of _ r]) (simp add: claimed_row_def)
qed

lemma claim_exclusive_and_fair_witness:
  "\<exists>r. row_of rj_id ''j1'' (rt_jobs one_job) = Some r \<and> rj_state r = Queued"
proof -
  let ?c = "claim_next 5 ''tokA'' [] [''default''] ''w1'' 10 one_job"
  have e: "?c = (Some (the (fst ?c)), snd ?c)" by code_simp
  have id: "rj_id (the (fst ?c)) = ''j1''" by code_simp
  have dist: "distinct (map rj_id (rt_jobs one_job))" by code_simp
  show ?thesis using claim_exclusive_and_fair [OF dist e] unfolding id by blast
qed

text \<open>C14: Over any history of the runtime, job ids stay unique, a lease token is held exactly by the
  jobs in an active phase, no job is ever attempted more often than its budget, and a job that
  reached a terminal state never leaves it.\<close>

theorem runtime_invariants:
  assumes "rt_step\<^sup>*\<^sup>* empty_rt d"
  shows "distinct (map rj_id (rt_jobs d)) \<and> list_all rt_ok (rt_jobs d)
    \<and> (\<forall>d' k r. rt_step\<^sup>*\<^sup>* d d' \<longrightarrow> row_of rj_id k (rt_jobs d) = Some r \<longrightarrow>
         rj_state r \<in> set TERMINAL_STATES \<longrightarrow>
         map_option rj_state (row_of rj_id k (rt_jobs d')) = Some (rj_state r))"
proof -
  have e: "evolves (rt_jobs empty_rt) (rt_jobs d)"
    by (rule evolves_history [OF assms]) (simp add: empty_rt_def)
  from evolves_distinct [OF e] have dist: "distinct (map rj_id (rt_jobs d))" by (simp add: empty_rt_def)
  from evolves_ok [OF e] have ok: "list_all rt_ok (rt_jobs d)" by (simp add: empty_rt_def)
  have "map_option rj_state (row_of rj_id k (rt_jobs d')) = Some (rj_state r)"
    if "rt_step\<^sup>*\<^sup>* d d'" "row_of rj_id k (rt_jobs d) = Some r" "rj_state r \<in> set TERMINAL_STATES" for d' k r
    using evolves_row [OF evolves_history [OF that(1) dist] that(2)] list_all_row_of [OF ok that(2)] that(3)
    by (auto simp: row_evolves_def)
  with dist ok show ?thesis by blast
qed

lemma runtime_invariants_witness: "list_all rt_ok (rt_jobs one_job)"
proof -
  have "rt_step\<^sup>*\<^sup>* empty_rt one_job"
    unfolding one_job_def by (rule r_into_rtranclp, rule s_create) (simp_all add: empty_rt_def)
  from runtime_invariants [OF this] show ?thesis by blast
qed

text \<open>The reaper settles at most one batch, never requeues a job that has used up its attempts, and
  leaves every row alone whose lease has not run out; each settled row gives up its token, and when
  the batch is large enough for all lapsed rows none is left.\<close>

theorem reaper_spec:
  "list_all2 (\<lambda>r r'. r' = r
      \<or> (lapsed now r \<and> rj_max_attempts r \<le> rj_attempts r \<and> r' = dead_row now r)
      \<or> (lapsed now r \<and> rj_attempts r < rj_max_attempts r \<and> r' = requeued_row now r))
     (rt_jobs d) (rt_jobs (snd (reclaim_expired now batch d)))
   \<and> length (fst (reclaim_expired now batch d)) = min batch (rowcount (lapsed now) (rt_jobs d))
   \<and> rowcount (lapsed now) (rt_jobs (snd (reclaim_expired now batch d)))
      = rowcount (lapsed now) (rt_jobs d) - batch"
proof -
  let ?spent = "\<lambda>r. lapsed now r \<and> rj_max_attempts r \<le> rj_attempts r"
  let ?t = "rt_jobs d" and ?u = "upd_limit batch ?spent (dead_row now) (rt_jobs d)"
  let ?k = "min batch (rowcount ?spent ?t)"
  let ?v = "if batch - ?k > 0 then upd_limit (batch - ?k) (lapsed now) (requeued_row now) ?u else ?u"
  have dead: "\<not> lapsed now (dead_row now r)" and requeued: "\<not> lapsed now (requeued_row now r)" for r
    by (auto simp: lapsed_def dead_row_def requeued_row_def state_sets)
  have len: "length (take n (filter p x)) = min n (rowcount p x)" for n p and x :: "rt_job list"
    by (simp add: rowcount_def)
  have rows: "rt_jobs (snd (reclaim_expired now batch d)) = ?v"
    by (simp add: reclaim_expired_def Let_def len del: length_take)
  have kL: "rowcount ?spent ?t \<le> rowcount (lapsed now) ?t" by (rule rowcount_mono) simp
  have L1: "rowcount (lapsed now) ?u = rowcount (lapsed now) ?t - ?k"
    by (rule rowcount_upd_limit) (simp_all add: dead)
  have S1: "rowcount ?spent ?u = rowcount ?spent ?t - ?k"
    by (rule rowcount_upd_limit) (simp_all add: dead)
  have L2: "rowcount (lapsed now) (upd_limit (batch - ?k) (lapsed now) (requeued_row now) ?u)
      = rowcount (lapsed now) ?u - min (batch - ?k) (rowcount (lapsed now) ?u)"
    by (rule rowcount_upd_limit) (simp_all add: requeued)
  let ?R = "\<lambda>r r'. r' = r \<or> (?spent r \<and> r' = dead_row now r)
      \<or> (lapsed now r \<and> rj_attempts r < rj_max_attempts r \<and> r' = requeued_row now r)"
  have one: "list_all2 (\<lambda>r r'. r \<in> set ?t \<and> (r' = r \<or> (?spent r \<and> r' = dead_row now r))) ?t ?u"
    by (rule upd_limit_rel)
  have "list_all2 ?R ?t ?v"
  proof (cases "batch - ?k > 0")
    case True
    then have "rowcount ?spent ?u = 0" using S1 by auto
    then have nospent: "x \<in> set ?u \<Longrightarrow> \<not> ?spent x" for x by (simp add: rowcount_0_iff)
    have two: "list_all2 (\<lambda>r r'. r \<in> set ?u \<and> (r' = r \<or> (lapsed now r \<and> r' = requeued_row now r))) ?u
        (upd_limit (batch - ?k) (lapsed now) (requeued_row now) ?u)"
      by (rule upd_limit_rel)
    have comp: "?R a c" if "a \<in> set ?t \<and> (b = a \<or> (?spent a \<and> b = dead_row now a))"
        "b \<in> set ?u \<and> (c = b \<or> (lapsed now b \<and> c = requeued_row now b))" for a b c
      using that nospent [of b] dead by force
    have "list_all2 ?R ?t (upd_limit (batch - ?k) (lapsed now) (requeued_row now) ?u)"
      by (rule list_all2_trans [OF comp one two])
    then show ?thesis by (simp only: True if_True)
  next
    case False
    have "list_all2 ?R ?t ?u" by (rule list_all2_mono [OF one]) blast
    then show ?thesis by (simp only: False if_False)
  qed
  moreover have "length (fst (reclaim_expired now batch d)) = min batch (rowcount (lapsed now) ?t)"
    using L1 kL by (simp add: reclaim_expired_def Let_def len del: length_take) (auto simp: min_def)
  moreover have "rowcount (lapsed now) ?v = rowcount (lapsed now) ?t - batch"
    unfolding L1 L2 [unfolded L1] using L1 L2 kL by (simp split: if_split) (auto simp: min_def)
  ultimately show ?thesis by (simp only: rows conj_assoc)
qed

text \<open>C35: Parking a job for lack of capacity and waking it later costs nothing: the next claim runs it
  with the attempt count and the checkpoint it was parked with, under a higher lease version.\<close>

theorem park_wake_claim_roundtrip:
  assumes "distinct (map rj_id (rt_jobs d))" and "row_of rj_id jid (rt_jobs d) = Some r"
    and "fenced_row jid tok v r" and "1 \<le> rj_attempts r"
    and "now + min_age \<le> later" and "\<forall>qs. queues_opt = Some qs \<longrightarrow> rj_queue r \<in> set qs"
    and "claim_next t2 tok2 locked queues w secs
           (snd (wake_parked later queues_opt min_age (snd (park now jid tok v why d)))) = (Some r2, d2)"
    and "rj_id r2 = jid"
  shows "rj_attempts r2 = rj_attempts r \<and> rj_checkpoint r2 = rj_checkpoint r \<and> rj_version r2 = v + 1
    \<and> rj_token r2 = Some tok2"
proof -
  let ?d1 = "snd (park now jid tok v why d)"
  let ?d2 = "snd (wake_parked later queues_opt min_age ?d1)"
  have id: "rj_id (parked_row now why x) = rj_id x" for x by (simp add: parked_row_def)
  have keys: "rj_id (x\<lparr>rj_state := Queued, rj_updated := later\<rparr>) = rj_id x" for x :: rt_job by simp
  have "row_of rj_id jid (rt_jobs ?d1) = Some (parked_row now why r)"
    using rt_table.row_of_upd_where [OF id] assms(2,3) by (simp add: park_def snd_fenced_write update_jobs_def)
  moreover have "wakeable later queues_opt min_age (parked_row now why r)"
    using assms(5,6) by (auto simp: wakeable_def parked_row_def PARK_PREFIX_def split: option.splits)
  ultimately have row: "row_of rj_id jid (rt_jobs ?d2)
      = Some ((parked_row now why r)\<lparr>rj_state := Queued, rj_updated := later\<rparr>)"
    using rt_table.row_of_upd_where [OF keys] by (simp add: wake_parked_def update_jobs_def)
  have "distinct (map rj_id (rt_jobs ?d1))"
    using rt_fence.step_inv [OF assms(1) s_park] .
  then have "distinct (map rj_id (rt_jobs ?d2))"
    using rt_fence.step_inv [OF _ s_wake] by blast
  from claim_version [OF assms(7) this] row assms(3,4,8) show ?thesis
    by (auto simp: claimed_row_def parked_row_def fenced_row_def)
qed

definition running_job :: rt_db where
  "running_job = snd (claim_next 5 ''tokA'' [] [''default''] ''w1'' 10 one_job)"

lemma park_wake_claim_roundtrip_witness:
  "rj_attempts (the (fst (claim_next 90 ''tokB'' [] [''default''] ''w2'' 10
     (snd (wake_parked 80 None 60 (snd (park 10 ''j1'' ''tokA'' 1 ''no LLM'' running_job))))))) = 1"
proof -
  let ?d = "snd (wake_parked 80 None 60 (snd (park 10 ''j1'' ''tokA'' 1 ''no LLM'' running_job)))"
  let ?c = "claim_next 90 ''tokB'' [] [''default''] ''w2'' 10 ?d"
  let ?r = "the (row_of rj_id ''j1'' (rt_jobs running_job))"
  have dist: "distinct (map rj_id (rt_jobs running_job))" by code_simp
  have row: "row_of rj_id ''j1'' (rt_jobs running_job) = Some ?r" by code_simp
  have f: "fenced_row ''j1'' ''tokA'' 1 ?r" "1 \<le> rj_attempts ?r" "rj_attempts ?r = 1" by code_simp+
  have c: "?c = (Some (the (fst ?c)), snd ?c)" "rj_id (the (fst ?c)) = ''j1''" by code_simp+
  from park_wake_claim_roundtrip [OF dist row f(1,2) _ _ c] f(3) show ?thesis by simp
qed

end
