(* ===== verification/Dedup.thy ===== *)
theory Dedup
  imports Normalize
begin

section \<open>Deduplication (lead_engine/pipeline/dedup.py)\<close>

text \<open>
  DedupEngine.run: a union-find over the leads whose unions are refused between groups of different
  domains, driven by three stages (exact identifiers, company identity, fuzzy names), and the merging of
  each group into one record.  Numbers that the source rounds for display are kept exact.  Names of leads
  are Unicode texts; \<open>SequenceMatcher\<close> is modelled without its heuristic for sequences of 200 and more.
\<close>

record lead =
  ld_name :: "utext option"
  ld_domain :: "utext option"
  ld_website :: "utext option"
  ld_email :: "utext option"
  ld_phone :: "utext option"
  ld_city :: "utext option"
  ld_country :: "utext option"
  ld_industry :: "utext option"
  ld_dm :: "utext option"
  ld_dm_title :: "utext option"
  ld_linkedin :: "utext option"
  ld_source_id :: "utext option"
  ld_lead_id :: "utext option"
  ld_branches :: "int option"
  ld_sources :: "utext list"
  ld_queries :: "utext list"
  ld_urls :: "utext list"
  ld_social :: "utext option"
  ld_snippet :: "utext option"

subsection \<open>Union-find with the domain guard\<close>

record groups =
  gr_parent :: "nat list"
  gr_domains :: "utext set list"

text \<open>The loop of \<open>find\<close>, with path halving; the fuel is the number of leads.\<close>

fun find_loop :: "nat \<Rightarrow> nat list \<Rightarrow> nat \<Rightarrow> nat \<times> nat list" where
  "find_loop 0 p i = (i, p)"
| "find_loop (Suc k) p i =
     (if p ! i = i then (i, p)
      else let p' = p[i := p ! (p ! i)] in find_loop k p' (p' ! i))"

definition find_root :: "nat \<Rightarrow> groups \<Rightarrow> nat \<times> groups" where
  "find_root i g = (let (r, p) = find_loop (length (gr_parent g)) (gr_parent g) i in (r, g\<lparr>gr_parent := p\<rparr>))"

definition union :: "nat \<Rightarrow> nat \<Rightarrow> groups \<Rightarrow> groups" where
  "union i j g0 =
     (let (ri, g1) = find_root i g0; (rj, g) = find_root j g1; di = gr_domains g ! ri; dj = gr_domains g ! rj in
      if ri = rj then g
      else if di \<noteq> {} \<and> dj \<noteq> {} \<and> di \<noteq> dj then g
      else let root = min ri rj; other = max ri rj
           in g\<lparr>gr_parent := (gr_parent g)[other := root],
                gr_domains := (gr_domains g)[root := gr_domains g ! root \<union> gr_domains g ! other]\<rparr>)"

definition dom_of :: "unicode \<Rightarrow> lead \<Rightarrow> utext option" where
  "dom_of u l = (if truthy (ld_domain l) then Some (lower u (the (ld_domain l))) else None)"

definition init_groups :: "unicode \<Rightarrow> lead list \<Rightarrow> groups" where
  "init_groups u leads =
     \<lparr>gr_parent = [0..<length leads], gr_domains = map (\<lambda>l. set_option (dom_of u l)) leads\<rparr>"

subsection \<open>Stage 1: exact identifiers\<close>

definition exact_keys :: "unicode \<Rightarrow> lead \<Rightarrow> utext list" where
  "exact_keys u l =
     (if truthy (ld_domain l) then [ascii ''d:'' @ lower u (the (ld_domain l))] else [])
     @ (if truthy (ld_email l) then [ascii ''e:'' @ lower u (the (ld_email l))] else [])
     @ (if truthy (ld_phone l) then [ascii ''p:'' @ normalize_phone u (ld_phone l) (text_or (ld_country l))] else [])
     @ (if truthy (ld_linkedin l) then [ascii ''l:'' @ lower u (the (ld_linkedin l))] else [])
     @ (if truthy (ld_source_id l) then [ascii ''s:'' @ the (ld_source_id l)] else [])"

fun meet_keys :: "nat \<Rightarrow> utext list \<Rightarrow> (utext \<Rightarrow> nat option) \<times> groups \<Rightarrow> (utext \<Rightarrow> nat option) \<times> groups" where
  "meet_keys i [] (m, g) = (m, g)"
| "meet_keys i (k # ks) (m, g) =
     (case m k of None \<Rightarrow> meet_keys i ks (m(k := Some i), g)
      | Some j \<Rightarrow> meet_keys i ks (m, union i j g))"

definition stage1 :: "unicode \<Rightarrow> lead list \<Rightarrow> groups \<Rightarrow> groups" where
  "stage1 u leads g = snd (fold (\<lambda>i. meet_keys i (exact_keys u (leads ! i))) [0..<length leads] (Map.empty, g))"

subsection \<open>Stage 2: company identity\<close>

definition domains_clash :: "unicode \<Rightarrow> lead \<Rightarrow> lead \<Rightarrow> bool" where
  "domains_clash u a b \<longleftrightarrow> dom_of u a \<noteq> None \<and> dom_of u b \<noteq> None \<and> dom_of u a \<noteq> dom_of u b"

definition identity_key :: "unicode \<Rightarrow> lead \<Rightarrow> utext \<times> utext \<times> utext" where
  "identity_key u l = (normalize_text u (ld_name l), normalize_text u (ld_country l), normalize_text u (ld_city l))"

definition meet_identity ::
  "unicode \<Rightarrow> lead list \<Rightarrow> nat \<Rightarrow> (utext \<times> utext \<times> utext \<Rightarrow> nat option) \<times> groups
     \<Rightarrow> (utext \<times> utext \<times> utext \<Rightarrow> nat option) \<times> groups" where
  "meet_identity u leads i = (\<lambda>(m, g).
     let key = identity_key u (leads ! i) in
     if fst key = [] then (m, g)
     else case m key of
            None \<Rightarrow> (m(key := Some i), g)
          | Some j \<Rightarrow> (m, if domains_clash u (leads ! i) (leads ! j) then g else union i j g))"

definition stage2 :: "unicode \<Rightarrow> lead list \<Rightarrow> groups \<Rightarrow> groups" where
  "stage2 u leads g = snd (fold (meet_identity u leads) [0..<length leads] (Map.empty, g))"

subsection \<open>Stage 3: fuzzy names within a city\<close>

fun common_prefix :: "'a list \<Rightarrow> 'a list \<Rightarrow> nat" where
  "common_prefix (x # xs) (y # ys) = (if x = y then Suc (common_prefix xs ys) else 0)"
| "common_prefix xs ys = 0"

text \<open>\<open>find_longest_match\<close>: the longest common block, the first in \<open>a\<close>, then the first in \<open>b\<close>.\<close>

definition better :: "nat \<times> nat \<times> nat \<Rightarrow> nat \<times> nat \<times> nat \<Rightarrow> nat \<times> nat \<times> nat" where
  "better x best = (if snd (snd best) < snd (snd x) then x else best)"

definition longest_match :: "'a list \<Rightarrow> 'a list \<Rightarrow> nat \<times> nat \<times> nat" where
  "longest_match a b =
     fold better [(i, j, common_prefix (drop i a) (drop j b)). i \<leftarrow> [0..<length a], j \<leftarrow> [0..<length b]] (0, 0, 0)"

lemma common_prefix_le: "common_prefix xs ys \<le> length xs"
  by (induction xs ys rule: common_prefix.induct) auto

lemma longest_match_fits: "fst (longest_match a b) + snd (snd (longest_match a b)) \<le> length a"
proof -
  have "fst x + snd (snd x) \<le> length a" if "x = fold better cs init" "fst init + snd (snd init) \<le> length a"
      "\<forall>c \<in> set cs. fst c + snd (snd c) \<le> length a" for x cs init
    using that by (induction cs arbitrary: x init) (auto simp: better_def)
  moreover have "\<forall>c \<in> set [(i, j, common_prefix (drop i a) (drop j b)). i \<leftarrow> [0..<length a], j \<leftarrow> [0..<length b]].
      fst c + snd (snd c) \<le> length a"
  proof
    fix c
    assume "c \<in> set [(i, j, common_prefix (drop i a) (drop j b)). i \<leftarrow> [0..<length a], j \<leftarrow> [0..<length b]]"
    then obtain i j where "i < length a" "c = (i, j, common_prefix (drop i a) (drop j b))" by auto
    with common_prefix_le [of "drop i a" "drop j b"] show "fst c + snd (snd c) \<le> length a" by simp
  qed
  ultimately show ?thesis by (simp add: longest_match_def)
qed

function matching :: "'a list \<Rightarrow> 'a list \<Rightarrow> nat" where
  "matching a b =
     (let (i, j, k) = longest_match a b in
      if k = 0 then 0 else k + matching (take i a) (take j b) + matching (drop (i + k) a) (drop (j + k) b))"
  by pat_completeness auto
termination
proof (relation "measure (\<lambda>(a, b). length a)", simp)
  fix a b :: "'a list" and x i y j k
  assume m: "x = longest_match a b" "(i, y) = x" "(j, k) = y" "k \<noteq> 0"
  then have "longest_match a b = (i, j, k)" by metis
  with longest_match_fits [of a b] m(4) have f: "i + k \<le> length a" "k \<noteq> 0" by simp_all
  then show "((take i a, take j b), a, b) \<in> measure (\<lambda>(a, b). length a)" by simp
  show "((drop (i + k) a, drop (j + k) b), a, b) \<in> measure (\<lambda>(a, b). length a)" using f by simp
qed

declare matching.simps [simp del]

definition similarity :: "'a list \<Rightarrow> 'a list \<Rightarrow> rat" where
  "similarity a b =
     (if a = [] \<and> b = [] then 1 else 2 * of_nat (matching a b) / of_nat (length a + length b))"

datatype verdict = Merge | Review | Separate

definition classify_ratio :: "rat \<Rightarrow> rat \<Rightarrow> rat \<Rightarrow> verdict" where
  "classify_ratio ratio auto_t review_t =
     (if ratio > auto_t then Merge else if ratio \<ge> review_t then Review else Separate)"

record fuzzy =
  fz_groups :: groups
  fz_flags :: "(nat \<times> nat) list"
  fz_pairs :: "(utext option \<times> utext option \<times> rat) list"

definition compare_pair :: "unicode \<Rightarrow> rat \<Rightarrow> rat \<Rightarrow> lead list \<Rightarrow> nat \<times> nat \<Rightarrow> fuzzy \<Rightarrow> fuzzy" where
  "compare_pair u auto_t review_t leads = (\<lambda>(i, j) f.
     let (ri, g1) = find_root i (fz_groups f); (rj, g) = find_root j g1; f' = f\<lparr>fz_groups := g\<rparr>;
         a = leads ! i; b = leads ! j; ratio = similarity (normalize_text u (ld_name a)) (normalize_text u (ld_name b))
     in if ri = rj \<or> domains_clash u a b then f'
        else case classify_ratio ratio auto_t review_t of
               Merge \<Rightarrow> f'\<lparr>fz_groups := union i j g\<rparr>
             | Review \<Rightarrow> f'\<lparr>fz_flags := fz_flags f @ (if (min i j, max i j) \<in> set (fz_flags f) then []
                                else [(min i j, max i j)]),
                             fz_pairs := fz_pairs f @ [(ld_name a, ld_name b, ratio)]\<rparr>
             | Separate \<Rightarrow> f')"

definition place_key :: "unicode \<Rightarrow> lead \<Rightarrow> utext \<times> utext" where
  "place_key u l = (normalize_text u (ld_city l), normalize_text u (ld_country l))"

definition uniq :: "'a list \<Rightarrow> 'a list" where
  "uniq xs = rev (remdups (rev xs))"

definition city_pairs :: "unicode \<Rightarrow> lead list \<Rightarrow> (nat \<times> nat) list" where
  "city_pairs u leads =
     concat (map (\<lambda>place. let idxs = filter (\<lambda>i. place_key u (leads ! i) = place) [0..<length leads]
                          in [(idxs ! a, idxs ! b). a \<leftarrow> [0..<length idxs], b \<leftarrow> [Suc a..<length idxs]])
             (uniq (map (place_key u) leads)))"

definition stage3 :: "unicode \<Rightarrow> rat \<Rightarrow> rat \<Rightarrow> lead list \<Rightarrow> groups \<Rightarrow> fuzzy" where
  "stage3 u auto_t review_t leads g =
     fold (compare_pair u auto_t review_t leads) (city_pairs u leads) \<lparr>fz_groups = g, fz_flags = [], fz_pairs = []\<rparr>"

subsection \<open>Merging\<close>

record merged =
  mg_lead :: lead
  mg_count :: nat
  mg_ids :: "utext option list"
  mg_review :: bool

definition first_truthy :: "(lead \<Rightarrow> utext option) \<Rightarrow> lead list \<Rightarrow> utext option" where
  "first_truthy field ls = (case find (\<lambda>l. truthy (field l)) ls of None \<Rightarrow> None | Some l \<Rightarrow> field l)"

definition join_socials :: "utext list \<Rightarrow> utext" where
  "join_socials ss = join_with (ascii ''; '') ss"

definition merge_group :: "lead list \<Rightarrow> merged" where
  "merge_group ls =
     (let socials = uniq (map the (filter truthy (map ld_social ls)));
          branches = fold max (map (\<lambda>l. or_default (ld_branches l) 0) ls) 0
      in \<lparr>mg_lead = \<lparr>ld_name = first_truthy ld_name ls, ld_domain = first_truthy ld_domain ls,
            ld_website = first_truthy ld_website ls, ld_email = first_truthy ld_email ls,
            ld_phone = first_truthy ld_phone ls, ld_city = first_truthy ld_city ls,
            ld_country = first_truthy ld_country ls, ld_industry = first_truthy ld_industry ls,
            ld_dm = first_truthy ld_dm ls, ld_dm_title = first_truthy ld_dm_title ls,
            ld_linkedin = first_truthy ld_linkedin ls, ld_source_id = None, ld_lead_id = None,
            ld_branches = (if branches = 0 then None else Some branches),
            ld_sources = uniq (concat (map ld_sources ls)), ld_queries = uniq (concat (map ld_queries ls)),
            ld_urls = uniq (concat (map ld_urls ls)),
            ld_social = (if socials = [] then None else Some (join_socials socials)),
            ld_snippet = first_truthy ld_snippet ls\<rparr>,
          mg_count = length ls,
          mg_ids = map (\<lambda>l. if truthy (ld_lead_id l) then ld_lead_id l else ld_source_id l) ls,
          mg_review = False\<rparr>)"

fun roots_of :: "nat list \<Rightarrow> groups \<Rightarrow> nat list \<times> groups" where
  "roots_of [] g = ([], g)"
| "roots_of (i # is) g = (let (r, g1) = find_root i g; (rs, g2) = roots_of is g1 in (r # rs, g2))"

record dedup_stats =
  st_input :: nat
  st_output :: nat
  st_merged :: nat
  st_rate :: rat
  st_pairs :: "(utext option \<times> utext option \<times> rat) list"

definition dedup_groups :: "unicode \<Rightarrow> rat \<Rightarrow> rat \<Rightarrow> lead list \<Rightarrow> nat list \<times> fuzzy" where
  "dedup_groups u auto_t review_t leads =
     (let f = stage3 u auto_t review_t leads (stage2 u leads (stage1 u leads (init_groups u leads)));
          (roots, g) = roots_of [0..<length leads] (fz_groups f)
      in (roots, f\<lparr>fz_groups := g\<rparr>))"

definition run :: "unicode \<Rightarrow> rat \<Rightarrow> rat \<Rightarrow> lead list \<Rightarrow> merged list \<times> dedup_stats" where
  "run u auto_t review_t leads =
     (let n = length leads in
      if n = 0 then ([], \<lparr>st_input = 0, st_output = 0, st_merged = 0, st_rate = 0, st_pairs = []\<rparr>)
      else let (roots, f) = dedup_groups u auto_t review_t leads;
               members = (\<lambda>r. filter (\<lambda>i. roots ! i = r) [0..<n]);
               flagged = (\<lambda>r. \<exists>(i, j) \<in> set (fz_flags f). roots ! i = r \<or> roots ! j = r);
               out = map (\<lambda>r. (merge_group (map (\<lambda>i. leads ! i) (members r)))\<lparr>mg_review := flagged r\<rparr>) (uniq roots)
           in (out, \<lparr>st_input = n, st_output = length out,
                     st_merged = sum_list (map (\<lambda>r. length (members r) - 1) (uniq roots)),
                     st_rate = of_nat (n - length out) / of_nat n, st_pairs = fz_pairs f\<rparr>))"

subsection \<open>Roots\<close>

text \<open>The representative of \<open>i\<close>: follow parents while they go down, which they do under \<open>uf_ok\<close>.\<close>

function root :: "nat list \<Rightarrow> nat \<Rightarrow> nat" where
  "root p i = (if p ! i < i then root p (p ! i) else i)"
  by pat_completeness auto
termination by (relation "measure snd") auto

declare root.simps [simp del]

definition uf_ok :: "nat \<Rightarrow> nat list \<Rightarrow> bool" where
  "uf_ok n p \<longleftrightarrow> length p = n \<and> (\<forall>i < n. p ! i \<le> i)"

definition same :: "groups \<Rightarrow> nat \<Rightarrow> nat \<Rightarrow> bool" where
  "same g i j \<longleftrightarrow> root (gr_parent g) i = root (gr_parent g) j"

lemma root_le: "root p i \<le> i"
  by (induction p i rule: root.induct) (subst root.simps, fastforce)

lemma root_fixed: "uf_ok n p \<Longrightarrow> i < n \<Longrightarrow> p ! root p i = root p i"
proof (induction p i rule: root.induct)
  case (1 p i)
  show ?case
  proof (cases "p ! i < i")
    case True
    with 1 show ?thesis by (subst (1 2) root.simps) auto
  next
    case False
    moreover have "p ! i \<le> i" using 1(2,3) by (simp add: uf_ok_def)
    ultimately show ?thesis by (subst (1 2) root.simps) simp
  qed
qed

lemma root_of_root: "p ! r = r \<Longrightarrow> root p r = r"
  by (simp add: root.simps)

lemma root_step: "uf_ok n p \<Longrightarrow> i < n \<Longrightarrow> root p (p ! i) = root p i"
  by (subst (2) root.simps) (auto simp: uf_ok_def root.simps [of p i] le_less)

text \<open>Path halving moves no lead to another group.\<close>

lemma root_halved:
  assumes "uf_ok n p" and "i < n" and "x < n"
  shows "root (p[i := p ! (p ! i)]) x = root p x"
  using assms(3)
proof (induction x rule: less_induct)
  case (less x)
  let ?q = "p[i := p ! (p ! i)]"
  have len: "length p = n" and le: "\<And>x. x < n \<Longrightarrow> p ! x \<le> x" using assms(1) by (auto simp: uf_ok_def)
  have pi: "p ! i < n" using le assms(2) by (meson le_less_trans)
  show ?case
  proof (cases "x = i")
    case False
    then have "?q ! x = p ! x" by simp
    then show ?thesis using less by (subst (1 2) root.simps) auto
  next
    case True
    then have q: "?q ! x = p ! (p ! i)" using len assms(2) by simp
    have r: "root p (p ! (p ! i)) = root p i"
      using root_step [OF assms(1) pi] root_step [OF assms(1,2)] by simp
    show ?thesis
    proof (cases "p ! (p ! i) < i")
      case True
      with less q \<open>x = i\<close> have "root ?q (p ! (p ! i)) = root p (p ! (p ! i))" by auto
      with True q r \<open>x = i\<close> show ?thesis by (subst root.simps) simp
    next
      case False
      with le [OF assms(2)] le [OF pi] have "p ! (p ! i) = i" by simp
      with q r \<open>x = i\<close> show ?thesis by (simp add: list_update_same_conv root.simps)
        (metis \<open>p ! (p ! i) = i\<close> le_less_trans less_irrefl le pi assms(2) le_antisym)
    qed
  qed
qed

lemma uf_ok_halved: "uf_ok n p \<Longrightarrow> i < n \<Longrightarrow> uf_ok n (p[i := p ! (p ! i)])"
  by (auto simp: uf_ok_def nth_list_update) (meson le_trans le_less_trans)

lemma find_loop_correct:
  "uf_ok n p \<Longrightarrow> i < n \<Longrightarrow> i \<le> k \<Longrightarrow>
     fst (find_loop k p i) = root p i \<and> uf_ok n (snd (find_loop k p i))
     \<and> (\<forall>x < n. root (snd (find_loop k p i)) x = root p x)"
proof (induction k arbitrary: p i)
  case 0
  then show ?case by (simp add: root.simps uf_ok_def)
next
  case (Suc k)
  show ?case
  proof (cases "p ! i = i")
    case True
    with Suc.prems show ?thesis by (simp add: root_of_root)
  next
    case False
    let ?q = "p[i := p ! (p ! i)]"
    have "p ! i \<le> i" using Suc.prems by (simp add: uf_ok_def)
    with False have lt: "p ! i < i" by simp
    moreover from lt Suc.prems have "p ! (p ! i) \<le> p ! i" by (simp add: uf_ok_def)
    ultimately have j: "p ! (p ! i) < i" by simp
    have q: "?q ! i = p ! (p ! i)" using Suc.prems by (simp add: uf_ok_def)
    have ih: "fst (find_loop k ?q (?q ! i)) = root ?q (?q ! i) \<and> uf_ok n (snd (find_loop k ?q (?q ! i)))
       \<and> (\<forall>x < n. root (snd (find_loop k ?q (?q ! i))) x = root ?q x)"
      using Suc.IH [OF uf_ok_halved [OF Suc.prems(1,2)], of "?q ! i"] Suc.prems j q by simp
    have "root ?q (?q ! i) = root p i"
      using root_step [OF uf_ok_halved [OF Suc.prems(1,2)] Suc.prems(2)] root_halved [OF Suc.prems(1,2,2)] by simp
    with False ih root_halved [OF Suc.prems(1,2)] show ?thesis by (simp add: Let_def)
  qed
qed

text \<open>Linking a root below a smaller root joins the two groups and no others.\<close>

lemma root_linked:
  assumes "uf_ok n p" and "p ! a = a" and "p ! b = b" and "a < b" and "b < n" and "x < n"
  shows "root (p[b := a]) x = (if root p x = b then a else root p x)"
  using assms(6)
proof (induction x rule: less_induct)
  case (less x)
  let ?q = "p[b := a]"
  have qa: "?q ! a = a" using assms(2,4) by simp
  have le: "p ! x \<le> x" using assms(1) less.prems by (simp add: uf_ok_def)
  show ?case
  proof (cases "x = b")
    case True
    with assms(1,4,5) have "?q ! x = a" by (simp add: uf_ok_def)
    with True assms(3,4) qa show ?thesis by (subst root.simps) (simp add: root_of_root)
  next
    case False
    then have q: "?q ! x = p ! x" by simp
    show ?thesis
    proof (cases "p ! x < x")
      case True
      with less have "root ?q (p ! x) = (if root p (p ! x) = b then a else root p (p ! x))" by simp
      with True q show ?thesis by (subst (1 2 3) root.simps) simp
    next
      case False
      with le q \<open>x \<noteq> b\<close> show ?thesis by (subst (1 2 3) root.simps) simp
    qed
  qed
qed

subsection \<open>The invariant of the grouping\<close>

text \<open>Every group carries exactly the domains of its members, and at most one.\<close>

definition doms_at :: "unicode \<Rightarrow> lead list \<Rightarrow> nat list \<Rightarrow> nat \<Rightarrow> utext set" where
  "doms_at u leads p r = (\<Union>x \<in> {x. x < length leads \<and> root p x = r}. set_option (dom_of u (leads ! x)))"

definition grouped :: "unicode \<Rightarrow> lead list \<Rightarrow> groups \<Rightarrow> bool" where
  "grouped u leads g \<longleftrightarrow>
     uf_ok (length leads) (gr_parent g) \<and> length (gr_domains g) = length leads
     \<and> (\<forall>r < length leads. gr_parent g ! r = r \<longrightarrow>
          gr_domains g ! r = doms_at u leads (gr_parent g) r
          \<and> (\<exists>d. doms_at u leads (gr_parent g) r \<subseteq> {d}))"

text \<open>A step keeps the invariant and separates no two leads that were together.\<close>

definition coarser :: "unicode \<Rightarrow> lead list \<Rightarrow> groups \<Rightarrow> groups \<Rightarrow> bool" where
  "coarser u leads g g' \<longleftrightarrow>
     grouped u leads g' \<and> (\<forall>x < length leads. \<forall>y < length leads. same g x y \<longrightarrow> same g' x y)"

lemma coarser_trans: "coarser u leads g g' \<Longrightarrow> coarser u leads g' g'' \<Longrightarrow> coarser u leads g g''"
  by (auto simp: coarser_def)

lemma coarser_refl: "grouped u leads g \<Longrightarrow> coarser u leads g g"
  by (simp add: coarser_def)

lemma coarser_grouped: "coarser u leads g g' \<Longrightarrow> grouped u leads g'"
  by (simp add: coarser_def)

lemma find_root_correct:
  assumes "grouped u leads g" and "i < length leads"
  shows "fst (find_root i g) = root (gr_parent g) i"
    and "gr_domains (snd (find_root i g)) = gr_domains g"
    and "uf_ok (length leads) (gr_parent (snd (find_root i g)))"
    and "\<And>x. x < length leads \<Longrightarrow> root (gr_parent (snd (find_root i g))) x = root (gr_parent g) x"
proof -
  have ok: "uf_ok (length leads) (gr_parent g)" using assms(1) by (simp add: grouped_def)
  then have "length (gr_parent g) = length leads" by (simp add: uf_ok_def)
  with find_loop_correct [OF ok assms(2), of "length leads"] assms(2)
  show "fst (find_root i g) = root (gr_parent g) i"
    and "gr_domains (snd (find_root i g)) = gr_domains g"
    and "uf_ok (length leads) (gr_parent (snd (find_root i g)))"
    and "\<And>x. x < length leads \<Longrightarrow> root (gr_parent (snd (find_root i g))) x = root (gr_parent g) x"
    by (auto simp: find_root_def split: prod.splits)
qed

lemma fixed_iff_root: "uf_ok n p \<Longrightarrow> r < n \<Longrightarrow> p ! r = r \<longleftrightarrow> root p r = r"
  by (metis root_fixed root_of_root)

lemma find_root_coarser:
  assumes "grouped u leads g" and "i < length leads"
  shows "coarser u leads g (snd (find_root i g))"
proof -
  note f = find_root_correct [OF assms]
  have ok: "uf_ok (length leads) (gr_parent g)" using assms(1) by (simp add: grouped_def)
  have fixd: "r < length leads \<Longrightarrow> gr_parent (snd (find_root i g)) ! r = r \<longleftrightarrow> gr_parent g ! r = r" for r
    using fixed_iff_root [OF ok] fixed_iff_root [OF f(3)] f(4) by simp
  have "doms_at u leads (gr_parent (snd (find_root i g))) r = doms_at u leads (gr_parent g) r" for r
    using f(4) by (auto simp: doms_at_def)
  then show ?thesis
    using assms(1) f(2,3,4) fixd by (simp add: coarser_def grouped_def same_def)
qed

text \<open>Linking two groups whose domains agree keeps the invariant.\<close>

definition linked :: "nat \<Rightarrow> nat \<Rightarrow> groups \<Rightarrow> groups" where
  "linked a b g = g\<lparr>gr_parent := (gr_parent g)[b := a],
     gr_domains := (gr_domains g)[a := gr_domains g ! a \<union> gr_domains g ! b]\<rparr>"

lemma doms_at_linked:
  assumes "uf_ok (length leads) p" and "p ! a = a" and "p ! b = b" and "a < b" and "b < length leads"
  shows "doms_at u leads (p[b := a]) a = doms_at u leads p a \<union> doms_at u leads p b"
    and "r \<noteq> a \<Longrightarrow> r \<noteq> b \<Longrightarrow> doms_at u leads (p[b := a]) r = doms_at u leads p r"
proof -
  note l = root_linked [OF assms]
  have "{x. x < length leads \<and> root (p[b := a]) x = a}
      = {x. x < length leads \<and> root p x = a} \<union> {x. x < length leads \<and> root p x = b}"
    using l by (auto split: if_splits)
  then show "doms_at u leads (p[b := a]) a = doms_at u leads p a \<union> doms_at u leads p b"
    by (simp add: doms_at_def)
  assume "r \<noteq> a" "r \<noteq> b"
  then have "{x. x < length leads \<and> root (p[b := a]) x = r} = {x. x < length leads \<and> root p x = r}"
    using l by (auto split: if_splits)
  then show "doms_at u leads (p[b := a]) r = doms_at u leads p r" by (simp add: doms_at_def)
qed

lemma linked_coarser:
  assumes g: "grouped u leads g" and ab: "gr_parent g ! a = a" "gr_parent g ! b = b" "a < b" "b < length leads"
    and comp: "gr_domains g ! a = {} \<or> gr_domains g ! b = {} \<or> gr_domains g ! a = gr_domains g ! b"
  shows "coarser u leads g (linked a b g)"
proof -
  have ok: "uf_ok (length leads) (gr_parent g)" and len: "length (gr_domains g) = length leads"
    using g by (simp_all add: grouped_def)
  have old: "gr_domains g ! r = doms_at u leads (gr_parent g) r" "\<exists>d. doms_at u leads (gr_parent g) r \<subseteq> {d}"
    if "r < length leads" "gr_parent g ! r = r" for r
    using g that by (simp_all add: grouped_def)
  note l = root_linked [OF ok ab] and dl = doms_at_linked [OF ok ab, where u = u]
  have a: "a < length leads" using ab by simp
  have "gr_domains (linked a b g) ! r = doms_at u leads (gr_parent (linked a b g)) r
      \<and> (\<exists>d. doms_at u leads (gr_parent (linked a b g)) r \<subseteq> {d})"
    if r: "r < length leads" "gr_parent (linked a b g) ! r = r" for r
  proof (cases "r = a")
    case True
    have "\<exists>d. doms_at u leads (gr_parent g) a \<union> doms_at u leads (gr_parent g) b \<subseteq> {d}"
      using comp old(2) [OF a ab(1)] old(2) [OF ab(4,2)] unfolding old(1) [OF a ab(1)] old(1) [OF ab(4,2)]
      by (metis Un_absorb Un_empty_left Un_empty_right)
    with True a len show ?thesis by (simp add: linked_def dl old(1) [OF a ab(1)] old(1) [OF ab(4,2)])
  next
    case False
    have "r \<noteq> b" using r ab ok by (auto simp: linked_def uf_ok_def)
    with False r show ?thesis using old [OF r(1)] by (simp add: linked_def dl)
  qed
  moreover have "uf_ok (length leads) (gr_parent (linked a b g))"
    using ok ab by (auto simp: uf_ok_def linked_def nth_list_update)
  ultimately have "grouped u leads (linked a b g)" using len by (simp add: grouped_def linked_def)
  moreover have "same (linked a b g) x y" if "x < length leads" "y < length leads" "same g x y" for x y
    using that l by (simp add: same_def linked_def)
  ultimately show ?thesis by (simp add: coarser_def)
qed

text \<open>The refused union leaves the groups; an allowed one joins two groups whose domains agree.\<close>

lemma union_cases:
  assumes g: "grouped u leads g" and i: "i < length leads" and j: "j < length leads"
  obtains h ri rj where "coarser u leads g h" "gr_domains h = gr_domains g"
    "ri = root (gr_parent g) i" "rj = root (gr_parent g) j" "root (gr_parent h) i = ri" "root (gr_parent h) j = rj"
    "union i j g = (if ri = rj then h
       else if gr_domains h ! ri \<noteq> {} \<and> gr_domains h ! rj \<noteq> {} \<and> gr_domains h ! ri \<noteq> gr_domains h ! rj then h
       else linked (min ri rj) (max ri rj) h)"
proof -
  let ?h = "snd (find_root j (snd (find_root i g)))"
  note c1 = find_root_coarser [OF g i]
  note g1 = coarser_grouped [OF c1]
  have f1: "fst (find_root i g) = root (gr_parent g) i" by (rule find_root_correct(1) [OF g i])
  have f2: "fst (find_root j (snd (find_root i g))) = root (gr_parent g) j"
    using find_root_correct(1) [OF g1 j] find_root_correct(4) [OF g i j] by simp
  have h: "coarser u leads g ?h" by (rule coarser_trans [OF c1 find_root_coarser [OF g1 j]])
  have d: "gr_domains ?h = gr_domains g"
    using find_root_correct(2) [OF g i] find_root_correct(2) [OF g1 j] by simp
  have r: "root (gr_parent ?h) x = root (gr_parent g) x" if "x < length leads" for x
    using find_root_correct(4) [OF g i that] find_root_correct(4) [OF g1 j that] by simp
  have "union i j g = (if root (gr_parent g) i = root (gr_parent g) j then ?h
       else if gr_domains ?h ! root (gr_parent g) i \<noteq> {} \<and> gr_domains ?h ! root (gr_parent g) j \<noteq> {}
            \<and> gr_domains ?h ! root (gr_parent g) i \<noteq> gr_domains ?h ! root (gr_parent g) j then ?h
       else linked (min (root (gr_parent g) i) (root (gr_parent g) j)) (max (root (gr_parent g) i) (root (gr_parent g) j)) ?h)"
    by (simp only: union_def Let_def case_prod_beta f1 f2 linked_def)
  with h d r [OF i] r [OF j] show ?thesis by (intro that [of ?h]) simp_all
qed

lemma union_coarser:
  assumes g: "grouped u leads g" and i: "i < length leads" and j: "j < length leads"
  shows "coarser u leads g (union i j g)"
    and "gr_domains g ! root (gr_parent g) i = {} \<or> gr_domains g ! root (gr_parent g) j = {}
         \<or> gr_domains g ! root (gr_parent g) i = gr_domains g ! root (gr_parent g) j \<Longrightarrow> same (union i j g) i j"
proof -
  obtain h ri rj where h: "coarser u leads g h" "gr_domains h = gr_domains g"
    "ri = root (gr_parent g) i" "rj = root (gr_parent g) j" "root (gr_parent h) i = ri" "root (gr_parent h) j = rj"
    and u: "union i j g = (if ri = rj then h
       else if gr_domains h ! ri \<noteq> {} \<and> gr_domains h ! rj \<noteq> {} \<and> gr_domains h ! ri \<noteq> gr_domains h ! rj then h
       else linked (min ri rj) (max ri rj) h)"
    using union_cases [OF assms] by blast
  note gh = coarser_grouped [OF h(1)]
  have ok: "uf_ok (length leads) (gr_parent h)" using gh by (simp add: grouped_def)
  have lt: "ri < length leads" "rj < length leads" using i j le_less_trans [OF root_le] by (simp_all add: h(3,4))
  have fixed: "gr_parent h ! ri = ri" "gr_parent h ! rj = rj"
    using root_fixed [OF ok i] root_fixed [OF ok j] by (simp_all add: h(5,6))
  have ab: "gr_parent h ! min ri rj = min ri rj" "gr_parent h ! max ri rj = max ri rj" "max ri rj < length leads"
    using fixed lt by (simp_all add: min_def max_def)
  have joined: "coarser u leads h (linked (min ri rj) (max ri rj) h)"
    if "ri \<noteq> rj" "gr_domains h ! ri = {} \<or> gr_domains h ! rj = {} \<or> gr_domains h ! ri = gr_domains h ! rj"
    using that by (intro linked_coarser [OF gh ab(1,2) _ ab(3)]) (auto simp: min_def max_def)
  show "coarser u leads g (union i j g)"
    unfolding u using h(1) joined coarser_trans [OF h(1)] by auto
  assume comp: "gr_domains g ! root (gr_parent g) i = {} \<or> gr_domains g ! root (gr_parent g) j = {}
         \<or> gr_domains g ! root (gr_parent g) i = gr_domains g ! root (gr_parent g) j"
  show "same (union i j g) i j"
  proof (cases "ri = rj")
    case True
    then show ?thesis using h(5,6) by (simp add: u same_def)
  next
    case False
    then have "min ri rj < max ri rj" by (simp add: min_def max_def)
    note l = root_linked [OF ok ab(1,2) this ab(3)]
    have "same (linked (min ri rj) (max ri rj) h) i j"
      using l [OF i] l [OF j] h(5,6) by (simp add: same_def linked_def min_def max_def)
    then show ?thesis using False comp h(2,3,4) by (auto simp: u)
  qed
qed

subsection \<open>The stages only join groups\<close>

lemma fold_coarser:
  assumes "\<And>x g. x \<in> set xs \<Longrightarrow> grouped u leads (pr g) \<Longrightarrow> coarser u leads (pr g) (pr (f x g))"
  shows "grouped u leads (pr g) \<Longrightarrow> coarser u leads (pr g) (pr (fold f xs g))"
  using assms
proof (induction xs arbitrary: g)
  case Nil
  then show ?case by (simp add: coarser_refl)
next
  case (Cons x xs)
  have c: "coarser u leads (pr g) (pr (f x g))" using Cons.prems by simp
  have "coarser u leads (pr (f x g)) (pr (fold f xs (f x g)))"
    using Cons.IH [of "f x g"] coarser_grouped [OF c] Cons.prems(2) by simp
  from coarser_trans [OF c this] show ?case by simp
qed

definition keys_ok :: "unicode \<Rightarrow> lead list \<Rightarrow> (utext \<Rightarrow> nat option) \<Rightarrow> bool" where
  "keys_ok u leads m \<longleftrightarrow>
     (\<forall>k j. m k = Some j \<longrightarrow> j < length leads \<and> k \<in> set (exact_keys u (leads ! j)))"

lemma meet_keys_coarser:
  "grouped u leads g \<Longrightarrow> keys_ok u leads m \<Longrightarrow> i < length leads \<Longrightarrow> set ks \<subseteq> set (exact_keys u (leads ! i)) \<Longrightarrow>
     coarser u leads g (snd (meet_keys i ks (m, g))) \<and> keys_ok u leads (fst (meet_keys i ks (m, g)))
     \<and> (\<forall>k j. m k = Some j \<longrightarrow> fst (meet_keys i ks (m, g)) k = Some j)"
proof (induction i ks "(m, g)" arbitrary: m g rule: meet_keys.induct)
  case (1 i m g)
  then show ?case by (simp add: coarser_refl)
next
  case (2 i k ks m g)
  show ?case
  proof (cases "m k")
    case None
    have "keys_ok u leads (m(k := Some i))" using "2.prems" by (auto simp: keys_ok_def)
    from "2.hyps"(1) [OF None "2.prems"(1) this "2.prems"(3)] "2.prems"(4)
    have ih: "coarser u leads g (snd (meet_keys i ks (m(k := Some i), g)))"
        "keys_ok u leads (fst (meet_keys i ks (m(k := Some i), g)))"
        "\<And>k' j. (m(k := Some i)) k' = Some j \<Longrightarrow> fst (meet_keys i ks (m(k := Some i), g)) k' = Some j"
      by (simp_all del: fun_upd_apply)
    have "(m(k := Some i)) k' = Some j" if "m k' = Some j" for k' j using None that by auto
    with ih None show ?thesis by (simp del: fun_upd_apply)
  next
    case (Some j)
    then have "j < length leads" using "2.prems"(2) by (simp add: keys_ok_def)
    then have c: "coarser u leads g (union i j g)" using "2.prems" by (intro union_coarser(1))
    from "2.hyps"(2) [OF Some coarser_grouped [OF c] "2.prems"(2,3)] "2.prems"(4) Some coarser_trans [OF c]
    show ?thesis by simp
  qed
qed

text \<open>A lead that carries a domain ends up with the lead the domain's key stands for.\<close>

lemma domain_key: "dom_of u l = Some d \<longleftrightarrow> ascii ''d:'' @ d \<in> set (exact_keys u l)"
  by (auto simp: dom_of_def exact_keys_def ascii_def)

lemma same_domain_joins:
  assumes "grouped u leads g" and "i < length leads" and "j < length leads"
    and "dom_of u (leads ! i) = Some d" and "dom_of u (leads ! j) = Some d"
  shows "same (union i j g) i j"
proof (rule union_coarser(2) [OF assms(1,2,3)])
  have ok: "uf_ok (length leads) (gr_parent g)" using assms(1) by (simp add: grouped_def)
  have "gr_domains g ! root (gr_parent g) x = {d}" if "x < length leads" "dom_of u (leads ! x) = Some d" for x
  proof -
    have "root (gr_parent g) x < length leads" using that(1) le_less_trans [OF root_le] by blast
    with root_fixed [OF ok that(1)] assms(1)
    obtain e where e: "gr_domains g ! root (gr_parent g) x = doms_at u leads (gr_parent g) (root (gr_parent g) x)"
      "doms_at u leads (gr_parent g) (root (gr_parent g) x) \<subseteq> {e}" by (auto simp: grouped_def)
    moreover have "d \<in> doms_at u leads (gr_parent g) (root (gr_parent g) x)"
      using that by (auto simp: doms_at_def)
    ultimately show ?thesis by auto
  qed
  with assms show "gr_domains g ! root (gr_parent g) i = {} \<or> gr_domains g ! root (gr_parent g) j = {}
      \<or> gr_domains g ! root (gr_parent g) i = gr_domains g ! root (gr_parent g) j" by simp
qed

lemma first_key_domain: "dom_of u l = Some d \<Longrightarrow> \<exists>ks. exact_keys u l = (ascii ''d:'' @ d) # ks"
  by (auto simp: dom_of_def exact_keys_def split: if_splits)

text \<open>What stage 1 has established after some of the leads.\<close>

definition stage1_inv :: "unicode \<Rightarrow> lead list \<Rightarrow> nat set \<Rightarrow> (utext \<Rightarrow> nat option) \<times> groups \<Rightarrow> bool" where
  "stage1_inv u leads seen s \<longleftrightarrow>
     grouped u leads (snd s) \<and> keys_ok u leads (fst s)
     \<and> (\<forall>i \<in> seen. \<forall>d. dom_of u (leads ! i) = Some d \<longrightarrow>
          (\<exists>j. fst s (ascii ''d:'' @ d) = Some j \<and> same (snd s) i j))"

lemma stage1_step:
  assumes "stage1_inv u leads S s" and i: "i < length leads" and S: "S \<subseteq> {..<length leads}"
  shows "stage1_inv u leads (insert i S) (meet_keys i (exact_keys u (leads ! i)) s)"
proof -
  obtain m g where s: "s = (m, g)" by (cases s)
  note inv = assms(1) [unfolded s stage1_inv_def, simplified]
  note c = meet_keys_coarser [of u leads g m i "exact_keys u (leads ! i)", simplified]
  let ?s' = "meet_keys i (exact_keys u (leads ! i)) (m, g)"
  have lt: "j < length leads" if "m k = Some j" for k j using inv that by (auto simp: keys_ok_def)
  have co: "coarser u leads g (snd ?s')" "keys_ok u leads (fst ?s')" "\<And>k j. m k = Some j \<Longrightarrow> fst ?s' k = Some j"
    using c inv i by blast+
  have old: "\<exists>j. fst ?s' (ascii ''d:'' @ d) = Some j \<and> same (snd ?s') x j"
    if "x \<in> S" "dom_of u (leads ! x) = Some d" for x d
  proof -
    from inv that obtain j where j: "m (ascii ''d:'' @ d) = Some j" "same g x j" by auto
    with co lt [OF j(1)] that(1) S show ?thesis by (auto simp: coarser_def)
  qed
  have new: "\<exists>j. fst ?s' (ascii ''d:'' @ d) = Some j \<and> same (snd ?s') i j"
    if d: "dom_of u (leads ! i) = Some d" for d
  proof -
    obtain ks where ks: "exact_keys u (leads ! i) = (ascii ''d:'' @ d) # ks" using first_key_domain [OF d] by blast
    show ?thesis
    proof (cases "m (ascii ''d:'' @ d)")
      case None
      let ?m = "m(ascii ''d:'' @ d := Some i)"
      have "keys_ok u leads ?m" using inv i ks by (auto simp: keys_ok_def)
      with meet_keys_coarser [of u leads g ?m i ks] inv i ks
      have "fst (meet_keys i ks (?m, g)) (ascii ''d:'' @ d) = Some i" by (auto simp del: fun_upd_apply intro: fun_upd_same)
      with None ks show ?thesis by (auto simp: same_def)
    next
      case (Some j)
      then have j: "j < length leads" "dom_of u (leads ! j) = Some d"
        using inv by (auto simp: keys_ok_def domain_key)
      have u1: "coarser u leads g (union i j g)" "same (union i j g) i j"
        using union_coarser(1) same_domain_joins inv i j d by blast+
      then have "coarser u leads (union i j g) (snd (meet_keys i ks (m, union i j g)))"
        and m': "fst (meet_keys i ks (m, union i j g)) (ascii ''d:'' @ d) = Some j"
        using meet_keys_coarser [of u leads "union i j g" m i ks] inv i ks Some by (auto dest: coarser_grouped)
      then have "same (snd (meet_keys i ks (m, union i j g))) i j" using u1(2) i j(1) by (simp add: coarser_def)
      with m' ks Some show ?thesis by simp
    qed
  qed
  show ?thesis unfolding s stage1_inv_def using co coarser_grouped old new by blast
qed

lemma grouped_init: "grouped u leads (init_groups u leads)"
proof -
  have r: "root [0..<length leads] x = x" if "x < length leads" for x
    using that by (simp add: root_of_root)
  then have "doms_at u leads [0..<length leads] r = set_option (dom_of u (leads ! r))" if "r < length leads" for r
    using that by (auto simp: doms_at_def)
  moreover have "\<exists>d. set_option x \<subseteq> {d}" for x :: "utext option" by (cases x) auto
  ultimately show ?thesis by (simp add: grouped_def init_groups_def uf_ok_def)
qed

lemma stage1_correct:
  fixes u leads
  defines "g \<equiv> stage1 u leads (init_groups u leads)"
  shows "grouped u leads g"
    and "\<lbrakk>i < length leads; j < length leads; dom_of u (leads ! i) = Some d; dom_of u (leads ! j) = Some d\<rbrakk>
      \<Longrightarrow> same g i j"
proof -
  let ?f = "\<lambda>i. meet_keys i (exact_keys u (leads ! i))"
  have "stage1_inv u leads {..<k} (fold ?f [0..<k] (Map.empty, init_groups u leads))" if "k \<le> length leads" for k
    using that
  proof (induction k)
    case 0
    then show ?case by (simp add: stage1_inv_def grouped_init keys_ok_def)
  next
    case (Suc k)
    then show ?case using stage1_step [of u leads "{..<k}"] by (simp add: lessThan_Suc)
  qed
  then have "stage1_inv u leads {..<length leads} (fold ?f [0..<length leads] (Map.empty, init_groups u leads))" by simp
  then have inv: "grouped u leads g"
      "\<And>i d. i < length leads \<Longrightarrow> dom_of u (leads ! i) = Some d \<Longrightarrow>
         \<exists>k. fst (fold ?f [0..<length leads] (Map.empty, init_groups u leads)) (ascii ''d:'' @ d) = Some k \<and> same g i k"
    by (simp_all add: stage1_inv_def g_def stage1_def)
  show "grouped u leads g" by (fact inv(1))
  assume d: "i < length leads" "j < length leads" "dom_of u (leads ! i) = Some d" "dom_of u (leads ! j) = Some d"
  from inv(2) [OF d(1,3)] inv(2) [OF d(2,4)] show "same g i j" by (auto simp: same_def)
qed


lemma meet_identity_coarser:
  assumes "grouped u leads (snd s)" and "\<forall>k j. fst s k = Some j \<longrightarrow> j < length leads" and "i < length leads"
  shows "coarser u leads (snd s) (snd (meet_identity u leads i s))
    \<and> (\<forall>k j. fst (meet_identity u leads i s) k = Some j \<longrightarrow> j < length leads)"
proof -
  obtain m g where s: "s = (m, g)" by (cases s)
  have "coarser u leads g (union i j g)" if "m k = Some j" for k j
  proof -
    have "j < length leads" using assms(2) that by (simp add: s del: split_paired_All)
    with assms(1,3) show ?thesis by (simp add: s union_coarser(1))
  qed
  moreover have "coarser u leads g g" using assms(1) by (simp add: s coarser_refl)
  ultimately show ?thesis using assms
    by (auto simp: s meet_identity_def Let_def split: option.splits)
qed

lemma stage2_coarser:
  assumes "grouped u leads g"
  shows "coarser u leads g (stage2 u leads g)"
proof -
  let ?s = "\<lambda>k. fold (meet_identity u leads) [0..<k] (Map.empty, g)"
  have "coarser u leads g (snd (?s k)) \<and> (\<forall>x j. fst (?s k) x = Some j \<longrightarrow> j < length leads)" if "k \<le> length leads" for k
    using that
  proof (induction k)
    case 0
    then show ?case by (simp add: coarser_refl assms)
  next
    case (Suc k)
    then have ih: "coarser u leads g (snd (?s k))" "\<forall>x j. fst (?s k) x = Some j \<longrightarrow> j < length leads" "k < length leads"
      by auto
    from meet_identity_coarser [OF coarser_grouped [OF ih(1)] ih(2,3)] coarser_trans [OF ih(1)]
    show ?case by simp
  qed
  then show ?thesis by (simp add: stage2_def)
qed

lemma compare_pair_coarser:
  assumes "grouped u leads (fz_groups f)" and "fst ij < length leads" and "snd ij < length leads"
  shows "coarser u leads (fz_groups f) (fz_groups (compare_pair u auto_t review_t leads ij f))"
proof -
  obtain i j where ij: "ij = (i, j)" by (cases ij)
  let ?g = "snd (find_root j (snd (find_root i (fz_groups f))))"
  have c: "coarser u leads (fz_groups f) ?g"
    using assms ij find_root_coarser coarser_grouped coarser_trans by (metis fst_conv snd_conv)
  then have "coarser u leads (fz_groups f) (union i j ?g)"
    using union_coarser(1) [OF coarser_grouped [OF c]] assms(2,3) ij coarser_trans by auto
  with c show ?thesis
    by (simp add: ij compare_pair_def case_prod_beta Let_def split: verdict.split)
qed

lemma city_pairs_lt: "(i, j) \<in> set (city_pairs u leads) \<Longrightarrow> i < length leads \<and> j < length leads"
proof -
  have nth: "filter P [0..<length leads] ! a < length leads" if "a < length (filter P [0..<length leads])" for P a
    using nth_mem [OF that] by auto
  assume "(i, j) \<in> set (city_pairs u leads)"
  then show ?thesis by (auto simp: city_pairs_def Let_def intro!: nth)
qed

lemma stage3_coarser:
  assumes "grouped u leads g"
  shows "coarser u leads g (fz_groups (stage3 u auto_t review_t leads g))"
proof -
  have "coarser u leads (fz_groups \<lparr>fz_groups = g, fz_flags = [], fz_pairs = []\<rparr>)
      (fz_groups (fold (compare_pair u auto_t review_t leads) (city_pairs u leads)
         \<lparr>fz_groups = g, fz_flags = [], fz_pairs = []\<rparr>))"
    by (rule fold_coarser) (use assms city_pairs_lt in \<open>auto intro!: compare_pair_coarser\<close>)
  then show ?thesis by (simp add: stage3_def)
qed

lemma roots_of_correct:
  "grouped u leads g \<Longrightarrow> set is \<subseteq> {..<length leads} \<Longrightarrow> fst (roots_of is g) = map (root (gr_parent g)) is"
proof (induction "is" arbitrary: g)
  case (Cons i "is")
  then have i: "i < length leads" by simp
  note f = find_root_correct [OF Cons.prems(1) i]
  have "fst (roots_of is (snd (find_root i g))) = map (root (gr_parent (snd (find_root i g)))) is"
    using Cons find_root_coarser [OF Cons.prems(1) i] by (auto dest: coarser_grouped)
  moreover have "map (root (gr_parent (snd (find_root i g)))) is = map (root (gr_parent g)) is"
    using Cons.prems(2) f(4) by auto
  ultimately show ?case using f(1) by (simp add: case_prod_beta)
qed simp

lemma dedup_groups_correct:
  fixes u auto_t review_t leads
  defines "g \<equiv> fz_groups (stage3 u auto_t review_t leads (stage2 u leads (stage1 u leads (init_groups u leads))))"
  shows "fst (dedup_groups u auto_t review_t leads) = map (root (gr_parent g)) [0..<length leads]"
    and "coarser u leads (stage1 u leads (init_groups u leads)) g"
proof -
  note g1 = stage1_correct(1) [of u leads]
  note c2 = stage2_coarser [OF g1]
  show c: "coarser u leads (stage1 u leads (init_groups u leads)) g"
    unfolding g_def by (rule coarser_trans [OF c2 stage3_coarser [OF coarser_grouped [OF c2]]])
  show "fst (dedup_groups u auto_t review_t leads) = map (root (gr_parent g)) [0..<length leads]"
    using roots_of_correct [OF coarser_grouped [OF c], of "[0..<length leads]"]
    by (simp add: dedup_groups_def g_def Let_def case_prod_beta atLeast0LessThan)
qed

text \<open>C21: Two leads that both carry a domain end in the same record exactly when the domains are equal (up to
  case): no chain of shared phones, mailboxes, names or fuzzy matches bridges two domains, and no order of the
  leads keeps one company in two records.\<close>

theorem dedup_respects_domains:
  fixes auto_t review_t :: rat
  assumes "i < length leads" and "j < length leads"
    and "dom_of u (leads ! i) = Some d" and "dom_of u (leads ! j) = Some e"
  shows "fst (dedup_groups u auto_t review_t leads) ! i = fst (dedup_groups u auto_t review_t leads) ! j \<longleftrightarrow> d = e"
proof -
  define g where "g = fz_groups (stage3 u auto_t review_t leads (stage2 u leads (stage1 u leads (init_groups u leads))))"
  note c = dedup_groups_correct [where u = u and leads = leads and auto_t = auto_t and review_t = review_t, folded g_def]
  have ok: "uf_ok (length leads) (gr_parent g)" using coarser_grouped [OF c(2)] by (simp add: grouped_def)
  have "d = e" if "same g i j"
  proof -
    have r: "root (gr_parent g) i < length leads" using assms(1) le_less_trans [OF root_le] by blast
    with root_fixed [OF ok assms(1)] coarser_grouped [OF c(2)]
    obtain x where "doms_at u leads (gr_parent g) (root (gr_parent g) i) \<subseteq> {x}" by (auto simp: grouped_def)
    moreover have "d \<in> doms_at u leads (gr_parent g) (root (gr_parent g) i)"
      "e \<in> doms_at u leads (gr_parent g) (root (gr_parent g) i)"
      using assms that by (auto simp: doms_at_def same_def)
    ultimately show ?thesis by auto
  qed
  moreover have "same g i j" if "d = e"
    using stage1_correct(2) [OF assms(1,2,3)] assms that c(2) by (auto simp: coarser_def)
  ultimately show ?thesis using assms(1,2) c(1) by (auto simp: same_def)
qed

definition blank_lead :: lead where
  "blank_lead = \<lparr>ld_name = None, ld_domain = None, ld_website = None, ld_email = None, ld_phone = None,
     ld_city = None, ld_country = None, ld_industry = None, ld_dm = None, ld_dm_title = None, ld_linkedin = None,
     ld_source_id = None, ld_lead_id = None, ld_branches = None, ld_sources = [], ld_queries = [], ld_urls = [],
     ld_social = None, ld_snippet = None\<rparr>"

definition clinic :: "string \<Rightarrow> string \<Rightarrow> lead" where
  "clinic domain phone = blank_lead\<lparr>ld_domain := Some (ascii domain), ld_phone := Some (ascii phone)\<rparr>"

theorem dedup_respects_domains_witness:
  "fst (dedup_groups ascii_unicode 1 1 [clinic ''A.com'' ''1'', clinic ''b.com'' ''1'', clinic ''a.com'' ''2'']) ! 0
     = fst (dedup_groups ascii_unicode 1 1 [clinic ''A.com'' ''1'', clinic ''b.com'' ''1'', clinic ''a.com'' ''2'']) ! 2"
proof -
  let ?ls = "[clinic ''A.com'' ''1'', clinic ''b.com'' ''1'', clinic ''a.com'' ''2'']"
  have "dom_of ascii_unicode (?ls ! 0) = Some (ascii ''a.com'')" "dom_of ascii_unicode (?ls ! 2) = Some (ascii ''a.com'')"
    by code_simp+
  then show ?thesis using dedup_respects_domains [of 0 ?ls 2 ascii_unicode _ _ 1 1] by simp
qed

subsection \<open>Every lead is accounted for\<close>

lemma set_uniq [simp]: "set (uniq xs) = set xs"
  by (simp add: uniq_def)

lemma distinct_uniq [simp]: "distinct (uniq xs)"
  by (simp add: uniq_def)

lemma sum_classes:
  assumes "distinct cs" and "set (map h xs) \<subseteq> set cs"
  shows "sum_list (map (\<lambda>c. length (filter (\<lambda>x. h x = c) xs)) cs) = length xs"
  using assms(2)
proof (induction xs)
  case (Cons x xs)
  have "sum_list (map (\<lambda>c. if h x = c then 1 else 0) cs) = (1::nat)"
    using assms(1) Cons.prems by (simp add: sum_list_distinct_conv_sum_set)
  moreover have "sum_list (map (\<lambda>c. length (filter (\<lambda>y. h y = c) (x # xs))) cs)
      = sum_list (map (\<lambda>c. if h x = c then 1 else 0) cs) + sum_list (map (\<lambda>c. length (filter (\<lambda>y. h y = c) xs)) cs)"
    by (subst sum_list_addf [symmetric]) (rule arg_cong [where f = sum_list], simp)
  ultimately show ?case using Cons by simp
qed simp

lemma sum_minus_one:
  "(\<And>c. c \<in> set cs \<Longrightarrow> 0 < f c) \<Longrightarrow> length cs + sum_list (map (\<lambda>c. f c - (1::nat)) cs) = sum_list (map f cs)"
  by (induction cs) force+

text \<open>No lead is lost or counted twice: the records' counts add up to the number of leads, the statistics
  agree with the records, and each record's count is the number of ids it lists.\<close>

theorem dedup_accounts_for_every_lead:
  "case run u auto_t review_t leads of (out, st) \<Rightarrow>
     sum_list (map mg_count out) = length leads \<and> st_input st = length leads \<and> st_output st = length out
     \<and> st_output st + st_merged st = length leads \<and> list_all (\<lambda>m. length (mg_ids m) = mg_count m) out"
proof (cases "leads = []")
  case True
  then show ?thesis by (simp add: run_def)
next
  case False
  obtain roots f where df: "dedup_groups u auto_t review_t leads = (roots, f)" by fastforce
  let ?members = "\<lambda>r. filter (\<lambda>i. roots ! i = r) [0..<length leads]"
  have len: "length roots = length leads"
    using dedup_groups_correct(1) [where u = u and leads = leads and auto_t = auto_t and review_t = review_t] df by simp
  have sub: "set (map ((!) roots) [0..<length leads]) \<subseteq> set (uniq roots)" using len by auto
  note total = sum_classes [OF distinct_uniq sub]
  have pos: "0 < length (?members r)" if "r \<in> set (uniq roots)" for r
    using that len by (auto simp: in_set_conv_nth filter_empty_conv)
  note minus = sum_minus_one [of "uniq roots" "\<lambda>r. length (?members r)", OF pos]
  show ?thesis
    using False df total minus
    by (simp add: run_def Let_def merge_group_def comp_def list_all_length)
qed


text \<open>The phone key of stage 1 has no guard for a phone without digits, which normalises to the empty
  string: two companies with different names in different cities, no domain and the phones "n/a" and "-" become
  one record.\<close>

theorem digitless_phones_merge:
  "map mg_count (fst (run ascii_unicode (95/100) (85/100)
     [blank_lead\<lparr>ld_name := Some (ascii ''Alpha''), ld_city := Some (ascii ''Cairo''), ld_phone := Some (ascii ''n/a'')\<rparr>,
      blank_lead\<lparr>ld_name := Some (ascii ''Omega''), ld_city := Some (ascii ''Doha''), ld_phone := Some (ascii ''-'')\<rparr>])) = [2]"
  by code_simp

end
