(* ===== verification/Governance.thy ===== *)
theory Governance
  imports Normalize
begin

section \<open>The V6 domain rules (domain/governance, domain/intelligence, domain/agents)\<close>

text \<open>
  The pure rules of the V6 architecture: the governance gate, verification semantics, deterministic scoring
  and qualification, and the limits of agents.  Scores are exact rationals; an optional string that is empty
  is false, as in Python; the dash of one message is written as a hyphen, and the reasons of \<open>decide\<close> are a datatype.
\<close>

subsection \<open>Shared results (domain/shared/types.py)\<close>

record tenant_context =
  tc_org :: string
  tc_actor :: string
  tc_role :: string
  tc_trace :: "string option"

definition is_staff :: "tenant_context \<Rightarrow> bool" where
  "is_staff t \<longleftrightarrow> tc_role t \<in> {''owner'', ''admin'', ''service''}"

datatype governance_decision = Allowed | Blocked | NeedsReview

datatype verification_status = Deliverable | Risky | CatchAll | Invalid | Unknown

datatype qualification_decision = Accepted | Review | Rejected

subsection \<open>The governance gate (domain/governance/policy.py)\<close>

record policy_input =
  pi_operation :: string
  pi_country :: "string option"
  pi_kind :: "string option"
  pi_value :: "string option"
  pi_target_country :: "string option"

record rules =
  ru_blocked_ops :: "string list"
  ru_review_ops :: "string list"
  ru_blocked_countries :: "string list"
  ru_allowlist_required :: bool
  ru_allowlist :: "string list"
  ru_suppressed :: "string list"

type_synonym ruling = "governance_decision \<times> string \<times> string"

definition fail_closed :: "policy_input \<Rightarrow> ruling" where
  "fail_closed inp = (Blocked, ''no-policy-fail-closed'',
     ''no adopted policy version for this organization - refusing '' @ pi_operation inp)"

definition domain_suppressed :: "rules \<Rightarrow> string \<Rightarrow> bool" where
  "domain_suppressed r domain \<longleftrightarrow> list_ex (\<lambda>d. domain = d \<or> ends_with domain (''.'' @ d)) (ru_suppressed r)"

definition target_country :: "policy_input \<Rightarrow> string" where
  "target_country inp = py_upper (if truthy (pi_country inp) then the (pi_country inp)
     else or_default (pi_target_country inp) [])"

definition evaluate :: "rules \<Rightarrow> policy_input \<Rightarrow> ruling" where
  "evaluate r inp =
     (let domain = py_lower (or_default (pi_value inp) []) in
      if pi_operation inp \<in> set (ru_blocked_ops r)
      then (Blocked, ''prohibited-operation'', pi_operation inp @ '' is blocked by policy'')
      else if pi_kind inp = Some ''domain'' \<and> truthy (pi_value inp) \<and> domain_suppressed r domain
      then (Blocked, ''suppression'', ''domain '' @ domain @ '' is suppressed'')
      else if pi_operation inp \<in> set (ru_review_ops r)
      then (NeedsReview, ''regulated-operation'', pi_operation inp @ '' requires human review'')
      else if truthy (pi_country inp) \<and> py_upper (the (pi_country inp)) \<in> set (map py_upper (ru_blocked_countries r))
      then (Blocked, ''restricted-region'', ''country '' @ the (pi_country inp) @ '' is restricted'')
      else if ru_allowlist_required r \<and> target_country inp \<notin> set (map py_upper (ru_allowlist r))
      then (Blocked, ''region-allowlist'',
        ''country '' @ (if target_country inp = [] then ''unknown'' else target_country inp) @ '' not allowlisted'')
      else (Allowed, ''general-basis'', ''allowed by default policy''))"

definition default_rules :: rules where
  "default_rules = \<lparr>ru_blocked_ops = [''email.outbound_without_approval''], ru_review_ops = [''email.outbound''],
     ru_blocked_countries = [], ru_allowlist_required = False, ru_allowlist = [],
     ru_suppressed = [''gov'', ''edu'', ''mil'']\<rparr>"

subsection \<open>Agents (domain/agents/boundaries.py)\<close>

datatype risk_level = Low | Medium | High

datatype agent_type = Research | Outreach

definition FORBIDDEN_FOR_RESEARCH :: "string list" where
  "FORBIDDEN_FOR_RESEARCH = [''send_email'', ''send_whatsapp'', ''send_linkedin'', ''create_sequence'',
     ''outreach_send'', ''direct_sql'', ''read_pii_plaintext'', ''rotate_keys'']"

datatype permission_error = PermissionError string

definition assert_tool_allowed :: "agent_type \<Rightarrow> string \<Rightarrow> permission_error + unit" where
  "assert_tool_allowed agent tool =
     (if agent = Research \<and> tool \<in> set FORBIDDEN_FOR_RESEARCH
      then Inl (PermissionError (''tool '' @ tool @ '' is forbidden for research agents'')) else Inr ())"

definition required_approval :: "risk_level \<Rightarrow> string \<Rightarrow> bool" where
  "required_approval risk decision \<longleftrightarrow> risk = High \<or> (risk = Medium \<and> decision = ''NEEDS_REVIEW'')"

subsection \<open>Verification (domain/intelligence/verification.py)\<close>

record smtp_evidence =
  ev_smtp_accepted :: bool
  ev_provider_verified :: bool

definition promote :: "verification_status \<Rightarrow> verification_status \<Rightarrow> smtp_evidence \<Rightarrow> verification_status" where
  "promote previous new ev =
     (if previous = Deliverable then Deliverable
      else if new = Deliverable then
        (if previous = CatchAll \<and> \<not> ev_smtp_accepted ev then CatchAll
         else if \<not> ev_provider_verified ev \<and> \<not> ev_smtp_accepted ev then Unknown
         else new)
      else new)"

fun qualification_worthiness :: "verification_status \<Rightarrow> string" where
  "qualification_worthiness Deliverable = ''usable''"
| "qualification_worthiness Risky = ''usable_with_risk''"
| "qualification_worthiness CatchAll = ''weak''"
| "qualification_worthiness Unknown = ''weak''"
| "qualification_worthiness Invalid = ''unusable''"

text \<open>An empty mailbox name raises IndexError.\<close>

definition mask_email :: "utext \<Rightarrow> utext \<Rightarrow> utext option" where
  "mask_email local domain =
     (if local = [] then None
      else Some ((if length local \<le> 2 then [hd local, 42] else [hd local, 42, 42, 42, last local]) @ [64] @ domain))"

subsection \<open>Scoring and qualification (domain/intelligence/scoring.py)\<close>

record score_inputs =
  si_website :: bool
  si_phone :: bool
  si_observations :: nat
  si_sources :: nat
  si_email :: "verification_status option"
  si_intent :: nat
  si_city :: bool

definition score_points :: "score_inputs \<Rightarrow> nat" where
  "score_points i =
     (if si_website i then 20 else 0)
     + (if si_email i = Some Deliverable then 25 else if si_email i \<in> {Some Risky, Some CatchAll} then 10 else 0)
     + (if si_phone i then 15 else 0)
     + min (si_sources i) 3 * 5
     + (if si_observations i \<ge> 3 then 10 else 0)
     + (if si_intent i > 0 then min (si_intent i) 2 * 5 else 0)
     + (if si_city i then 5 else 0)"

definition score_explanations :: "score_inputs \<Rightarrow> string list" where
  "score_explanations i =
     (if si_website i then [''website found (+20)''] else [])
     @ (if si_email i = Some Deliverable then [''deliverable email (+25)'']
        else if si_email i \<in> {Some Risky, Some CatchAll} then [''usable-with-risk email (+10)''] else [])
     @ (if si_phone i then [''phone claim (+15)''] else [])
     @ (if si_sources i > 0 then [''distinct sources x'' @ show_nat (min (si_sources i) 3) @ '' (+''
          @ show_nat (min (si_sources i) 3 * 5) @ '')''] else [])
     @ (if si_observations i \<ge> 3 then [''evidence-rich observation set (+10)''] else [])
     @ (if si_intent i > 0 then [''intent signals x'' @ show_nat (min (si_intent i) 2)] else [])
     @ (if si_city i then [''ICP city match (+5)''] else [])"

definition compute_score :: "score_inputs \<Rightarrow> rat \<times> string list" where
  "compute_score i = (min (of_nat (score_points i)) 100, score_explanations i)"

record qualification_inputs =
  qu_score :: rat
  qu_domain :: "string option"
  qu_email :: "verification_status option"
  qu_suppressed :: bool
  qu_policy :: string

datatype qualification_reason =
    Suppressed | PolicyBlocked | EmailInvalid | NoIdentity | PolicyReview | AboveThreshold | InBand | BelowBand

definition decide :: "qualification_inputs \<Rightarrow> qualification_decision \<times> qualification_reason" where
  "decide q =
     (if qu_suppressed q then (Rejected, Suppressed)
      else if qu_policy q = ''BLOCKED'' then (Rejected, PolicyBlocked)
      else if qu_email q = Some Invalid then (Rejected, EmailInvalid)
      else if \<not> truthy (qu_domain q) then (Review, NoIdentity)
      else if qu_policy q = ''NEEDS_REVIEW'' then (Review, PolicyReview)
      else if qu_score q \<ge> 60 then (Accepted, AboveThreshold)
      else if qu_score q \<ge> 35 then (Review, InBand)
      else (Rejected, BelowBand))"

subsection \<open>Lemmas\<close>

lemma evaluate_cases:
  "fst (evaluate r inp) = Blocked \<longleftrightarrow>
     pi_operation inp \<in> set (ru_blocked_ops r)
     \<or> (pi_kind inp = Some ''domain'' \<and> truthy (pi_value inp) \<and> domain_suppressed r (py_lower (the (pi_value inp))))
     \<or> (pi_operation inp \<notin> set (ru_review_ops r)
        \<and> ((truthy (pi_country inp) \<and> py_upper (the (pi_country inp)) \<in> set (map py_upper (ru_blocked_countries r)))
           \<or> (ru_allowlist_required r \<and> target_country inp \<notin> set (map py_upper (ru_allowlist r)))))"
  by (cases "pi_value inp") (auto simp: evaluate_def Let_def)

lemma evaluate_review:
  "fst (evaluate r inp) = NeedsReview \<longleftrightarrow> fst (evaluate r inp) \<noteq> Blocked \<and> pi_operation inp \<in> set (ru_review_ops r)"
  by (auto simp: evaluate_def Let_def)

lemma evaluate_allowed:
  "fst (evaluate r inp) = Allowed \<longleftrightarrow> fst (evaluate r inp) \<noteq> Blocked \<and> pi_operation inp \<notin> set (ru_review_ops r)"
  by (auto simp: evaluate_def Let_def)

lemma domain_suppressed_sub: "domain_suppressed r d \<Longrightarrow> domain_suppressed r (sub @ ''.'' @ d)"
proof -
  assume "domain_suppressed r d"
  then obtain s where s: "s \<in> set (ru_suppressed r)" "d = s \<or> (\<exists>t. d = t @ ''.'' @ s)"
    by (auto simp: domain_suppressed_def list_ex_iff ends_with_iff)
  then have "ends_with (sub @ ''.'' @ d) (''.'' @ s)"
    by (auto simp: ends_with_iff)
  with s(1) show ?thesis by (auto simp: domain_suppressed_def list_ex_iff)
qed

text \<open>C15: The governance gate is a hard gate: an operation the policy blocks is blocked whatever else the input
  says; a suppressed domain blocks all of its subdomains in any letter case; under a demanded allowlist a country
  that is not on it, or is missing, is BLOCKED for every unregulated operation and is never ALLOWED for a regulated
  one, which is answered NEEDS_REVIEW before the region is looked at unless something blocks it first; the same order
  holds for a restricted country; nothing regulated is ever allowed without review; without a policy everything is
  blocked.\<close>

theorem governance_gate_is_hard:
  "(pi_operation inp \<in> set (ru_blocked_ops r) \<longrightarrow> fst (evaluate r inp) = Blocked)
   \<and> (domain_suppressed r (py_lower d) \<and> d \<noteq> [] \<longrightarrow>
        fst (evaluate r (inp\<lparr>pi_kind := Some ''domain'', pi_value := Some (sub @ ''.'' @ d)\<rparr>)) = Blocked)
   \<and> (ru_allowlist_required r \<and> target_country inp \<notin> set (map py_upper (ru_allowlist r)) \<longrightarrow>
        fst (evaluate r inp) \<noteq> Allowed
        \<and> (pi_operation inp \<notin> set (ru_review_ops r) \<longrightarrow> fst (evaluate r inp) = Blocked))
   \<and> (truthy (pi_country inp) \<and> py_upper (the (pi_country inp)) \<in> set (map py_upper (ru_blocked_countries r)) \<longrightarrow>
        fst (evaluate r inp) \<noteq> Allowed
        \<and> (pi_operation inp \<notin> set (ru_review_ops r) \<longrightarrow> fst (evaluate r inp) = Blocked))
   \<and> (pi_operation inp \<in> set (ru_review_ops r) \<longrightarrow> fst (evaluate r inp) \<noteq> Allowed
        \<and> (fst (evaluate r inp) = Blocked \<longrightarrow> pi_operation inp \<in> set (ru_blocked_ops r)
             \<or> (pi_kind inp = Some ''domain'' \<and> domain_suppressed r (py_lower (the (pi_value inp))))))
   \<and> (fst (evaluate r inp) = Allowed \<longrightarrow>
        \<not> (pi_kind inp = Some ''domain'' \<and> truthy (pi_value inp) \<and> domain_suppressed r (py_lower (the (pi_value inp))))
        \<and> (truthy (pi_country inp) \<longrightarrow> py_upper (the (pi_country inp)) \<notin> set (map py_upper (ru_blocked_countries r))))
   \<and> fst (fail_closed inp) = Blocked"
proof (intro conjI impI)
  assume s: "domain_suppressed r (py_lower d) \<and> d \<noteq> []"
  have dot: "py_lower (sub @ ''.'' @ d) = py_lower sub @ ''.'' @ py_lower d"
    by (simp add: py_lower_def ascii_lower_def)
  have "domain_suppressed r (py_lower (sub @ ''.'' @ d))"
    unfolding dot using s by (intro domain_suppressed_sub) simp
  then show "fst (evaluate r (inp\<lparr>pi_kind := Some ''domain'', pi_value := Some (sub @ ''.'' @ d)\<rparr>)) = Blocked"
    by (simp add: evaluate_cases)
qed (auto simp: evaluate_cases evaluate_allowed fail_closed_def)

lemma governance_gate_is_hard_witness:
  "fst (evaluate default_rules \<lparr>pi_operation = ''discovery.search'', pi_country = None, pi_kind = Some ''domain'',
     pi_value = Some (''mail'' @ ''.'' @ ''GOV''), pi_target_country = None\<rparr>) = Blocked"
proof -
  have "domain_suppressed default_rules (py_lower ''GOV'') \<and> ''GOV'' \<noteq> []" by code_simp
  with governance_gate_is_hard [of "\<lparr>pi_operation = ''discovery.search'', pi_country = None, pi_kind = None,
     pi_value = None, pi_target_country = None\<rparr>" default_rules "''GOV''" "''mail''"]
  show ?thesis by simp
qed

definition at_least :: "score_inputs \<Rightarrow> score_inputs \<Rightarrow> bool" where
  "at_least j i \<longleftrightarrow> (si_website i \<longrightarrow> si_website j) \<and> (si_phone i \<longrightarrow> si_phone j) \<and> (si_city i \<longrightarrow> si_city j)
     \<and> si_observations i \<le> si_observations j \<and> si_sources i \<le> si_sources j \<and> si_intent i \<le> si_intent j
     \<and> si_email j = si_email i"

lemma score_points_le: "score_points i \<le> 100"
proof -
  have "score_points i \<le> 20 + 25 + 15 + 15 + 10 + 10 + 5"
    unfolding score_points_def by (intro add_mono) auto
  then show ?thesis by simp
qed

lemma score_points_mono: "at_least j i \<Longrightarrow> score_points i \<le> score_points j"
proof -
  assume a: "at_least j i"
  then have "min (si_sources i) 3 * 5 \<le> min (si_sources j) 3 * 5" "min (si_intent i) 2 * 5 \<le> min (si_intent j) 2 * 5"
    by (auto simp: at_least_def min_def)
  then show ?thesis using a unfolding score_points_def at_least_def by (intro add_mono) auto
qed

lemma accepted_iff:
  "fst (decide q) = Accepted \<longleftrightarrow> \<not> qu_suppressed q \<and> qu_policy q \<notin> {''BLOCKED'', ''NEEDS_REVIEW''}
     \<and> qu_email q \<noteq> Some Invalid \<and> truthy (qu_domain q) \<and> 60 \<le> qu_score q"
  by (simp add: decide_def)

text \<open>Scores are sound: a score lies between 0 and 100 without the cap ever cutting anything off, each point
  is backed by an explanation, more evidence never lowers it, and a qualified lead is never one that is
  suppressed, blocked, without identity, under review or with an invalid mailbox.\<close>

theorem scores_and_decisions_sound:
  "0 \<le> fst (compute_score i) \<and> fst (compute_score i) \<le> 100 \<and> fst (compute_score i) = of_nat (score_points i)
   \<and> (score_points i > 0 \<longleftrightarrow> snd (compute_score i) \<noteq> [])
   \<and> (at_least j i \<longrightarrow> fst (compute_score i) \<le> fst (compute_score j))
   \<and> (fst (decide q) = Accepted \<longleftrightarrow> \<not> qu_suppressed q \<and> qu_policy q \<notin> {''BLOCKED'', ''NEEDS_REVIEW''}
        \<and> qu_email q \<noteq> Some Invalid \<and> truthy (qu_domain q) \<and> 60 \<le> qu_score q)
   \<and> (fst (decide q) = Rejected \<longrightarrow> fst (decide (q\<lparr>qu_suppressed := True\<rparr>)) = Rejected)"
proof -
  have score: "fst (compute_score i) = of_nat (score_points i)" for i
    using score_points_le [of i] by (simp add: compute_score_def min_def)
  have le: "of_nat (score_points i) \<le> (100::rat)"
    using score_points_le [of i] by (metis of_nat_le_iff of_nat_numeral)
  have "score_points i > 0 \<longleftrightarrow> snd (compute_score i) \<noteq> []"
    by (auto simp: compute_score_def score_points_def score_explanations_def)
  then show ?thesis using score le score_points_mono accepted_iff [of q] by (auto simp: decide_def)
qed

lemma scores_and_decisions_sound_witness:
  "fst (compute_score \<lparr>si_website = True, si_phone = False, si_observations = 2, si_sources = 1, si_email = None,
       si_intent = 0, si_city = False\<rparr>)
     \<le> fst (compute_score \<lparr>si_website = True, si_phone = True, si_observations = 3, si_sources = 5, si_email = None,
       si_intent = 1, si_city = False\<rparr>)"
proof -
  have "at_least \<lparr>si_website = True, si_phone = True, si_observations = 3, si_sources = 5, si_email = None,
       si_intent = 1, si_city = False\<rparr> \<lparr>si_website = True, si_phone = False, si_observations = 2, si_sources = 1,
       si_email = None, si_intent = 0, si_city = False\<rparr>" by code_simp
  with scores_and_decisions_sound show ?thesis by blast
qed

lemma promote_deliverable:
  "promote s new ev = Deliverable \<longleftrightarrow> s = Deliverable
     \<or> (new = Deliverable \<and> (ev_smtp_accepted ev \<or> (ev_provider_verified ev \<and> s \<noteq> CatchAll)))"
  by (auto simp: promote_def)

end
