(* ===== verification/Gateway.thy ===== *)
theory Gateway
  imports PyStr
begin

section \<open>The provider gateway and its effect ledger (infrastructure/providers/gateway.py)\<close>

text \<open>
  ProviderGateway.execute runs one capability through the registered adapters in priority order, reserving
  each effect in the ledger before the call and completing it after.  The ledger is a table of the caller's
  transaction.  What a vendor answers is read from the oracle \<open>respond\<close> at the number of calls made so far,
  which \<open>gw_calls\<close> records; SHA-256 is the parameter \<open>digest\<close>; parameters of a call are their canonical JSON.
\<close>

subsection \<open>Contracts (contracts/providers/base.py)\<close>

datatype capability = SearchCompanies | EnrichCompany | FindContact | VerifyEmail | Reason

datatype failure_class = Transient | RateLimit | Capacity | Auth | Validation | NotSupported | Permanent | Ambiguous

record provider_spec =
  sp_id :: string
  sp_capability :: capability
  sp_priority :: int
  sp_cost :: nat

datatype 'd payload = Data 'd | CachedEffect nat | NoData

record 'd provider_result =
  r_ok :: bool
  r_data :: "'d payload"
  r_failure :: "failure_class option"
  r_error :: string
  r_cost :: nat

text \<open>A call returns a result or raises: the class of the exception and its message.\<close>

datatype 'd vendor_answer = Returned "'d provider_result" | Raised string string

definition classify_exception :: "string \<Rightarrow> string \<Rightarrow> failure_class" where
  "classify_exception cls message =
     (let name = py_lower cls; text = py_lower message; has = (\<lambda>w. contains w text) in
      if has ''429'' \<or> has ''rate'' then RateLimit
      else if contains ''timeout'' name \<or> has ''timed out'' then Transient
      else if contains ''connection'' name \<or> has ''unreachable'' \<or> has ''temporarily'' then Transient
      else if has ''401'' \<or> has ''403'' \<or> has ''auth'' \<or> has ''unauthorized'' then Auth
      else if has ''quota'' \<or> has ''capacity'' \<or> has ''503'' then Capacity
      else if has ''400'' \<or> has ''validation'' \<or> has ''invalid'' then Validation
      else if has ''not supported'' \<or> contains ''notimplemented'' name then NotSupported
      else Ambiguous)"

subsection \<open>The effect ledger\<close>

datatype effect_status = Reserved | Succeeded | Failed | Uncertain

record effect =
  ef_id :: nat
  ef_org :: string
  ef_job :: "string option"
  ef_provider :: string
  ef_operation :: string
  ef_key :: string
  ef_status :: effect_status
  ef_cost :: nat

record request =
  rq_org :: string
  rq_job :: "string option"
  rq_step :: "string option"
  rq_operation :: string
  rq_params :: string

definition dash_or :: "string option \<Rightarrow> string" where
  "dash_or x = (if truthy x then the x else ''-'')"

definition idempotency_key :: "(string \<Rightarrow> string) \<Rightarrow> request \<Rightarrow> string \<Rightarrow> string" where
  "idempotency_key digest q provider =
     take 32 (digest (rq_org q @ ''|'' @ dash_or (rq_job q) @ ''|'' @ dash_or (rq_step q) @ ''|'' @ provider
                      @ ''|'' @ rq_operation q))
     @ take 16 (digest (rq_params q))"

definition set_status :: "nat \<Rightarrow> effect_status \<Rightarrow> effect list \<Rightarrow> effect list" where
  "set_status i st = upd_where (\<lambda>e. ef_id e = i) (\<lambda>e. e\<lparr>ef_status := st\<rparr>)"

definition reserve ::
  "(string \<Rightarrow> string) \<Rightarrow> request \<Rightarrow> provider_spec \<Rightarrow> effect list \<Rightarrow> (nat \<times> bool) \<times> effect list" where
  "reserve digest q sp ledger =
     (let key = idempotency_key digest q (sp_id sp) in
      case row_of ef_key key ledger of
        Some e \<Rightarrow>
          if ef_status e = Failed then ((ef_id e, False), set_status (ef_id e) Reserved ledger)
          else ((ef_id e, ef_status e = Succeeded), ledger)
      | None \<Rightarrow>
          ((length ledger, False),
           ledger @ [\<lparr>ef_id = length ledger, ef_org = rq_org q, ef_job = rq_job q, ef_provider = sp_id sp,
                      ef_operation = rq_operation q, ef_key = key, ef_status = Reserved, ef_cost = 0\<rparr>]))"

definition final_status :: "bool \<Rightarrow> failure_class option \<Rightarrow> effect_status" where
  "final_status ok failure = (if ok then Succeeded else if failure = Some Ambiguous then Uncertain else Failed)"

definition complete_effect :: "nat \<Rightarrow> bool \<Rightarrow> nat \<Rightarrow> failure_class option \<Rightarrow> effect list \<Rightarrow> effect list" where
  "complete_effect i ok cost failure =
     upd_where (\<lambda>e. ef_id e = i) (\<lambda>e. e\<lparr>ef_status := final_status ok failure, ef_cost := cost\<rparr>)"

subsection \<open>The gateway\<close>

definition register :: "provider_spec \<Rightarrow> provider_spec list \<Rightarrow> provider_spec list" where
  "register sp pool = sort_key sp_priority (pool @ [sp])"

definition adapters :: "capability \<Rightarrow> provider_spec list \<Rightarrow> provider_spec list" where
  "adapters c pool = filter (\<lambda>sp. sp_capability sp = c) pool"

definition spent_cents :: "request \<Rightarrow> effect list \<Rightarrow> nat" where
  "spent_cents q ledger =
     (case rq_job q of None \<Rightarrow> 0
      | Some _ \<Rightarrow> sum_list (map ef_cost (filter (\<lambda>e. ef_org e = rq_org q \<and> ef_job e = rq_job q) ledger)))"

record gateway_state =
  gw_ledger :: "effect list"
  gw_calls :: "(string \<times> request) list"

definition failed_result :: "failure_class \<Rightarrow> string \<Rightarrow> 'd provider_result" where
  "failed_result f msg = \<lparr>r_ok = False, r_data = NoData, r_failure = Some f, r_error = msg, r_cost = 0\<rparr>"

fun answer_of :: "'d vendor_answer \<Rightarrow> 'd provider_result" where
  "answer_of (Returned r) = r"
| "answer_of (Raised cls msg) = failed_result (classify_exception cls msg) (cls @ '': '' @ msg)"

definition tries_next :: "failure_class option \<Rightarrow> bool" where
  "tries_next f \<longleftrightarrow> f \<in> {Some Transient, Some RateLimit, Some Capacity, Some Ambiguous}"

text \<open>One adapter: whether the loop stops, the result, and the job's spending, computed once at the first paid call.\<close>

definition try_adapter ::
  "(string \<Rightarrow> string) \<Rightarrow> (nat \<Rightarrow> string \<Rightarrow> request \<Rightarrow> 'd vendor_answer) \<Rightarrow> request \<Rightarrow> nat option \<Rightarrow> nat option
     \<Rightarrow> provider_spec \<Rightarrow> gateway_state \<Rightarrow> bool \<times> 'd provider_result \<times> nat option \<times> gateway_state" where
  "try_adapter digest respond q budget spent sp s =
     (let rv = reserve digest q sp (gw_ledger s); i = fst (fst rv); ledger = snd rv;
          priced = (budget \<noteq> None \<and> sp_cost sp > 0);
          spent' = (if priced \<and> spent = None then Some (spent_cents q ledger) else spent);
          r = answer_of (respond (length (gw_calls s)) (sp_id sp) q) in
      if snd (fst rv)
      then (True, \<lparr>r_ok = True, r_data = CachedEffect i, r_failure = None, r_error = [], r_cost = 0\<rparr>, spent,
            s\<lparr>gw_ledger := ledger\<rparr>)
      else if priced \<and> int (sp_cost sp) > int (the budget) - int (the spent')
      then (True, failed_result Capacity ''job budget exhausted before provider call'', spent',
            s\<lparr>gw_ledger := complete_effect i False 0 (Some Capacity) ledger\<rparr>)
      else if r_ok r
      then (True, r, spent', \<lparr>gw_ledger = complete_effect i True (r_cost r) None ledger, gw_calls = gw_calls s @ [(sp_id sp, q)]\<rparr>)
      else (\<not> tries_next (r_failure r), r, spent',
            \<lparr>gw_ledger = complete_effect i False 0 (r_failure r) ledger, gw_calls = gw_calls s @ [(sp_id sp, q)]\<rparr>))"

fun waterfall ::
  "(string \<Rightarrow> string) \<Rightarrow> (nat \<Rightarrow> string \<Rightarrow> request \<Rightarrow> 'd vendor_answer) \<Rightarrow> request \<Rightarrow> nat option \<Rightarrow> nat option
     \<Rightarrow> provider_spec list \<Rightarrow> gateway_state \<Rightarrow> 'd provider_result \<times> gateway_state" where
  "waterfall digest respond q budget spent [] s = (failed_result Capacity ''no provider available for capability'', s)"
| "waterfall digest respond q budget spent (sp # sps) s =
     (case try_adapter digest respond q budget spent sp s of
        (stop, r, spent', s') \<Rightarrow> if stop then (r, s') else waterfall digest respond q budget spent' sps s')"

definition execute ::
  "(string \<Rightarrow> string) \<Rightarrow> (nat \<Rightarrow> string \<Rightarrow> request \<Rightarrow> 'd vendor_answer) \<Rightarrow> provider_spec list \<Rightarrow> capability \<Rightarrow> request
     \<Rightarrow> nat option \<Rightarrow> gateway_state \<Rightarrow> 'd provider_result \<times> gateway_state" where
  "execute digest respond pool c q budget s = waterfall digest respond q budget None (adapters c pool) s"

subsection \<open>The ledger's invariant\<close>

text \<open>Ids count the rows, keys are unique, and only a succeeded effect has cost anything.\<close>

definition ledger_ok :: "effect list \<Rightarrow> bool" where
  "ledger_ok ledger \<longleftrightarrow> map ef_id ledger = [0..<length ledger] \<and> distinct (map ef_key ledger)
     \<and> list_all (\<lambda>e. ef_status e \<noteq> Succeeded \<longrightarrow> ef_cost e = 0) ledger"

interpretation ledger_table: keyed_table ef_id .

lemma ids_inj: "ledger_ok ledger \<Longrightarrow> e \<in> set ledger \<Longrightarrow> f \<in> set ledger \<Longrightarrow> ef_id e = ef_id f \<Longrightarrow> e = f"
proof -
  assume "ledger_ok ledger" and ef: "e \<in> set ledger" "f \<in> set ledger" "ef_id e = ef_id f"
  then have "distinct (map ef_id ledger)" by (simp add: ledger_ok_def)
  with ef show "e = f" by (metis distinct_map inj_onD)
qed

lemma ledger_ok_update:
  assumes "ledger_ok ledger" and "\<And>e. ef_id (f e) = ef_id e \<and> ef_key (f e) = ef_key e"
    and "\<And>e. e \<in> set ledger \<Longrightarrow> p e \<Longrightarrow> ef_status (f e) \<noteq> Succeeded \<Longrightarrow> ef_cost (f e) = 0"
  shows "ledger_ok (upd_where p f ledger)"
proof -
  have "map ef_id (upd_where p f ledger) = map ef_id ledger" "map ef_key (upd_where p f ledger) = map ef_key ledger"
    using assms(2) by (auto simp: upd_where_def)
  moreover have "list_all (\<lambda>e. ef_status e \<noteq> Succeeded \<longrightarrow> ef_cost e = 0) (upd_where p f ledger)"
    using assms(1,3) by (auto simp: ledger_ok_def list_all_iff upd_where_def)
  ultimately show ?thesis using assms(1) by (simp add: ledger_ok_def)
qed

lemma reserve_ok: "ledger_ok ledger \<Longrightarrow> ledger_ok (snd (reserve digest q sp ledger))"
proof -
  assume ok: "ledger_ok ledger"
  show ?thesis
  proof (cases "row_of ef_key (idempotency_key digest q (sp_id sp)) ledger")
    case None
    then have "idempotency_key digest q (sp_id sp) \<notin> ef_key ` set ledger" by (simp add: table_simps)
    with None ok show ?thesis by (simp add: reserve_def Let_def ledger_ok_def)
  next
    case (Some e)
    have "e \<in> set ledger" using row_of_Some [OF Some] by simp
    then have "ledger_ok (set_status (ef_id e) Reserved ledger)" if "ef_status e = Failed"
      unfolding set_status_def using ok that
      by (intro ledger_ok_update) (auto simp: ledger_ok_def list_all_iff dest: ids_inj [OF ok])
    with Some ok show ?thesis by (simp add: reserve_def Let_def)
  qed
qed

lemma complete_ok: "ledger_ok ledger \<Longrightarrow> (ok \<or> cost = 0) \<Longrightarrow> ledger_ok (complete_effect i ok cost failure ledger)"
  unfolding complete_effect_def by (rule ledger_ok_update) (auto simp: final_status_def split: if_splits)

text \<open>The row an open reservation holds: it has not succeeded and belongs to the request.\<close>

definition held :: "request \<Rightarrow> nat \<Rightarrow> effect list \<Rightarrow> bool" where
  "held q i ledger \<longleftrightarrow>
     (\<exists>e \<in> set ledger. ef_id e = i \<and> ef_status e \<noteq> Succeeded \<and> ef_org e = rq_org q \<and> ef_job e = rq_job q)"

definition own_keys :: "(string \<Rightarrow> string) \<Rightarrow> request \<Rightarrow> provider_spec list \<Rightarrow> effect list \<Rightarrow> bool" where
  "own_keys digest q sps ledger \<longleftrightarrow>
     (\<forall>e \<in> set ledger. \<forall>sp \<in> set sps. ef_key e = idempotency_key digest q (sp_id sp) \<longrightarrow>
        ef_org e = rq_org q \<and> ef_job e = rq_job q)"

lemma own_keys_update:
  "own_keys digest q sps ledger \<Longrightarrow> (\<And>e. ef_key (f e) = ef_key e \<and> ef_org (f e) = ef_org e \<and> ef_job (f e) = ef_job e)
     \<Longrightarrow> own_keys digest q sps (upd_where p f ledger)"
  by (induction ledger) (simp_all add: own_keys_def)

lemma own_keys_reserve: "own_keys digest q sps ledger \<Longrightarrow> own_keys digest q sps (snd (reserve digest q sp ledger))"
  unfolding reserve_def Let_def set_status_def
  by (auto split: option.splits intro: own_keys_update) (auto simp: own_keys_def)

lemma own_keys_complete: "own_keys digest q sps ledger \<Longrightarrow> own_keys digest q sps (complete_effect i ok cost failure ledger)"
  unfolding complete_effect_def by (rule own_keys_update) auto

lemma spent_update:
  "(\<And>e. ef_cost (f e) = ef_cost e \<and> ef_org (f e) = ef_org e \<and> ef_job (f e) = ef_job e)
     \<Longrightarrow> spent_cents q (upd_where p f ledger) = spent_cents q ledger"
  by (induction ledger) (auto simp: spent_cents_def split: option.splits)

lemma spent_reserve: "spent_cents q (snd (reserve digest q sp ledger)) = spent_cents q ledger"
  unfolding reserve_def Let_def set_status_def
  by (auto simp: spent_update split: option.splits) (simp add: spent_cents_def split: option.splits)

lemma reserve_held:
  assumes "ledger_ok ledger" and "own_keys digest q (sp # sps) ledger" and "reserve digest q sp ledger = ((i, False), ledger')"
  shows "held q i ledger'"
proof (cases "row_of ef_key (idempotency_key digest q (sp_id sp)) ledger")
  case None
  with assms(3) show ?thesis by (auto simp: reserve_def Let_def held_def)
next
  case (Some e)
  have e: "e \<in> set ledger" "ef_org e = rq_org q" "ef_job e = rq_job q"
    using row_of_Some [OF Some] assms(2) by (auto simp: own_keys_def)
  show ?thesis
  proof (cases "ef_status e = Failed")
    case True
    have "e\<lparr>ef_status := Reserved\<rparr> \<in> set (set_status (ef_id e) Reserved ledger)"
      using e(1) by (auto simp: set_status_def set_upd_where)
    with True Some e assms(3) show ?thesis
      unfolding held_def by (intro bexI [of _ "e\<lparr>ef_status := Reserved\<rparr>"]) (auto simp: reserve_def Let_def)
  next
    case False
    with Some e assms(3) show ?thesis by (auto simp: reserve_def Let_def held_def)
  qed
qed

lemma spent_complete:
  assumes "ledger_ok ledger" and "held q i ledger" and "rq_job q \<noteq> None"
  shows "spent_cents q (complete_effect i ok cost failure ledger) = spent_cents q ledger + cost"
proof -
  from assms(2) obtain e where e: "e \<in> set ledger" "ef_id e = i" "ef_status e \<noteq> Succeeded"
    "ef_org e = rq_org q" "ef_job e = rq_job q" by (auto simp: held_def)
  from e(1) obtain us vs where split: "ledger = us @ e # vs" by (auto simp: in_set_conv_decomp)
  have zero: "ef_cost e = 0" using assms(1) e by (auto simp: ledger_ok_def list_all_iff)
  have "distinct (map ef_id ledger)" using assms(1) by (simp add: ledger_ok_def)
  then have ne: "\<And>x. x \<in> set us \<Longrightarrow> ef_id x \<noteq> i" "\<And>x. x \<in> set vs \<Longrightarrow> ef_id x \<noteq> i"
    using e(2) by (auto simp: split image_iff)
  have "complete_effect i ok cost failure us = us" "complete_effect i ok cost failure vs = vs"
    unfolding complete_effect_def using ne by (auto intro!: upd_where_none)
  then have "complete_effect i ok cost failure ledger
      = us @ e\<lparr>ef_status := final_status ok failure, ef_cost := cost\<rparr> # vs"
    using e(2) by (simp add: split complete_effect_def upd_where_def)
  then show ?thesis using assms(3) e(4,5) zero by (auto simp: split spent_cents_def)
qed

subsection \<open>What one execution does\<close>

text \<open>The four ways an adapter's turn ends.\<close>

lemma try_adapter_cases:
  assumes "try_adapter digest respond q budget spent sp s = (stop, r, spent', s')"
    and "reserve digest q sp (gw_ledger s) = ((i, already), ledger)"
  obtains
    (cached) "already" "stop" "r_ok r" "r_cost r = 0" "r_data r = CachedEffect i" "s' = s\<lparr>gw_ledger := ledger\<rparr>"
  | (refused) "\<not> already" "stop" "r = failed_result Capacity ''job budget exhausted before provider call''"
      "s' = s\<lparr>gw_ledger := complete_effect i False 0 (Some Capacity) ledger\<rparr>"
  | (called) "\<not> already" "r = answer_of (respond (length (gw_calls s)) (sp_id sp) q)"
      "stop \<longleftrightarrow> r_ok r \<or> \<not> tries_next (r_failure r)" "gw_calls s' = gw_calls s @ [(sp_id sp, q)]"
      "gw_ledger s' = complete_effect i (r_ok r) (if r_ok r then r_cost r else 0) (if r_ok r then None else r_failure r) ledger"
      "\<And>b. budget = Some b \<Longrightarrow> 0 < sp_cost sp \<Longrightarrow>
         int (sp_cost sp) \<le> int b - int (if spent = None then spent_cents q ledger else the spent)"
      "spent' \<in> {spent, Some (spent_cents q ledger)}"
proof -
  let ?a = "answer_of (respond (length (gw_calls s)) (sp_id sp) q)"
  let ?priced = "budget \<noteq> None \<and> sp_cost sp > 0"
  let ?sp = "if ?priced \<and> spent = None then Some (spent_cents q ledger) else spent"
  define P where "P \<longleftrightarrow> ?priced \<and> int (sp_cost sp) > int (the budget) - int (the ?sp)"
  have def: "(stop, r, spent', s') =
     (if already then (True, \<lparr>r_ok = True, r_data = CachedEffect i, r_failure = None, r_error = [], r_cost = 0\<rparr>, spent,
            s\<lparr>gw_ledger := ledger\<rparr>)
      else if P
      then (True, failed_result Capacity ''job budget exhausted before provider call'', ?sp,
            s\<lparr>gw_ledger := complete_effect i False 0 (Some Capacity) ledger\<rparr>)
      else if r_ok ?a
      then (True, ?a, ?sp, \<lparr>gw_ledger = complete_effect i True (r_cost ?a) None ledger, gw_calls = gw_calls s @ [(sp_id sp, q)]\<rparr>)
      else (\<not> tries_next (r_failure ?a), ?a, ?sp,
            \<lparr>gw_ledger = complete_effect i False 0 (r_failure ?a) ledger, gw_calls = gw_calls s @ [(sp_id sp, q)]\<rparr>))"
    unfolding P_def assms(1) [symmetric] try_adapter_def assms(2) Let_def fst_conv snd_conv by (rule refl)
  consider "already" | "\<not> already" "P" | "\<not> already" "\<not> P" by blast
  then show thesis
  proof cases
    case 1
    with def show thesis by (intro cached) simp_all
  next
    case 2
    with def have "stop" "r = failed_result Capacity ''job budget exhausted before provider call''"
      "s' = s\<lparr>gw_ledger := complete_effect i False 0 (Some Capacity) ledger\<rparr>" by (simp_all only: if_True if_False prod.inject)
    with 2(1) show thesis by (rule refused)
  next
    case 3
    then have "int (sp_cost sp) \<le> int b - int (if spent = None then spent_cents q ledger else the spent)"
      if "budget = Some b" "0 < sp_cost sp" for b using that by (auto simp: P_def split: if_splits)
    moreover from 3 def have "(stop, r, spent', s') = (if r_ok ?a
      then (True, ?a, ?sp, \<lparr>gw_ledger = complete_effect i True (r_cost ?a) None ledger, gw_calls = gw_calls s @ [(sp_id sp, q)]\<rparr>)
      else (\<not> tries_next (r_failure ?a), ?a, ?sp,
            \<lparr>gw_ledger = complete_effect i False 0 (r_failure ?a) ledger, gw_calls = gw_calls s @ [(sp_id sp, q)]\<rparr>))"
      by (simp only: if_False)
    ultimately show thesis using 3(1) by (intro called) (auto split: if_splits)
  qed
qed

lemma waterfall_budget:
  assumes "ledger_ok (gw_ledger s)" and "own_keys digest q sps (gw_ledger s)" and "rq_job q \<noteq> None"
    and "spent \<in> {None, Some (spent_cents q (gw_ledger s))}"
    and "waterfall digest respond q budget spent sps s = (r, s')"
  shows "ledger_ok (gw_ledger s')
    \<and> spent_cents q (gw_ledger s') = spent_cents q (gw_ledger s) + (if r_ok r then r_cost r else 0)
    \<and> (\<forall>b. budget = Some b \<and> r_ok r \<and> 0 < r_cost r \<and>
         (\<forall>sp \<in> set sps. \<forall>n. r_cost (answer_of (respond n (sp_id sp) q)) \<le> sp_cost sp)
         \<longrightarrow> spent_cents q (gw_ledger s') \<le> b)"
  using assms
proof (induction sps arbitrary: spent s r s')
  case Nil
  then show ?case by (auto simp: failed_result_def)
next
  case (Cons sp sps)
  obtain i already ledger where rv: "reserve digest q sp (gw_ledger s) = ((i, already), ledger)" by (metis prod.collapse)
  obtain stop r0 spent' s0 where ta: "try_adapter digest respond q budget spent sp s = (stop, r0, spent', s0)"
    by (metis prod_cases4)
  have ok: "ledger_ok ledger" and sp0: "spent_cents q ledger = spent_cents q (gw_ledger s)"
    and own: "own_keys digest q (sp # sps) ledger"
    using reserve_ok [OF Cons.prems(1), of digest q sp] spent_reserve [of q digest sp "gw_ledger s"]
      own_keys_reserve [OF Cons.prems(2), of sp] rv by simp_all
  have held: "held q i ledger" if "\<not> already"
    using reserve_held [OF Cons.prems(1,2)] rv that by simp
  note after = spent_complete [OF ok held Cons.prems(3)] and kept = complete_ok [OF ok]
  have w: "(r, s') = (if stop then (r0, s0) else waterfall digest respond q budget spent' sps s0)"
    using Cons.prems(5) ta by simp
  from ta rv show ?case
  proof (cases rule: try_adapter_cases)
    case cached
    with w ok sp0 show ?thesis by simp
  next
    case refused
    with w kept after sp0 show ?thesis by (simp add: failed_result_def)
  next
    case called
    let ?cost = "if r_ok r0 then r_cost r0 else 0"
    have s0: "ledger_ok (gw_ledger s0)" "spent_cents q (gw_ledger s0) = spent_cents q (gw_ledger s) + ?cost"
      using kept after called(1) sp0 by (simp_all add: called(5))
    show ?thesis
    proof (cases stop)
      case True
      have "spent_cents q (gw_ledger s0) \<le> b"
        if b: "budget = Some b" "r_ok r0" "0 < r_cost r0" "\<forall>n. r_cost (answer_of (respond n (sp_id sp) q)) \<le> sp_cost sp" for b
      proof -
        have c: "r_cost r0 \<le> sp_cost sp" using b(4) called(2) by simp
        with b(3) called(6) [OF b(1)] Cons.prems(4) sp0
        have "int (sp_cost sp) \<le> int b - int (spent_cents q (gw_ledger s))" by (auto split: if_splits)
        with c s0(2) b(2) show ?thesis by simp
      qed
      with True w s0 show ?thesis by simp
    next
      case False
      with called(3) have "\<not> r_ok r0" by simp
      moreover have "own_keys digest q sps (gw_ledger s0)"
        using own_keys_complete [OF own] by (simp add: called(5) own_keys_def)
      moreover have "spent' \<in> {None, Some (spent_cents q (gw_ledger s0))}"
        using called(7) Cons.prems(4) sp0 s0(2) \<open>\<not> r_ok r0\<close> by auto
      ultimately show ?thesis
        using Cons.IH [of s0 spent' r s'] s0 Cons.prems(3) w False by auto
    qed
  qed
qed

lemma try_adapter_succeeded:
  assumes "try_adapter digest respond q budget spent sp s = (stop, r, spent', s')" and "ledger_ok (gw_ledger s)"
    and "e \<in> set (gw_ledger s)" and "ef_status e = Succeeded"
  shows "ledger_ok (gw_ledger s') \<and> e \<in> set (gw_ledger s')
    \<and> (gw_calls s' \<noteq> gw_calls s \<longrightarrow> ef_key e \<noteq> idempotency_key digest q (sp_id sp))"
proof -
  obtain i already ledger where rv: "reserve digest q sp (gw_ledger s) = ((i, already), ledger)" by (metis prod.collapse)
  have ok: "ledger_ok ledger" using reserve_ok [OF assms(2), of digest q sp] rv by simp
  have in1: "e \<in> set ledger"
  proof (cases "row_of ef_key (idempotency_key digest q (sp_id sp)) (gw_ledger s)")
    case None
    with rv assms(3) show ?thesis by (auto simp: reserve_def Let_def)
  next
    case (Some x)
    with row_of_Some [OF Some] ids_inj [OF assms(2) assms(3), of x] rv assms(3,4) show ?thesis
      by (auto simp: reserve_def Let_def set_status_def set_upd_where split: if_splits intro!: bexI [of _ e])
  qed
  have own: "ef_id e \<noteq> i \<and> ef_key e \<noteq> idempotency_key digest q (sp_id sp)" if "\<not> already"
  proof (cases "row_of ef_key (idempotency_key digest q (sp_id sp)) (gw_ledger s)")
    case None
    then have "idempotency_key digest q (sp_id sp) \<notin> ef_key ` set (gw_ledger s)" by (simp add: table_simps)
    with assms(3) have "ef_key e \<noteq> idempotency_key digest q (sp_id sp)" by (metis image_eqI)
    moreover have "ef_id e < length (gw_ledger s)"
      using assms(2,3) by (auto simp: ledger_ok_def) (metis atLeastLessThan_upt image_eqI lessThan_iff list.set_map set_upt atLeastLessThan_iff)
    ultimately show ?thesis using None rv by (auto simp: reserve_def Let_def)
  next
    case (Some x)
    have x: "x \<in> set (gw_ledger s)" "ef_key x = idempotency_key digest q (sp_id sp)" using row_of_Some [OF Some] by simp_all
    have i: "i = ef_id x" "ef_status x \<noteq> Succeeded" using Some rv that by (auto simp: reserve_def Let_def split: if_splits)
    then have "e \<noteq> x" using assms(4) by auto
    moreover have "distinct (map ef_key (gw_ledger s))" using assms(2) by (simp add: ledger_ok_def)
    ultimately show ?thesis using x i ids_inj [OF assms(2,3) x(1)] assms(3) by (metis distinct_map inj_onD)
  qed
  have kept: "e \<in> set (complete_effect i ok' cost f ledger)" if "\<not> already" for ok' cost f
    using in1 own [OF that] by (auto simp: complete_effect_def set_upd_where intro!: bexI [of _ e])
  from assms(1) rv show ?thesis
  proof (cases rule: try_adapter_cases)
    case cached
    with ok in1 show ?thesis by simp
  next
    case refused
    with complete_ok [OF ok] kept show ?thesis by simp
  next
    case called
    with complete_ok [OF ok] kept own show ?thesis by simp
  qed
qed

text \<open>The calls of one execution: a prefix of the adapters, each but the last answered with a retryable failure.\<close>

lemma waterfall_calls:
  assumes "waterfall digest respond q budget spent sps s = (r, s')"
  shows "\<exists>k \<le> length sps. gw_calls s' = gw_calls s @ map (\<lambda>sp. (sp_id sp, q)) (take k sps)
    \<and> (\<forall>j. Suc j < k \<longrightarrow>
         (let a = answer_of (respond (length (gw_calls s) + j) (sp_id (sps ! j)) q) in \<not> r_ok a \<and> tries_next (r_failure a)))
    \<and> (r_ok r \<and> (\<forall>i. r_data r \<noteq> CachedEffect i) \<longrightarrow>
         0 < k \<and> r = answer_of (respond (length (gw_calls s) + (k - 1)) (sp_id (sps ! (k - 1))) q))"
  using assms
proof (induction sps arbitrary: spent s)
  case Nil
  then show ?case by (auto simp: failed_result_def)
next
  case (Cons sp sps)
  obtain i already ledger where rv: "reserve digest q sp (gw_ledger s) = ((i, already), ledger)" by (metis prod.collapse)
  obtain stop r0 spent' s0 where ta: "try_adapter digest respond q budget spent sp s = (stop, r0, spent', s0)"
    by (metis prod_cases4)
  have w: "(r, s') = (if stop then (r0, s0) else waterfall digest respond q budget spent' sps s0)"
    using Cons.prems ta by simp
  from ta rv show ?case
  proof (cases rule: try_adapter_cases)
    case cached
    with w show ?thesis by (intro exI [of _ 0]) auto
  next
    case refused
    with w show ?thesis by (intro exI [of _ 0]) (auto simp: failed_result_def)
  next
    case called
    show ?thesis
    proof (cases stop)
      case True
      with w called show ?thesis by (intro exI [of _ 1]) auto
    next
      case False
      with w have "waterfall digest respond q budget spent' sps s0 = (r, s')" by simp
      from Cons.IH [OF this] obtain k where k: "k \<le> length sps"
        "gw_calls s' = gw_calls s0 @ map (\<lambda>sp. (sp_id sp, q)) (take k sps)"
        "\<And>j. Suc j < k \<Longrightarrow> \<not> r_ok (answer_of (respond (length (gw_calls s0) + j) (sp_id (sps ! j)) q))
           \<and> tries_next (r_failure (answer_of (respond (length (gw_calls s0) + j) (sp_id (sps ! j)) q)))"
        "r_ok r \<and> (\<forall>i. r_data r \<noteq> CachedEffect i) \<Longrightarrow>
         0 < k \<and> r = answer_of (respond (length (gw_calls s0) + (k - 1)) (sp_id (sps ! (k - 1))) q)"
        unfolding Let_def by blast
      have "(let a = answer_of (respond (length (gw_calls s) + j) (sp_id ((sp # sps) ! j)) q) in
          \<not> r_ok a \<and> tries_next (r_failure a))" if "Suc j < Suc k" for j
      proof (cases j)
        case 0
        with False called(2,3) show ?thesis by (simp add: Let_def)
      next
        case (Suc j')
        with that k(3) [of j'] called(4) show ?thesis by (simp add: Let_def)
      qed
      moreover have "0 < Suc k \<and> r = answer_of (respond (length (gw_calls s) + (Suc k - 1)) (sp_id ((sp # sps) ! (Suc k - 1))) q)"
        if "r_ok r \<and> (\<forall>i. r_data r \<noteq> CachedEffect i)"
        using k(4) [OF that] called(4) by (cases k) simp_all
      ultimately show ?thesis using k(1,2) called(4) by (intro exI [of _ "Suc k"]) auto
    qed
  qed
qed

lemma waterfall_succeeded:
  assumes "waterfall digest respond q budget spent sps s = (r, s')" and "ledger_ok (gw_ledger s)"
    and "e \<in> set (gw_ledger s)" and "ef_status e = Succeeded"
  shows "e \<in> set (gw_ledger s') \<and>
    (\<exists>new. gw_calls s' = gw_calls s @ new \<and> (\<forall>(p, q') \<in> set new. ef_key e \<noteq> idempotency_key digest q p))"
  using assms
proof (induction sps arbitrary: spent s)
  case Nil
  then show ?case by auto
next
  case (Cons sp sps)
  obtain i already ledger where rv: "reserve digest q sp (gw_ledger s) = ((i, already), ledger)" by (metis prod.collapse)
  obtain stop r0 spent' s0 where ta: "try_adapter digest respond q budget spent sp s = (stop, r0, spent', s0)"
    by (metis prod_cases4)
  have w: "(r, s') = (if stop then (r0, s0) else waterfall digest respond q budget spent' sps s0)"
    using Cons.prems(1) ta by simp
  note t = try_adapter_succeeded [OF ta Cons.prems(2-4)]
  from ta rv have calls: "gw_calls s0 = gw_calls s \<or> gw_calls s0 = gw_calls s @ [(sp_id sp, q)]"
    by (cases rule: try_adapter_cases) auto
  then have step: "\<exists>new. gw_calls s0 = gw_calls s @ new \<and> (\<forall>(p, q') \<in> set new. ef_key e \<noteq> idempotency_key digest q p)"
    using t by auto
  show ?case
  proof (cases stop)
    case True
    with w t step show ?thesis by simp
  next
    case False
    with w have "waterfall digest respond q budget spent' sps s0 = (r, s')" by simp
    from Cons.IH [OF this] t Cons.prems(4) obtain new where
      "e \<in> set (gw_ledger s')" "gw_calls s' = gw_calls s0 @ new" "\<forall>(p, q') \<in> set new. ef_key e \<noteq> idempotency_key digest q p"
      by blast
    with step show ?thesis by auto
  qed
qed

subsection \<open>Properties\<close>

definition no_effects :: gateway_state where
  "no_effects = \<lparr>gw_ledger = [], gw_calls = []\<rparr>"

definition two_vendors :: "provider_spec list" where
  "two_vendors =
     register \<lparr>sp_id = ''B'', sp_capability = SearchCompanies, sp_priority = 2, sp_cost = 3\<rparr>
       (register \<lparr>sp_id = ''A'', sp_capability = SearchCompanies, sp_priority = 1, sp_cost = 5\<rparr> [])"

definition search_request :: request where
  "search_request = \<lparr>rq_org = ''o'', rq_job = Some ''j'', rq_step = None, rq_operation = ''search'', rq_params = ''{}''\<rparr>"

definition charging :: "nat \<Rightarrow> nat provider_result" where
  "charging cost = \<lparr>r_ok = True, r_data = Data 1, r_failure = None, r_error = [], r_cost = cost\<rparr>"

definition scripted :: "nat vendor_answer list \<Rightarrow> nat \<Rightarrow> string \<Rightarrow> request \<Rightarrow> nat vendor_answer" where
  "scripted answers n p q = (if n < length answers then answers ! n else Returned (failed_result Permanent ''down''))"

text \<open>C9: A job's budget is a ceiling on its spending: when providers charge no more than their listed price, an
  execution under a budget never takes the job's booked cost above it, whichever providers it falls through,
  books exactly the cost of the answer it returns, and keeps the ledger consistent.\<close>

theorem gateway_never_overspends:
  assumes "ledger_ok (gw_ledger s)" and "own_keys digest q (adapters c pool) (gw_ledger s)"
    and "rq_job q \<noteq> None" and "spent_cents q (gw_ledger s) \<le> b"
    and "\<forall>sp \<in> set (adapters c pool). \<forall>n. r_cost (answer_of (respond n (sp_id sp) q)) \<le> sp_cost sp"
    and "execute digest respond pool c q (Some b) s = (r, s')"
  shows "spent_cents q (gw_ledger s') \<le> b \<and> ledger_ok (gw_ledger s')
    \<and> spent_cents q (gw_ledger s') = spent_cents q (gw_ledger s) + (if r_ok r then r_cost r else 0)"
  using waterfall_budget [OF assms(1,2,3) _ assms(6) [unfolded execute_def]] assms(4,5)
  by (cases "r_ok r \<and> 0 < r_cost r") auto

lemma gateway_never_overspends_witness:
  "spent_cents search_request (gw_ledger (snd (execute id (scripted [Returned (failed_result Transient []), Returned (charging 3)])
     two_vendors SearchCompanies search_request (Some 6) no_effects))) \<le> 6"
proof -
  let ?r = "scripted [Returned (failed_result Transient []), Returned (charging 3)]"
  have cost: "r_cost (answer_of (?r n p q)) \<le> 3" for n p q
    by (auto simp: scripted_def failed_result_def charging_def nth_Cons split: nat.splits)
  have "\<forall>sp \<in> set (adapters SearchCompanies two_vendors). 3 \<le> sp_cost sp" by code_simp
  with cost have "\<forall>sp \<in> set (adapters SearchCompanies two_vendors). \<forall>n. r_cost (answer_of (?r n (sp_id sp) search_request)) \<le> sp_cost sp"
    by (meson le_trans)
  moreover have "ledger_ok (gw_ledger no_effects)" "own_keys id search_request (adapters SearchCompanies two_vendors) (gw_ledger no_effects)"
    "rq_job search_request \<noteq> None" "spent_cents search_request (gw_ledger no_effects) \<le> 6"
    by (simp_all add: no_effects_def ledger_ok_def own_keys_def search_request_def spent_cents_def)
  ultimately show ?thesis
    using gateway_never_overspends [of no_effects id search_request SearchCompanies two_vendors 6 ?r]
    by (metis prod.collapse)
qed

text \<open>The waterfall asks the providers of a capability in priority order and goes on only after a failure that
  another provider may heal: the calls it adds are a prefix of the registered adapters, every one before the last was
  answered with TRANSIENT, RATE_LIMIT, CAPACITY or AMBIGUOUS, and a fresh successful result is the last call's.\<close>

theorem gateway_waterfall_in_order:
  "case execute digest respond pool c q budget s of (r, s') \<Rightarrow>
     \<exists>k \<le> length (adapters c pool). gw_calls s' = gw_calls s @ map (\<lambda>sp. (sp_id sp, q)) (take k (adapters c pool))
    \<and> (\<forall>j. Suc j < k \<longrightarrow>
         (let a = answer_of (respond (length (gw_calls s) + j) (sp_id (adapters c pool ! j)) q) in
          \<not> r_ok a \<and> tries_next (r_failure a)))
    \<and> (r_ok r \<and> (\<forall>i. r_data r \<noteq> CachedEffect i) \<longrightarrow>
         0 < k \<and> r = answer_of (respond (length (gw_calls s) + (k - 1)) (sp_id (adapters c pool ! (k - 1))) q))
    \<and> sorted (map sp_priority (adapters c (register sp pool)))"
proof -
  obtain r s' where e: "execute digest respond pool c q budget s = (r, s')" by fastforce
  have "sorted (map sp_priority (adapters c (register sp pool)))"
    by (simp add: adapters_def register_def sorted_filter)
  with waterfall_calls [OF e [unfolded execute_def]] show ?thesis unfolding e prod.case by blast
qed

lemma gateway_waterfall_in_order_witness:
  "\<exists>k \<le> 2. gw_calls (snd (execute id (scripted [Returned (failed_result Transient []), Returned (charging 3)])
      two_vendors SearchCompanies search_request None no_effects))
    = map (\<lambda>sp. (sp_id sp, search_request)) (take k (adapters SearchCompanies two_vendors))"
proof -
  let ?respond = "scripted [Returned (failed_result Transient []), Returned (charging 3)]"
  obtain r s' where e: "execute id ?respond two_vendors SearchCompanies search_request None no_effects = (r, s')" by fastforce
  have "length (adapters SearchCompanies two_vendors) = 2" "gw_calls no_effects = []" by code_simp+
  with gateway_waterfall_in_order [where digest = id and respond = ?respond and pool = two_vendors and c = SearchCompanies
      and q = search_request and budget = None and s = no_effects and sp = "hd two_vendors", unfolded e prod.case]
  show ?thesis unfolding e snd_conv by auto
qed

text \<open>C24: An effect that succeeded is not executed again by its provider: after any execution of any request the
  ledger still holds it unchanged, and none of the calls made carries its idempotency key.\<close>

theorem succeeded_effect_not_repeated:
  assumes "ledger_ok (gw_ledger s)" and "e \<in> set (gw_ledger s)" and "ef_status e = Succeeded"
  shows "case execute digest respond pool c q budget s of (r, s') \<Rightarrow>
    e \<in> set (gw_ledger s') \<and>
    (\<exists>new. gw_calls s' = gw_calls s @ new \<and> (\<forall>(p, q') \<in> set new. ef_key e \<noteq> idempotency_key digest q p))"
proof -
  obtain r s' where w: "waterfall digest respond q budget None (adapters c pool) s = (r, s')" by fastforce
  from waterfall_succeeded [OF this assms] show ?thesis unfolding execute_def w prod.case .
qed

definition after_search :: gateway_state where
  "after_search = snd (execute id (scripted [Returned (charging 3)]) two_vendors SearchCompanies search_request None no_effects)"

lemma succeeded_effect_not_repeated_witness:
  "hd (gw_ledger after_search) \<in> set (gw_ledger (snd (execute id (scripted []) two_vendors SearchCompanies search_request None after_search)))"
proof -
  have "ledger_ok (gw_ledger after_search)" "hd (gw_ledger after_search) \<in> set (gw_ledger after_search)"
    "ef_status (hd (gw_ledger after_search)) = Succeeded" by code_simp+
  from succeeded_effect_not_repeated [OF this, where digest = id and respond = "scripted []" and pool = two_vendors
      and c = SearchCompanies and q = search_request and budget = None]
  show ?thesis by (auto split: prod.splits)
qed

text \<open>Ambiguity is retried blindly: an effect whose outcome is uncertain is called again by the next execution of
  the same request, and a request that succeeded at a fallback provider is sent again to the provider that failed
  first, so that both hold a successful effect for one request.\<close>

theorem uncertain_effect_retried:
  "(let s1 = snd (execute id (scripted [Returned (failed_result Ambiguous [])]) (take 1 two_vendors) SearchCompanies
               search_request None no_effects);
        s2 = snd (execute id (scripted [Returned (failed_result Ambiguous []), Returned (charging 5)]) (take 1 two_vendors)
               SearchCompanies search_request None s1)
    in map ef_status (gw_ledger s1) = [Uncertain] \<and> map fst (gw_calls s2) = [''A'', ''A''])
   \<and> (let respond = scripted [Returned (failed_result Transient []), Returned (charging 3), Returned (charging 5)];
          s1 = snd (execute id respond two_vendors SearchCompanies search_request None no_effects);
          s2 = snd (execute id respond two_vendors SearchCompanies search_request None s1)
      in map ef_status (gw_ledger s1) = [Failed, Succeeded] \<and> map ef_status (gw_ledger s2) = [Succeeded, Succeeded]
         \<and> spent_cents search_request (gw_ledger s2) = 8)"
  by code_simp

end
