(* ===== verification/Relay.thy ===== *)
theory Relay
  imports Prelude
begin

section \<open>The outbox relay and its idempotent consumer (infrastructure/events/relay.py)\<close>

text \<open>
  OutboxRelay.tick takes a batch of unpublished events in creation order, counts an attempt, hands each event to
  the consumer and marks it published; IdempotentConsumer runs its handler unless the event is in the inbox, and
  dead-letters it at the \<open>mx\<close>-th failed attempt.  Whether the \<open>n\<close>-th run of the handler on an event succeeds is
  the oracle \<open>handle\<close>; \<open>rs_runs\<close> records the runs with their outcome.
\<close>

record outbox_row =
  ob_id :: nat
  ob_type :: string
  ob_created :: ts
  ob_attempts :: nat
  ob_published :: "ts option"

datatype inbox_result = InboxOk | DeadLettered

record relay_state =
  rs_outbox :: "outbox_row list"
  rs_inbox :: "((string \<times> nat) \<times> inbox_result) list"
  rs_dead :: "(string \<times> nat \<times> nat) list"
  rs_runs :: "(nat \<times> bool) list"

interpretation outbox: keyed_table ob_id .

definition consumed :: "string \<Rightarrow> nat \<Rightarrow> relay_state \<Rightarrow> bool" where
  "consumed name e s \<longleftrightarrow> list_ex (\<lambda>x. fst x = (name, e)) (rs_inbox s)"

definition attempts_of :: "nat \<Rightarrow> relay_state \<Rightarrow> nat" where
  "attempts_of e s = (case row_of ob_id e (rs_outbox s) of None \<Rightarrow> 0 | Some r \<Rightarrow> ob_attempts r)"

text \<open>A failed run: the inbox claim is withdrawn, and the last allowed failure parks the event.\<close>

definition on_failure :: "string \<Rightarrow> nat \<Rightarrow> nat \<Rightarrow> relay_state \<Rightarrow> relay_state" where
  "on_failure name mx e s =
     (let s1 = s\<lparr>rs_inbox := filter (\<lambda>(k, _). k \<noteq> (name, e)) (rs_inbox s)\<rparr> in
      if attempts_of e s1 \<ge> mx
      then s1\<lparr>rs_dead := rs_dead s1 @ [(name, e, attempts_of e s1)],
              rs_inbox := rs_inbox s1 @ [((name, e), DeadLettered)]\<rparr>
      else s1)"

text \<open>One delivery: whether the consumer raised, and the state.\<close>

definition deliver :: "string \<Rightarrow> nat \<Rightarrow> (nat \<Rightarrow> nat \<Rightarrow> bool) \<Rightarrow> nat \<Rightarrow> relay_state \<Rightarrow> bool \<times> relay_state" where
  "deliver name mx handle e s =
     (if consumed name e s then (False, s)
      else let ok = handle (length (rs_runs s)) e; s1 = s\<lparr>rs_runs := rs_runs s @ [(e, ok)]\<rparr> in
        if ok then (False, s1\<lparr>rs_inbox := rs_inbox s1 @ [((name, e), InboxOk)]\<rparr>)
        else (True, on_failure name mx e s1))"

definition count_attempt :: "nat \<Rightarrow> relay_state \<Rightarrow> relay_state" where
  "count_attempt e s =
     s\<lparr>rs_outbox := upd_where (\<lambda>r. ob_id r = e) (\<lambda>r. r\<lparr>ob_attempts := Suc (ob_attempts r)\<rparr>) (rs_outbox s)\<rparr>"

definition mark_published :: "ts \<Rightarrow> nat \<Rightarrow> relay_state \<Rightarrow> relay_state" where
  "mark_published now e s =
     s\<lparr>rs_outbox := upd_where (\<lambda>r. ob_id r = e \<and> ob_published r = None) (\<lambda>r. r\<lparr>ob_published := Some now\<rparr>) (rs_outbox s)\<rparr>"

definition dispatch :: "string \<Rightarrow> nat \<Rightarrow> (nat \<Rightarrow> nat \<Rightarrow> bool) \<Rightarrow> ts \<Rightarrow> nat \<Rightarrow> relay_state \<Rightarrow> nat \<times> relay_state" where
  "dispatch name mx handle now e s =
     (case deliver name mx handle e (count_attempt e s) of
        (True, s') \<Rightarrow> (0, s')
      | (False, s') \<Rightarrow> (1, mark_published now e s'))"

fun dispatch_all :: "string \<Rightarrow> nat \<Rightarrow> (nat \<Rightarrow> nat \<Rightarrow> bool) \<Rightarrow> ts \<Rightarrow> nat list \<Rightarrow> relay_state \<Rightarrow> nat \<times> relay_state" where
  "dispatch_all name mx handle now [] s = (0, s)"
| "dispatch_all name mx handle now (e # es) s =
     (let (n, s1) = dispatch name mx handle now e s; (m, s2) = dispatch_all name mx handle now es s1 in (n + m, s2))"

definition batch_of :: "nat \<Rightarrow> relay_state \<Rightarrow> nat list" where
  "batch_of n s = map ob_id (take n (sort_key ob_created (filter (\<lambda>r. ob_published r = None) (rs_outbox s))))"

definition tick :: "string \<Rightarrow> nat \<Rightarrow> (nat \<Rightarrow> nat \<Rightarrow> bool) \<Rightarrow> nat \<Rightarrow> ts \<Rightarrow> relay_state \<Rightarrow> nat \<times> relay_state" where
  "tick name mx handle n now s = dispatch_all name mx handle now (batch_of n s) s"

definition ticks :: "string \<Rightarrow> nat \<Rightarrow> (nat \<Rightarrow> nat \<Rightarrow> bool) \<Rightarrow> nat \<Rightarrow> ts list \<Rightarrow> relay_state \<Rightarrow> relay_state" where
  "ticks name mx handle n nows s = fold (\<lambda>now s. snd (tick name mx handle n now s)) nows s"

subsection \<open>One event under one dispatch\<close>

definition runs_of :: "nat \<Rightarrow> relay_state \<Rightarrow> bool list" where
  "runs_of e s = map snd (filter (\<lambda>x. fst x = e) (rs_runs s))"

definition published :: "nat \<Rightarrow> relay_state \<Rightarrow> bool" where
  "published e s \<longleftrightarrow> (case row_of ob_id e (rs_outbox s) of None \<Rightarrow> True | Some r \<Rightarrow> ob_published r \<noteq> None)"

definition dead :: "string \<Rightarrow> nat \<Rightarrow> relay_state \<Rightarrow> bool" where
  "dead name e s \<longleftrightarrow> (\<exists>n. (name, e, n) \<in> set (rs_dead s))"

lemma consumed_iff: "consumed name e s \<longleftrightarrow> (\<exists>r. ((name, e), r) \<in> set (rs_inbox s))"
  unfolding consumed_def list_ex_iff by (metis fst_conv prod.collapse)

text \<open>What the relay observes of an event: published, in the inbox, attempts, the runs so far, dead-lettered.\<close>

definition view :: "string \<Rightarrow> nat \<Rightarrow> relay_state \<Rightarrow> bool \<times> bool \<times> nat \<times> bool list \<times> bool" where
  "view name e s = (published e s, consumed name e s, attempts_of e s, runs_of e s, dead name e s)"

lemma row_of_count_attempt:
  "row_of ob_id x (rs_outbox (count_attempt e s)) =
     map_option (\<lambda>r. if ob_id r = e then r\<lparr>ob_attempts := Suc (ob_attempts r)\<rparr> else r) (row_of ob_id x (rs_outbox s))"
  unfolding count_attempt_def by (simp add: outbox.row_of_upd_where)

lemma row_of_mark_published:
  "row_of ob_id x (rs_outbox (mark_published now e s)) =
     map_option (\<lambda>r. if ob_id r = e \<and> ob_published r = None then r\<lparr>ob_published := Some now\<rparr> else r)
       (row_of ob_id x (rs_outbox s))"
  unfolding mark_published_def by (simp add: outbox.row_of_upd_where)

lemma frames [simp]:
  "consumed name e (count_attempt x s) = consumed name e s" "consumed name e (mark_published now x s) = consumed name e s"
  "runs_of e (count_attempt x s) = runs_of e s" "runs_of e (mark_published now x s) = runs_of e s"
  "dead name e (count_attempt x s) = dead name e s" "dead name e (mark_published now x s) = dead name e s"
  by (simp_all add: count_attempt_def mark_published_def consumed_iff runs_of_def dead_def)

lemma row_of_id: "row_of ob_id x t = Some r \<Longrightarrow> ob_id r = x"
  by (auto dest: row_of_Some)

lemma view_count_attempt:
  assumes "row_of ob_id e (rs_outbox s) \<noteq> None" and "view name e s = (p, c, n, rs, d)"
  shows "view name e (count_attempt e s) = (p, c, Suc n, rs, d)"
    and "x \<noteq> e \<Longrightarrow> view name x (count_attempt e s) = view name x s"
proof -
  obtain r where r: "row_of ob_id e (rs_outbox s) = Some r" using assms(1) by blast
  with assms(2) row_of_id [OF r] show "view name e (count_attempt e s) = (p, c, Suc n, rs, d)"
    by (simp add: view_def published_def attempts_of_def row_of_count_attempt)
  assume ne: "x \<noteq> e"
  have "row_of ob_id x (rs_outbox (count_attempt e s)) = row_of ob_id x (rs_outbox s)"
    using ne by (cases "row_of ob_id x (rs_outbox s)") (auto simp: row_of_count_attempt dest: row_of_id)
  then show "view name x (count_attempt e s) = view name x s"
    by (simp add: view_def published_def attempts_of_def)
qed

lemma view_mark_published:
  assumes "view name e s = (p, c, n, rs, d)"
  shows "view name e (mark_published now e s) = (True, c, n, rs, d)"
    and "x \<noteq> e \<Longrightarrow> view name x (mark_published now e s) = view name x s"
proof -
  show "view name e (mark_published now e s) = (True, c, n, rs, d)"
    using assms by (cases "row_of ob_id e (rs_outbox s)")
      (auto simp: view_def published_def attempts_of_def row_of_mark_published dest: row_of_id)
  assume ne: "x \<noteq> e"
  have "row_of ob_id x (rs_outbox (mark_published now e s)) = row_of ob_id x (rs_outbox s)"
    using ne by (cases "row_of ob_id x (rs_outbox s)") (auto simp: row_of_mark_published dest: row_of_id)
  then show "view name x (mark_published now e s) = view name x s"
    by (simp add: view_def published_def attempts_of_def)
qed

lemma attempts_of_cong: "rs_outbox s' = rs_outbox s \<Longrightarrow> attempts_of e s' = attempts_of e s \<and> published e s' = published e s"
  by (simp add: attempts_of_def published_def)

lemma on_failure_frames:
  "rs_outbox (on_failure name mx e s) = rs_outbox s"
  "rs_runs (on_failure name mx e s) = rs_runs s"
  "dead name x (on_failure name mx e s) \<longleftrightarrow> dead name x s \<or> (x = e \<and> mx \<le> attempts_of e s)"
  "consumed name x (on_failure name mx e s) \<longleftrightarrow> (if x = e then mx \<le> attempts_of e s else consumed name x s)"
proof -
  have "attempts_of e (s\<lparr>rs_inbox := i\<rparr>) = attempts_of e s" for i by (simp add: attempts_of_def)
  then show "rs_outbox (on_failure name mx e s) = rs_outbox s" "rs_runs (on_failure name mx e s) = rs_runs s"
    "dead name x (on_failure name mx e s) \<longleftrightarrow> dead name x s \<or> (x = e \<and> mx \<le> attempts_of e s)"
    "consumed name x (on_failure name mx e s) \<longleftrightarrow> (if x = e then mx \<le> attempts_of e s else consumed name x s)"
    by (auto simp: on_failure_def Let_def dead_def consumed_iff)
qed

lemma view_on_failure:
  "view name x (on_failure name mx e s) = (published x s, if x = e then mx \<le> attempts_of e s else consumed name x s,
     attempts_of x s, runs_of x s, dead name x s \<or> (x = e \<and> mx \<le> attempts_of e s))"
  using attempts_of_cong [OF on_failure_frames(1)]
  by (simp add: view_def on_failure_frames(3,4)) (simp add: runs_of_def on_failure_frames(2))

lemma view_run:
  "view name x (s\<lparr>rs_runs := rs_runs s @ [(e, ok)]\<rparr>) =
     (published x s, consumed name x s, attempts_of x s, runs_of x s @ (if x = e then [ok] else []), dead name x s)"
  by (simp add: view_def published_def attempts_of_def consumed_iff runs_of_def dead_def)

lemma view_inbox:
  "view name x (s\<lparr>rs_inbox := rs_inbox s @ [((name, e), InboxOk)]\<rparr>) =
     (published x s, consumed name x s \<or> x = e, attempts_of x s, runs_of x s, dead name x s)"
  by (auto simp: view_def published_def attempts_of_def consumed_iff runs_of_def dead_def)

lemma view_deliver:
  assumes "view name e s = (p, c, n, rs, d)" and "deliver name mx handle e s = (raised, s')"
  shows "\<not> c \<Longrightarrow> \<exists>ok. raised = (\<not> ok) \<and> view name e s' = (p, ok \<or> mx \<le> n, n, rs @ [ok], d \<or> (\<not> ok \<and> mx \<le> n))"
    and "c \<Longrightarrow> \<not> raised \<and> s' = s"
    and "x \<noteq> e \<Longrightarrow> view name x s' = view name x s"
    and "rs_outbox s' = rs_outbox s"
proof -
  define ok where "ok = handle (length (rs_runs s)) e"
  define s1 where "s1 = s\<lparr>rs_runs := rs_runs s @ [(e, ok)]\<rparr>"
  have v: "p = published e s" "c = consumed name e s" "n = attempts_of e s" "rs = runs_of e s" "d = dead name e s"
    using assms(1) by (simp_all add: view_def)
  have s': "(raised, s') = (if c then (False, s)
      else if ok then (False, s1\<lparr>rs_inbox := rs_inbox s1 @ [((name, e), InboxOk)]\<rparr>) else (True, on_failure name mx e s1))"
    unfolding assms(2) [symmetric] v(2) deliver_def Let_def ok_def s1_def by (rule refl)
  have s1: "published x s1 = published x s" "consumed name x s1 = consumed name x s" "attempts_of x s1 = attempts_of x s"
    "runs_of x s1 = runs_of x s @ (if x = e then [ok] else [])" "dead name x s1 = dead name x s" for x
    using view_run [of name x s e ok] by (simp_all add: view_def s1_def)
  show "rs_outbox s' = rs_outbox s"
    using s' by (auto simp: on_failure_frames s1_def split: if_splits)
  show "\<not> raised \<and> s' = s" if c using that s' by simp
  show "\<exists>ok. raised = (\<not> ok) \<and> view name e s' = (p, ok \<or> mx \<le> n, n, rs @ [ok], d \<or> (\<not> ok \<and> mx \<le> n))" if "\<not> c"
    using that s' by (intro exI [of _ ok], cases ok) (auto simp: view_inbox view_on_failure s1 v)
  show "view name x s' = view name x s" if "x \<noteq> e"
    using that s' by (cases c; cases ok) (auto simp: view_inbox view_on_failure s1, simp_all add: view_def)
qed

text \<open>One dispatch of an event: already consumed events are published; a success publishes; a failure counts, and the
  last allowed one parks the event.\<close>

lemma view_dispatch:
  assumes "row_of ob_id e (rs_outbox s) \<noteq> None" and "view name e s = (p, c, n, rs, d)"
    and "dispatch name mx handle now e s = (k, s')"
  shows "c \<Longrightarrow> view name e s' = (True, True, Suc n, rs, d)"
    and "\<not> c \<Longrightarrow> view name e s' = (True, True, Suc n, rs @ [True], d)
           \<or> view name e s' = (p, mx \<le> Suc n, Suc n, rs @ [False], d \<or> mx \<le> Suc n)"
    and "x \<noteq> e \<Longrightarrow> view name x s' = view name x s"
    and "map ob_id (rs_outbox s') = map ob_id (rs_outbox s)"
proof -
  obtain raised s1 where dl: "deliver name mx handle e (count_attempt e s) = (raised, s1)" by fastforce
  note v = view_count_attempt [OF assms(1,2)]
  note dv = view_deliver [OF v(1) dl]
  have s': "s' = (if raised then s1 else mark_published now e s1)"
    using assms(3) dl by (auto simp: dispatch_def split: bool.splits)
  show "view name e s' = (True, True, Suc n, rs, d)" if c
    using dv(2) [OF that] v(1) that by (simp add: s' view_mark_published(1))
  show "view name e s' = (True, True, Suc n, rs @ [True], d)
      \<or> view name e s' = (p, mx \<le> Suc n, Suc n, rs @ [False], d \<or> mx \<le> Suc n)" if nc: "\<not> c"
  proof -
    obtain ok where ok: "raised = (\<not> ok)"
      "view name e s1 = (p, ok \<or> mx \<le> Suc n, Suc n, rs @ [ok], d \<or> (\<not> ok \<and> mx \<le> Suc n))"
      using dv(1) [OF nc] by blast
    then show ?thesis by (cases ok) (simp_all add: s' view_mark_published(1) [of name e s1])
  qed
  show "view name x s' = view name x s" if "x \<noteq> e"
    using dv(3) [OF that] v(2) [OF that] view_mark_published(2) [OF _ that, of name s1 _ _ _ _ _ now]
    by (cases "view name e s1") (simp add: s')
  show "map ob_id (rs_outbox s') = map ob_id (rs_outbox s)"
    using dv(4) by (auto simp: s' mark_published_def count_attempt_def outbox.keys_upd_where)
qed

subsection \<open>Histories of the relay\<close>

text \<open>An event is handled well at most once and tried at most \<open>mx\<close> times; while it is not in the inbox it has only failed.\<close>

definition settled_ok :: "string \<Rightarrow> nat \<Rightarrow> nat \<Rightarrow> relay_state \<Rightarrow> bool" where
  "settled_ok name mx e s \<longleftrightarrow> (case view name e s of (p, c, n, rs, d) \<Rightarrow>
     length (filter id rs) \<le> 1 \<and> length rs \<le> mx \<and> length rs \<le> n
     \<and> (\<not> c \<longrightarrow> filter id rs = [] \<and> \<not> d \<and> \<not> p \<and> (rs \<noteq> [] \<longrightarrow> n < mx))
     \<and> (c \<longrightarrow> d \<or> filter id rs \<noteq> []) \<and> (d \<longrightarrow> filter id rs = []))"

lemma settled_dispatch:
  assumes "settled_ok name mx x s" and "row_of ob_id e (rs_outbox s) \<noteq> None" and "0 < mx"
  shows "settled_ok name mx x (snd (dispatch name mx handle now e s))"
proof -
  obtain k s' where dp: "dispatch name mx handle now e s = (k, s')" by fastforce
  obtain p c n rs d where v: "view name e s = (p, c, n, rs, d)" by (metis prod_cases5)
  note vd = view_dispatch [OF assms(2) v dp]
  show ?thesis
  proof (cases "x = e")
    case False
    with vd(3) assms(1) show ?thesis by (simp add: dp settled_ok_def)
  next
    case True
    show ?thesis
    proof (cases c)
      case True
      with \<open>x = e\<close> vd(1) v assms(1) show ?thesis by (auto simp: dp settled_ok_def)
    next
      case False
      from vd(2) [OF this] show ?thesis
        using \<open>x = e\<close> v assms(1,3) False by (cases rs) (auto simp: dp settled_ok_def split: if_splits)
    qed
  qed
qed

text \<open>How many more dispatches an event needs.\<close>

definition distance :: "string \<Rightarrow> nat \<Rightarrow> nat \<Rightarrow> relay_state \<Rightarrow> nat" where
  "distance name mx e s = (case view name e s of (p, c, n, rs, d) \<Rightarrow>
     if p then 0 else if c then 1 else max 2 (mx - n + 1))"

lemma distance_dispatch:
  assumes "row_of ob_id e (rs_outbox s) \<noteq> None" and "\<not> published e s"
  shows "distance name mx e (snd (dispatch name mx handle now e s)) < distance name mx e s"
    and "x \<noteq> e \<Longrightarrow> distance name mx x (snd (dispatch name mx handle now e s)) = distance name mx x s"
proof -
  obtain k s' where dp: "dispatch name mx handle now e s = (k, s')" by fastforce
  obtain p c n rs d where v: "view name e s = (p, c, n, rs, d)" by (metis prod_cases5)
  have np: "\<not> p" using v assms(2) by (simp add: view_def)
  note vd = view_dispatch [OF assms(1) v dp]
  show "distance name mx e (snd (dispatch name mx handle now e s)) < distance name mx e s"
    using vd(1,2) v np by (cases c) (auto simp: dp distance_def)
  show "x \<noteq> e \<Longrightarrow> distance name mx x (snd (dispatch name mx handle now e s)) = distance name mx x s"
    using vd(3) by (simp add: dp distance_def)
qed

lemma row_of_keys: "map ob_id t' = map ob_id t \<Longrightarrow> row_of ob_id e t' \<noteq> None \<longleftrightarrow> row_of ob_id e t \<noteq> None"
  by (metis list.set_map row_of_None_iff)

lemma dispatch_ids:
  assumes "row_of ob_id e (rs_outbox s) \<noteq> None"
  shows "map ob_id (rs_outbox (snd (dispatch name mx handle now e s))) = map ob_id (rs_outbox s)"
  using view_dispatch(4) [OF assms] by (metis prod.collapse)

lemma dispatch_all_keeps:
  assumes "\<forall>e \<in> set es. row_of ob_id e (rs_outbox s) \<noteq> None" and "settled_ok name mx x s" and "0 < mx"
  shows "settled_ok name mx x (snd (dispatch_all name mx handle now es s))
    \<and> map ob_id (rs_outbox (snd (dispatch_all name mx handle now es s))) = map ob_id (rs_outbox s)"
  using assms(1,2)
proof (induction es arbitrary: s)
  case (Cons e es)
  let ?s = "snd (dispatch name mx handle now e s)"
  have e: "row_of ob_id e (rs_outbox s) \<noteq> None" using Cons.prems by simp
  note ids = dispatch_ids [OF e, of name mx handle now]
  have "\<forall>e \<in> set es. row_of ob_id e (rs_outbox ?s) \<noteq> None"
    using Cons.prems(1) row_of_keys [OF ids] by simp
  from Cons.IH [OF this settled_dispatch [OF Cons.prems(2) e assms(3)]] ids show ?case
    by (simp add: case_prod_beta Let_def)
qed simp

lemma dispatch_all_distance:
  assumes "\<forall>e \<in> set es. row_of ob_id e (rs_outbox s) \<noteq> None \<and> \<not> published e s" and "distinct es"
  shows "(x \<in> set es \<longrightarrow> distance name mx x (snd (dispatch_all name mx handle now es s)) < distance name mx x s)
    \<and> (x \<notin> set es \<longrightarrow> distance name mx x (snd (dispatch_all name mx handle now es s)) = distance name mx x s)"
  using assms
proof (induction es arbitrary: s)
  case (Cons e es)
  let ?s = "snd (dispatch name mx handle now e s)"
  have e: "row_of ob_id e (rs_outbox s) \<noteq> None" "\<not> published e s" using Cons.prems by simp_all
  note dd = distance_dispatch [OF e, where name = name and mx = mx and handle = handle and now = now]
  have "published y ?s = published y s" if "y \<noteq> e" for y
  proof -
    obtain k s' where dp: "dispatch name mx handle now e s = (k, s')" by fastforce
    obtain p c n rs d where v: "view name e s = (p, c, n, rs, d)" by (metis prod_cases5)
    from view_dispatch(3) [OF e(1) v dp that] show ?thesis by (simp add: dp view_def)
  qed
  then have "\<forall>y \<in> set es. row_of ob_id y (rs_outbox ?s) \<noteq> None \<and> \<not> published y ?s"
    using Cons.prems row_of_keys [OF dispatch_ids [OF e(1)]] by (metis distinct.simps(2) list.set_intros(2))
  from Cons.IH [OF this] Cons.prems(2) dd show ?case
    by (cases "x = e") (auto simp: case_prod_beta Let_def)
qed simp

lemma batch_of_rows:
  assumes "e \<in> set (batch_of n s)" and "distinct (map ob_id (rs_outbox s))"
  shows "row_of ob_id e (rs_outbox s) \<noteq> None \<and> \<not> published e s"
proof -
  from assms(1) obtain r where "r \<in> set (take n (sort_key ob_created (filter (\<lambda>r. ob_published r = None) (rs_outbox s))))"
    "ob_id r = e" unfolding batch_of_def by auto
  from in_set_takeD [OF this(1)] this(2)
  have r: "r \<in> set (rs_outbox s)" "ob_published r = None" "ob_id r = e" by simp_all
  then obtain r' where r': "row_of ob_id e (rs_outbox s) = Some r'"
    by (cases "row_of ob_id e (rs_outbox s)") (auto simp: table_simps)
  with row_of_Some [OF r'] r assms(2) have "r' = r" by (metis distinct_map inj_onD)
  with r r' show ?thesis by (simp add: published_def)
qed

lemma batch_of_distinct: "distinct (map ob_id (rs_outbox s)) \<Longrightarrow> distinct (batch_of n s)"
proof -
  assume d: "distinct (map ob_id (rs_outbox s))"
  then have "distinct (map ob_id (filter (\<lambda>r. ob_published r = None) (rs_outbox s)))" by (rule distinct_map_filter)
  then have "distinct (map ob_id (sort_key ob_created (filter (\<lambda>r. ob_published r = None) (rs_outbox s))))"
    by (simp add: distinct_map)
  then show ?thesis unfolding batch_of_def take_map [symmetric] by (rule distinct_take)
qed

lemma tick_keeps:
  assumes "distinct (map ob_id (rs_outbox s))" and "settled_ok name mx x s" and "0 < mx"
  shows "settled_ok name mx x (snd (tick name mx handle n now s))"
    and "map ob_id (rs_outbox (snd (tick name mx handle n now s))) = map ob_id (rs_outbox s)"
proof -
  have "\<forall>e \<in> set (batch_of n s). row_of ob_id e (rs_outbox s) \<noteq> None" using batch_of_rows [OF _ assms(1)] by blast
  from dispatch_all_keeps [OF this assms(2,3)] show "settled_ok name mx x (snd (tick name mx handle n now s))"
    and "map ob_id (rs_outbox (snd (tick name mx handle n now s))) = map ob_id (rs_outbox s)"
    by (simp_all add: tick_def)
qed

lemma ticks_keep:
  assumes "distinct (map ob_id (rs_outbox s))" and "settled_ok name mx x s" and "0 < mx"
  shows "settled_ok name mx x (ticks name mx handle n nows s)
    \<and> map ob_id (rs_outbox (ticks name mx handle n nows s)) = map ob_id (rs_outbox s)"
  using assms(1,2)
proof (induction nows arbitrary: s)
  case (Cons now nows)
  note t = tick_keeps [OF Cons.prems assms(3), of handle n now]
  from Cons.IH [of "snd (tick name mx handle n now s)"] t Cons.prems(1) show ?case by (simp add: ticks_def)
qed (simp add: ticks_def)

text \<open>The events still to be published, in the order in which the batches take them.\<close>

definition pending :: "relay_state \<Rightarrow> nat list" where
  "pending s = map ob_id (sort_key ob_created (filter (\<lambda>r. ob_published r = None) (rs_outbox s)))"

lemma batch_of_pending: "batch_of n s = take n (pending s)"
  by (simp add: batch_of_def pending_def take_map)

definition queue_keys :: "relay_state \<Rightarrow> (nat \<times> ts) list" where
  "queue_keys s = map (\<lambda>r. (ob_id r, ob_created r)) (rs_outbox s)"

lemma queue_keys_upd:
  "(\<And>r. ob_id (f r) = ob_id r) \<Longrightarrow> (\<And>r. ob_created (f r) = ob_created r) \<Longrightarrow>
     queue_keys (s\<lparr>rs_outbox := upd_where p f (rs_outbox s)\<rparr>) = queue_keys s"
  by (simp add: queue_keys_def upd_where_def)

lemma dispatch_keys: "queue_keys (snd (dispatch name mx handle now e s)) = queue_keys s"
proof -
  obtain raised s1 where dl: "deliver name mx handle e (count_attempt e s) = (raised, s1)" by fastforce
  have "rs_outbox s1 = rs_outbox (count_attempt e s)"
    using view_deliver(4) [OF _ dl] by (metis prod_cases5)
  then have "queue_keys s1 = queue_keys s"
    by (simp add: queue_keys_def count_attempt_def upd_where_def)
  then show ?thesis
    by (cases raised) (simp_all add: dispatch_def dl mark_published_def queue_keys_upd)
qed

lemma tick_keys: "queue_keys (snd (tick name mx handle n now s)) = queue_keys s"
proof -
  have "queue_keys (snd (dispatch_all name mx handle now es s)) = queue_keys s" for es
    by (induction es arbitrary: s) (simp_all add: case_prod_beta Let_def dispatch_keys)
  then show ?thesis by (simp add: tick_def)
qed

lemma sort_key_of_map: "map g (sort_key (\<lambda>x. f (g x)) xs) = sort_key f (map g xs)"
proof (induction xs)
  case (Cons x xs)
  have "map g (insort_key (\<lambda>x. f (g x)) x ys) = insort_key f (g x) (map g ys)" for ys
    by (induction ys) auto
  with Cons show ?case by simp
qed simp

lemma outbox_row: "distinct (map ob_id t) \<Longrightarrow> r \<in> set t \<Longrightarrow> row_of ob_id (ob_id r) t = Some r"
  by (induction t) (auto simp: image_iff)

lemma pending_keys:
  assumes "distinct (map ob_id (rs_outbox s))"
  shows "pending s = filter (\<lambda>e. \<not> published e s) (map fst (sort_key snd (queue_keys s)))"
proof -
  have row: "published (ob_id r) s \<longleftrightarrow> ob_published r \<noteq> None" if "r \<in> set (rs_outbox s)" for r
    using outbox_row [OF assms that] by (simp add: published_def)
  have "map fst (sort_key snd (queue_keys s)) = map ob_id (sort_key ob_created (rs_outbox s))"
    using arg_cong [OF sort_key_of_map [of "\<lambda>r. (ob_id r, ob_created r)" snd "rs_outbox s"], of "map fst"]
    by (simp add: queue_keys_def comp_def)
  moreover have "filter (\<lambda>r. \<not> published (ob_id r) s) (sort_key ob_created (rs_outbox s))
      = filter (\<lambda>r. ob_published r = None) (sort_key ob_created (rs_outbox s))"
    by (rule filter_cong) (simp_all add: row)
  ultimately show ?thesis by (simp add: pending_def filter_sort filter_map comp_def)
qed

lemma tick_moves:
  assumes "distinct (map ob_id (rs_outbox s))"
  shows "x \<in> set (batch_of n s) \<Longrightarrow> distance name mx x (snd (tick name mx handle n now s)) < distance name mx x s"
    and "x \<notin> set (batch_of n s) \<Longrightarrow> distance name mx x (snd (tick name mx handle n now s)) = distance name mx x s"
proof -
  have "\<forall>e \<in> set (batch_of n s). row_of ob_id e (rs_outbox s) \<noteq> None \<and> \<not> published e s"
    using batch_of_rows [OF _ assms] by blast
  from dispatch_all_distance [OF this batch_of_distinct [OF assms], of x name mx handle now]
  show "x \<in> set (batch_of n s) \<Longrightarrow> distance name mx x (snd (tick name mx handle n now s)) < distance name mx x s"
    and "x \<notin> set (batch_of n s) \<Longrightarrow> distance name mx x (snd (tick name mx handle n now s)) = distance name mx x s"
    by (simp_all add: tick_def)
qed

lemma published_distance: "published x s \<longleftrightarrow> distance name mx x s = 0"
  by (simp add: distance_def view_def)

lemma distance_le: "0 < mx \<Longrightarrow> distance name mx x s \<le> Suc mx"
  by (simp add: distance_def view_def)

lemma published_tick:
  assumes "distinct (map ob_id (rs_outbox s))" and "published e s"
  shows "published e (snd (tick name mx handle n now s))"
  using tick_moves [OF assms(1), of e n name mx handle now] assms(2) published_distance [of e _ name mx] by (metis not_less_zero)

lemma take_filter_front: "x \<in> set (take n xs) \<Longrightarrow> P x \<Longrightarrow> x \<in> set (take n (filter P xs))"
proof (induction xs arbitrary: n)
  case (Cons y ys)
  show ?case
  proof (cases n)
    case (Suc m)
    with Cons have "x = y \<or> x \<in> set (take m (filter P ys))" by auto
    then show ?thesis
      using Cons.prems(2) set_take_subset_set_take [of m n "filter P ys"] Suc by auto
  qed (use Cons.prems in simp)
qed simp

lemma queue_ids: "map ob_id (rs_outbox s) = map fst (queue_keys s)"
  by (simp add: queue_keys_def)

lemma ticks_keys: "queue_keys (ticks name mx handle n nows s) = queue_keys s"
  by (induction nows arbitrary: s) (simp_all add: ticks_def tick_keys)

lemma published_ticks:
  assumes "distinct (map fst (queue_keys s))" and "published e s"
  shows "published e (ticks name mx handle n nows s)"
  using assms
proof (induction nows arbitrary: s)
  case (Cons now nows)
  then show ?case using published_tick [of s e name mx handle n now] by (simp add: ticks_def tick_keys queue_ids)
qed (simp add: ticks_def)

text \<open>Ticks keep the order of what they leave pending, so the front of the queue stays in front until it is published.\<close>

lemma ticks_pending:
  assumes "distinct (map fst (queue_keys s))"
  shows "pending (ticks name mx handle n nows s) = filter (\<lambda>e. \<not> published e (ticks name mx handle n nows s)) (pending s)"
proof -
  let ?s = "ticks name mx handle n nows s" and ?all = "map fst (sort_key snd (queue_keys s))"
  have "filter (\<lambda>e. \<not> published e ?s) ?all = filter (\<lambda>e. \<not> published e ?s) (filter (\<lambda>e. \<not> published e s) ?all)"
    using published_ticks [OF assms] by (auto intro: filter_cong)
  then show ?thesis using assms pending_keys [of s] pending_keys [of ?s] by (simp only: queue_ids ticks_keys)
qed

lemma tick_as_ticks: "snd (tick name mx handle n now s) = ticks name mx handle n [now] s"
  by (simp add: ticks_def)

lemma front_distance:
  assumes "distinct (map fst (queue_keys s))" and "distance name mx x s = 0 \<or> x \<in> set (take n (pending s))"
  shows "distance name mx x (ticks name mx handle n nows s) \<le> distance name mx x s - length nows"
  using assms
proof (induction nows arbitrary: s)
  case (Cons now nows)
  let ?s = "snd (tick name mx handle n now s)"
  have d: "distinct (map ob_id (rs_outbox s))" "distinct (map fst (queue_keys ?s))"
    using Cons.prems(1) by (simp_all add: queue_ids tick_keys)
  note moves = tick_moves [OF d(1), of x n name mx handle now]
  have "distance name mx x ?s = 0 \<or> x \<in> set (take n (pending ?s))"
  proof (cases "published x ?s")
    case False
    then have "\<not> published x s" using published_tick [OF d(1)] by blast
    with Cons.prems(2) have "x \<in> set (take n (pending s))" by (auto simp: published_distance [of x s name mx])
    then show ?thesis
      using False ticks_pending [OF Cons.prems(1), of name mx handle n "[now]"] by (simp add: take_filter_front flip: tick_as_ticks)
  qed (simp add: published_distance [of x ?s name mx])
  from Cons.IH [OF d(2) this]
  have "distance name mx x (ticks name mx handle n nows ?s) \<le> distance name mx x ?s - length nows" .
  moreover have "distance name mx x ?s \<le> distance name mx x s - 1"
    using moves Cons.prems(2) by (cases "x \<in> set (batch_of n s)") (auto simp: batch_of_pending)
  ultimately show ?case by (simp add: ticks_def)
qed (simp add: ticks_def)

lemma ticks_append: "ticks name mx handle n (xs @ ys) s = ticks name mx handle n ys (ticks name mx handle n xs s)"
  by (simp add: ticks_def)

text \<open>One tick more than the attempt limit settles one batch.\<close>

lemma ticks_clear:
  assumes "distinct (map fst (queue_keys s))" and "0 < mx" and "length (pending s) \<le> n * k" and "Suc mx * k \<le> length nows"
  shows "pending (ticks name mx handle n nows s) = []"
  using assms(1,3,4)
proof (induction k arbitrary: s nows)
  case 0
  then show ?case using ticks_pending [OF 0(1), of name mx handle n nows] by simp
next
  case (Suc k)
  let ?round = "take (Suc mx) nows" and ?rest = "drop (Suc mx) nows"
  let ?s = "ticks name mx handle n ?round s"
  have len: "length ?round = Suc mx" "Suc mx * k \<le> length ?rest" using Suc.prems(3) by simp_all
  have "published x ?s" if "x \<in> set (take n (pending s))" for x
  proof -
    have "distance name mx x ?s \<le> distance name mx x s - Suc mx"
      using front_distance [OF Suc.prems(1) disjI2 [OF that], of name mx handle ?round] len(1) by simp
    then show ?thesis using distance_le [OF assms(2), of name x s] published_distance [of x ?s name mx] by simp
  qed
  then have "filter (\<lambda>e. \<not> published e ?s) (take n (pending s)) = []" by (auto simp: filter_empty_conv)
  then have "pending ?s = filter (\<lambda>e. \<not> published e ?s) (drop n (pending s))"
    using ticks_pending [OF Suc.prems(1), of name mx handle n ?round] filter_append [of _ "take n (pending s)" "drop n (pending s)"]
    by (metis append_Nil append_take_drop_id)
  then have "length (pending ?s) \<le> n * k"
    using Suc.prems(2) length_filter_le [of "\<lambda>e. \<not> published e ?s" "drop n (pending s)"] by simp
  with Suc.IH [of ?s ?rest] Suc.prems(1) len(2) have "pending (ticks name mx handle n ?rest ?s) = []"
    by (simp add: ticks_keys)
  then show ?case by (metis append_take_drop_id ticks_append)
qed

text \<open>An outbox nothing has been dispatched from yet.\<close>

definition untouched :: "relay_state \<Rightarrow> bool" where
  "untouched s \<longleftrightarrow> distinct (map ob_id (rs_outbox s)) \<and> rs_inbox s = [] \<and> rs_dead s = [] \<and> rs_runs s = []
     \<and> list_all (\<lambda>r. ob_published r = None \<and> ob_attempts r = 0) (rs_outbox s)"

lemma untouched_view:
  assumes "untouched s" and "e \<in> ob_id ` set (rs_outbox s)"
  shows "view name e s = (False, False, 0, [], False)"
proof -
  obtain r where r: "row_of ob_id e (rs_outbox s) = Some r"
    using assms(2) by (cases "row_of ob_id e (rs_outbox s)") (auto simp: table_simps)
  then have "ob_published r = None \<and> ob_attempts r = 0"
    using assms(1) by (auto simp: untouched_def list_all_iff dest: row_of_Some)
  with r assms(1) show ?thesis
    by (simp add: view_def published_def attempts_of_def consumed_iff runs_of_def dead_def untouched_def)
qed

text \<open>C22: Over any number of relay ticks with any batch size the handler completes each event at most once and is tried
  on it at most as often as the limit allows, and an event is never both handled and dead-lettered.\<close>

theorem relay_handles_at_most_once:
  assumes "untouched s" and "e \<in> ob_id ` set (rs_outbox s)" and "0 < mx"
  shows "length (filter id (runs_of e (ticks name mx handle n nows s))) \<le> 1
    \<and> length (runs_of e (ticks name mx handle n nows s)) \<le> mx
    \<and> \<not> (dead name e (ticks name mx handle n nows s) \<and> filter id (runs_of e (ticks name mx handle n nows s)) \<noteq> [])"
proof -
  have "settled_ok name mx e s" using untouched_view [OF assms(1,2)] by (simp add: settled_ok_def)
  moreover have "distinct (map ob_id (rs_outbox s))" using assms(1) by (simp add: untouched_def)
  ultimately have "settled_ok name mx e (ticks name mx handle n nows s)" using ticks_keep assms(3) by blast
  then show ?thesis by (auto simp: settled_ok_def view_def)
qed

definition two_events :: relay_state where
  "two_events = \<lparr>rs_outbox = [\<lparr>ob_id = 1, ob_type = ''LEAD_APPROVED'', ob_created = 5, ob_attempts = 0, ob_published = None\<rparr>,
       \<lparr>ob_id = 2, ob_type = ''LEAD_REJECTED'', ob_created = 3, ob_attempts = 0, ob_published = None\<rparr>],
     rs_inbox = [], rs_dead = [], rs_runs = []\<rparr>"

lemma two_events_untouched: "untouched two_events"
  by (simp add: untouched_def two_events_def)

lemma relay_handles_at_most_once_witness:
  "length (filter id (runs_of 1 (ticks ''projector'' 3 (\<lambda>n e. e = 1 \<and> n > 1) 10 [10, 20, 30, 40] two_events))) \<le> 1"
proof -
  have "1 \<in> ob_id ` set (rs_outbox two_events)" by (simp add: two_events_def)
  from relay_handles_at_most_once [OF two_events_untouched this, of 3] show ?thesis by simp
qed

text \<open>C23: Nothing is lost or stuck, however long the backlog: if \<open>k\<close> batches of \<open>n\<close> hold the outbox, then after \<open>k\<close> times one
  tick more than the attempt limit every event has been published, and it was either handled exactly once or
  dead-lettered.  With a batch that holds the whole outbox one tick more than the limit is enough; poison events at the
  head of a longer backlog delay the others by no more than that for each batch.\<close>

theorem relay_settles_every_event:
  assumes "untouched s" and "e \<in> ob_id ` set (rs_outbox s)" and "0 < mx"
    and "length (rs_outbox s) \<le> n * k" and "Suc mx * k \<le> length nows"
  shows "published e (ticks name mx handle n nows s)
    \<and> (filter id (runs_of e (ticks name mx handle n nows s)) = [True] \<or> dead name e (ticks name mx handle n nows s))"
proof -
  let ?s = "ticks name mx handle n nows s"
  have ok: "settled_ok name mx e s" using untouched_view [OF assms(1,2)] by (simp add: settled_ok_def)
  have d: "distinct (map ob_id (rs_outbox s))" using assms(1) by (simp add: untouched_def)
  have "length (pending s) \<le> n * k"
    using le_trans [OF length_filter_le assms(4)] by (simp add: pending_def)
  then have none: "pending ?s = []" using ticks_clear [OF _ assms(3) _ assms(5)] d by (simp add: queue_ids)
  have keys: "map ob_id (rs_outbox ?s) = map ob_id (rs_outbox s)" by (simp add: queue_ids ticks_keys)
  then have "e \<in> ob_id ` set (rs_outbox ?s)" using assms(2) by (metis set_map)
  then obtain r where r: "r \<in> set (rs_outbox ?s)" "ob_id r = e" by auto
  have "ob_published r \<noteq> None" using arg_cong [OF none, of set] r(1) by (auto simp: pending_def)
  then have pub: "published e ?s" using outbox_row [of "rs_outbox ?s" r] d r keys by (simp add: published_def)
  have "settled_ok name mx e ?s" using ticks_keep [OF d ok assms(3)] by blast
  moreover obtain p c m rs dd where vw: "view name e ?s = (p, c, m, rs, dd)" by (metis prod_cases5)
  ultimately have "length (filter id rs) \<le> 1" "filter id rs \<noteq> [] \<or> dd"
    using pub by (auto simp: settled_ok_def view_def)
  moreover have "filter id rs = [True]" if "filter id rs \<noteq> []" "length (filter id rs) \<le> 1"
    using that by (cases "filter id rs") (auto simp: filter_eq_Cons_iff)
  ultimately show ?thesis using vw pub by (auto simp: view_def)
qed

lemma relay_settles_every_event_witness:
  "published 2 (ticks ''projector'' 3 (\<lambda>n e. e = 1) 1 [10, 20, 30, 40, 50, 60, 70, 80] two_events)"
proof -
  have "2 \<in> ob_id ` set (rs_outbox two_events)" "length (rs_outbox two_events) \<le> 1 * 2" by (simp_all add: two_events_def)
  from relay_settles_every_event [OF two_events_untouched this(1) _ this(2), of 3 "[10, 20, 30, 40, 50, 60, 70, 80]"] show ?thesis
    by simp
qed

end
