(* ===== verification/AcqRepos.thy ===== *)
theory AcqRepos
  imports Contacts Governance Gateway Triples
begin

section \<open>The acquisition database (infrastructure/repos, infrastructure/pii, migrations)\<close>

text \<open>
  The tables one tenant sees inside a unit of work, and every statement the repositories of the acquisition pipeline
  issue on them, in the order of the source files.  Row-level security fixes the tenant, so the tables hold the
  tenant's rows only; ids are numbers handed out by \<open>db_next\<close> where the code takes fresh UUIDs, and \<open>en_uuid\<close> is the
  text a number stands for.  \<open>now()\<close> is the time the transaction started.  The constraints of the migrations that a
  statement can violate are checked: a violation is the exception of the database driver.  Rows of a SELECT
  without ORDER BY come in table order.  A vault row holds its plaintext, which the code encrypts; its fingerprint
  identifies kind and plaintext.
\<close>

subsection \<open>Environment, errors\<close>

record env =
  en_u :: unicode
  en_sha :: "utext \<Rightarrow> utext"
  en_uuid :: "nat \<Rightarrow> utext"

datatype fault =
    DomainFault string | NotFound string | PolicyBlockedFault string | NotNullViolation string
  | UniqueViolation string | ValueFault | KeyFault | IndexFault | PermissionFault

subsection \<open>Rows\<close>

datatype truth_state = Proposed | Verified | Conflicted | Retired

datatype review_state = ReadyForReview | Approved | RejectedByHuman

datatype campaign_state = Draft | Running | CampaignReady | CampaignCompleted | CampaignCancelled | CampaignFailed

record campaign =
  cp_id :: nat
  cp_name :: utext
  cp_icp :: nat
  cp_state :: campaign_state
  cp_budget :: nat

record icp_profile =
  ip_id :: nat
  ip_name :: utext

text \<open>A definition is the ICP document; \<open>id_engine\<close> is its \<open>discovery.engine\<close>.\<close>

record icp_doc = icp +
  id_engine :: utext

record icp_version =
  iv_id :: nat
  iv_profile :: nat
  iv_version :: nat
  iv_doc :: icp_doc

record company =
  co_id :: nat
  co_name :: utext
  co_domain :: "utext option"
  co_country :: "utext option"
  co_industry :: "utext option"
  co_city :: "utext option"
  co_key :: "utext option"
  co_merged :: "nat option"

record domain_row =
  ix_company :: nat
  ix_kind :: string
  ix_value :: utext
  ix_source :: "nat option"

record source =
  so_id :: nat
  so_kind :: string
  so_url :: "utext option"
  so_provider :: "utext option"
  so_hash :: "utext option"

record observation =
  obs_company :: nat
  obs_field :: string
  obs_value :: "utext option"
  obs_source :: "nat option"
  obs_method :: string
  obs_conf :: rat

record claim =
  cl_id :: nat
  cl_company :: nat
  cl_field :: string
  cl_value :: "utext option"
  cl_source :: "nat option"
  cl_method :: string
  cl_conf :: rat
  cl_state :: truth_state

record fact_conflict =
  fc_company :: nat
  fc_field :: string
  fc_a :: nat
  fc_b :: nat

record contact =
  ct_id :: nat
  ct_company :: nat
  ct_name :: "utext option"
  ct_role :: "utext option"
  ct_source :: "nat option"

record identity_row =
  id_contact :: nat
  id_kind :: string
  id_public :: "utext option"
  id_ref :: "nat option"

record vault_row =
  va_id :: nat
  va_kind :: string
  va_value :: utext

record access =
  ac_ref :: nat
  ac_purpose :: string
  ac_actor :: string
  ac_request :: "string option"

record raw_row =
  rw_job :: string
  rw_query :: utext
  rw_url :: utext
  rw_title :: utext
  rw_snippet :: "utext option"

record visited_row =
  vs_job :: string
  vs_url :: utext
  vs_hash :: utext

record enrichment =
  er_company :: nat
  er_ok :: bool
  er_failure :: "failure_class option"
  er_cost :: nat

text \<open>A cached status is the provider's word as it came.\<close>

record cached_row =
  vc_key :: utext
  vc_status :: string
  vc_evidence :: smtp_evidence
  vc_expires :: int

record verification =
  ve_contact :: nat
  ve_kind :: string
  ve_ref :: "nat option"
  ve_status :: verification_status
  ve_provider :: string
  ve_at :: int

record scoring =
  sc_company :: nat
  sc_score :: rat
  sc_explanations :: "string list"
  sc_at :: int

record qualification =
  ql_company :: nat
  ql_campaign :: "nat option"
  ql_decision :: qualification_decision
  ql_reason :: qualification_reason
  ql_icp :: "nat option"
  ql_policy :: string

record intent_row =
  nt_company :: nat
  nt_kind :: string
  nt_signal :: utext
  nt_source :: nat

record policy_row =
  po_version :: string
  po_rules :: rules
  po_at :: int

record legal_decision =
  ld_subject_type :: string
  ld_subject :: nat
  ld_operation :: string
  ld_decision :: governance_decision
  ld_version :: string
  ld_basis :: string
  ld_reason :: string
  ld_by :: string

record suppressed_row =
  su_kind :: string
  su_value :: utext

record lead =
  le_id :: nat
  le_campaign :: "nat option"
  le_company :: nat
  le_contact :: "nat option"
  le_icp :: "nat option"
  le_name :: utext
  le_domain :: "utext option"
  le_city :: "utext option"
  le_email :: "utext option"
  le_phone :: "utext option"
  le_status :: "verification_status option"
  le_score :: rat
  le_decision :: qualification_decision
  le_state :: review_state
  le_by :: "string option"
  le_built :: int

record event =
  ev_type :: string
  ev_aggregate :: string
  ev_subject :: nat
  ev_note :: string

record adb =
  db_next :: nat
  db_now :: int
  db_profiles :: "icp_profile list"
  db_icps :: "icp_version list"
  db_campaigns :: "campaign list"
  db_companies :: "company list"
  db_identifiers :: "domain_row list"
  db_sources :: "source list"
  db_observations :: "observation list"
  db_claims :: "claim list"
  db_conflicts :: "fact_conflict list"
  db_contacts :: "contact list"
  db_identities :: "identity_row list"
  db_vault :: "vault_row list"
  db_access :: "access list"
  db_raw :: "raw_row list"
  db_visited :: "visited_row list"
  db_enrichments :: "enrichment list"
  db_cache :: "cached_row list"
  db_verifications :: "verification list"
  db_scorings :: "scoring list"
  db_qualifications :: "qualification list"
  db_intents :: "intent_row list"
  db_policies :: "policy_row list"
  db_decisions :: "legal_decision list"
  db_suppression :: "suppressed_row list"
  db_leads :: "lead list"
  db_outbox :: "event list"
  db_gateway :: gateway_state

type_synonym 'a sql = "(adb, fault, 'a) act"

definition fresh_id :: "nat sql" where
  "fresh_id = (\<lambda>d. (Inr (db_next d), d\<lparr>db_next := Suc (db_next d)\<rparr>))"

subsection \<open>AcquisitionRepo\<close>

definition create_campaign :: "utext \<Rightarrow> nat \<Rightarrow> nat \<Rightarrow> nat sql" where
  "create_campaign name icp_version budget = seq fresh_id (\<lambda>i. seq (modify (\<lambda>d. d\<lparr>db_campaigns := db_campaigns d @
     [\<lparr>cp_id = i, cp_name = name, cp_icp = icp_version, cp_state = Draft, cp_budget = budget\<rparr>]\<rparr>)) (\<lambda>_. ret i))"

definition get_campaign :: "nat \<Rightarrow> adb \<Rightarrow> campaign option" where
  "get_campaign i d = row_of cp_id i (db_campaigns d)"

definition set_campaign_state :: "nat \<Rightarrow> campaign_state \<Rightarrow> adb \<Rightarrow> adb" where
  "set_campaign_state i st d = d\<lparr>db_campaigns := upd_where (\<lambda>c. cp_id c = i) (\<lambda>c. c\<lparr>cp_state := st\<rparr>) (db_campaigns d)\<rparr>"

text \<open>\<open>icp_profiles\<close> has no unique key but its id, so ON CONFLICT DO NOTHING always inserts and the second SELECT
  of the code is never reached.\<close>

definition insert_profile :: "utext \<Rightarrow> nat sql" where
  "insert_profile name = seq fresh_id (\<lambda>i. seq (modify (\<lambda>d. d\<lparr>db_profiles := db_profiles d @
     [\<lparr>ip_id = i, ip_name = name\<rparr>]\<rparr>)) (\<lambda>_. ret i))"

definition next_version :: "nat \<Rightarrow> adb \<Rightarrow> nat" where
  "next_version profile d =
     Suc (fold max (map iv_version (filter (\<lambda>v. iv_profile v = profile) (db_icps d))) 0)"

definition create_icp_version :: "utext \<Rightarrow> icp_doc \<Rightarrow> nat sql" where
  "create_icp_version name doc =
     seq (insert_profile name) (\<lambda>profile. seq (gets (next_version profile)) (\<lambda>n. seq fresh_id (\<lambda>i.
       seq (modify (\<lambda>d. d\<lparr>db_icps := db_icps d @ [\<lparr>iv_id = i, iv_profile = profile, iv_version = n, iv_doc = doc\<rparr>]\<rparr>))
         (\<lambda>_. ret i))))"

definition get_icp_definition :: "nat \<Rightarrow> adb \<Rightarrow> icp_doc option" where
  "get_icp_definition i d = map_option iv_doc (row_of iv_id i (db_icps d))"

subsection \<open>CompanyRepo\<close>

definition find_by_domain :: "utext \<Rightarrow> adb \<Rightarrow> company option" where
  "find_by_domain domain d = find (\<lambda>c. co_domain c = Some domain \<and> co_merged c = None) (db_companies d)"

definition find_by_normalized_name :: "env \<Rightarrow> utext \<Rightarrow> adb \<Rightarrow> company option" where
  "find_by_normalized_name e name d =
     find (\<lambda>c. lower (en_u e) (co_name c) = lower (en_u e) name \<and> co_merged c = None) (db_companies d)"

definition find_by_name_key :: "env \<Rightarrow> utext \<Rightarrow> adb \<Rightarrow> company option" where
  "find_by_name_key e key d =
     find (\<lambda>c. co_merged c = None
       \<and> (co_key c = Some key \<or> (co_key c = None \<and> lower (en_u e) (co_name c) = key))) (db_companies d)"

definition same_domain :: "env \<Rightarrow> utext \<Rightarrow> company \<Rightarrow> bool" where
  "same_domain e domain c \<longleftrightarrow>
     co_merged c = None \<and> (case co_domain c of None \<Rightarrow> False | Some x \<Rightarrow> lower (en_u e) x = lower (en_u e) domain)"

definition create_company ::
  "env \<Rightarrow> nat \<Rightarrow> utext \<Rightarrow> utext option \<Rightarrow> utext option \<Rightarrow> utext option \<Rightarrow> utext option \<Rightarrow> utext option \<Rightarrow> nat sql" where
  "create_company e i name domain country industry city key = (\<lambda>d.
     if domain \<noteq> None \<and> list_ex (same_domain e (the domain)) (db_companies d)
     then (Inl (UniqueViolation ''uq_company_domain''), d)
     else (Inr i, d\<lparr>db_companies := db_companies d @
       [\<lparr>co_id = i, co_name = name, co_domain = domain, co_country = country, co_industry = industry, co_city = city,
         co_key = key, co_merged = None\<rparr>]\<rparr>))"

definition add_identifier :: "nat \<Rightarrow> string \<Rightarrow> utext \<Rightarrow> adb \<Rightarrow> adb" where
  "add_identifier company kind v d =
     (if list_ex (\<lambda>x. ix_kind x = kind \<and> ix_value x = v) (db_identifiers d) then d
      else d\<lparr>db_identifiers := db_identifiers d @
        [\<lparr>ix_company = company, ix_kind = kind, ix_value = v, ix_source = None\<rparr>]\<rparr>)"

subsection \<open>ClaimsRepo\<close>

definition get_or_create_source ::
  "string \<Rightarrow> utext option \<Rightarrow> utext option \<Rightarrow> utext option \<Rightarrow> nat sql" where
  "get_or_create_source kind url provider hash = (\<lambda>d.
     case (if truthy hash then find (\<lambda>x. so_hash x = hash) (db_sources d) else None) of
       Some x \<Rightarrow> (Inr (so_id x), d)
     | None \<Rightarrow> seq fresh_id (\<lambda>i. seq (modify (\<lambda>d. d\<lparr>db_sources := db_sources d @
         [\<lparr>so_id = i, so_kind = kind, so_url = url, so_provider = provider, so_hash = hash\<rparr>]\<rparr>)) (\<lambda>_. ret i)) d)"

definition add_observation ::
  "nat \<Rightarrow> string \<Rightarrow> utext option \<Rightarrow> nat option \<Rightarrow> string \<Rightarrow> rat \<Rightarrow> adb \<Rightarrow> adb" where
  "add_observation company field v src meth conf d =
     d\<lparr>db_observations := db_observations d @ [\<lparr>obs_company = company, obs_field = field, obs_value = v,
       obs_source = src, obs_method = meth, obs_conf = conf\<rparr>]\<rparr>"

text \<open>The claims the partial unique index \<open>uq_claim_current\<close> ranges over.\<close>

definition current_claim :: "nat \<Rightarrow> string \<Rightarrow> claim \<Rightarrow> bool" where
  "current_claim company field c \<longleftrightarrow>
     cl_company c = company \<and> cl_field c = field \<and> cl_state c \<in> {Proposed, Verified, Conflicted}"

definition insert_claim ::
  "nat \<Rightarrow> string \<Rightarrow> utext option \<Rightarrow> nat option \<Rightarrow> string \<Rightarrow> rat \<Rightarrow> unit sql" where
  "insert_claim company field v src meth conf = (\<lambda>d.
     if list_ex (current_claim company field) (db_claims d) then (Inl (UniqueViolation ''uq_claim_current''), d)
     else (Inr (), d\<lparr>db_claims := db_claims d @ [\<lparr>cl_id = db_next d, cl_company = company, cl_field = field,
       cl_value = v, cl_source = src, cl_method = meth, cl_conf = conf, cl_state = Proposed\<rparr>],
       db_next := Suc (db_next d)\<rparr>))"

text \<open>The second side of a conflict is read back by a sub-select, in which NULL equals nothing.\<close>

definition insert_conflict :: "nat \<Rightarrow> string \<Rightarrow> nat \<Rightarrow> utext option \<Rightarrow> unit sql" where
  "insert_conflict company field a v = (\<lambda>d.
     case find (\<lambda>c. cl_company c = company \<and> cl_field c = field \<and> v \<noteq> None \<and> cl_value c = v) (db_claims d) of
       None \<Rightarrow> (Inl (NotNullViolation ''claim_b_id''), d)
     | Some b \<Rightarrow> (Inr (), d\<lparr>db_conflicts := db_conflicts d @
         [\<lparr>fc_company = company, fc_field = field, fc_a = a, fc_b = cl_id b\<rparr>]\<rparr>))"

definition update_claim :: "nat \<Rightarrow> (claim \<Rightarrow> claim) \<Rightarrow> adb \<Rightarrow> adb" where
  "update_claim i f d = d\<lparr>db_claims := upd_where (\<lambda>c. cl_id c = i) f (db_claims d)\<rparr>"

definition upsert_claim ::
  "nat \<Rightarrow> string \<Rightarrow> utext option \<Rightarrow> nat option \<Rightarrow> string \<Rightarrow> rat \<Rightarrow> unit sql" where
  "upsert_claim company field v src meth conf = (\<lambda>d.
     case find (current_claim company field) (db_claims d) of
       None \<Rightarrow> insert_claim company field v src meth conf d
     | Some old \<Rightarrow>
         if cl_value old \<noteq> v
         then seq (insert_conflict company field (cl_id old) v) (\<lambda>_.
              seq (modify (update_claim (cl_id old) (\<lambda>c. c\<lparr>cl_state := Conflicted\<rparr>))) (\<lambda>_.
                insert_claim company field v src meth conf)) d
         else if conf > cl_conf old
         then (Inr (), update_claim (cl_id old)
                (\<lambda>c. c\<lparr>cl_conf := conf, cl_source := (if src = None then cl_source c else src)\<rparr>) d)
         else (Inr (), d))"

text \<open>The last row of a field wins in the dictionary of claims; COUNT(DISTINCT ..) ignores NULL.\<close>

definition claim_value :: "nat \<Rightarrow> string \<Rightarrow> adb \<Rightarrow> utext option" where
  "claim_value company field d =
     (case rev (filter (\<lambda>c. cl_company c = company \<and> cl_field c = field \<and> cl_state c \<in> {Proposed, Verified}) (db_claims d)) of
        [] \<Rightarrow> None | c # _ \<Rightarrow> cl_value c)"

record claims_view =
  cv_website :: "utext option"
  cv_city :: "utext option"
  cv_observations :: nat
  cv_sources :: nat

definition claims_summary :: "nat \<Rightarrow> adb \<Rightarrow> claims_view" where
  "claims_summary company d =
     (let obs = filter (\<lambda>x. obs_company x = company) (db_observations d) in
      \<lparr>cv_website = claim_value company ''website'' d, cv_city = claim_value company ''city'' d,
       cv_observations = length obs, cv_sources = card (set (List.map_filter obs_source obs))\<rparr>)"

subsection \<open>ContactsRepo\<close>

definition same_contact :: "env \<Rightarrow> nat \<Rightarrow> utext option \<Rightarrow> utext option \<Rightarrow> contact \<Rightarrow> bool" where
  "same_contact e company name role c \<longleftrightarrow>
     ct_company c = company
     \<and> (case (ct_name c, name) of (None, None) \<Rightarrow> True | (Some a, Some b) \<Rightarrow> lower (en_u e) a = lower (en_u e) b | _ \<Rightarrow> False)
     \<and> ct_role c = role"

definition find_or_create_contact :: "env \<Rightarrow> nat \<Rightarrow> utext option \<Rightarrow> utext option \<Rightarrow> nat option \<Rightarrow> nat sql" where
  "find_or_create_contact e company name role src = (\<lambda>d.
     case find (same_contact e company name role) (db_contacts d) of
       Some c \<Rightarrow> (Inr (ct_id c), d)
     | None \<Rightarrow> seq fresh_id (\<lambda>i. seq (modify (\<lambda>d. d\<lparr>db_contacts := db_contacts d @
         [\<lparr>ct_id = i, ct_company = company, ct_name = name, ct_role = role, ct_source = src\<rparr>]\<rparr>)) (\<lambda>_. ret i)) d)"

text \<open>ON CONFLICT compares the four columns of the unique key, in which NULL is never equal.\<close>

definition attach :: "nat \<Rightarrow> string \<Rightarrow> utext option \<Rightarrow> nat option \<Rightarrow> adb \<Rightarrow> adb" where
  "attach contact kind public ref d =
     (if public \<noteq> None \<and> ref \<noteq> None
         \<and> list_ex (\<lambda>x. id_contact x = contact \<and> id_kind x = kind \<and> id_public x = public \<and> id_ref x = ref) (db_identities d)
      then d
      else d\<lparr>db_identities := db_identities d @
        [\<lparr>id_contact = contact, id_kind = kind, id_public = public, id_ref = ref\<rparr>]\<rparr>)"

definition attach_email_ref :: "nat \<Rightarrow> nat \<Rightarrow> utext option \<Rightarrow> adb \<Rightarrow> adb" where
  "attach_email_ref contact ref m = attach contact ''email'' m (Some ref)"

definition attach_phone_ref :: "nat \<Rightarrow> nat \<Rightarrow> utext option \<Rightarrow> adb \<Rightarrow> adb" where
  "attach_phone_ref contact ref m = attach contact ''phone'' m (Some ref)"

definition attach_social :: "nat \<Rightarrow> utext \<Rightarrow> adb \<Rightarrow> adb" where
  "attach_social contact v = attach contact ''social'' (Some v) None"

text \<open>MAX over a group: the greatest by \<open>key\<close>, None for an empty group.\<close>

fun max_by :: "('a \<Rightarrow> 'o::linorder) \<Rightarrow> 'a list \<Rightarrow> 'a option" where
  "max_by key [] = None"
| "max_by key (x # xs) =
     (case max_by key xs of None \<Rightarrow> Some x | Some y \<Rightarrow> if key x \<ge> key y then Some x else Some y)"

record contact_view =
  lc_id :: nat
  lc_name :: "utext option"
  lc_role :: "utext option"
  lc_email_ref :: "nat option"
  lc_phone_ref :: "nat option"
  lc_email_masked :: "utext option"
  lc_phone_masked :: "utext option"

definition identities_of :: "nat \<Rightarrow> string \<Rightarrow> adb \<Rightarrow> identity_row list" where
  "identities_of contact kind d = filter (\<lambda>x. id_contact x = contact \<and> id_kind x = kind) (db_identities d)"

definition list_company_contacts :: "env \<Rightarrow> nat \<Rightarrow> adb \<Rightarrow> contact_view list" where
  "list_company_contacts e company d =
     map (\<lambda>c. let mails = identities_of (ct_id c) ''email'' d; phones = identities_of (ct_id c) ''phone'' d in
         \<lparr>lc_id = ct_id c, lc_name = ct_name c, lc_role = ct_role c,
          lc_email_ref = max_by (en_uuid e) (List.map_filter id_ref mails),
          lc_phone_ref = max_by (en_uuid e) (List.map_filter id_ref phones),
          lc_email_masked = max_by id (List.map_filter id_public mails),
          lc_phone_masked = max_by id (List.map_filter id_public phones)\<rparr>)
       (filter (\<lambda>c. ct_company c = company) (db_contacts d))"

subsection \<open>IntelligenceRepo\<close>

definition add_raw_result :: "string \<Rightarrow> utext \<Rightarrow> utext \<Rightarrow> utext \<Rightarrow> utext option \<Rightarrow> adb \<Rightarrow> bool \<times> adb" where
  "add_raw_result job query url title snippet d =
     (if list_ex (\<lambda>r. rw_job r = job \<and> rw_url r = url) (db_raw d) then (False, d)
      else (True, d\<lparr>db_raw := db_raw d @
        [\<lparr>rw_job = job, rw_query = query, rw_url = url, rw_title = title, rw_snippet = snippet\<rparr>]\<rparr>))"

definition mark_visited :: "env \<Rightarrow> string \<Rightarrow> utext \<Rightarrow> adb \<Rightarrow> bool \<times> adb" where
  "mark_visited e job url d =
     (if list_ex (\<lambda>r. vs_hash r = en_sha e url) (db_visited d) then (False, d)
      else (True, d\<lparr>db_visited := db_visited d @ [\<lparr>vs_job = job, vs_url = url, vs_hash = en_sha e url\<rparr>]\<rparr>))"

definition record_enrichment :: "nat \<Rightarrow> bool \<Rightarrow> failure_class option \<Rightarrow> nat \<Rightarrow> adb \<Rightarrow> adb" where
  "record_enrichment company ok failure cost d =
     d\<lparr>db_enrichments := db_enrichments d @ [\<lparr>er_company = company, er_ok = ok, er_failure = failure, er_cost = cost\<rparr>]\<rparr>"

definition cache_verification :: "utext \<Rightarrow> string \<Rightarrow> smtp_evidence \<Rightarrow> int \<Rightarrow> adb \<Rightarrow> adb" where
  "cache_verification key st ev expires d =
     (let row = \<lparr>vc_key = key, vc_status = st, vc_evidence = ev, vc_expires = expires\<rparr> in
      if list_ex (\<lambda>r. vc_key r = key) (db_cache d)
      then d\<lparr>db_cache := upd_where (\<lambda>r. vc_key r = key) (\<lambda>_. row) (db_cache d)\<rparr>
      else d\<lparr>db_cache := db_cache d @ [row]\<rparr>)"

definition get_cached_verification :: "utext \<Rightarrow> adb \<Rightarrow> cached_row option" where
  "get_cached_verification key d = find (\<lambda>r. vc_key r = key \<and> vc_expires r > db_now d) (db_cache d)"

definition record_verification ::
  "nat \<Rightarrow> string \<Rightarrow> nat option \<Rightarrow> verification_status \<Rightarrow> string \<Rightarrow> adb \<Rightarrow> adb" where
  "record_verification contact kind ref st provider d =
     d\<lparr>db_verifications := db_verifications d @ [\<lparr>ve_contact = contact, ve_kind = kind, ve_ref = ref, ve_status = st,
       ve_provider = provider, ve_at = db_now d\<rparr>]\<rparr>"

text \<open>The latest email status of a contact of the company.\<close>

definition company_verification_statuses :: "nat \<Rightarrow> adb \<Rightarrow> nat \<Rightarrow> verification_status option" where
  "company_verification_statuses company d contact =
     (if list_ex (\<lambda>c. ct_id c = contact \<and> ct_company c = company) (db_contacts d)
      then map_option ve_status (first_min (\<lambda>v. - ve_at v)
        (filter (\<lambda>v. ve_contact v = contact \<and> ve_kind v = ''email'') (db_verifications d)))
      else None)"

definition add_scoring_record :: "nat \<Rightarrow> rat \<Rightarrow> string list \<Rightarrow> adb \<Rightarrow> adb" where
  "add_scoring_record company score why d =
     d\<lparr>db_scorings := db_scorings d @ [\<lparr>sc_company = company, sc_score = score, sc_explanations = why, sc_at = db_now d\<rparr>]\<rparr>"

definition add_qualification_record ::
  "nat \<Rightarrow> nat option \<Rightarrow> qualification_decision \<Rightarrow> qualification_reason \<Rightarrow> nat option \<Rightarrow> string \<Rightarrow> adb \<Rightarrow> adb" where
  "add_qualification_record company campaign dec why icp_id policy d =
     d\<lparr>db_qualifications := db_qualifications d @ [\<lparr>ql_company = company, ql_campaign = campaign, ql_decision = dec,
       ql_reason = why, ql_icp = icp_id, ql_policy = policy\<rparr>]\<rparr>"

definition add_intent_signal :: "nat \<Rightarrow> string \<Rightarrow> utext \<Rightarrow> nat \<Rightarrow> adb \<Rightarrow> adb" where
  "add_intent_signal company kind sign src d =
     d\<lparr>db_intents := db_intents d @ [\<lparr>nt_company = company, nt_kind = kind, nt_signal = sign, nt_source = src\<rparr>]\<rparr>"

definition company_context :: "nat \<Rightarrow> adb \<Rightarrow> (company \<times> nat) option" where
  "company_context company d =
     map_option (\<lambda>c. (c, rowcount (\<lambda>r. nt_company r = company) (db_intents d))) (row_of co_id company (db_companies d))"

definition latest_score :: "nat \<Rightarrow> adb \<Rightarrow> rat" where
  "latest_score company d =
     (case first_min (\<lambda>r. - sc_at r) (filter (\<lambda>r. sc_company r = company) (db_scorings d)) of
        None \<Rightarrow> 0 | Some r \<Rightarrow> sc_score r)"

subsection \<open>GovernanceRepo\<close>

definition get_active_policy :: "adb \<Rightarrow> (string \<times> rules) option" where
  "get_active_policy d = map_option (\<lambda>p. (po_version p, po_rules p)) (first_min (\<lambda>p. - po_at p) (db_policies d))"

definition record_decision ::
  "string \<Rightarrow> nat \<Rightarrow> string \<Rightarrow> string \<Rightarrow> ruling \<Rightarrow> string \<Rightarrow> adb \<Rightarrow> adb" where
  "record_decision stype subject operation version ruling by_whom d =
     d\<lparr>db_decisions := db_decisions d @ [\<lparr>ld_subject_type = stype, ld_subject = subject, ld_operation = operation,
       ld_decision = fst ruling, ld_version = version, ld_basis = fst (snd ruling), ld_reason = snd (snd ruling),
       ld_by = by_whom\<rparr>]\<rparr>"

definition is_suppressed :: "env \<Rightarrow> string \<Rightarrow> utext \<Rightarrow> adb \<Rightarrow> bool" where
  "is_suppressed e kind v d \<longleftrightarrow> list_ex (\<lambda>r. su_kind r = kind \<and> su_value r = lower (en_u e) v) (db_suppression d)"

definition add_suppression :: "env \<Rightarrow> string \<Rightarrow> utext \<Rightarrow> adb \<Rightarrow> adb" where
  "add_suppression e kind v d =
     (if is_suppressed e kind v d then d
      else d\<lparr>db_suppression := db_suppression d @ [\<lparr>su_kind = kind, su_value = lower (en_u e) v\<rparr>]\<rparr>)"

subsection \<open>ProjectsRepo\<close>

text \<open>What a projection is built from; ON CONFLICT compares campaign, company and contact, NULL never being equal.\<close>

definition same_lead :: "nat option \<Rightarrow> nat \<Rightarrow> nat option \<Rightarrow> lead \<Rightarrow> bool" where
  "same_lead campaign company contact l \<longleftrightarrow>
     campaign \<noteq> None \<and> contact \<noteq> None \<and> le_campaign l = campaign \<and> le_company l = company \<and> le_contact l = contact"

definition upsert_lead :: "lead \<Rightarrow> nat sql" where
  "upsert_lead new = (\<lambda>d.
     case find (same_lead (le_campaign new) (le_company new) (le_contact new)) (db_leads d) of
       Some old \<Rightarrow> (Inr (le_id old), d\<lparr>db_leads := upd_where (\<lambda>l. le_id l = le_id old)
         (\<lambda>l. new\<lparr>le_id := le_id l, le_icp := le_icp l, le_state := le_state l, le_by := le_by l, le_built := db_now d\<rparr>)
         (db_leads d)\<rparr>)
     | None \<Rightarrow> seq fresh_id (\<lambda>i. seq (modify (\<lambda>d. d\<lparr>db_leads := db_leads d @
         [new\<lparr>le_id := i, le_state := ReadyForReview, le_by := None, le_built := db_now d\<rparr>]\<rparr>)) (\<lambda>_. ret i)) d)"

definition list_leads :: "review_state option \<Rightarrow> nat \<Rightarrow> adb \<Rightarrow> lead list" where
  "list_leads st n d =
     take n (sort_key (\<lambda>l. - le_built l)
       (filter (\<lambda>l. case st of None \<Rightarrow> True | Some x \<Rightarrow> le_state l = x) (db_leads d)))"

definition get_lead :: "nat \<Rightarrow> adb \<Rightarrow> lead option" where
  "get_lead i d = row_of le_id i (db_leads d)"

definition decide_lead :: "nat \<Rightarrow> review_state \<Rightarrow> string \<Rightarrow> adb \<Rightarrow> bool \<times> adb" where
  "decide_lead i st by_whom d =
     (let p = (\<lambda>l. le_id l = i \<and> le_state l = ReadyForReview) in
      (list_ex p (db_leads d),
       d\<lparr>db_leads := upd_where p (\<lambda>l. l\<lparr>le_state := st, le_by := Some by_whom\<rparr>) (db_leads d)\<rparr>))"

subsection \<open>The vault (infrastructure/pii/vault.py)\<close>

definition ALLOWED_PURPOSES :: "string list" where
  "ALLOWED_PURPOSES = [''verification'', ''outreach'', ''human_review'', ''legal_request'']"

definition store :: "string \<Rightarrow> utext \<Rightarrow> nat sql" where
  "store kind v = (\<lambda>d.
     case find (\<lambda>r. va_kind r = kind \<and> va_value r = v) (db_vault d) of
       Some r \<Rightarrow> (Inr (va_id r), d)
     | None \<Rightarrow> seq fresh_id (\<lambda>i. seq (modify (\<lambda>d. d\<lparr>db_vault := db_vault d @
         [\<lparr>va_id = i, va_kind = kind, va_value = v\<rparr>]\<rparr>)) (\<lambda>_. ret i)) d)"

definition decrypt :: "nat \<Rightarrow> string \<Rightarrow> string \<Rightarrow> string option \<Rightarrow> utext sql" where
  "decrypt ref purpose actor request = (\<lambda>d.
     if purpose \<notin> set ALLOWED_PURPOSES then (Inl PermissionFault, d)
     else case row_of va_id ref (db_vault d) of
       None \<Rightarrow> (Inl KeyFault, d)
     | Some r \<Rightarrow> (Inr (va_value r), d\<lparr>db_access := db_access d @
         [\<lparr>ac_ref = ref, ac_purpose = purpose, ac_actor = actor, ac_request = request\<rparr>]\<rparr>))"

definition mask_of :: "string \<Rightarrow> utext \<Rightarrow> utext option" where
  "mask_of kind v =
     (if kind = ''email'' then mask_email (takeWhile (\<lambda>c. c \<noteq> 64) v) (tl (dropWhile (\<lambda>c. c \<noteq> 64) v))
      else Some (if length v > 6 then take 3 v @ [42, 42, 42] @ drop (length v - 2) v else [42, 42, 42]))"

definition masked :: "string \<Rightarrow> utext \<Rightarrow> utext sql" where
  "masked kind v = (case mask_of kind v of None \<Rightarrow> throw IndexFault | Some m \<Rightarrow> ret m)"

subsection \<open>The unit of work (infrastructure/uow.py)\<close>

definition emit :: "string \<Rightarrow> string \<Rightarrow> nat \<Rightarrow> string \<Rightarrow> adb \<Rightarrow> adb" where
  "emit etype aggregate subject info d =
     d\<lparr>db_outbox := db_outbox d @ [\<lparr>ev_type = etype, ev_aggregate = aggregate, ev_subject = subject, ev_note = info\<rparr>]\<rparr>"

text \<open>One transaction at time \<open>now\<close>: an exception rolls every table back, but the calls made to the world stay made.\<close>

definition uow :: "int \<Rightarrow> 'a sql \<Rightarrow> 'a sql" where
  "uow now m = (\<lambda>d.
     case m (d\<lparr>db_now := now\<rparr>) of
       (Inr x, d') \<Rightarrow> (Inr x, d')
     | (Inl err, d') \<Rightarrow> (Inl err, d\<lparr>db_gateway := (db_gateway d)\<lparr>gw_calls := gw_calls (db_gateway d')\<rparr>\<rparr>))"

subsection \<open>Claims\<close>

lemma conflicting_insert_fails:
  assumes "find (current_claim company field) (db_claims d) = Some old" and "cl_value old \<noteq> v"
  shows "fst (upsert_claim company field v src meth conf d) =
    Inl (if v \<noteq> None \<and> (\<exists>c \<in> set (db_claims d). cl_company c = company \<and> cl_field c = field \<and> cl_value c = v)
         then UniqueViolation ''uq_claim_current'' else NotNullViolation ''claim_b_id'')"
proof -
  have old: "old \<in> set (db_claims d)" "current_claim company field old"
    using assms(1) by (metis find_Some_iff nth_mem)+
  let ?d = "\<lambda>x. update_claim (cl_id old) (\<lambda>c. c\<lparr>cl_state := Conflicted\<rparr>) (d\<lparr>db_conflicts := x\<rparr>)"
  have "list_ex (current_claim company field) (db_claims (?d x))" for x
  proof -
    have "old\<lparr>cl_state := Conflicted\<rparr> \<in> set (db_claims (?d x))"
      using old(1) by (auto simp: update_claim_def set_upd_where)
    moreover have "current_claim company field (old\<lparr>cl_state := Conflicted\<rparr>)"
      using old(2) by (simp add: current_claim_def)
    ultimately show ?thesis by (auto simp: list_ex_iff)
  qed
  then have ins: "fst (insert_claim company field v src meth conf (?d x)) = Inl (UniqueViolation ''uq_claim_current'')" for x
    by (simp add: insert_claim_def)
  show ?thesis
  proof (cases "find (\<lambda>c. cl_company c = company \<and> cl_field c = field \<and> v \<noteq> None \<and> cl_value c = v) (db_claims d)")
    case None
    then have "\<not> (v \<noteq> None \<and> (\<exists>c \<in> set (db_claims d). cl_company c = company \<and> cl_field c = field \<and> cl_value c = v))"
      by (auto simp: find_None_iff)
    with None assms show ?thesis by (auto simp: upsert_claim_def seq_def insert_conflict_def)
  next
    case (Some b)
    then have b: "v \<noteq> None \<and> (\<exists>c \<in> set (db_claims d). cl_company c = company \<and> cl_field c = field \<and> cl_value c = v)"
      by (auto simp: find_Some_iff)
    with Some assms ins show ?thesis by (auto simp: upsert_claim_def seq_def insert_conflict_def modify_def)
  qed
qed

lemma upsert_claim_Inr:
  assumes "upsert_claim company field v src meth conf d = (Inr u, d')"
  shows "(\<exists>old. find (current_claim company field) (db_claims d) = Some old \<and> cl_value old = v
      \<and> (d' = d \<or> d' = update_claim (cl_id old) (\<lambda>c. c\<lparr>cl_conf := conf, cl_source := (if src = None then cl_source c else src)\<rparr>) d))
    \<or> (find (current_claim company field) (db_claims d) = None \<and> insert_claim company field v src meth conf d = (Inr u, d'))"
proof (cases "find (current_claim company field) (db_claims d)")
  case None
  then show ?thesis using assms by (simp add: upsert_claim_def)
next
  case (Some old)
  have "cl_value old = v"
    by (rule ccontr)
      (use conflicting_insert_fails [OF Some, of v src meth conf] assms in \<open>auto split: if_splits\<close>)
  with Some assms show ?thesis by (auto simp: upsert_claim_def split: if_splits)
qed

end
