(* ===== verification/AcqPipeline.thy ===== *)
theory AcqPipeline
  imports AcqRepos Leasing
begin

section \<open>The acquisition pipeline (application/handlers/pipeline.py)\<close>

text \<open>
  One durable job: plan, discover, enrich, verify, score, qualify.  The handler runs on two stores: the acquisition
  database, in units of work, and the fenced job row of Leasing, through the operations of JobOps.  Every reading
  of the clock is the next value of \<open>en_clock\<close>; providers answer by \<open>en_respond\<close>, the model by \<open>en_note\<close>, Manus by
  \<open>en_manus\<close>, each a function of the calls made so far.  \<open>en_doc\<close> is the JSON text of a checkpoint.  Policy rules are
  ASCII: a code point beyond it is read as a character no rule contains.
\<close>

subsection \<open>Jobs, checkpoints, the world\<close>

record job_context =
  cx_job :: ident
  cx_org :: ident
  cx_campaign :: "nat option"
  cx_icp :: nat
  cx_budget :: nat
  cx_worker :: string
  cx_token :: string
  cx_version :: int

datatype phase = PLANNING | MANUS | DISCOVERING | ENRICHING | VERIFYING | SCORING | QUALIFYING | CANCELLING | DONE

record checkpoint =
  ck_phase :: phase
  ck_queries :: "query list"
  ck_per_query :: nat
  ck_query_index :: nat
  ck_company_ids :: "nat list"
  ck_country :: "utext option"
  ck_industry :: "utext option"
  ck_icp :: nat
  ck_budget :: nat
  ck_enrich_index :: nat
  ck_verify_index :: nat
  ck_score_index :: nat
  ck_seen :: nat

text \<open>A search result.  The snippet distinguishes a dict without the key (None) from a null (Some None), which the text built
  from it prints as the word None.  The other values go through \<open>str\<close>, so a null provider is the word itself.\<close>

record raw_result =
  rr_url :: utext
  rr_title :: utext
  rr_snippet :: "utext option option"
  rr_provider :: "utext option"

record person =
  pn_name :: "utext option"
  pn_role :: "utext option"
  pn_email :: "utext option"
  pn_phone :: "utext option"
  pn_social :: "utext option"

datatype reply = Results "raw_result list" | Contacts "person list" | Verdict string smtp_evidence

record manus_company =
  mc_website :: utext
  mc_name :: utext
  mc_city :: "utext option"
  mc_phone :: "utext option"
  mc_phone_verified :: bool
  mc_email :: "utext option"
  mc_email_verified :: bool

record manus_poll =
  mp_exhausted :: bool
  mp_submitted :: nat
  mp_companies :: "manus_company list"
  mp_finished :: bool
  mp_pending :: nat

record acq_env = env +
  en_digest :: "string \<Rightarrow> string"
  en_pool :: "provider_spec list"
  en_respond :: "nat \<Rightarrow> string \<Rightarrow> request \<Rightarrow> reply vendor_answer"
  en_note :: "nat \<Rightarrow> string option"
  en_manus :: "(nat \<Rightarrow> manus_poll) option"
  en_clock :: "nat \<Rightarrow> int"
  en_doc :: "checkpoint \<Rightarrow> string"
  en_lease :: int

record world =
  w_db :: adb
  w_rt :: rt_db
  w_tick :: nat
  w_polls :: nat

datatype stop = Crash fault | Lost rt_error

type_synonym 'a job = "(world, stop, 'a) act"

definition read_clock :: "acq_env \<Rightarrow> int job" where
  "read_clock e = (\<lambda>w. (Inr (en_clock e (w_tick w)), w\<lparr>w_tick := Suc (w_tick w)\<rparr>))"

definition on_rt :: "(rt_db, rt_error, 'a) act \<Rightarrow> 'a job" where
  "on_rt m = (\<lambda>w. case m (w_rt w) of
     (Inr x, r) \<Rightarrow> (Inr x, w\<lparr>w_rt := r\<rparr>) | (Inl err, r) \<Rightarrow> (Inl (Lost err), w\<lparr>w_rt := r\<rparr>))"

definition on_db :: "'a sql \<Rightarrow> 'a job" where
  "on_db m = (\<lambda>w. case m (w_db w) of
     (Inr x, d) \<Rightarrow> (Inr x, w\<lparr>w_db := d\<rparr>) | (Inl err, d) \<Rightarrow> (Inl (Crash err), w\<lparr>w_db := d\<rparr>))"

definition lift :: "('s \<Rightarrow> 'a \<times> 's) \<Rightarrow> ('s, 'e, 'a) act" where
  "lift f = (\<lambda>s. (Inr (fst (f s)), snd (f s)))"

definition rule_text :: "utext \<Rightarrow> string" where
  "rule_text t = map (\<lambda>c. if c < 128 then char_of c else char_of (255::nat)) t"

subsection \<open>JobOps (runtime/worker.py)\<close>

definition ops_checkpoint :: "acq_env \<Rightarrow> job_context \<Rightarrow> checkpoint \<Rightarrow> rt_state option \<Rightarrow> unit job" where
  "ops_checkpoint e cx ck st = seq (read_clock e) (\<lambda>now.
     on_rt (save_checkpoint now (cx_job cx) (cx_token cx) (cx_version cx) (en_doc e ck) st (en_lease e)))"

definition ops_set_phase :: "acq_env \<Rightarrow> job_context \<Rightarrow> rt_state \<Rightarrow> unit job" where
  "ops_set_phase e cx st = seq (read_clock e) (\<lambda>now.
     on_rt (set_phase now (cx_job cx) (cx_token cx) (cx_version cx) st (en_lease e)))"

definition ops_park :: "acq_env \<Rightarrow> job_context \<Rightarrow> string \<Rightarrow> unit job" where
  "ops_park e cx reason = seq (read_clock e) (\<lambda>now.
     on_rt (park now (cx_job cx) (cx_token cx) (cx_version cx) reason))"

definition ops_heartbeat :: "acq_env \<Rightarrow> job_context \<Rightarrow> bool job" where
  "ops_heartbeat e cx = seq (read_clock e) (\<lambda>now.
     on_rt (lift (heartbeat now (cx_job cx) (cx_token cx) (en_lease e))))"

definition cancel_requested :: "job_context \<Rightarrow> bool job" where
  "cancel_requested cx = gets (\<lambda>w.
     case get_job (cx_org cx) (cx_job cx) (w_rt w) of None \<Rightarrow> False | Some r \<Rightarrow> rj_cancel_at r \<noteq> None)"

definition ops_apply_cancellation :: "acq_env \<Rightarrow> job_context \<Rightarrow> bool job" where
  "ops_apply_cancellation e cx = seq (read_clock e) (\<lambda>now.
     on_rt (lift (apply_cancellation now (cx_job cx) (cx_token cx) (cx_version cx))))"

definition ops_finish_cancelled :: "acq_env \<Rightarrow> job_context \<Rightarrow> unit job" where
  "ops_finish_cancelled e cx = seq (read_clock e) (\<lambda>now.
     on_rt (modify (finish_cancelled now (cx_job cx) (cx_token cx) (cx_version cx))))"

definition ops_uow :: "acq_env \<Rightarrow> 'a sql \<Rightarrow> 'a job" where
  "ops_uow e m = seq (read_clock e) (\<lambda>now. on_db (uow now m))"

definition cancelled :: "acq_env \<Rightarrow> job_context \<Rightarrow> bool job" where
  "cancelled e cx = seq (cancel_requested cx) (\<lambda>asked.
     if asked then seq (ops_apply_cancellation e cx) (\<lambda>ok.
       seq (if ok then ops_finish_cancelled e cx else ret ()) (\<lambda>_. ret True))
     else ret False)"

subsection \<open>Requests\<close>

text \<open>The canonical JSON of a call's parameters: keys in order, no blanks, code points beyond ASCII escaped.\<close>

definition hex4 :: "nat \<Rightarrow> string" where
  "hex4 n = map (\<lambda>k. ''0123456789abcdef'' ! (n div 16 ^ k mod 16)) [3, 2, 1, 0]"

definition json_char :: "nat \<Rightarrow> string" where
  "json_char c =
     (if c = 34 then [CHR 0x5C, CHR 0x22] else if c = 92 then [CHR 0x5C, CHR 0x5C]
      else if c = 10 then [CHR 0x5C, CHR ''n''] else if c = 13 then [CHR 0x5C, CHR ''r'']
      else if c = 9 then [CHR 0x5C, CHR ''t''] else if c = 8 then [CHR 0x5C, CHR ''b'']
      else if c = 12 then [CHR 0x5C, CHR ''f'']
      else if 32 \<le> c \<and> c < 127 then [char_of c]
      else if c < 65536 then [CHR 0x5C, CHR ''u''] @ hex4 c
      else [CHR 0x5C, CHR ''u''] @ hex4 (55296 + (c - 65536) div 1024) @ [CHR 0x5C, CHR ''u''] @ hex4 (56320 + (c - 65536) mod 1024))"

definition json_text :: "utext \<Rightarrow> string" where
  "json_text t = [CHR 0x22] @ concat (map json_char t) @ [CHR 0x22]"

definition json_field :: "string \<Rightarrow> string \<Rightarrow> string" where
  "json_field k v = [CHR 0x22] @ k @ [CHR 0x22] @ '':'' @ v"

definition call_request :: "job_context \<Rightarrow> string \<Rightarrow> string list \<Rightarrow> request" where
  "call_request cx operation parts =
     \<lparr>rq_org = cx_org cx, rq_job = Some (cx_job cx), rq_step = None, rq_operation = operation,
      rq_params = ''{'' @ join_with '','' parts @ ''}''\<rparr>"

definition search_call :: "job_context \<Rightarrow> utext \<Rightarrow> nat \<Rightarrow> request" where
  "search_call cx q n = call_request cx ''search_companies''
     [json_field ''max_results'' (show_nat n), json_field ''query'' (json_text q)]"

definition contact_call :: "job_context \<Rightarrow> utext \<Rightarrow> utext option \<Rightarrow> request" where
  "contact_call cx name domain = call_request cx ''find_contact''
     [json_field ''company'' (json_text name),
      json_field ''domain'' (case domain of None \<Rightarrow> ''null'' | Some t \<Rightarrow> json_text t)]"

definition verify_call :: "job_context \<Rightarrow> utext \<Rightarrow> request" where
  "verify_call cx email = call_request cx ''verify_email'' [json_field ''email'' (json_text email)]"

definition gateway_call :: "acq_env \<Rightarrow> checkpoint \<Rightarrow> capability \<Rightarrow> request \<Rightarrow> reply provider_result sql" where
  "gateway_call e ck cap q = (\<lambda>d.
     case execute (en_digest e) (en_respond e) (en_pool e) cap q (if ck_budget ck = 0 then None else Some (ck_budget ck))
            (db_gateway d) of (r, g) \<Rightarrow> (Inr r, d\<lparr>db_gateway := g\<rparr>))"

subsection \<open>Ingesting one result\<close>

text \<open>The company of the same business name, unless domains or cities conflict.\<close>

definition name_match :: "env \<Rightarrow> utext \<Rightarrow> utext option \<Rightarrow> utext option \<Rightarrow> adb \<Rightarrow> company option" where
  "name_match e title domain city d =
     (let key = name_key (en_u e) (Some title) in
      if key = [] then None
      else case find_by_name_key e key d of None \<Rightarrow> None
        | Some c \<Rightarrow> if name_match_is_safe (en_u e) domain (co_domain c) city (co_city c) then Some c else None)"

definition none_if_empty :: "utext \<Rightarrow> utext option" where
  "none_if_empty t = (if t = [] then None else Some t)"

definition or_text :: "utext \<Rightarrow> utext \<Rightarrow> utext" where
  "or_text a b = (if a = [] then b else a)"

definition keep_email :: "env \<Rightarrow> nat \<Rightarrow> utext \<Rightarrow> nat \<Rightarrow> utext \<Rightarrow> unit sql" where
  "keep_email e company title src email =
     seq (find_or_create_contact e company (Some (or_text (normalize_name (en_u e) title) title)) (Some (ascii ''contact'')) (Some src))
       (\<lambda>c. seq (store ''email'' email) (\<lambda>ref. seq (masked ''email'' email) (\<lambda>m.
         seq (modify (attach_email_ref c ref (Some m))) (\<lambda>_.
           modify (add_observation company ''contact_email_masked'' (Some m) (Some src) ''snippet'' (7/10))))))"

definition keep_phone :: "env \<Rightarrow> nat \<Rightarrow> utext \<Rightarrow> nat \<Rightarrow> utext \<Rightarrow> unit sql" where
  "keep_phone e company title src phone =
     seq (find_or_create_contact e company (Some (or_text (normalize_name (en_u e) title) title)) (Some (ascii ''contact'')) (Some src))
       (\<lambda>c. seq (store ''phone'' phone) (\<lambda>ref. seq (masked ''phone'' phone) (\<lambda>m.
         modify (attach_phone_ref c ref (Some m)))))"

text \<open>The company a result belongs to: the one found, or a new one.\<close>

definition company_of ::
  "env \<Rightarrow> utext option \<Rightarrow> utext option \<Rightarrow> utext \<Rightarrow> utext option \<Rightarrow> utext \<Rightarrow> identity \<Rightarrow> nat sql" where
  "company_of e country industry biz domain city kind = (\<lambda>d.
     if kind = Existing
     then (case (case domain of None \<Rightarrow> None | Some x \<Rightarrow> find_by_domain x d) of
             Some c \<Rightarrow> (Inr (co_id c), d)
           | None \<Rightarrow> (case name_match e biz domain (Some city) d of
               Some c \<Rightarrow> (Inr (co_id c), d) | None \<Rightarrow> (Inl KeyFault, d)))
     else seq fresh_id (\<lambda>i. create_company e i (or_text (normalize_name (en_u e) biz) biz) domain country industry (Some city)
            (none_if_empty (name_key (en_u e) (Some biz)))) d)"

definition snippet_text :: "raw_result \<Rightarrow> utext" where
  "snippet_text raw = rr_title raw @ [32] @
     (case rr_snippet raw of None \<Rightarrow> [] | Some None \<Rightarrow> ascii ''None'' | Some (Some s) \<Rightarrow> s)"

text \<open>\<open>raw.get("snippet")\<close>, as it is stored with the raw result.\<close>

definition stored_snippet :: "raw_result \<Rightarrow> utext option" where
  "stored_snippet raw = or_default (rr_snippet raw) None"

text \<open>What is learnt of the company from the result.\<close>

definition keep_result :: "env \<Rightarrow> utext option \<Rightarrow> utext \<Rightarrow> raw_result \<Rightarrow> nat \<Rightarrow> unit sql" where
  "keep_result e domain city raw company =
     (let u = en_u e; url = rr_url raw; title = rr_title raw; found = extract_contacts u (snippet_text raw) in
      seq (modify (\<lambda>d. case domain of None \<Rightarrow> d | Some x \<Rightarrow> add_identifier company ''domain'' x d)) (\<lambda>_.
      seq (get_or_create_source ''search_result'' (Some url) (Some (or_default (rr_provider raw) (ascii ''search'')))
             (Some (en_sha e (url @ title)))) (\<lambda>src.
      seq (for_each (\<lambda>(k, m). modify (add_intent_signal company k m src)) (detect_intent u (snippet_text raw))) (\<lambda>_.
      seq (modify (add_observation company ''website'' (Some url) (Some src) ''snippet'' (6/10))) (\<lambda>_.
      seq (modify (add_observation company ''name'' (Some title) (Some src) ''snippet'' (6/10))) (\<lambda>_.
      seq (upsert_claim company ''website'' (Some url) (Some src) ''snippet'' (6/10)) (\<lambda>_.
      seq (if city = [] then ret () else upsert_claim company ''city'' (Some city) (Some src) ''icp_plan'' (9/10)) (\<lambda>_.
      seq (for_each (keep_email e company title src) (fst found)) (\<lambda>_.
           for_each (keep_phone e company title src) (snd found))))))))))"

definition identify :: "env \<Rightarrow> utext \<Rightarrow> raw_result \<Rightarrow> adb \<Rightarrow> identity" where
  "identify e city raw d =
     (let u = en_u e; domain = domain_from_url u (rr_url raw);
          biz = business_name_from_title u (rr_title raw) domain in
      resolve_identity u (rr_title raw) (rr_url raw)
        (case domain of None \<Rightarrow> False | Some x \<Rightarrow> find_by_domain x d \<noteq> None)
        (name_match e biz domain (Some city) d \<noteq> None))"

definition ingest_result ::
  "env \<Rightarrow> string \<Rightarrow> utext option \<Rightarrow> utext option \<Rightarrow> utext \<Rightarrow> utext \<Rightarrow> raw_result \<Rightarrow> nat option sql" where
  "ingest_result e job country industry query city raw =
     (let u = en_u e; url = rr_url raw; domain = domain_from_url u url;
          biz = business_name_from_title u (rr_title raw) domain in
      if url = [] then ret None
      else seq (lift (add_raw_result job query url (rr_title raw) (stored_snippet raw))) (\<lambda>fresh.
        if \<not> fresh then ret None
        else seq (lift (mark_visited e job url)) (\<lambda>new.
          if \<not> new then ret None
          else seq (gets (identify e city raw)) (\<lambda>kind.
            if kind \<in> {Social, Editorial} then ret None
            else seq (company_of e country industry biz domain city kind) (\<lambda>company.
              seq (keep_result e domain city raw company) (\<lambda>_. ret (Some company)))))))"

subsection \<open>Planning\<close>

definition POLICY_DECISION_RECORDED :: string where "POLICY_DECISION_RECORDED = ''governance.decision.recorded''"
definition VERIFICATION_COMPLETED :: string where "VERIFICATION_COMPLETED = ''intelligence.verification.completed''"
definition LEAD_READY_FOR_REVIEW :: string where "LEAD_READY_FOR_REVIEW = ''acquisition.lead.ready_for_review''"
definition LEAD_APPROVED :: string where "LEAD_APPROVED = ''acquisition.lead.approved''"
definition LEAD_REJECTED :: string where "LEAD_REJECTED = ''acquisition.lead.rejected''"
definition FAIL_CLOSED_VERSION :: string where "FAIL_CLOSED_VERSION = ''fail-closed''"

definition wants_manus :: "env \<Rightarrow> icp_doc \<Rightarrow> bool" where
  "wants_manus e doc \<longleftrightarrow> lower (en_u e) (id_engine doc) = ascii ''manus''"

definition operation_input :: "string \<Rightarrow> utext option \<Rightarrow> policy_input" where
  "operation_input operation country = \<lparr>pi_operation = operation, pi_country = map_option rule_text country,
     pi_kind = None, pi_value = None, pi_target_country = None\<rparr>"

definition worker_name :: "job_context \<Rightarrow> string" where
  "worker_name cx = (if cx_worker cx = [] then ''worker'' else cx_worker cx)"

text \<open>The decision about an operation, with the version of the policy it was taken under; without an adopted
  policy the gate is closed.\<close>

definition rule :: "policy_input \<Rightarrow> adb \<Rightarrow> string \<times> ruling" where
  "rule inp d =
     (case get_active_policy d of
        None \<Rightarrow> (FAIL_CLOSED_VERSION, fail_closed inp) | Some (v, r) \<Rightarrow> (v, evaluate r inp))"

definition plan_tx :: "job_context \<Rightarrow> (icp_doc \<times> string option) sql" where
  "plan_tx cx = (\<lambda>d.
     case cx_campaign cx of None \<Rightarrow> (Inl ValueFault, d)
     | Some campaign \<Rightarrow>
       if get_campaign campaign d = None then (Inl (DomainFault ''campaign not found for this job''), d)
       else case get_icp_definition (cx_icp cx) d of
         None \<Rightarrow> (Inl (DomainFault ''icp version not found''), d)
       | Some doc \<Rightarrow>
         (let (version, ruling) = rule (operation_input ''discovery.search'' (ic_country doc)) d in
          (Inr (doc,
             if get_active_policy d = None then Some (''policy fail-closed: '' @ snd (snd ruling))
             else if fst ruling = Blocked then Some (''policy blocked discovery: '' @ snd (snd ruling)) else None),
           emit POLICY_DECISION_RECORDED ''campaign'' campaign version
             (record_decision ''campaign'' campaign ''discovery.search'' version ruling (worker_name cx) d))))"

definition first_checkpoint :: "env \<Rightarrow> job_context \<Rightarrow> icp_doc \<Rightarrow> query_plan \<Rightarrow> checkpoint" where
  "first_checkpoint e cx doc plan =
     \<lparr>ck_phase = (if wants_manus e doc then MANUS else DISCOVERING), ck_queries = pl_queries plan,
      ck_per_query = pl_per_query plan, ck_query_index = 0, ck_company_ids = [], ck_country = ic_country doc,
      ck_industry = ic_industry doc, ck_icp = cx_icp cx, ck_budget = cx_budget cx, ck_enrich_index = 0,
      ck_verify_index = 0, ck_score_index = 0, ck_seen = 0\<rparr>"

definition plan :: "acq_env \<Rightarrow> job_context \<Rightarrow> checkpoint job" where
  "plan e cx =
     seq (ops_set_phase e cx Leasing.Planning) (\<lambda>_.
     seq (ops_uow e (plan_tx cx)) (\<lambda>(doc, refusal).
       case refusal of Some why \<Rightarrow> throw (Crash (DomainFault why))
       | None \<Rightarrow>
         (let qp = build_query_plan (icp.truncate doc) in
          if is_empty_plan qp then throw (Crash (DomainFault ''ICP produced zero queries''))
          else let ck = first_checkpoint (env.truncate e) cx doc qp in
            seq (ops_checkpoint e cx ck (Some Leasing.Discovering)) (\<lambda>_. ret ck))))"

subsection \<open>Discovering\<close>

fun results_of :: "reply payload \<Rightarrow> raw_result list" where
  "results_of (Data (Results rs)) = rs"
| "results_of _ = []"

text \<open>\<open>if company_id and company_id not in company_ids\<close>.\<close>

definition note_company :: "nat option \<Rightarrow> nat list \<Rightarrow> nat list" where
  "note_company c ids = (case c of None \<Rightarrow> ids | Some i \<Rightarrow> if i \<in> set ids then ids else ids @ [i])"

fun ingest_all ::
  "env \<Rightarrow> string \<Rightarrow> utext option \<Rightarrow> utext option \<Rightarrow> utext \<Rightarrow> utext \<Rightarrow> raw_result list \<Rightarrow> nat list \<Rightarrow> nat list sql" where
  "ingest_all e job country industry query city [] ids = ret ids"
| "ingest_all e job country industry query city (r # rs) ids =
     seq (ingest_result e job country industry query city r)
       (\<lambda>c. ingest_all e job country industry query city rs (note_company c ids))"

definition discover_query :: "acq_env \<Rightarrow> job_context \<Rightarrow> checkpoint \<Rightarrow> query \<Rightarrow> nat list sql" where
  "discover_query e cx ck q =
     seq (gateway_call e ck SearchCompanies (search_call cx (qy_text q) (ck_per_query ck))) (\<lambda>r.
       if \<not> r_ok r then ret (ck_company_ids ck)
       else ingest_all (env.truncate e) (cx_job cx) (ck_country ck) (ck_industry ck) (qy_text q) (qy_city q)
              (results_of (r_data r)) (ck_company_ids ck))"

fun discover_from :: "acq_env \<Rightarrow> job_context \<Rightarrow> query list \<Rightarrow> checkpoint \<Rightarrow> checkpoint job" where
  "discover_from e cx [] ck =
     seq (ops_checkpoint e cx (ck\<lparr>ck_phase := ENRICHING, ck_enrich_index := 0\<rparr>) (Some Leasing.Enriching))
       (\<lambda>_. ret (ck\<lparr>ck_phase := ENRICHING\<rparr>))"
| "discover_from e cx (q # qs) ck =
     seq (cancelled e cx) (\<lambda>stopped.
       if stopped then ret (ck\<lparr>ck_phase := CANCELLING\<rparr>)
       else seq (ops_uow e (discover_query e cx ck q)) (\<lambda>ids.
            seq (ops_heartbeat e cx) (\<lambda>_.
              let ck' = ck\<lparr>ck_query_index := Suc (ck_query_index ck), ck_company_ids := ids\<rparr> in
              seq (ops_checkpoint e cx ck' None) (\<lambda>_. discover_from e cx qs ck'))))"

definition discover :: "acq_env \<Rightarrow> job_context \<Rightarrow> checkpoint \<Rightarrow> checkpoint job" where
  "discover e cx ck = discover_from e cx (drop (ck_query_index ck) (ck_queries ck)) ck"

subsection \<open>One company at a time\<close>

text \<open>The loop the three next phases share: look for a cancellation (but not while scoring), work in one transaction,
  count, checkpoint.\<close>

fun each_company ::
  "acq_env \<Rightarrow> job_context \<Rightarrow> bool \<Rightarrow> (checkpoint \<Rightarrow> nat \<Rightarrow> unit sql) \<Rightarrow> (checkpoint \<Rightarrow> checkpoint) \<Rightarrow>
     (checkpoint \<Rightarrow> checkpoint job) \<Rightarrow> nat list \<Rightarrow> checkpoint \<Rightarrow> checkpoint job" where
  "each_company e cx watch work count finish [] ck = finish ck"
| "each_company e cx watch work count finish (i # is) ck =
     seq (if watch then cancelled e cx else ret False) (\<lambda>stopped.
       if stopped then ret (ck\<lparr>ck_phase := CANCELLING\<rparr>)
       else seq (ops_uow e (work ck i)) (\<lambda>_.
            seq (if watch then ops_heartbeat e cx else ret True) (\<lambda>_.
            seq (ops_checkpoint e cx (count ck) None) (\<lambda>_. each_company e cx watch work count finish is (count ck)))))"

subsection \<open>Enriching\<close>

fun people_of :: "reply payload \<Rightarrow> person list" where
  "people_of (Data (Contacts ps)) = ps"
| "people_of _ = []"

definition store_person :: "env \<Rightarrow> nat \<Rightarrow> person \<Rightarrow> unit sql" where
  "store_person e company p =
     seq (find_or_create_contact e company (pn_name p) (pn_role p) None) (\<lambda>c.
     seq (if truthy (pn_email p)
          then seq (store ''email'' (the (pn_email p))) (\<lambda>ref. seq (masked ''email'' (the (pn_email p))) (\<lambda>m.
               seq (modify (attach_email_ref c ref (Some m))) (\<lambda>_.
                 modify (add_observation company ''contact_email_masked'' (Some m) None ''enrichment'' (7/10)))))
          else ret ()) (\<lambda>_.
     seq (if truthy (pn_phone p)
          then seq (store ''phone'' (the (pn_phone p))) (\<lambda>ref. seq (masked ''phone'' (the (pn_phone p))) (\<lambda>m.
               modify (attach_phone_ref c ref (Some m))))
          else ret ()) (\<lambda>_.
       if truthy (pn_social p) then modify (attach_social c (the (pn_social p))) else ret ())))"

definition store_contacts :: "env \<Rightarrow> nat \<Rightarrow> person list \<Rightarrow> unit sql" where
  "store_contacts e company people = for_each (store_person e company) people"

definition enrich_company :: "acq_env \<Rightarrow> job_context \<Rightarrow> checkpoint \<Rightarrow> nat \<Rightarrow> unit sql" where
  "enrich_company e cx ck company =
     seq (gets (company_context company)) (\<lambda>row.
       case row of None \<Rightarrow> throw KeyFault
       | Some (c, _) \<Rightarrow>
           seq (gateway_call e ck FindContact (contact_call cx (co_name c) (co_domain c))) (\<lambda>r.
             if r_ok r
             then seq (store_contacts (env.truncate e) company (people_of (r_data r))) (\<lambda>_.
                    modify (record_enrichment company True None (r_cost r)))
             else modify (record_enrichment company False (r_failure r) 0)))"

definition enrich :: "acq_env \<Rightarrow> job_context \<Rightarrow> checkpoint \<Rightarrow> checkpoint job" where
  "enrich e cx ck =
     each_company e cx True (enrich_company e cx) (\<lambda>c. c\<lparr>ck_enrich_index := Suc (ck_enrich_index c)\<rparr>)
       (\<lambda>c. seq (ops_checkpoint e cx (c\<lparr>ck_phase := VERIFYING, ck_verify_index := 0\<rparr>) (Some Leasing.Verifying))
              (\<lambda>_. ret (c\<lparr>ck_phase := VERIFYING\<rparr>)))
       (drop (ck_enrich_index ck) (ck_company_ids ck)) ck"

subsection \<open>Verifying\<close>

definition parse_status :: "string \<Rightarrow> verification_status option" where
  "parse_status s = map_of [(''DELIVERABLE'', Deliverable), (''RISKY'', Risky), (''CATCH_ALL'', CatchAll),
     (''INVALID'', Invalid), (''UNKNOWN'', Unknown)] s"

definition no_evidence :: smtp_evidence where
  "no_evidence = \<lparr>ev_smtp_accepted = False, ev_provider_verified = False\<rparr>"

text \<open>Anything a provider returns without a status is UNKNOWN.\<close>

fun verdict_of :: "reply payload \<Rightarrow> string \<times> smtp_evidence" where
  "verdict_of (Data (Verdict s ev)) = (s, ev)"
| "verdict_of _ = (''UNKNOWN'', no_evidence)"

definition week :: int where "week = 7 * 24 * 60 * 60"

text \<open>Status, evidence and provider of an address: cached, or asked and cached.\<close>

definition look_up_email :: "acq_env \<Rightarrow> job_context \<Rightarrow> checkpoint \<Rightarrow> utext \<Rightarrow> (string \<times> smtp_evidence \<times> string) sql" where
  "look_up_email e cx ck email =
     seq (gets (get_cached_verification (en_sha e email))) (\<lambda>hit.
       case hit of Some c \<Rightarrow> ret (vc_status c, vc_evidence c, ''cache'')
       | None \<Rightarrow> seq (gateway_call e ck VerifyEmail (verify_call cx email)) (\<lambda>r.
           if \<not> r_ok r then ret (''UNKNOWN'', no_evidence, ''gateway'')
           else let (st, ev) = verdict_of (r_data r) in
             seq (modify (\<lambda>d. cache_verification (en_sha e email) st ev (db_now d + week) d)) (\<lambda>_.
               ret (st, ev, ''gateway''))))"

definition verify_contact :: "acq_env \<Rightarrow> job_context \<Rightarrow> checkpoint \<Rightarrow> contact_view \<Rightarrow> unit sql" where
  "verify_contact e cx ck c =
     (case lc_email_ref c of None \<Rightarrow> ret ()
      | Some ref \<Rightarrow>
          seq (decrypt ref ''verification'' (worker_name cx) (Some (cx_job cx))) (\<lambda>email.
          seq (look_up_email e cx ck email) (\<lambda>(st, ev, provider).
            case parse_status st of None \<Rightarrow> throw ValueFault
            | Some new \<Rightarrow> let final = promote Unknown new ev in
                seq (modify (record_verification (lc_id c) ''email'' (Some ref) final provider)) (\<lambda>_.
                  modify (emit VERIFICATION_COMPLETED ''contact'' (lc_id c) [])))))"

definition verify_company :: "acq_env \<Rightarrow> job_context \<Rightarrow> checkpoint \<Rightarrow> nat \<Rightarrow> unit sql" where
  "verify_company e cx ck company =
     seq (gets (list_company_contacts (env.truncate e) company)) (for_each (verify_contact e cx ck))"

definition verify :: "acq_env \<Rightarrow> job_context \<Rightarrow> checkpoint \<Rightarrow> checkpoint job" where
  "verify e cx ck =
     each_company e cx True (verify_company e cx) (\<lambda>c. c\<lparr>ck_verify_index := Suc (ck_verify_index c)\<rparr>)
       (\<lambda>c. seq (ops_checkpoint e cx (c\<lparr>ck_phase := SCORING, ck_score_index := 0\<rparr>) (Some Leasing.Scoring))
              (\<lambda>_. ret (c\<lparr>ck_phase := SCORING\<rparr>)))
       (drop (ck_verify_index ck) (ck_company_ids ck)) ck"

subsection \<open>Scoring\<close>

fun status_rank :: "verification_status \<Rightarrow> nat" where
  "status_rank Deliverable = 0"
| "status_rank Risky = 1"
| "status_rank CatchAll = 2"
| "status_rank Unknown = 3"
| "status_rank Invalid = 4"

definition best_status :: "verification_status option \<Rightarrow> verification_status \<Rightarrow> verification_status" where
  "best_status current candidate =
     (case current of None \<Rightarrow> candidate
      | Some s \<Rightarrow> if status_rank candidate < status_rank s then candidate else s)"

text \<open>The best status in the cache over the contacts of a company.\<close>

fun best_cached :: "acq_env \<Rightarrow> job_context \<Rightarrow> contact_view list \<Rightarrow> verification_status option \<Rightarrow> verification_status option sql" where
  "best_cached e cx [] best = ret best"
| "best_cached e cx (c # cs) best =
     (case lc_email_ref c of None \<Rightarrow> best_cached e cx cs best
      | Some ref \<Rightarrow>
          seq (decrypt ref ''verification'' (worker_name cx) (Some (cx_job cx))) (\<lambda>email.
          seq (gets (get_cached_verification (en_sha e email))) (\<lambda>hit.
            case hit of None \<Rightarrow> best_cached e cx cs best
            | Some r \<Rightarrow> (case parse_status (vc_status r) of None \<Rightarrow> throw ValueFault
                | Some st \<Rightarrow> best_cached e cx cs (Some (best_status best st))))))"

text \<open>The inputs the phase fills in; the others keep their defaults.\<close>

definition inputs_of :: "claims_view \<Rightarrow> verification_status option \<Rightarrow> score_inputs" where
  "inputs_of v best =
     \<lparr>si_website = truthy (cv_website v), si_phone = False, si_observations = cv_observations v,
      si_sources = cv_sources v, si_email = best, si_intent = 0, si_city = truthy (cv_city v)\<rparr>"

definition score_company :: "acq_env \<Rightarrow> job_context \<Rightarrow> checkpoint \<Rightarrow> nat \<Rightarrow> unit sql" where
  "score_company e cx ck company =
     seq (gets (claims_summary company)) (\<lambda>v.
     seq (gets (list_company_contacts (env.truncate e) company)) (\<lambda>cs.
     seq (best_cached e cx cs None) (\<lambda>best.
       let (score, why) = compute_score (inputs_of v best); comment = en_note e company in
       modify (add_scoring_record company score
         (why @ (case comment of None \<Rightarrow> [] | Some [] \<Rightarrow> [] | Some t \<Rightarrow> [''ai: '' @ take 400 t]))))))"

definition score :: "acq_env \<Rightarrow> job_context \<Rightarrow> checkpoint \<Rightarrow> checkpoint job" where
  "score e cx ck =
     each_company e cx False (score_company e cx) (\<lambda>c. c\<lparr>ck_score_index := Suc (ck_score_index c)\<rparr>)
       (\<lambda>c. seq (ops_checkpoint e cx (c\<lparr>ck_phase := QUALIFYING\<rparr>) (Some Leasing.Qualifying))
              (\<lambda>_. ret (c\<lparr>ck_phase := QUALIFYING\<rparr>)))
       (drop (ck_score_index ck) (ck_company_ids ck)) ck"

subsection \<open>Qualifying\<close>

record outline =
  ou_status :: "verification_status option"
  ou_email :: "utext option"
  ou_phone :: "utext option"

text \<open>An identity without a mask is decrypted, for its status and its mask.\<close>

definition unmasked_email :: "acq_env \<Rightarrow> job_context \<Rightarrow> nat \<Rightarrow> outline \<Rightarrow> outline sql" where
  "unmasked_email e cx ref out =
     seq (decrypt ref ''verification'' (worker_name cx) (Some (cx_job cx))) (\<lambda>email.
     seq (gets (get_cached_verification (en_sha e email))) (\<lambda>hit.
     seq (case hit of None \<Rightarrow> ret (ou_status out)
          | Some r \<Rightarrow> (case parse_status (vc_status r) of None \<Rightarrow> throw ValueFault
              | Some st \<Rightarrow> ret (Some (best_status (ou_status out) st)))) (\<lambda>st.
     seq (masked ''email'' email) (\<lambda>m. ret (out\<lparr>ou_status := st, ou_email := Some m\<rparr>)))))"

definition add_phone :: "contact_view \<Rightarrow> outline \<Rightarrow> outline" where
  "add_phone c out =
     (if ou_phone out = None \<and> truthy (lc_phone_masked c) then out\<lparr>ou_phone := lc_phone_masked c\<rparr> else out)"

definition add_status :: "verification_status option \<Rightarrow> outline \<Rightarrow> outline" where
  "add_status st out =
     (case st of None \<Rightarrow> out | Some s \<Rightarrow> out\<lparr>ou_status := Some (best_status (ou_status out) s)\<rparr>)"

definition add_email :: "contact_view \<Rightarrow> outline \<Rightarrow> outline" where
  "add_email c out =
     (if truthy (lc_email_masked c) \<and> ou_email out = None then out\<lparr>ou_email := lc_email_masked c\<rparr> else out)"

text \<open>The masked contact data of a company, from recorded verifications.\<close>

fun outline_of ::
  "acq_env \<Rightarrow> job_context \<Rightarrow> (nat \<Rightarrow> verification_status option) \<Rightarrow> contact_view list \<Rightarrow> outline \<Rightarrow> outline sql" where
  "outline_of e cx recorded [] out = ret out"
| "outline_of e cx recorded (c # cs) out =
     seq (case lc_email_ref c of None \<Rightarrow> ret (add_phone c out)
          | Some ref \<Rightarrow> (let out = add_status (recorded (lc_id c)) (add_phone c out) in
              if lc_email_masked c = None \<and> ou_email out = None then unmasked_email e cx ref out else ret (add_email c out)))
       (outline_of e cx recorded cs)"

fun decision_text :: "governance_decision \<Rightarrow> string" where
  "decision_text Allowed = ''ALLOWED''"
| "decision_text Blocked = ''BLOCKED''"
| "decision_text NeedsReview = ''NEEDS_REVIEW''"

definition lead_of ::
  "job_context \<Rightarrow> checkpoint \<Rightarrow> company \<Rightarrow> claims_view \<Rightarrow> contact_view list \<Rightarrow> outline \<Rightarrow> rat \<Rightarrow> qualification_decision \<Rightarrow> lead" where
  "lead_of cx ck c v contacts out sc dec =
     \<lparr>le_id = 0, le_campaign = cx_campaign cx, le_company = co_id c,
      le_contact = (case contacts of [] \<Rightarrow> None | k # _ \<Rightarrow> Some (lc_id k)), le_icp = Some (ck_icp ck),
      le_name = co_name c, le_domain = co_domain c, le_city = cv_city v, le_email = ou_email out,
      le_phone = ou_phone out, le_status = ou_status out, le_score = sc, le_decision = dec,
      le_state = AcqRepos.ReadyForReview, le_by = None, le_built = 0\<rparr>"

text \<open>One company under an adopted policy: decide, record, and list the lead unless it is rejected.\<close>

definition qualify_under ::
  "acq_env \<Rightarrow> job_context \<Rightarrow> checkpoint \<Rightarrow> company \<Rightarrow> claims_view \<Rightarrow> contact_view list \<Rightarrow> outline \<Rightarrow> string \<Rightarrow> rules \<Rightarrow> unit sql" where
  "qualify_under e cx ck c v contacts out version rules =
     seq (gets (is_suppressed (env.truncate e) ''domain'' (or_default (co_domain c) []))) (\<lambda>suppressed.
     seq (gets (latest_score (co_id c))) (\<lambda>sc.
       let verdict = fst (evaluate rules (operation_input ''lead.qualification'' (ck_country ck)));
           decided = decide \<lparr>qu_score = sc, qu_domain = map_option rule_text (co_domain c), qu_email = ou_status out,
             qu_suppressed = suppressed, qu_policy = decision_text verdict\<rparr> in
       seq (modify (add_qualification_record (co_id c) (cx_campaign cx) (fst decided) (snd decided) (Some (ck_icp ck)) version))
         (\<lambda>_. if fst decided = Rejected then ret ()
          else seq (upsert_lead (lead_of cx ck c v contacts out sc (fst decided))) (\<lambda>i.
               modify (emit LEAD_READY_FOR_REVIEW ''lead'' i [])))))"

text \<open>One company; the result is the refusal that stops the phase, if there is one.\<close>

definition qualify_company :: "acq_env \<Rightarrow> job_context \<Rightarrow> checkpoint \<Rightarrow> nat \<Rightarrow> string option sql" where
  "qualify_company e cx ck company =
     seq (gets (company_context company)) (\<lambda>row.
     seq (gets (claims_summary company)) (\<lambda>v.
     seq (gets (list_company_contacts (env.truncate e) company)) (\<lambda>contacts.
     seq (gets (company_verification_statuses company)) (\<lambda>recorded.
     seq (outline_of e cx recorded contacts \<lparr>ou_status = None, ou_email = None, ou_phone = None\<rparr>) (\<lambda>out.
     seq (gets get_active_policy) (\<lambda>policy.
       case policy of
         None \<Rightarrow> (let ruling = fail_closed (operation_input ''lead.qualification'' (ck_country ck)) in
           seq (modify (record_decision ''company'' company ''lead.qualification'' FAIL_CLOSED_VERSION ruling (worker_name cx)))
             (\<lambda>_. ret (Some (''policy fail-closed: '' @ snd (snd ruling)))))
       | Some p \<Rightarrow> (case row of None \<Rightarrow> throw KeyFault
           | Some r \<Rightarrow> seq (qualify_under e cx ck (fst r) v contacts out (fst p) (snd p)) (\<lambda>_. ret None))))))))"

fun qualify_from :: "acq_env \<Rightarrow> job_context \<Rightarrow> checkpoint \<Rightarrow> nat list \<Rightarrow> unit job" where
  "qualify_from e cx ck [] = ret ()"
| "qualify_from e cx ck (i # is) =
     seq (ops_uow e (qualify_company e cx ck i)) (\<lambda>refusal.
       case refusal of Some why \<Rightarrow> throw (Crash (DomainFault why)) | None \<Rightarrow> qualify_from e cx ck is)"

definition qualify :: "acq_env \<Rightarrow> job_context \<Rightarrow> checkpoint \<Rightarrow> checkpoint job" where
  "qualify e cx ck = seq (qualify_from e cx ck (ck_company_ids ck)) (\<lambda>_. ret (ck\<lparr>ck_phase := DONE\<rparr>))"

subsection \<open>The Manus stage (application/handlers/manus_stage.py)\<close>

text \<open>Only contacts the verifier confirmed enter the snippet.\<close>

definition manus_raw :: "manus_company \<Rightarrow> raw_result" where
  "manus_raw c =
     \<lparr>rr_url = mc_website c, rr_title = mc_name c,
      rr_snippet = Some (Some (join_with [32] (filter (\<lambda>v. v \<noteq> [])
        [if mc_phone_verified c then or_default (mc_phone c) [] else [],
         if mc_email_verified c then or_default (mc_email c) [] else []]))),
      rr_provider = Some (ascii ''manus'')\<rparr>"

fun ingest_manus :: "env \<Rightarrow> job_context \<Rightarrow> checkpoint \<Rightarrow> manus_company list \<Rightarrow> nat list \<Rightarrow> nat list sql" where
  "ingest_manus e cx ck [] ids = ret ids"
| "ingest_manus e cx ck (c # cs) ids =
     seq (ingest_result e (cx_job cx) (ck_country ck) (ck_industry ck) (ascii ''manus:'' @ or_default (mc_city c) [])
            (or_default (mc_city c) []) (manus_raw c))
       (\<lambda>i. ingest_manus e cx ck cs (note_company i ids))"

text \<open>The n-th pass over the stage meets the engine in the state \<open>en_manus n\<close>.  None is a parked job.\<close>

definition run_stage :: "acq_env \<Rightarrow> job_context \<Rightarrow> checkpoint \<Rightarrow> checkpoint option job" where
  "run_stage e cx ck =
     (case en_manus e of None \<Rightarrow> throw (Crash (DomainFault ''no Manus key is configured''))
      | Some engine \<Rightarrow>
        seq (\<lambda>w. (Inr (engine (w_polls w)), w\<lparr>w_polls := Suc (w_polls w)\<rparr>)) (\<lambda>mp.
        seq (ops_checkpoint e cx ck None) (\<lambda>_.
        if mp_exhausted mp \<and> mp_submitted mp = 0 \<and> ck_seen ck = 0
        then throw (Crash (DomainFault ''manus: every key is at or under the credit floor; nothing submitted''))
        else let ck1 = ck\<lparr>ck_seen := ck_seen ck + length (mp_companies mp)\<rparr> in
          seq (ops_checkpoint e cx ck1 None) (\<lambda>_.
          seq (if mp_companies mp = [] then ret ck1
               else seq (ops_uow e (ingest_manus (env.truncate e) cx ck1 (mp_companies mp) (ck_company_ids ck1))) (\<lambda>ids.
                    seq (ops_checkpoint e cx (ck1\<lparr>ck_company_ids := ids\<rparr>) None) (\<lambda>_. ret (ck1\<lparr>ck_company_ids := ids\<rparr>)))) (\<lambda>ck2.
            if mp_finished mp then ret (Some ck2)
            else seq (cancel_requested cx) (\<lambda>asked.
              if asked then ret (Some ck2)
              else seq (ops_park e cx (''waiting on manus ('' @ show_nat (mp_pending mp) @ '' task(s) running)'')) (\<lambda>_.
                ret None)))))))"

subsection \<open>The handler\<close>

datatype outcome = PARKED | Ends rt_state

text \<open>A phase runs when the checkpoint is at it.\<close>

definition at_phase :: "phase \<Rightarrow> (checkpoint \<Rightarrow> checkpoint job) \<Rightarrow> checkpoint \<Rightarrow> checkpoint job" where
  "at_phase p f ck = (if ck_phase ck = p then f ck else ret ck)"

definition conclude :: "acq_env \<Rightarrow> job_context \<Rightarrow> checkpoint \<Rightarrow> outcome job" where
  "conclude e cx ck =
     (if ck_company_ids ck = [] then ret (Ends Leasing.PartialSuccess)
      else case cx_campaign cx of None \<Rightarrow> throw (Crash ValueFault)
        | Some campaign \<Rightarrow>
          seq (ops_uow e (modify (set_campaign_state campaign CampaignReady))) (\<lambda>_. ret (Ends Leasing.ReadyForReview)))"

definition after_discovery :: "acq_env \<Rightarrow> job_context \<Rightarrow> checkpoint \<Rightarrow> outcome job" where
  "after_discovery e cx ck =
     seq (at_phase DISCOVERING (discover e cx) ck) (\<lambda>ck.
     seq (at_phase ENRICHING (enrich e cx) ck) (\<lambda>ck.
     seq (at_phase VERIFYING (verify e cx) ck) (\<lambda>ck.
     seq (at_phase SCORING (score e cx) ck) (\<lambda>ck.
     seq (at_phase QUALIFYING (qualify e cx) ck) (\<lambda>ck. conclude e cx ck)))))"

definition manus_phase :: "acq_env \<Rightarrow> job_context \<Rightarrow> checkpoint \<Rightarrow> outcome job" where
  "manus_phase e cx ck =
     seq (run_stage e cx ck) (\<lambda>out.
       case out of None \<Rightarrow> ret PARKED
       | Some ck1 \<Rightarrow> seq (cancel_requested cx) (\<lambda>asked.
           if asked then seq (cancelled e cx) (\<lambda>_. ret (Ends Leasing.Cancelled))
           else let ck2 = ck1\<lparr>ck_phase := ENRICHING, ck_enrich_index := 0\<rparr> in
             seq (ops_checkpoint e cx ck2 (Some Leasing.Enriching)) (\<lambda>_. after_discovery e cx ck2)))"

text \<open>The first run has no checkpoint.\<close>

definition handler :: "acq_env \<Rightarrow> job_context \<Rightarrow> checkpoint option \<Rightarrow> outcome job" where
  "handler e cx saved =
     seq (case saved of None \<Rightarrow> plan e cx | Some ck \<Rightarrow> at_phase PLANNING (\<lambda>_. plan e cx) ck) (\<lambda>ck.
       if ck_phase ck = MANUS then manus_phase e cx ck else after_discovery e cx ck)"

end
