(* ===== verification/AcqSteps.thy ===== *)
theory AcqSteps
  imports AcqPipeline
begin

section \<open>What every phase of the pipeline keeps\<close>

text \<open>
  The interface between the phases and the tables: a property of the tenant database that every statement the phases
  issue keeps is kept by every transaction, hence, a failed transaction being rolled back, by every run of the handler,
  however it ends.
\<close>

lemma keeps_option: "keeps I m \<Longrightarrow> (\<And>y. keeps I (k y)) \<Longrightarrow> keeps I (case x of None \<Rightarrow> m | Some y \<Rightarrow> k y)"
  by (cases x) auto

lemma snd_on_db: "snd (on_db m w) = w\<lparr>w_db := snd (m (w_db w))\<rparr>"
  by (auto simp: on_db_def split: prod.splits sum.splits)

lemmas keeps_rules = keeps_seq keeps_if keeps_for_each keeps_option keeps_ret keeps_throw keeps_gets

lemma triple_at_phase: "triple P (f ck) (\<lambda>_. P) E \<Longrightarrow> triple P (at_phase p f ck) (\<lambda>_. P) E"
  by (auto simp: at_phase_def intro: triple_ret)

subsection \<open>Runs of the handler\<close>

text \<open>
  What every step keeps of the world, with \<open>E\<close> for the world an exception leaves and \<open>F\<close> for the one a parked job leaves.
\<close>

definition ends_well :: "(world \<Rightarrow> bool) \<Rightarrow> outcome \<Rightarrow> world \<Rightarrow> bool" where
  "ends_well F x w \<longleftrightarrow> (case x of PARKED \<Rightarrow> F w | Ends st \<Rightarrow> st \<in> {Leasing.ReadyForReview, PartialSuccess, Leasing.Cancelled})"

locale job_contract =
  fixes e :: acq_env
    and cx :: job_context
    and P :: "world \<Rightarrow> bool"
    and F :: "world \<Rightarrow> bool"
    and E :: "stop \<Rightarrow> world \<Rightarrow> bool"
  assumes crash: "P w \<Longrightarrow> E (Crash f) w"
    and counters: "P w \<Longrightarrow> P (w\<lparr>w_tick := n\<rparr>)" "P w \<Longrightarrow> P (w\<lparr>w_polls := n\<rparr>)"
    and saving: "st \<noteq> None \<longrightarrow> the st \<in> set ACTIVE_STATES \<Longrightarrow>
      triple P (on_rt (save_checkpoint now (cx_job cx) (cx_token cx) (cx_version cx) doc st secs)) (\<lambda>_. P) E"
    and phasing: "ph \<in> set ACTIVE_STATES \<Longrightarrow>
      triple P (on_rt (set_phase now (cx_job cx) (cx_token cx) (cx_version cx) ph secs)) (\<lambda>_. P) E"
    and parking: "triple P (on_rt (park now (cx_job cx) (cx_token cx) (cx_version cx) why)) (\<lambda>_ w. P w \<and> F w) E"
    and beating: "triple P (on_rt (lift (heartbeat now (cx_job cx) (cx_token cx) secs))) (\<lambda>_. P) E"
    and cancelling: "triple P (on_rt (lift (apply_cancellation now (cx_job cx) (cx_token cx) (cx_version cx)))) (\<lambda>_. P) E"
      "triple P (on_rt (modify (finish_cancelled now (cx_job cx) (cx_token cx) (cx_version cx)))) (\<lambda>_. P) E"
    and planning: "triple P (on_db (uow now (plan_tx cx))) (\<lambda>_. P) E"
    and discovering: "triple P (on_db (uow now (discover_query e cx ck q))) (\<lambda>_. P) E"
    and enriching: "triple P (on_db (uow now (enrich_company e cx ck c))) (\<lambda>_. P) E"
    and verifying: "triple P (on_db (uow now (verify_company e cx ck c))) (\<lambda>_. P) E"
    and scoring_one: "triple P (on_db (uow now (score_company e cx ck c))) (\<lambda>_. P) E"
    and qualifying: "triple P (on_db (uow now (qualify_company e cx ck c))) (\<lambda>_. P) E"
    and readying: "triple P (on_db (uow now (modify (set_campaign_state camp CampaignReady)))) (\<lambda>_. P) E"
    and ingesting: "triple P (on_db (uow now (ingest_manus (env.truncate e) cx ck mcs ids))) (\<lambda>_. P) E"
begin

lemma before: "triple P m (\<lambda>_. P) E \<Longrightarrow> (\<And>x. triple P (k x) Q E) \<Longrightarrow> triple P (seq m k) Q E"
  by (rule triple_seq)

lemmas job_rules = before triple_if triple_option

lemma clock: "(\<And>now. triple P (m now) Q E) \<Longrightarrow> triple P (seq (read_clock e) m) Q E"
  by (rule triple_seq [where R = "\<lambda>_. P"]) (auto simp: triple_def read_clock_def counters)

lemma units_of_work:
  "triple P (ops_uow e (plan_tx cx)) (\<lambda>_. P) E" "triple P (ops_uow e (discover_query e cx ck q)) (\<lambda>_. P) E"
  "triple P (ops_uow e (qualify_company e cx ck c)) (\<lambda>_. P) E"
  "triple P (ops_uow e (modify (set_campaign_state camp CampaignReady))) (\<lambda>_. P) E"
  "triple P (ops_uow e (ingest_manus (env.truncate e) cx ck mcs ids)) (\<lambda>_. P) E"
  unfolding ops_uow_def by (rule clock, rule planning discovering qualifying readying ingesting)+

lemma asking: "triple P (cancel_requested cx) (\<lambda>_. P) E"
  unfolding cancel_requested_def by (rule triple_gets)

lemma runtime_ops:
  "st \<noteq> None \<longrightarrow> the st \<in> set ACTIVE_STATES \<Longrightarrow> triple P (ops_checkpoint e cx ck st) (\<lambda>_. P) E"
  "ph \<in> set ACTIVE_STATES \<Longrightarrow> triple P (ops_set_phase e cx ph) (\<lambda>_. P) E"
  "triple P (ops_park e cx why) (\<lambda>_ w. P w \<and> F w) E"
  "triple P (ops_heartbeat e cx) (\<lambda>_. P) E"
  unfolding ops_checkpoint_def ops_set_phase_def ops_park_def ops_heartbeat_def
  by (rule clock; rule saving phasing parking beating; simp)+

lemma return: "triple P (ret x) (\<lambda>_. P) E"
  by (rule triple_ret)

lemma fails: "triple P (throw (Crash f)) Q E"
  by (rule triple_throw) (rule crash)

lemma stops: "triple P (cancelled e cx) (\<lambda>_. P) E"
  unfolding cancelled_def ops_apply_cancellation_def ops_finish_cancelled_def
  by (intro job_rules clock cancelling asking return)

lemma saves:
  "triple P (ops_checkpoint e cx ck None) (\<lambda>_. P) E"
  "st \<in> set ACTIVE_STATES \<Longrightarrow> triple P (ops_checkpoint e cx ck (Some st)) (\<lambda>_. P) E"
  by (simp_all add: runtime_ops)

lemmas steps = saves runtime_ops(2,4) stops asking return fails units_of_work

lemma each_company:
  assumes work: "\<And>now ck c. triple P (on_db (uow now (work ck c))) (\<lambda>_. P) E"
    and finish: "\<And>ck. triple P (finish ck) (\<lambda>_. P) E"
  shows "triple P (each_company e cx watch work count finish cs ck) (\<lambda>_. P) E"
proof (induction cs arbitrary: ck)
  case (Cons c cs)
  have "triple P (ops_uow e (work ck c)) (\<lambda>_. P) E"
    unfolding ops_uow_def by (rule clock) (rule work)
  then show ?case
    unfolding each_company.simps by (intro job_rules steps Cons.IH)
qed (simp add: finish)

lemma discover_from: "triple P (discover_from e cx qs ck) (\<lambda>_. P) E"
proof (induction qs arbitrary: ck)
  case Nil
  show ?case unfolding discover_from.simps by (intro job_rules steps) (simp add: ACTIVE_STATES_def)
next
  case (Cons q qs)
  show ?case unfolding discover_from.simps Let_def by (intro job_rules steps Cons.IH)
qed

lemma qualify_from: "triple P (qualify_from e cx ck cs) (\<lambda>_. P) E"
proof (induction cs)
  case (Cons c cs)
  show ?case unfolding qualify_from.simps by (intro job_rules steps Cons.IH)
qed (simp add: return)

lemma plan: "triple P (plan e cx) (\<lambda>_. P) E"
proof -
  have "triple P (case out of (doc, refusal) \<Rightarrow> case refusal of Some why \<Rightarrow> throw (Crash (DomainFault why))
       | None \<Rightarrow>
         (let qp = build_query_plan (icp.truncate doc) in
          if is_empty_plan qp then throw (Crash (DomainFault ''ICP produced zero queries''))
          else let ck = first_checkpoint (env.truncate e) cx doc qp in
            seq (ops_checkpoint e cx ck (Some Leasing.Discovering)) (\<lambda>_. ret ck))) (\<lambda>_. P) E" for out
    unfolding Let_def
    by (cases out) (auto intro!: job_rules steps simp: ACTIVE_STATES_def)
  then show ?thesis
    unfolding plan_def by (intro job_rules steps) (simp_all add: ACTIVE_STATES_def)
qed

lemma phases:
  "triple P (discover e cx ck) (\<lambda>_. P) E" "triple P (enrich e cx ck) (\<lambda>_. P) E" "triple P (verify e cx ck) (\<lambda>_. P) E"
  "triple P (score e cx ck) (\<lambda>_. P) E" "triple P (qualify e cx ck) (\<lambda>_. P) E"
  unfolding discover_def enrich_def verify_def score_def qualify_def
  by (intro job_rules steps each_company discover_from qualify_from enriching verifying scoring_one;
      simp add: ACTIVE_STATES_def)+

lemma conclude: "triple P (conclude e cx ck) (\<lambda>x w. P w \<and> ends_well F x w) E"
  unfolding conclude_def
  by (intro job_rules steps triple_ret) (auto simp: ends_well_def)

lemma after_discovery: "triple P (after_discovery e cx ck) (\<lambda>x w. P w \<and> ends_well F x w) E"
  unfolding after_discovery_def by (intro job_rules triple_at_phase phases conclude)

lemma engine_pass: "triple P (\<lambda>w. (Inr (engine (w_polls w)), w\<lparr>w_polls := Suc (w_polls w)\<rparr>)) (\<lambda>_. P) E"
  by (simp add: triple_def counters)

lemma parked: "triple P (seq (ops_park e cx why) (\<lambda>_. ret None)) (\<lambda>x w. P w \<and> (x = None \<longrightarrow> F w)) E"
  by (rule triple_seq [OF runtime_ops(3)]) (simp add: triple_ret)

lemma unparked: "triple P (ret (Some ck)) (\<lambda>x w. P w \<and> (x = None \<longrightarrow> F w)) E"
  by (rule triple_ret) simp

lemma run_stage: "triple P (run_stage e cx ck) (\<lambda>x w. P w \<and> (x = None \<longrightarrow> F w)) E"
  unfolding run_stage_def Let_def
  by (intro job_rules engine_pass steps parked unparked)

lemma manus: "triple P (manus_phase e cx ck) (\<lambda>x w. P w \<and> ends_well F x w) E"
proof -
  have park: "triple (\<lambda>w. P w \<and> F w) (ret PARKED) (\<lambda>x w. P w \<and> ends_well F x w) E"
    by (rule triple_ret) (simp add: ends_well_def)
  have more: "triple P (seq (cancel_requested cx) (\<lambda>asked. if asked then seq (cancelled e cx) (\<lambda>_. ret (Ends Leasing.Cancelled))
       else let ck2 = ck1\<lparr>ck_phase := ENRICHING, ck_enrich_index := 0\<rparr> in
             seq (ops_checkpoint e cx ck2 (Some Leasing.Enriching)) (\<lambda>_. after_discovery e cx ck2)))
       (\<lambda>x w. P w \<and> ends_well F x w) E" for ck1
    unfolding Let_def
    by (intro job_rules steps after_discovery triple_ret) (auto simp: ends_well_def ACTIVE_STATES_def)
  show ?thesis
    unfolding manus_phase_def
    by (rule triple_seq [OF run_stage], rule triple_option)
      (auto intro: triple_pre [OF park] triple_pre [OF more])
qed

theorem handler: "triple P (handler e cx saved) (\<lambda>x w. P w \<and> ends_well F x w) E"
  unfolding handler_def
  by (intro job_rules triple_at_phase plan manus after_discovery)

end

subsection \<open>Properties of the tenant database\<close>

text \<open>Statements of the database driver raise its exceptions.\<close>

abbreviation update :: "(adb \<Rightarrow> adb) \<Rightarrow> unit sql" where
  "update \<equiv> modify"

abbreviation insert_new :: "(adb \<Rightarrow> bool \<times> adb) \<Rightarrow> bool sql" where
  "insert_new \<equiv> lift"

locale tenant_contract =
  fixes e :: acq_env
    and I :: "adb \<Rightarrow> bool"
  assumes kept_fresh_id: "keeps I fresh_id"
    and kept_observation: "keeps I (update (add_observation c f v s m q))"
    and kept_identifier: "keeps I (update (\<lambda>d. case domain of None \<Rightarrow> d | Some x \<Rightarrow> add_identifier c k x d))"
    and kept_intent: "keeps I (update (add_intent_signal c k t src))"
    and kept_enrichment: "keeps I (update (record_enrichment c ok fl cost))"
    and kept_verification: "keeps I (update (record_verification c k r st provider))"
    and kept_scoring: "keeps I (update (add_scoring_record c sc why))"
    and kept_completion: "keeps I (update (emit VERIFICATION_COMPLETED ''contact'' c []))"
    and kept_campaign: "keeps I (update (set_campaign_state c cst))"
    and kept_cache: "keeps I (update (\<lambda>d. cache_verification key text ev (db_now d + n) d))"
    and kept_raw: "keeps I (insert_new (add_raw_result jb qt u title sn))"
    and kept_visited: "keeps I (insert_new (mark_visited (env.truncate e) jb u))"
    and kept_gateway: "keeps I (gateway_call e ck cap rq)"
    and kept_source: "keeps I (get_or_create_source k w prov h)"
    and kept_company: "keeps I (company_of (env.truncate e) country industry biz domain city kind)"
    and kept_claim: "keeps I (upsert_claim c f v s m q)"
    and kept_email: "keeps I (keep_email (env.truncate e) c u src u')"
    and kept_phone: "keeps I (keep_phone (env.truncate e) c u src u')"
    and kept_person: "keeps I (store_person (env.truncate e) c pn)"
    and kept_decrypt: "keeps I (decrypt ref ''verification'' actor req)"
    and kept_plan: "keeps I (plan_tx cx)"
    and kept_qualify: "keeps I (qualify_company e cx ck c)"
    and rollback: "I d \<Longrightarrow> I (d\<lparr>db_gateway := g\<rparr>)"
    and begin_tx: "I d \<Longrightarrow> I (d\<lparr>db_now := now\<rparr>)"
begin

lemmas kept = kept_fresh_id kept_observation kept_identifier kept_intent kept_enrichment kept_verification kept_scoring
  kept_completion kept_campaign kept_cache kept_raw kept_visited kept_gateway kept_source kept_company kept_claim
  kept_email kept_phone kept_person kept_decrypt kept_plan kept_qualify

text \<open>The transactions.\<close>

lemma ingest: "keeps I (ingest_result (env.truncate e) job country industry query city raw)"
  unfolding ingest_result_def keep_result_def Let_def
  by (intro keeps_rules kept) (auto intro: kept)

lemma ingest_all: "keeps I (ingest_all (env.truncate e) job country industry query city rs ids)"
  by (induction rs arbitrary: ids) (auto intro!: keeps_seq ingest)

lemma ingest_manus: "keeps I (ingest_manus (env.truncate e) cx ck cs ids)"
  by (induction cs arbitrary: ids) (auto intro!: keeps_seq ingest)

lemma discover_query: "keeps I (discover_query e cx ck q)"
  unfolding discover_query_def by (intro keeps_rules kept ingest_all)

lemma enrich_company: "keeps I (enrich_company e cx ck c)"
  unfolding enrich_company_def store_contacts_def
  by (intro keeps_rules) (auto intro!: keeps_rules kept split: prod.splits)

lemma look_up: "keeps I (look_up_email e cx ck email)"
  unfolding look_up_email_def
  by (intro keeps_rules kept) (auto intro!: keeps_rules kept split: prod.splits)

lemma verify_contact: "keeps I (verify_contact e cx ck c)"
  unfolding verify_contact_def Let_def
  by (intro keeps_rules kept look_up) (auto intro!: keeps_rules kept split: prod.splits)

lemma verify_company: "keeps I (verify_company e cx ck c)"
  unfolding verify_company_def by (intro keeps_rules verify_contact)

lemma best_cached: "keeps I (best_cached e cx cs best)"
  by (induction cs arbitrary: best) (auto intro!: keeps_rules kept)

lemma score_company: "keeps I (score_company e cx ck c)"
  unfolding score_company_def Let_def
  by (intro keeps_rules best_cached) (auto intro!: kept split: prod.splits)

lemmas kept_work = discover_query enrich_company verify_company score_company kept_plan kept_qualify kept_campaign
  ingest_manus

text \<open>A transaction that raises leaves only the calls it made.\<close>

lemma transaction:
  assumes "keeps I m" and "I d"
  shows "I (snd (uow now m d))"
  using keepsD [OF assms(1) begin_tx [OF assms(2)]] rollback [OF assms(2)]
  by (auto simp: uow_def split: prod.splits sum.splits)

lemma committed: "keeps I m \<Longrightarrow> triple (\<lambda>w. I (w_db w)) (on_db (uow now m)) (\<lambda>_ w. I (w_db w)) (\<lambda>_ w. I (w_db w))"
  by (rule triple_same) (simp add: snd_on_db transaction)

lemma runtime: "triple (\<lambda>w. I (w_db w)) (on_rt m) (\<lambda>_ w. I (w_db w) \<and> True) (\<lambda>_ w. I (w_db w))"
  by (auto simp: triple_def on_rt_def split: prod.splits sum.splits)

end

sublocale tenant_contract \<subseteq> job: job_contract e cx "\<lambda>w. I (w_db w)" "\<lambda>_. True" "\<lambda>_ w. I (w_db w)" for cx
  by unfold_locales (simp_all add: runtime [simplified] runtime kept_work committed)

context tenant_contract begin

theorem run_keeps: "I (w_db w) \<Longrightarrow> I (w_db (snd (handler e cx saved w)))"
  by (rule triple_snd [OF job.handler]) auto

end

end
