(* ===== verification/AcqInvariant.thy ===== *)
theory AcqInvariant
  imports AcqSteps
begin

section \<open>What the acquisition database keeps\<close>

text \<open>
  The invariant of the tables, and that every statement of the repositories and every phase of the pipeline keeps
  it.  An error inside a unit of work need not keep it: the transaction is rolled back.
\<close>

text \<open>The value is the masked form of a secret in the vault.\<close>

definition masks_secret :: "string \<Rightarrow> vault_row list \<Rightarrow> utext option \<Rightarrow> bool" where
  "masks_secret kind vault m \<longleftrightarrow> m = None \<or> (\<exists>r \<in> set vault. va_kind r = kind \<and> mask_of kind (va_value r) = m)"

definition unique_domains :: "env \<Rightarrow> company list \<Rightarrow> bool" where
  "unique_domains e cs \<longleftrightarrow>
     distinct (List.map_filter (\<lambda>c. if co_merged c = None then map_option (lower (en_u e)) (co_domain c) else None) cs)"

definition unique_claims :: "claim list \<Rightarrow> bool" where
  "unique_claims cs \<longleftrightarrow> distinct (map (\<lambda>c. (cl_company c, cl_field c)) (filter (\<lambda>c. cl_state c \<noteq> Retired) cs))"

definition fresh_keys :: "('r \<Rightarrow> nat) \<Rightarrow> 'r list \<Rightarrow> nat \<Rightarrow> bool" where
  "fresh_keys key t n \<longleftrightarrow> distinct (map key t) \<and> (\<forall>r \<in> set t. key r < n)"

definition unique_secrets :: "vault_row list \<Rightarrow> bool" where
  "unique_secrets vs \<longleftrightarrow> distinct (map (\<lambda>r. (va_kind r, va_value r)) vs)"

text \<open>Email and phone identities name a vault row and show its mask.\<close>

definition identity_ok :: "vault_row list \<Rightarrow> identity_row \<Rightarrow> bool" where
  "identity_ok vault x \<longleftrightarrow> id_kind x \<in> {''email'', ''phone''} \<longrightarrow>
     (\<exists>r \<in> set vault. id_ref x = Some (va_id r) \<and> va_kind r = id_kind x \<and> id_public x = mask_of (id_kind x) (va_value r)
       \<and> id_public x \<noteq> None)"

definition lead_ok :: "adb \<Rightarrow> lead \<Rightarrow> bool" where
  "lead_ok d l \<longleftrightarrow>
     le_company l \<in> co_id ` set (db_companies d) \<and> le_decision l \<noteq> Rejected
     \<and> masks_secret ''email'' (db_vault d) (le_email l) \<and> masks_secret ''phone'' (db_vault d) (le_phone l)
     \<and> (\<exists>q \<in> set (db_qualifications d). ql_company q = le_company l \<and> ql_campaign q = le_campaign l
          \<and> ql_decision q = le_decision l)"

definition access_ok :: "vault_row list \<Rightarrow> access \<Rightarrow> bool" where
  "access_ok vault a \<longleftrightarrow> ac_ref a \<in> va_id ` set vault \<and> ac_purpose a \<in> set ALLOWED_PURPOSES"

definition acq_ok :: "env \<Rightarrow> adb \<Rightarrow> bool" where
  "acq_ok e d \<longleftrightarrow>
     fresh_keys co_id (db_companies d) (db_next d) \<and> unique_domains e (db_companies d)
     \<and> fresh_keys cl_id (db_claims d) (db_next d) \<and> unique_claims (db_claims d)
     \<and> fresh_keys va_id (db_vault d) (db_next d) \<and> unique_secrets (db_vault d)
     \<and> fresh_keys le_id (db_leads d) (db_next d)
     \<and> list_all (identity_ok (db_vault d)) (db_identities d)
     \<and> list_all (lead_ok d) (db_leads d)
     \<and> list_all (access_ok (db_vault d)) (db_access d)"

lemma fresh_keys_Suc: "fresh_keys key t n \<Longrightarrow> fresh_keys key t (Suc n)"
  by (auto simp: fresh_keys_def)

lemma fresh_keys_append: "fresh_keys key t n \<Longrightarrow> key r = n \<Longrightarrow> fresh_keys key (t @ [r]) (Suc n)"
  by (auto simp: fresh_keys_def)

lemma identity_ok_append: "identity_ok vault x \<Longrightarrow> identity_ok (vault @ [r]) x"
  by (auto simp: identity_ok_def)

lemma masks_secret_append: "masks_secret k vault m \<Longrightarrow> masks_secret k (vault @ [r]) m"
  by (auto simp: masks_secret_def)

lemma access_ok_append: "access_ok vault a \<Longrightarrow> access_ok (vault @ [r]) a"
  by (auto simp: access_ok_def)

text \<open>Leads look at companies, vault and qualifications only, and lose nothing when these grow.\<close>

lemma lead_ok_mono:
  assumes "lead_ok d l" and "set (db_companies d) \<subseteq> set (db_companies d')"
    and "set (db_vault d) \<subseteq> set (db_vault d')" and "set (db_qualifications d) \<subseteq> set (db_qualifications d')"
  shows "lead_ok d' l"
  using assms unfolding lead_ok_def masks_secret_def by blast

text \<open>Statements that touch none of the tables the invariant is about.\<close>

definition same_core :: "adb \<Rightarrow> adb \<Rightarrow> bool" where
  "same_core d d' \<longleftrightarrow> db_companies d' = db_companies d \<and> db_claims d' = db_claims d \<and> db_vault d' = db_vault d
     \<and> db_leads d' = db_leads d \<and> db_identities d' = db_identities d \<and> db_access d' = db_access d
     \<and> db_next d \<le> db_next d' \<and> set (db_qualifications d) \<subseteq> set (db_qualifications d')"

lemma fresh_keys_le: "fresh_keys key t n \<Longrightarrow> n \<le> m \<Longrightarrow> fresh_keys key t m"
  by (auto simp: fresh_keys_def)

lemma acq_ok_same_core:
  assumes "acq_ok e d" and "same_core d d'"
  shows "acq_ok e d'"
proof -
  have "lead_ok d' l" if "lead_ok d l" for l
    using that assms(2) by (auto simp: same_core_def intro: lead_ok_mono)
  then show ?thesis
    using assms by (auto simp: acq_ok_def same_core_def list_all_iff intro: fresh_keys_le)
qed

lemma same_core_modify: "(\<And>d. same_core d (f d)) \<Longrightarrow> keeps (acq_ok e) (modify f)"
  by (rule keeps_modify) (rule acq_ok_same_core)

named_theorems db_keeps "statements keep the invariant"

lemma keeps_fresh_id [db_keeps]: "keeps (acq_ok e) fresh_id"
  by (rule keepsI) (auto simp: fresh_id_def same_core_def intro: acq_ok_same_core)

lemma keeps_observation [db_keeps]: "keeps (acq_ok e) (modify (add_observation c f v s m q))"
  by (rule same_core_modify) (simp add: add_observation_def same_core_def)

lemma keeps_identifier [db_keeps]: "keeps (acq_ok e) (modify (\<lambda>d. case domain of None \<Rightarrow> d | Some x \<Rightarrow> add_identifier c k x d))"
  by (rule same_core_modify) (auto simp: add_identifier_def same_core_def split: option.splits)

lemma keeps_intent [db_keeps]: "keeps (acq_ok e) (modify (add_intent_signal c k m s))"
  by (rule same_core_modify) (simp add: add_intent_signal_def same_core_def)

lemma keeps_enrichment [db_keeps]: "keeps (acq_ok e) (modify (record_enrichment c ok f q))"
  by (rule same_core_modify) (simp add: record_enrichment_def same_core_def)

lemma keeps_verification [db_keeps]: "keeps (acq_ok e) (modify (record_verification c k r st p))"
  by (rule same_core_modify) (simp add: record_verification_def same_core_def)

lemma keeps_scoring [db_keeps]: "keeps (acq_ok e) (modify (add_scoring_record c sc why))"
  by (rule same_core_modify) (simp add: add_scoring_record_def same_core_def)

lemma keeps_decision [db_keeps]: "keeps (acq_ok e) (modify (record_decision st s op v r b))"
  by (rule same_core_modify) (simp add: record_decision_def same_core_def)

lemma keeps_emit [db_keeps]: "keeps (acq_ok e) (modify (emit t a s i))"
  by (rule same_core_modify) (simp add: emit_def same_core_def)

lemma keeps_campaign_state [db_keeps]: "keeps (acq_ok e) (modify (set_campaign_state c st))"
  by (rule same_core_modify) (simp add: set_campaign_state_def same_core_def)

lemma keeps_qualification [db_keeps]: "keeps (acq_ok e) (modify (add_qualification_record c k dec why i p))"
  by (rule same_core_modify) (auto simp: add_qualification_record_def same_core_def)

lemma keeps_cache [db_keeps]: "keeps (acq_ok e) (modify (\<lambda>d. cache_verification k st ev (db_now d + n) d))"
  by (rule same_core_modify) (simp add: cache_verification_def same_core_def Let_def)

lemma keeps_social [db_keeps]: "keeps (acq_ok e) (modify (attach_social c v))"
  by (rule keeps_modify)
    (auto simp: attach_social_def attach_def acq_ok_def list_all_iff identity_ok_def lead_ok_def)

lemma keeps_raw [db_keeps]: "keeps (acq_ok e) (lift (add_raw_result j q u t s))"
  by (rule keepsI) (auto simp: lift_def add_raw_result_def same_core_def intro: acq_ok_same_core split: if_splits)

lemma keeps_visited [db_keeps]: "keeps (acq_ok e) (lift (mark_visited e' j u))"
  by (rule keepsI) (auto simp: lift_def mark_visited_def same_core_def intro: acq_ok_same_core split: if_splits)

lemma keeps_gateway [db_keeps]: "keeps (acq_ok e) (gateway_call e' ck cap q)"
  by (rule keepsI) (auto simp: gateway_call_def same_core_def intro: acq_ok_same_core split: prod.splits)

lemma keeps_insert_source: "keeps (acq_ok e) (modify (\<lambda>d. d\<lparr>db_sources := f d\<rparr>))"
  by (rule same_core_modify) (simp add: same_core_def)

lemma keeps_source [db_keeps]: "keeps (acq_ok e) (get_or_create_source k u p h)"
proof (rule keepsI)
  fix d x d'
  assume ok: "acq_ok e d" and r: "get_or_create_source k u p h d = (Inr x, d')"
  have new: "keeps (acq_ok e) (seq fresh_id (\<lambda>i. seq (modify (\<lambda>d. d\<lparr>db_sources := db_sources d @
         [\<lparr>so_id = i, so_kind = k, so_url = u, so_provider = p, so_hash = h\<rparr>]\<rparr>)) (\<lambda>_. ret i)))"
    by (intro keeps_rules db_keeps keeps_insert_source keeps_ret)
  show "acq_ok e d'"
    using r ok keepsD [OF new ok] by (auto simp: get_or_create_source_def split: option.splits if_splits)
qed

lemma keeps_contact [db_keeps]: "keeps (acq_ok e) (find_or_create_contact e' c n r s)"
proof (rule keepsI)
  fix d x d'
  assume ok: "acq_ok e d" and run: "find_or_create_contact e' c n r s d = (Inr x, d')"
  have new: "keeps (acq_ok e) (seq fresh_id (\<lambda>i. seq (modify (\<lambda>d. d\<lparr>db_contacts := db_contacts d @
         [\<lparr>ct_id = i, ct_company = c, ct_name = n, ct_role = r, ct_source = s\<rparr>]\<rparr>)) (\<lambda>_. ret i)))"
    by (intro keeps_rules db_keeps keeps_ret same_core_modify) (simp add: same_core_def)
  show "acq_ok e d'"
    using run ok keepsD [OF new ok] by (auto simp: find_or_create_contact_def split: option.splits)
qed

lemma unique_domains_append:
  assumes "unique_domains e cs" and "co_merged c = None"
    and "\<And>x. co_domain c = Some x \<Longrightarrow> \<not> list_ex (same_domain e x) cs"
  shows "unique_domains e (cs @ [c])"
  using assms
  by (cases "co_domain c")
    (auto simp: unique_domains_def map_filter_def same_domain_def list_ex_iff split: option.splits if_splits)

lemma keeps_company_of [db_keeps]: "keeps (acq_ok e) (company_of e country industry biz domain city kind)"
proof (rule keepsI)
  fix d x d'
  assume ok: "acq_ok e d" and run: "company_of e country industry biz domain city kind d = (Inr x, d')"
  show "acq_ok e d'"
  proof (cases "kind = Existing")
    case True
    then show ?thesis using run ok by (auto simp: company_of_def split: option.splits)
  next
    case False
    let ?c = "\<lparr>co_id = db_next d, co_name = or_text (normalize_name (en_u e) biz) biz, co_domain = domain, co_country = country,
      co_industry = industry, co_city = Some city, co_key = none_if_empty (name_key (en_u e) (Some biz)), co_merged = None\<rparr>"
    have d': "d' = d\<lparr>db_next := Suc (db_next d), db_companies := db_companies d @ [?c]\<rparr>"
      and free: "\<And>y. domain = Some y \<Longrightarrow> \<not> list_ex (same_domain e y) (db_companies d)"
      using run False by (auto simp: company_of_def create_company_def fresh_id_def seq_def split: if_splits)
    have "unique_domains e (db_companies d @ [?c])"
      using ok free by (intro unique_domains_append) (auto simp: acq_ok_def)
    moreover have "lead_ok d' l" if "lead_ok d l" for l
      using that by (rule lead_ok_mono) (auto simp: d')
    ultimately show ?thesis
      using ok by (auto simp: acq_ok_def d' list_all_iff intro: fresh_keys_Suc fresh_keys_append)
  qed
qed

lemma fresh_keys_upd: "(\<And>r. key (f r) = key r) \<Longrightarrow> fresh_keys key (upd_where p f t) n = fresh_keys key t n"
proof -
  assume k: "\<And>r. key (f r) = key r"
  have "map key (upd_where p f t) = map key t" by (induction t) (simp_all add: k)
  moreover have "(\<forall>r \<in> set t. key r < n) \<longleftrightarrow> (\<forall>i \<in> set (map key t). i < n)" for t by simp
  ultimately show ?thesis unfolding fresh_keys_def by metis
qed

lemma unique_claims_upd:
  assumes "\<And>c. cl_company (f c) = cl_company c \<and> cl_field (f c) = cl_field c \<and> cl_state (f c) = cl_state c"
  shows "unique_claims (upd_where p f cs) = unique_claims cs"
proof -
  have "map (\<lambda>c. (cl_company c, cl_field c)) (filter (\<lambda>c. cl_state c \<noteq> Retired) (upd_where p f cs))
      = map (\<lambda>c. (cl_company c, cl_field c)) (filter (\<lambda>c. cl_state c \<noteq> Retired) cs)"
    by (induction cs) (use assms in auto)
  then show ?thesis by (simp add: unique_claims_def)
qed

lemma acq_ok_claims:
  "acq_ok e d \<Longrightarrow> fresh_keys cl_id cs n \<Longrightarrow> unique_claims cs \<Longrightarrow> db_next d \<le> n \<Longrightarrow> acq_ok e (d\<lparr>db_claims := cs, db_next := n\<rparr>)"
  by (auto simp: acq_ok_def lead_ok_def list_all_iff intro: fresh_keys_le)

lemma keeps_claim [db_keeps]: "keeps (acq_ok e) (upsert_claim c f v s m q)"
proof (rule keepsI)
  fix d u d'
  assume ok: "acq_ok e d" and run: "upsert_claim c f v s m q d = (Inr u, d')"
  have upd: "acq_ok e (update_claim i (\<lambda>c. c\<lparr>cl_conf := q, cl_source := g c\<rparr>) d)" for i g
    using acq_ok_claims [OF ok, of "upd_where (\<lambda>c. cl_id c = i) (\<lambda>c. c\<lparr>cl_conf := q, cl_source := g c\<rparr>) (db_claims d)" "db_next d"] ok
    by (simp add: update_claim_def fresh_keys_upd unique_claims_upd acq_ok_def)
  from upsert_claim_Inr [OF run] show "acq_ok e d'"
  proof (elim disjE exE conjE)
    assume none: "find (current_claim c f) (db_claims d) = None" and ins: "insert_claim c f v s m q d = (Inr u, d')"
    then have no: "\<forall>x \<in> set (db_claims d). cl_state x \<noteq> Retired \<longrightarrow> (cl_company x, cl_field x) \<noteq> (c, f)"
      by (auto simp: find_None_iff current_claim_def) (metis truth_state.exhaust)
    let ?c = "\<lparr>cl_id = db_next d, cl_company = c, cl_field = f, cl_value = v, cl_source = s, cl_method = m, cl_conf = q,
      cl_state = Proposed\<rparr>"
    have d': "d' = d\<lparr>db_claims := db_claims d @ [?c], db_next := Suc (db_next d)\<rparr>"
      using ins by (auto simp: insert_claim_def split: if_splits)
    have "unique_claims (db_claims d @ [?c])"
      using ok no by (auto simp: unique_claims_def acq_ok_def)
    moreover have "fresh_keys cl_id (db_claims d @ [?c]) (Suc (db_next d))"
      using ok by (intro fresh_keys_append) (auto simp: acq_ok_def)
    ultimately show ?thesis unfolding d' by (intro acq_ok_claims [OF ok]) simp_all
  qed (use ok upd in auto)
qed

subsection \<open>Secrets\<close>

definition has_secret :: "string \<Rightarrow> utext \<Rightarrow> nat \<Rightarrow> adb \<Rightarrow> bool" where
  "has_secret kind v ref d \<longleftrightarrow> (\<exists>r \<in> set (db_vault d). va_id r = ref \<and> va_kind r = kind \<and> va_value r = v)"

lemma acq_ok_vault:
  assumes "acq_ok e d" and "\<forall>r \<in> set (db_vault d). (va_kind r, va_value r) \<noteq> (kind, v)"
  shows "acq_ok e (d\<lparr>db_next := Suc (db_next d), db_vault := db_vault d @ [\<lparr>va_id = db_next d, va_kind = kind, va_value = v\<rparr>]\<rparr>)"
    (is "acq_ok e ?d")
proof -
  have "lead_ok ?d l" if "lead_ok d l" for l
    using that by (rule lead_ok_mono) auto
  then show ?thesis
    using assms
    by (auto simp: acq_ok_def list_all_iff unique_secrets_def
        intro: fresh_keys_Suc fresh_keys_append identity_ok_append access_ok_append)
qed

lemma triple_store:
  "triple (acq_ok e) (store kind v) (\<lambda>ref d. acq_ok e d \<and> has_secret kind v ref d) (\<lambda>_ _. True)"
proof (rule tripleI)
  fix d ref d'
  assume ok: "acq_ok e d" and run: "store kind v d = (Inr ref, d')"
  show "acq_ok e d' \<and> has_secret kind v ref d'"
  proof (cases "find (\<lambda>r. va_kind r = kind \<and> va_value r = v) (db_vault d)")
    case None
    then have "\<forall>r \<in> set (db_vault d). (va_kind r, va_value r) \<noteq> (kind, v)" by (auto simp: find_None_iff)
    from acq_ok_vault [OF ok this] None run show ?thesis
      by (auto simp: store_def fresh_id_def seq_def modify_def ret_def has_secret_def)
  next
    case (Some r)
    with run have "ref = va_id r" "d' = d" by (auto simp: store_def)
    with ok find_SomeD [OF Some] show ?thesis by (auto simp: has_secret_def)
  qed
qed simp

lemma triple_masked: "triple P (masked kind v) (\<lambda>m d. P d \<and> mask_of kind v = Some m) (\<lambda>_ _. True)"
  by (auto simp: masked_def intro!: triple_rules triple_ret triple_throw)

lemma triple_attach:
  assumes "kind \<in> {''email'', ''phone''}"
  shows "triple (\<lambda>d. (acq_ok e d \<and> has_secret kind v ref d) \<and> mask_of kind v = Some m)
    (modify (attach c kind (Some m) (Some ref))) (\<lambda>_. acq_ok e) (\<lambda>_ _. True)"
proof (rule triple_modify)
  fix d
  assume d: "(acq_ok e d \<and> has_secret kind v ref d) \<and> mask_of kind v = Some m"
  then have "identity_ok (db_vault d) \<lparr>id_contact = c, id_kind = kind, id_public = Some m, id_ref = Some ref\<rparr>"
    by (auto simp: identity_ok_def has_secret_def)
  with d show "acq_ok e (attach c kind (Some m) (Some ref) d)"
    by (auto simp: attach_def acq_ok_def list_all_iff lead_ok_def)
qed

lemma keeps_secret:
  assumes "kind \<in> {''email'', ''phone''}" and "\<And>m. keeps (acq_ok e) (k m)"
  shows "keeps (acq_ok e) (seq (store kind v) (\<lambda>ref. seq (masked kind v) (\<lambda>m.
    seq (modify (attach c kind (Some m) (Some ref))) (\<lambda>_. k m))))"
  unfolding keeps_def
  by (rule triple_seq [OF triple_store], rule triple_seq [OF triple_masked], rule triple_seq [OF triple_attach [OF assms(1)]])
    (rule assms(2) [unfolded keeps_def])

lemma seq_modify_ret: "seq (modify f) (\<lambda>_. ret ()) = modify f"
  by (simp add: act_defs fun_eq_iff)

lemmas keeps_last_secret = keeps_secret [where k = "\<lambda>_. ret ()", unfolded seq_modify_ret]

lemma keeps_email [db_keeps]: "keeps (acq_ok e) (keep_email e' c t s v)"
  unfolding keep_email_def attach_email_ref_def
  by (intro keeps_seq [OF keeps_contact] keeps_secret db_keeps) simp

lemma keeps_phone [db_keeps]: "keeps (acq_ok e) (keep_phone e' c t s v)"
  unfolding keep_phone_def attach_phone_ref_def
  by (intro keeps_seq [OF keeps_contact] keeps_last_secret) auto

lemma keeps_person [db_keeps]: "keeps (acq_ok e) (store_person e' c p)"
  unfolding store_person_def attach_email_ref_def attach_phone_ref_def
  by (intro keeps_seq keeps_if keeps_contact keeps_secret keeps_last_secret db_keeps keeps_ret) auto

lemma keeps_decrypt [db_keeps]: "keeps (acq_ok e) (decrypt r p a q)"
proof (rule keepsI)
  fix d x d'
  assume ok: "acq_ok e d" and run: "decrypt r p a q d = (Inr x, d')"
  then obtain v where v: "row_of va_id r (db_vault d) = Some v" "p \<in> set ALLOWED_PURPOSES"
    and d': "d' = d\<lparr>db_access := db_access d @ [\<lparr>ac_ref = r, ac_purpose = p, ac_actor = a, ac_request = q\<rparr>]\<rparr>"
    by (auto simp: decrypt_def split: if_splits option.splits)
  have "access_ok (db_vault d) \<lparr>ac_ref = r, ac_purpose = p, ac_actor = a, ac_request = q\<rparr>"
    using row_of_Some [OF v(1)] v(2) by (auto simp: access_ok_def)
  with ok show "acq_ok e d'" by (auto simp: acq_ok_def d' lead_ok_def list_all_iff)
qed

subsection \<open>Leads\<close>

lemma max_by_mem: "max_by key xs = Some x \<Longrightarrow> x \<in> set xs"
  by (induction xs arbitrary: x) (auto split: option.splits if_splits)

lemma map_filter_mem: "y \<in> set (List.map_filter f xs) \<longleftrightarrow> (\<exists>x \<in> set xs. f x = Some y)"
  by (force simp: map_filter_def)

definition contact_masked :: "vault_row list \<Rightarrow> contact_view \<Rightarrow> bool" where
  "contact_masked vault c \<longleftrightarrow>
     masks_secret ''email'' vault (lc_email_masked c) \<and> masks_secret ''phone'' vault (lc_phone_masked c)
     \<and> (\<forall>ref. lc_email_ref c = Some ref \<longrightarrow> (\<exists>r \<in> set vault. va_id r = ref \<and> va_kind r = ''email''))"

lemma identity_mask:
  assumes "acq_ok e d" and "x \<in> set (identities_of c kind d)" and "kind \<in> {''email'', ''phone''}"
  shows "masks_secret kind (db_vault d) (id_public x)
    \<and> (\<exists>r \<in> set (db_vault d). id_ref x = Some (va_id r) \<and> va_kind r = kind)"
proof -
  have "identity_ok (db_vault d) x" "id_kind x = kind"
    using assms(1,2) by (auto simp: acq_ok_def list_all_iff identities_of_def)
  with assms(3) show ?thesis by (auto simp: identity_ok_def masks_secret_def)
qed

lemma contacts_masked:
  assumes "acq_ok e d"
  shows "list_all (contact_masked (db_vault d)) (list_company_contacts e' c d)"
proof -
  have "masks_secret kind (db_vault d) (max_by id (List.map_filter id_public (identities_of k kind d)))"
    if "kind \<in> {''email'', ''phone''}" for kind k
  proof (cases "max_by id (List.map_filter id_public (identities_of k kind d))")
    case (Some m)
    then obtain x where "x \<in> set (identities_of k kind d)" "id_public x = Some m"
      using max_by_mem [OF Some] by (auto simp: map_filter_mem)
    with identity_mask [OF assms _ that] Some show ?thesis by metis
  qed (simp add: masks_secret_def)
  moreover have "\<exists>r \<in> set (db_vault d). va_id r = ref \<and> va_kind r = ''email''"
    if "max_by (en_uuid e') (List.map_filter id_ref (identities_of k ''email'' d)) = Some ref" for ref k
    using identity_mask [OF assms, of _ k "''email''"] max_by_mem [OF that] by (force simp: map_filter_mem)
  ultimately show ?thesis
    by (auto simp: list_company_contacts_def list_all_iff contact_masked_def Let_def)
qed

definition outline_masked :: "vault_row list \<Rightarrow> outline \<Rightarrow> bool" where
  "outline_masked vault out \<longleftrightarrow> masks_secret ''email'' vault (ou_email out) \<and> masks_secret ''phone'' vault (ou_phone out)"

lemma decrypt_value:
  assumes "decrypt r p a q d = (Inr v, d')"
  shows "(\<exists>x \<in> set (db_vault d). va_id x = r \<and> va_value x = v) \<and> db_vault d' = db_vault d \<and> db_companies d' = db_companies d"
  using assms row_of_Some [where key = va_id and t = "db_vault d"]
  by (auto simp: decrypt_def split: if_splits option.splits)

lemma triple_decrypt:
  "triple (\<lambda>d. acq_ok e d \<and> db_vault d = vault \<and> db_companies d = comps) (decrypt r p a q)
     (\<lambda>v d. (acq_ok e d \<and> db_vault d = vault \<and> db_companies d = comps) \<and> (\<exists>x \<in> set vault. va_id x = r \<and> va_value x = v)) (\<lambda>_ _. True)"
proof (rule tripleI)
  fix d v d'
  assume d: "acq_ok e d \<and> db_vault d = vault \<and> db_companies d = comps" and run: "decrypt r p a q d = (Inr v, d')"
  show "(acq_ok e d' \<and> db_vault d' = vault \<and> db_companies d' = comps) \<and> (\<exists>x \<in> set vault. va_id x = r \<and> va_value x = v)"
    using keepsD [OF keeps_decrypt _ run, of e] decrypt_value [OF run] d by blast
qed simp

lemma same_id: "fresh_keys va_id vault n \<Longrightarrow> x \<in> set vault \<Longrightarrow> y \<in> set vault \<Longrightarrow> va_id x = va_id y \<Longrightarrow> x = y"
  by (auto simp: fresh_keys_def distinct_map inj_on_def)

lemma masked_adds:
  "outline_masked vault out \<Longrightarrow> contact_masked vault c \<Longrightarrow> outline_masked vault (add_phone c out)"
  "outline_masked vault out \<Longrightarrow> outline_masked vault (add_status st out)"
  "outline_masked vault out \<Longrightarrow> contact_masked vault c \<Longrightarrow> outline_masked vault (add_email c out)"
  by (auto simp: add_phone_def add_status_def add_email_def outline_masked_def contact_masked_def split: option.splits)

lemma triple_unmasked:
  assumes "outline_masked vault out" and "r \<in> set vault" "va_id r = ref" "va_kind r = ''email''"
  shows "triple (\<lambda>d. acq_ok e d \<and> db_vault d = vault \<and> db_companies d = comps) (unmasked_email e' cx ref out)
    (\<lambda>out d. (acq_ok e d \<and> db_vault d = vault \<and> db_companies d = comps) \<and> outline_masked vault out) (\<lambda>_ _. True)"
proof (rule tripleI)
  fix d o1 d'
  assume d: "acq_ok e d \<and> db_vault d = vault \<and> db_companies d = comps" and run: "unmasked_email e' cx ref out d = (Inr o1, d')"
  from run obtain v where dec: "decrypt ref ''verification'' (worker_name cx) (Some (cx_job cx)) d = (Inr v, d')"
    and o1: "ou_phone o1 = ou_phone out" "ou_email o1 = mask_of ''email'' v" "mask_of ''email'' v \<noteq> None"
    by (auto simp: unmasked_email_def seq_def gets_def masked_def ret_def throw_def
        split: prod.splits sum.splits option.splits)
  have "va_value r = v"
  proof -
    obtain x where x: "x \<in> set vault" "va_id x = ref" "va_value x = v"
      using decrypt_value [OF dec] d by blast
    have "fresh_keys va_id vault (db_next d)" using d by (auto simp: acq_ok_def)
    from same_id [OF this x(1) assms(2)] x assms(3) show ?thesis by simp
  qed
  then have "outline_masked vault o1"
    using assms o1 by (auto simp: outline_masked_def masks_secret_def)
  with keepsD [OF keeps_decrypt _ dec, of e] decrypt_value [OF dec] d
  show "(acq_ok e d' \<and> db_vault d' = vault \<and> db_companies d' = comps) \<and> outline_masked vault o1" by blast
qed simp

lemma triple_outline:
  assumes "list_all (contact_masked vault) cs" and "outline_masked vault out"
  shows "triple (\<lambda>d. acq_ok e d \<and> db_vault d = vault \<and> db_companies d = comps) (outline_of e' cx recorded cs out)
    (\<lambda>out d. (acq_ok e d \<and> db_vault d = vault \<and> db_companies d = comps) \<and> outline_masked vault out) (\<lambda>_ _. True)"
  using assms
proof (induction cs arbitrary: out)
  case Nil
  then show ?case by (auto intro: triple_ret)
next
  case (Cons c cs)
  have c: "contact_masked vault c" and cs: "list_all (contact_masked vault) cs" using Cons.prems by auto
  show ?case
    unfolding outline_of.simps Let_def
  proof (rule triple_seq)
    show "triple (\<lambda>d. acq_ok e d \<and> db_vault d = vault \<and> db_companies d = comps) (case lc_email_ref c of None \<Rightarrow> ret (add_phone c out)
        | Some ref \<Rightarrow> if lc_email_masked c = None \<and> ou_email (add_status (recorded (lc_id c)) (add_phone c out)) = None
            then unmasked_email e' cx ref (add_status (recorded (lc_id c)) (add_phone c out))
            else ret (add_email c (add_status (recorded (lc_id c)) (add_phone c out))))
      (\<lambda>out d. (acq_ok e d \<and> db_vault d = vault \<and> db_companies d = comps) \<and> outline_masked vault out) (\<lambda>_ _. True)"
    proof (cases "lc_email_ref c")
      case None
      then show ?thesis using masked_adds(1) [OF Cons.prems(2) c] by (auto intro: triple_ret)
    next
      case (Some ref)
      have o2: "outline_masked vault (add_status (recorded (lc_id c)) (add_phone c out))"
        by (intro masked_adds Cons.prems(2) c)
      from c Some obtain r where r: "r \<in> set vault" "va_id r = ref" "va_kind r = ''email''"
        by (auto simp: contact_masked_def)
      show ?thesis
        unfolding Some option.case
        by (rule triple_if, rule triple_unmasked [OF o2 r], rule triple_ret, simp add: masked_adds(3) [OF o2 c])
    qed
  next
    fix out'
    show "triple (\<lambda>d. (acq_ok e d \<and> db_vault d = vault \<and> db_companies d = comps) \<and> outline_masked vault out') (outline_of e' cx recorded cs out')
      (\<lambda>out d. (acq_ok e d \<and> db_vault d = vault \<and> db_companies d = comps) \<and> outline_masked vault out) (\<lambda>_ _. True)"
      by (rule triple_assume) (rule Cons.IH [OF cs])
  qed
qed

lemma keeps_upsert_lead:
  "triple (\<lambda>d. acq_ok e d \<and> lead_ok d new) (upsert_lead new) (\<lambda>_. acq_ok e) (\<lambda>_ _. True)"
proof (rule tripleI)
  fix d i d'
  assume d: "acq_ok e d \<and> lead_ok d new" and run: "upsert_lead new d = (Inr i, d')"
  have core: "acq_ok e (d\<lparr>db_next := n, db_leads := ls\<rparr>)"
    if "fresh_keys le_id ls n" "list_all (lead_ok d) ls" "db_next d \<le> n" for n ls
    using d that by (auto simp: acq_ok_def lead_ok_def list_all_iff intro: fresh_keys_le)
  show "acq_ok e d'"
  proof (cases "find (same_lead (le_campaign new) (le_company new) (le_contact new)) (db_leads d)")
    case None
    let ?l = "new\<lparr>le_id := db_next d, le_state := AcqRepos.ReadyForReview, le_by := None, le_built := db_now d\<rparr>"
    have "d' = d\<lparr>db_next := Suc (db_next d), db_leads := db_leads d @ [?l]\<rparr>"
      using None run by (auto simp: upsert_lead_def fresh_id_def seq_def modify_def ret_def)
    moreover have "fresh_keys le_id (db_leads d @ [?l]) (Suc (db_next d))"
      using d by (intro fresh_keys_append) (auto simp: acq_ok_def)
    moreover have "list_all (lead_ok d) (db_leads d @ [?l])"
      using d by (auto simp: acq_ok_def lead_ok_def)
    ultimately show ?thesis using core by auto
  next
    case (Some old)
    let ?f = "\<lambda>l. new\<lparr>le_id := le_id l, le_icp := le_icp l, le_state := le_state l, le_by := le_by l, le_built := db_now d\<rparr>"
    let ?ls = "upd_where (\<lambda>l. le_id l = le_id old) ?f (db_leads d)"
    have "d' = d\<lparr>db_leads := ?ls\<rparr>" using Some run by (auto simp: upsert_lead_def)
    moreover have "fresh_keys le_id ?ls (db_next d)"
      using d by (simp add: fresh_keys_upd acq_ok_def)
    moreover have "list_all (lead_ok d) ?ls"
    proof -
      have "lead_ok d (new\<lparr>le_id := a, le_icp := b, le_state := st, le_by := y, le_built := t\<rparr>)" for a b st y t
        using d by (simp add: lead_ok_def)
      then show ?thesis using d by (auto simp: list_all_iff set_upd_where acq_ok_def)
    qed
    ultimately show ?thesis using core [of ?ls "db_next d"] by simp
  qed
qed simp

lemma lead_of_ok:
  assumes "row_of co_id k (db_companies d) = Some c" and "outline_masked (db_vault d) out" and "dec \<noteq> Rejected"
    and "q \<in> set (db_qualifications d)" and "ql_company q = co_id c" "ql_campaign q = cx_campaign cx" "ql_decision q = dec"
  shows "lead_ok d (lead_of cx ck c v contacts out sc dec)"
proof -
  have "co_id c \<in> co_id ` set (db_companies d)" using row_of_Some [OF assms(1)] by blast
  then show ?thesis using assms(2-) by (auto simp: lead_of_def lead_ok_def outline_masked_def)
qed

lemma triple_qualify_under:
  "triple (\<lambda>d. acq_ok e d \<and> outline_masked (db_vault d) out \<and> row_of co_id k (db_companies d) = Some c)
     (qualify_under e' cx ck c v contacts out version rules) (\<lambda>_. acq_ok e) (\<lambda>_ _. True)"
proof (rule tripleI)
  fix d x d'
  assume d: "acq_ok e d \<and> outline_masked (db_vault d) out \<and> row_of co_id k (db_companies d) = Some c"
    and run: "qualify_under e' cx ck c v contacts out version rules d = (Inr x, d')"
  define sc where "sc = latest_score (co_id c) d"
  define decided where "decided = decide \<lparr>qu_score = sc, qu_domain = map_option rule_text (co_domain c), qu_email = ou_status out,
    qu_suppressed = is_suppressed (env.truncate e') ''domain'' (or_default (co_domain c) []) d,
    qu_policy = decision_text (fst (evaluate rules (operation_input ''lead.qualification'' (ck_country ck))))\<rparr>"
  define d1 where "d1 = add_qualification_record (co_id c) (cx_campaign cx) (fst decided) (snd decided) (Some (ck_icp ck)) version d"
  have d1: "acq_ok e d1"
    using d by (auto simp: d1_def add_qualification_record_def same_core_def intro: acq_ok_same_core)
  have run1: "(if fst decided = Rejected then ret () else seq (upsert_lead (lead_of cx ck c v contacts out sc (fst decided)))
      (\<lambda>i. modify (emit LEAD_READY_FOR_REVIEW ''lead'' i []))) d1 = (Inr x, d')"
    unfolding d1_def decided_def sc_def using run unfolding qualify_under_def seq_gets seq_modify Let_def .
  show "acq_ok e d'"
  proof (cases "fst decided = Rejected")
    case True
    with run1 d1 show ?thesis by (simp add: ret_def)
  next
    case False
    have "lead_ok d1 (lead_of cx ck c v contacts out sc (fst decided))"
      by (rule lead_of_ok [where k = k and q = "\<lparr>ql_company = co_id c, ql_campaign = cx_campaign cx, ql_decision = fst decided,
          ql_reason = snd decided, ql_icp = Some (ck_icp ck), ql_policy = version\<rparr>"])
        (use d False in \<open>auto simp: d1_def add_qualification_record_def\<close>)
    then have pre: "acq_ok e d1 \<and> lead_ok d1 (lead_of cx ck c v contacts out sc (fst decided))" using d1 by blast
    have "triple (\<lambda>d. acq_ok e d \<and> lead_ok d (lead_of cx ck c v contacts out sc (fst decided)))
        (seq (upsert_lead (lead_of cx ck c v contacts out sc (fst decided))) (\<lambda>i. modify (emit LEAD_READY_FOR_REVIEW ''lead'' i [])))
        (\<lambda>_. acq_ok e) (\<lambda>_ _. True)"
      by (rule triple_seq [OF keeps_upsert_lead]) (rule keeps_emit [unfolded keeps_def])
    from triple_Inr [OF this pre] run1 False show ?thesis by simp
  qed
qed simp

lemma keeps_qualify [db_keeps]: "keeps (acq_ok e) (qualify_company e' cx ck c)"
proof (rule keepsI)
  fix d x d'
  assume ok: "acq_ok e d" and run: "qualify_company e' cx ck c d = (Inr x, d')"
  let ?cs = "list_company_contacts (env.truncate e') c d"
  let ?o = "\<lparr>ou_status = None, ou_email = None, ou_phone = None\<rparr>"
  obtain out d1 where out: "outline_of e' cx (company_verification_statuses c d) ?cs ?o d = (Inr out, d1)"
    using run by (auto simp: qualify_company_def seq_def gets_def split: prod.splits sum.splits)
  have "(acq_ok e d1 \<and> db_vault d1 = db_vault d \<and> db_companies d1 = db_companies d) \<and> outline_masked (db_vault d) out"
    by (rule triple_Inr [OF triple_outline _ out])
      (use ok contacts_masked [OF ok] in \<open>auto simp: outline_masked_def masks_secret_def\<close>)
  then have d1: "acq_ok e d1" "outline_masked (db_vault d1) out" "db_companies d1 = db_companies d" by auto
  show "acq_ok e d'"
  proof (cases "get_active_policy d1")
    case None
    then have "(Inr x, d') = (Inr x, record_decision ''company'' c ''lead.qualification'' FAIL_CLOSED_VERSION
        (fail_closed (operation_input ''lead.qualification'' (ck_country ck))) (worker_name cx) d1)"
      using run out by (auto simp: qualify_company_def seq_def gets_def modify_def ret_def Let_def)
    then show ?thesis
      using d1(1) by (auto simp: record_decision_def same_core_def intro: acq_ok_same_core)
  next
    case (Some p)
    show ?thesis
    proof (cases "company_context c d")
      case None
      then show ?thesis using run out Some by (auto simp: qualify_company_def seq_def gets_def throw_def)
    next
      case ctx: (Some r)
      then have row: "row_of co_id c (db_companies d1) = Some (fst r)"
        using d1(3) by (auto simp: company_context_def)
      obtain y where "qualify_under e' cx ck (fst r) (claims_summary c d) ?cs out (fst p) (snd p) d1 = (Inr y, d')"
        using run out Some ctx
        by (auto simp: qualify_company_def seq_def gets_def ret_def split: prod.splits sum.splits)
      from triple_Inr [OF triple_qualify_under _ this] d1 row show ?thesis by blast
    qed
  qed
qed

lemma plan_tx_Inr:
  assumes "plan_tx cx d = (Inr (doc, why), d')"
  obtains campaign version ruling where "cx_campaign cx = Some campaign" and "get_campaign campaign d \<noteq> None"
    and "get_icp_definition (cx_icp cx) d = Some doc"
    and "rule (operation_input ''discovery.search'' (ic_country doc)) d = (version, ruling)"
    and "why = (if get_active_policy d = None then Some (''policy fail-closed: '' @ snd (snd ruling))
             else if fst ruling = Blocked then Some (''policy blocked discovery: '' @ snd (snd ruling)) else None)"
    and "d' = emit POLICY_DECISION_RECORDED ''campaign'' campaign version
             (record_decision ''campaign'' campaign ''discovery.search'' version ruling (worker_name cx) d)"
proof -
  obtain campaign where c: "cx_campaign cx = Some campaign"
    using assms by (cases "cx_campaign cx") (simp_all add: plan_tx_def)
  obtain doc' where g: "get_campaign campaign d \<noteq> None" "get_icp_definition (cx_icp cx) d = Some doc'"
    using assms c by (cases "get_icp_definition (cx_icp cx) d") (simp_all add: plan_tx_def split: if_splits)
  obtain version ruling where r: "rule (operation_input ''discovery.search'' (ic_country doc')) d = (version, ruling)"
    by (cases "rule (operation_input ''discovery.search'' (ic_country doc')) d")
  show ?thesis
    by (rule that [of campaign version ruling]) (use assms c g r in \<open>simp_all add: plan_tx_def\<close>)
qed

lemma keeps_plan [db_keeps]: "keeps (acq_ok e) (plan_tx cx)"
proof (rule keepsI)
  fix d x d'
  assume ok: "acq_ok e d" and run: "plan_tx cx d = (Inr x, d')"
  obtain doc why where x: "x = (doc, why)" by (cases x)
  from run [unfolded x] show "acq_ok e d'"
    by (rule plan_tx_Inr) (use ok in \<open>auto simp: emit_def record_decision_def same_core_def intro: acq_ok_same_core\<close>)
qed

subsection \<open>The whole handler\<close>

lemma acq_ok_gateway: "acq_ok e d \<Longrightarrow> acq_ok e (d\<lparr>db_gateway := g\<rparr>)"
  by (erule acq_ok_same_core) (simp add: same_core_def)

lemma acq_ok_now: "acq_ok e d \<Longrightarrow> acq_ok e (d\<lparr>db_now := t\<rparr>)"
  by (erule acq_ok_same_core) (simp add: same_core_def)

interpretation sound: tenant_contract e "acq_ok (env.truncate e)" for e
  by unfold_locales (rule db_keeps | erule acq_ok_gateway acq_ok_now)+

text \<open>C5: Whatever the providers, the model and Manus answer, and whether the run ends, fails or loses its lease, a run of
  the pipeline keeps the database sound: domains, current claims and secrets stay unique, every email and phone
  identity names a secret in the vault and shows only its mask, every access to a secret is on record for an allowed
  purpose, and every lead shows only masks, belongs to a company and stands on a recorded decision other than a
  rejection.  The raw search results are outside this promise: their snippets are stored as they came, with any address
  or number in them.\<close>

theorem pipeline_keeps_invariant:
  assumes "acq_ok (env.truncate e) (w_db w)"
  shows "acq_ok (env.truncate e) (w_db (snd (handler e cx saved w)))
    \<and> list_all (\<lambda>l. masks_secret ''email'' (db_vault (w_db (snd (handler e cx saved w)))) (le_email l)
        \<and> masks_secret ''phone'' (db_vault (w_db (snd (handler e cx saved w)))) (le_phone l) \<and> le_decision l \<noteq> Rejected)
        (db_leads (w_db (snd (handler e cx saved w))))"
  using sound.run_keeps [OF assms, of cx saved]
  by (auto simp: acq_ok_def list_all_iff lead_ok_def)

definition demo_db :: adb where
  "demo_db = \<lparr>db_next = 10, db_now = 0, db_profiles = [], db_icps = [], db_campaigns = [], db_companies = [],
     db_identifiers = [], db_sources = [], db_observations = [], db_claims = [], db_conflicts = [], db_contacts = [],
     db_identities = [\<lparr>id_contact = 2, id_kind = ''email'', id_public = Some (ascii ''i*@b.sa''), id_ref = Some 1\<rparr>],
     db_vault = [\<lparr>va_id = 1, va_kind = ''email'', va_value = ascii ''io@b.sa''\<rparr>], db_access = [], db_raw = [],
     db_visited = [], db_enrichments = [], db_cache = [], db_verifications = [], db_scorings = [],
     db_qualifications = [], db_intents = [], db_policies = [], db_decisions = [], db_suppression = [], db_leads = [],
     db_outbox = [], db_gateway = \<lparr>gw_ledger = [], gw_calls = []\<rparr>\<rparr>"

definition demo_env :: acq_env where
  "demo_env = \<lparr>en_u = ascii_unicode, en_sha = (\<lambda>t. t), en_uuid = (\<lambda>n. [n]), en_digest = (\<lambda>s. s), en_pool = [],
     en_respond = (\<lambda>n p q. Raised [] []), en_note = (\<lambda>_. None), en_manus = None, en_clock = int,
     en_doc = (\<lambda>ck. ''{}''), en_lease = 60\<rparr>"

definition demo_context :: job_context where
  "demo_context = \<lparr>cx_job = ''j1'', cx_org = ''o1'', cx_campaign = Some 3, cx_icp = 4, cx_budget = 0, cx_worker = ''w'',
     cx_token = ''t'', cx_version = 1\<rparr>"

definition demo_world :: world where
  "demo_world = \<lparr>w_db = demo_db, w_rt = \<lparr>rt_jobs = [], rt_events = []\<rparr>, w_tick = 0, w_polls = 0\<rparr>"

lemma demo_db_ok: "acq_ok (env.truncate demo_env) (w_db demo_world)"
  by (simp add: acq_ok_def demo_world_def demo_db_def fresh_keys_def unique_domains_def unique_claims_def unique_secrets_def
      identity_ok_def mask_of_def mask_email_def ascii_def map_filter_def)

text \<open>A run that holds its lease from the first enrichment to the end: a finder names a contact, its mailbox is verified, the
  company is scored and qualifies for review.\<close>

definition busy_env :: acq_env where
  "busy_env = demo_env\<lparr>en_pool := [\<lparr>sp_id = ''finder'', sp_capability = FindContact, sp_priority = 1, sp_cost = 0\<rparr>,
       \<lparr>sp_id = ''smtp'', sp_capability = VerifyEmail, sp_priority = 1, sp_cost = 0\<rparr>],
     en_respond := (\<lambda>n p q. Returned \<lparr>r_ok = True, r_data = Data (if p = ''smtp''
         then Verdict ''DELIVERABLE'' \<lparr>ev_smtp_accepted = True, ev_provider_verified = True\<rparr>
         else Contacts [\<lparr>pn_name = Some (ascii ''Ann''), pn_role = None, pn_email = Some (ascii ''ann@b.sa''), pn_phone = None,
           pn_social = None\<rparr>]), r_failure = None, r_error = [], r_cost = 2\<rparr>)\<rparr>"

definition busy_world :: world where
  "busy_world = demo_world\<lparr>
     w_db := demo_db\<lparr>
       db_campaigns := [\<lparr>cp_id = 3, cp_name = ascii ''c'', cp_icp = 4, cp_state = Running, cp_budget = 0\<rparr>],
       db_policies := [\<lparr>po_version = ''v1'', po_rules = default_rules, po_at = 0\<rparr>],
       db_companies := [\<lparr>co_id = 2, co_name = ascii ''b'', co_domain = Some (ascii ''b.sa''), co_country = None,
         co_industry = None, co_city = None, co_key = None, co_merged = None\<rparr>],
       db_claims := [\<lparr>cl_id = 1, cl_company = 2, cl_field = ''website'', cl_value = Some (ascii ''https://b.sa''),
         cl_source = None, cl_method = ''snippet'', cl_conf = 6/10, cl_state = Proposed\<rparr>]\<rparr>,
     w_rt := \<lparr>rt_jobs = [\<lparr>rj_id = ''j1'', rj_org = ''o1'', rj_campaign = None, rj_type = ''acquisition.run'',
       rj_queue = ''default'', rj_state = Leasing.Enriching, rj_payload = ''{}'', rj_checkpoint = ''{}'', rj_attempts = 1,
       rj_max_attempts = 3, rj_priority = 100, rj_token = Some ''t'', rj_version = 1, rj_lease = Some 60, rj_cancel_at = None,
       rj_cancelled_by = None, rj_cancel_reason = None, rj_error = None, rj_worker = Some ''w'', rj_created = 0,
       rj_updated = 0, rj_started = Some 0, rj_finished = None\<rparr>], rt_events = []\<rparr>\<rparr>"

definition enrich_step :: checkpoint where
  "enrich_step = \<lparr>ck_phase = ENRICHING, ck_queries = [], ck_per_query = 6, ck_query_index = 0, ck_company_ids = [2],
     ck_country = None, ck_industry = None, ck_icp = 4, ck_budget = 0, ck_enrich_index = 0, ck_verify_index = 0,
     ck_score_index = 0, ck_seen = 0\<rparr>"

lemma busy_db_ok: "acq_ok (env.truncate busy_env) (w_db busy_world)"
  by (simp add: acq_ok_def busy_world_def demo_world_def demo_db_def fresh_keys_def unique_domains_def unique_claims_def
      unique_secrets_def identity_ok_def mask_of_def mask_email_def ascii_def map_filter_def)

lemma pipeline_keeps_invariant_witness:
  "let (r, w) = handler busy_env demo_context (Some enrich_step) busy_world in
     r = Inr (Ends Leasing.ReadyForReview) \<and> acq_ok (env.truncate busy_env) (w_db w) \<and> db_leads (w_db w) \<noteq> []
     \<and> length (db_vault (w_db w)) = 2
     \<and> list_all (\<lambda>l. masks_secret ''email'' (db_vault (w_db w)) (le_email l)) (db_leads (w_db w))"
proof -
  let ?run = "handler busy_env demo_context (Some enrich_step) busy_world"
  have "case ?run of (Inr (Ends st), w) \<Rightarrow> st = Leasing.ReadyForReview \<and> db_leads (w_db w) \<noteq> [] \<and> length (db_vault (w_db w)) = 2
      | _ \<Rightarrow> False"
    by code_simp
  then have "fst ?run = Inr (Ends Leasing.ReadyForReview) \<and> db_leads (w_db (snd ?run)) \<noteq> [] \<and> length (db_vault (w_db (snd ?run))) = 2"
    by (cases ?run) (auto split: sum.splits outcome.splits)
  then show ?thesis
    using pipeline_keeps_invariant [OF busy_db_ok, of demo_context "Some enrich_step"]
    by (auto simp: case_prod_beta list_all_iff)
qed

end
