(* ===== verification/AcqFaults.thy ===== *)
theory AcqFaults
  imports AcqInvariant
begin

section \<open>How the pipeline fails\<close>

text \<open>
  The error behaviour of the pipeline and of its transactions: what a refused claim does to a query, what a crash
  between a transaction and its checkpoint loses, what a cancellation leaves behind, and which evidence never counts.
\<close>

subsection \<open>Frames\<close>

text \<open>A computation leaves a part of the state alone, whether it returns or raises.\<close>

definition frame :: "('s \<Rightarrow> 'p) \<Rightarrow> ('s, 'e, 'a) act \<Rightarrow> bool" where
  "frame f m \<longleftrightarrow> (\<forall>s. f (snd (m s)) = f s)"

lemma frameD: "frame f m \<Longrightarrow> m s = (r, s') \<Longrightarrow> f s' = f s"
  by (metis frame_def snd_conv)

lemma frame_ret [intro]: "frame f (ret x)"
  by (simp add: frame_def ret_def)

lemma frame_throw [intro]: "frame f (throw x)"
  by (simp add: frame_def throw_def)

lemma frame_gets [intro]: "frame f (gets g)"
  by (simp add: frame_def gets_def)

lemma frame_modify: "(\<And>s. f (g s) = f s) \<Longrightarrow> frame f (modify g)"
  by (simp add: frame_def modify_def)

lemma frame_lift: "(\<And>s. f (snd (g s)) = f s) \<Longrightarrow> frame f (lift g)"
  by (auto simp: frame_def lift_def)

lemma frame_seq: "frame f m \<Longrightarrow> (\<And>x. frame f (k x)) \<Longrightarrow> frame f (seq m k)"
  unfolding frame_def seq_def by (auto split: prod.splits sum.splits) (metis snd_conv)+

lemma frame_if: "frame f m \<Longrightarrow> frame f m' \<Longrightarrow> frame f (if b then m else m')"
  by simp

lemma frame_option: "frame f m \<Longrightarrow> (\<And>y. frame f (k y)) \<Longrightarrow> frame f (case x of None \<Rightarrow> m | Some y \<Rightarrow> k y)"
  by (cases x) auto

lemma frame_for_each: "(\<And>x. frame f (g x)) \<Longrightarrow> frame f (for_each g xs)"
  by (induction xs) (auto intro: frame_seq)

lemmas frame_rules = frame_seq frame_if frame_for_each frame_ret frame_throw frame_gets

text \<open>The ledger and the claims are written by their own statements only.\<close>

named_theorems framed "parts of the database a statement leaves alone"

definition ledger_and_policy :: "adb \<Rightarrow> gateway_state \<times> policy_row list" where
  "ledger_and_policy d = (db_gateway d, db_policies d)"

lemmas part_defs = ledger_and_policy_def

lemma frame_small [framed]:
  "frame ledger_and_policy fresh_id" "frame db_claims fresh_id"
  "frame ledger_and_policy (modify (add_observation c fl v s m q))" "frame db_claims (modify (add_observation c fl v s m q))"
  "frame ledger_and_policy (modify (add_intent_signal c k w s'))" "frame db_claims (modify (add_intent_signal c k w s'))"
  by (simp_all add: frame_def fresh_id_def modify_def add_observation_def add_intent_signal_def part_defs)

lemma frame_identifier [framed]:
  "frame ledger_and_policy (modify (\<lambda>d. case domain of None \<Rightarrow> d | Some x \<Rightarrow> add_identifier c k x d))"
  "frame db_claims (modify (\<lambda>d. case domain of None \<Rightarrow> d | Some x \<Rightarrow> add_identifier c k x d))"
  by (auto simp: add_identifier_def part_defs intro!: frame_modify split: option.splits)

lemma frame_raw [framed]:
  "frame ledger_and_policy (lift (add_raw_result j q u t s))" "frame db_claims (lift (add_raw_result j q u t s))"
  by (auto simp: add_raw_result_def part_defs intro!: frame_lift)

lemma frame_visited [framed]:
  "frame ledger_and_policy (lift (mark_visited e j u))" "frame db_claims (lift (mark_visited e j u))"
  by (auto simp: mark_visited_def part_defs intro!: frame_lift)

lemma frame_source [framed]:
  "frame ledger_and_policy (get_or_create_source k u p h)" "frame db_claims (get_or_create_source k u p h)"
  by (auto simp: frame_def get_or_create_source_def fresh_id_def seq_def modify_def ret_def part_defs
      split: option.splits if_splits)

lemma frame_company_of [framed]:
  "frame ledger_and_policy (company_of e country industry biz domain city kind)"
  "frame db_claims (company_of e country industry biz domain city kind)"
  by (auto simp: frame_def company_of_def create_company_def fresh_id_def seq_def part_defs
      split: option.splits if_splits)

lemma frame_claim [framed]: "frame ledger_and_policy (upsert_claim c f v s m q)"
proof -
  have ins: "ledger_and_policy (snd (insert_claim c f v s m q d)) = ledger_and_policy d" for d
    by (simp add: insert_claim_def part_defs)
  have con: "frame ledger_and_policy (insert_conflict c f a v)" for a
    by (simp add: frame_def insert_conflict_def part_defs split: option.splits)
  have upd: "frame ledger_and_policy (modify (update_claim i g))" for i g
    by (rule frame_modify) (simp add: update_claim_def part_defs)
  have "frame ledger_and_policy (seq (insert_conflict c f a v) (\<lambda>_. seq (modify (update_claim i g)) (\<lambda>_. insert_claim c f v s m q)))" for a i g
    by (intro frame_seq con upd) (simp add: frame_def ins)
  then show ?thesis
    using ins by (auto simp: frame_def upsert_claim_def update_claim_def part_defs split: option.splits)
qed

lemma frame_contact [framed]: "frame ledger_and_policy (find_or_create_contact e c n r s)"
  by (auto simp: frame_def find_or_create_contact_def fresh_id_def seq_def modify_def ret_def part_defs
      split: option.splits)

lemma frame_store [framed]: "frame ledger_and_policy (store k v)"
  by (auto simp: frame_def store_def fresh_id_def seq_def modify_def ret_def part_defs split: option.splits)

lemma frame_masked [framed]: "frame f (masked k v)"
  by (auto simp: masked_def split: option.splits)

lemma frame_attach [framed]: "frame ledger_and_policy (modify (attach c k m r))"
  by (auto simp: attach_def part_defs intro!: frame_modify)

lemma frame_email [framed]: "frame ledger_and_policy (keep_email e c t s v)"
  unfolding keep_email_def attach_email_ref_def by (intro frame_rules framed)

lemma frame_phone [framed]: "frame ledger_and_policy (keep_phone e c t s v)"
  unfolding keep_phone_def attach_phone_ref_def by (intro frame_rules framed)

lemma frame_ingest [framed]: "frame ledger_and_policy (ingest_result e job country industry query city raw)"
  unfolding ingest_result_def keep_result_def Let_def
  by (intro frame_rules framed) (auto intro: framed)

lemma frame_ingest_all [framed]: "frame ledger_and_policy (ingest_all e job country industry query city rs ids)"
  by (induction rs arbitrary: ids) (auto intro!: frame_rules framed)

subsection \<open>Conflicting claims\<close>

text \<open>A computation that cannot return.\<close>

definition raises :: "('s \<Rightarrow> bool) \<Rightarrow> ('s, 'e, 'a) act \<Rightarrow> bool" where
  "raises P m \<longleftrightarrow> (\<forall>s. P s \<longrightarrow> (\<exists>err s'. m s = (Inl err, s')))"

lemma raises_later:
  assumes "frame f m" and "\<And>x. raises (\<lambda>s. P (f s)) (k x)"
  shows "raises (\<lambda>s. P (f s)) (seq m k)"
  unfolding raises_def
proof (intro allI impI)
  fix s
  assume P: "P (f s)"
  show "\<exists>err s'. seq m k s = (Inl err, s')"
  proof (cases "m s")
    case (Pair r s')
    show ?thesis
    proof (cases r)
      case (Inr x)
      with Pair have "m s = (Inr x, s')" by simp
      with frameD [OF assms(1) this] assms(2) [of x] P show ?thesis by (auto simp: raises_def seq_Inr)
    qed (use Pair in \<open>auto simp: seq_Inl\<close>)
  qed
qed

lemma raises_now: "raises P m \<Longrightarrow> raises P (seq m k)"
  by (fastforce simp: raises_def seq_Inl)

lemma conflicting_claim_raises:
  fixes old :: claim
  assumes "cl_value old \<noteq> v"
  shows "raises (\<lambda>d. find (current_claim c fl) (db_claims d) = Some old) (upsert_claim c fl v s m q)"
  unfolding raises_def
proof (intro allI impI)
  fix d :: adb
  assume "find (current_claim c fl) (db_claims d) = Some old"
  from conflicting_insert_fails [OF this assms, of s m q]
  show "\<exists>err d'. upsert_claim c fl v s m q d = (Inl err, d')"
    by (cases "upsert_claim c fl v s m q d") (auto split: if_splits)
qed

lemma keep_result_raises:
  fixes old :: claim
  assumes "cl_value old \<noteq> Some (rr_url raw)"
  shows "raises (\<lambda>d. find (current_claim c ''website'') (db_claims d) = Some old) (keep_result e domain city raw c)"
  unfolding keep_result_def Let_def
  by (intro raises_later [where f = db_claims] frame_rules framed raises_now conflicting_claim_raises [OF assms])
    (auto intro: framed)

lemma gateway_call_runs:
  assumes "execute (en_digest e) (en_respond e) (en_pool e) cap q
      (if ck_budget ck = 0 then None else Some (ck_budget ck)) (db_gateway d) = (r, g)"
  shows "gateway_call e ck cap q d = (Inr r, d\<lparr>db_gateway := g\<rparr>)"
  using assms by (simp add: gateway_call_def)

lemma frame_keep_result [framed]: "frame ledger_and_policy (keep_result e domain city raw c)"
  unfolding keep_result_def Let_def by (intro frame_rules framed) (auto intro: framed)

lemma known_site_raises:
  assumes "rr_url raw \<noteq> []" and "domain_from_url (en_u e) (rr_url raw) = Some dm"
    and "\<not> Acquisition.is_social (Some dm)" and "\<not> Acquisition.is_directory (Some dm)"
    and "\<not> looks_editorial (en_u e) (rr_title raw) (rr_url raw)"
    and unseen: "\<not> list_ex (\<lambda>x. rw_job x = job \<and> rw_url x = rr_url raw) (db_raw d)"
      "\<not> list_ex (\<lambda>x. vs_hash x = en_sha e (rr_url raw)) (db_visited d)"
    and "find_by_domain dm d = Some c" and "find (current_claim (co_id c) ''website'') (db_claims d) = Some old"
    and "cl_value old \<noteq> Some (rr_url raw)"
  shows "\<exists>err d'. ingest_result e job country industry query city raw d = (Inl err, d')"
proof -
  let ?url = "rr_url raw"
  define da where "da = snd (add_raw_result job query ?url (rr_title raw) (stored_snippet raw) d)"
  define d1 where "d1 = snd (mark_visited e job ?url da)"
  have d1: "db_companies d1 = db_companies d" "db_claims d1 = db_claims d"
    by (auto simp: d1_def da_def mark_visited_def add_raw_result_def)
  have raw: "lift (add_raw_result job query ?url (rr_title raw) (stored_snippet raw)) d = (Inr True, da)"
    using unseen(1) by (simp add: lift_def da_def add_raw_result_def)
  have vis: "lift (mark_visited e job ?url) da = (Inr True, d1)"
    using unseen by (simp add: lift_def d1_def da_def add_raw_result_def mark_visited_def)
  have known: "find_by_domain dm d1 = Some c" using assms(8) by (simp add: find_by_domain_def d1)
  have kind: "identify e city raw d1 = Existing"
    using assms(2-5) known by (simp add: identify_def resolve_identity_def Let_def)
  have company: "company_of e country industry biz (Some dm) city Existing d1 = (Inr (co_id c), d1)" for biz
    using known by (simp add: company_of_def)
  have "find (current_claim (co_id c) ''website'') (db_claims d1) = Some old" using assms(9) by (simp add: d1)
  from keep_result_raises [OF assms(10), unfolded raises_def, rule_format, OF this]
  obtain err d' where "keep_result e (Some dm) city raw (co_id c) d1 = (Inl err, d')" by blast
  then show ?thesis
    using assms(1,2)
    by (simp add: ingest_result_def Let_def seq_def raw vis gets_def kind company)
qed

text \<open>What a rolled back transaction leaves: the tables as they were, and the calls that were made.\<close>

lemma uow_rolled_back:
  assumes "m (d\<lparr>db_now := now\<rparr>) = (Inl err, d')" and "gw_calls (db_gateway d') = calls"
  shows "uow now m d = (Inl err, d\<lparr>db_gateway := (db_gateway d)\<lparr>gw_calls := calls\<rparr>\<rparr>)"
  using assms by (simp add: uow_def)

text \<open>C31: A claim that contradicts the current one can never be recorded, although the code writes a conflict for it: the
  second side of the conflict is read back before it exists, and two current claims of a field violate a unique
  index.  The statement raises in every case, and the transaction leaves no trace of it.\<close>

theorem conflicts_cannot_be_recorded:
  assumes "find (current_claim c field) (db_claims d) = Some old" and "cl_value old \<noteq> v"
  shows "(\<exists>err \<in> {NotNullViolation ''claim_b_id'', UniqueViolation ''uq_claim_current''}.
    uow now (upsert_claim c field v src meth conf) d = (Inl err, d))"
proof -
  let ?d = "d\<lparr>db_now := now\<rparr>"
  have cur: "find (current_claim c field) (db_claims ?d) = Some old" using assms(1) by simp
  obtain err d' where run: "upsert_claim c field v src meth conf ?d = (Inl err, d')"
    and err: "err \<in> {NotNullViolation ''claim_b_id'', UniqueViolation ''uq_claim_current''}"
    using conflicting_insert_fails [OF cur assms(2), of src meth conf]
    by (cases "upsert_claim c field v src meth conf ?d") (auto split: if_splits)
  have "db_gateway d' = db_gateway d"
    using frameD [OF frame_claim run] by (simp add: part_defs)
  then have "uow now (upsert_claim c field v src meth conf) d = (Inl err, d)"
    using uow_rolled_back [where m = "upsert_claim c field v src meth conf", OF run refl] by simp
  with err show ?thesis by blast
qed

definition one_claim :: adb where
  "one_claim = demo_db\<lparr>db_claims := [\<lparr>cl_id = 5, cl_company = 2, cl_field = ''website'', cl_value = Some (ascii ''http://b.sa/''),
     cl_source = None, cl_method = ''snippet'', cl_conf = 6/10, cl_state = Proposed\<rparr>]\<rparr>"

lemma conflicts_cannot_be_recorded_witness:
  "\<exists>err \<in> {NotNullViolation ''claim_b_id'', UniqueViolation ''uq_claim_current''}.
    uow 1 (upsert_claim 2 ''website'' (Some (ascii ''http://b.sa/x'')) None ''snippet'' (6/10)) one_claim = (Inl err, one_claim)"
  by (rule conflicts_cannot_be_recorded [where old = "hd (db_claims one_claim)"]) (simp_all add: one_claim_def current_claim_def ascii_def)

text \<open>A second page of a company that is already known kills the whole query: when the first result of a successful
  search is a page of a known domain other than the recorded website, the transaction of the query is rolled back.
  Every other result of the query is lost with it, and so is the ledger row of the paid search, while the call itself
  was made: the next attempt pays again, to fail again.\<close>

theorem second_page_kills_the_query:
  assumes "execute (en_digest e) (en_respond e) (en_pool e) SearchCompanies (search_call cx (qy_text q) (ck_per_query ck))
      (if ck_budget ck = 0 then None else Some (ck_budget ck)) (db_gateway d) = (r, g)"
    and "r_ok r" and "results_of (r_data r) = raw # rest"
    and "rr_url raw \<noteq> []" and "domain_from_url (en_u e) (rr_url raw) = Some dm"
    and "\<not> Acquisition.is_social (Some dm)" and "\<not> Acquisition.is_directory (Some dm)"
    and "\<not> looks_editorial (en_u e) (rr_title raw) (rr_url raw)"
    and "\<not> list_ex (\<lambda>x. rw_job x = cx_job cx \<and> rw_url x = rr_url raw) (db_raw d)"
    and "\<not> list_ex (\<lambda>x. vs_hash x = en_sha e (rr_url raw)) (db_visited d)"
    and "find_by_domain dm d = Some c" and "find (current_claim (co_id c) ''website'') (db_claims d) = Some old"
    and "cl_value old \<noteq> Some (rr_url raw)"
  shows "\<exists>err. uow now (discover_query e cx ck q) d = (Inl err, d\<lparr>db_gateway := (db_gateway d)\<lparr>gw_calls := gw_calls g\<rparr>\<rparr>)"
proof -
  let ?d = "d\<lparr>db_now := now, db_gateway := g\<rparr>"
  have call: "gateway_call e ck SearchCompanies (search_call cx (qy_text q) (ck_per_query ck)) (d\<lparr>db_now := now\<rparr>) = (Inr r, ?d)"
    using gateway_call_runs [of e SearchCompanies _ ck "d\<lparr>db_now := now\<rparr>" r g] assms(1) by simp
  have "\<exists>err d'. ingest_result (env.truncate e) (cx_job cx) (ck_country ck) (ck_industry ck) (qy_text q) (qy_city q) raw ?d
      = (Inl err, d')"
    by (rule known_site_raises [where dm = dm and c = c and old = old])
      (use assms(4-13) in \<open>simp_all add: find_by_domain_def env.truncate_def\<close>)
  then obtain err d' where fails: "ingest_result (env.truncate e) (cx_job cx) (ck_country ck) (ck_industry ck) (qy_text q)
      (qy_city q) raw ?d = (Inl err, d')" by blast
  then have run: "discover_query e cx ck q (d\<lparr>db_now := now\<rparr>) = (Inl err, d')"
    using assms(2,3) by (simp add: discover_query_def seq_def call)
  have "db_gateway d' = g"
    using frameD [OF frame_ingest fails] by (simp add: part_defs)
  with run show ?thesis by (auto simp: uow_def)
qed

definition page :: raw_result where
  "page = \<lparr>rr_url = ascii ''http://b.sa/x'', rr_title = ascii ''B'', rr_snippet = None, rr_provider = None\<rparr>"

definition search_env :: acq_env where
  "search_env = demo_env\<lparr>en_pool := [\<lparr>sp_id = ''p'', sp_capability = SearchCompanies, sp_priority = 1, sp_cost = 0\<rparr>],
     en_respond := (\<lambda>n p q. Returned \<lparr>r_ok = True, r_data = Data (Results [page]), r_failure = None, r_error = [], r_cost = 2\<rparr>)\<rparr>"

definition search_step :: checkpoint where
  "search_step = \<lparr>ck_phase = DISCOVERING, ck_queries = [\<lparr>qy_text = [98], qy_city = [99], qy_lang = ''en''\<rparr>], ck_per_query = 6,
     ck_query_index = 0, ck_company_ids = [2], ck_country = None, ck_industry = None, ck_icp = 4, ck_budget = 0,
     ck_enrich_index = 0, ck_verify_index = 0, ck_score_index = 0, ck_seen = 0\<rparr>"

definition known_company :: adb where
  "known_company = one_claim\<lparr>db_companies := [\<lparr>co_id = 2, co_name = ascii ''b'', co_domain = Some (ascii ''b.sa''),
     co_country = None, co_industry = None, co_city = None, co_key = None, co_merged = None\<rparr>]\<rparr>"

definition search_run :: "reply provider_result \<times> gateway_state" where
  "search_run = execute (en_digest search_env) (en_respond search_env) (en_pool search_env) SearchCompanies
     (search_call demo_context [98] 6) None (db_gateway known_company)"

lemma search_run_ok: "r_ok (fst search_run) \<and> r_data (fst search_run) = Data (Results [page])"
  by (simp add: search_run_def search_env_def execute_def adapters_def try_adapter_def reserve_def Let_def known_company_def
      one_claim_def demo_db_def)

lemma page_domain: "domain_from_url ascii_unicode (ascii ''http://b.sa/x'') = Some (ascii ''b.sa'')"
  by code_simp

lemma page_plain:
  "\<not> Acquisition.is_social (Some (ascii ''b.sa''))" "\<not> Acquisition.is_directory (Some (ascii ''b.sa''))"
  "\<not> looks_editorial ascii_unicode (ascii ''B'') (ascii ''http://b.sa/x'')"
  by code_simp+

lemma page_text: "ascii ''http://b.sa/x'' \<noteq> []" "ascii ''http://b.sa/'' \<noteq> ascii ''http://b.sa/x''"
  by (simp_all add: ascii_def)

lemma second_page_kills_the_query_witness:
  "\<exists>err. uow 1 (discover_query search_env demo_context search_step (hd (ck_queries search_step))) known_company
    = (Inl err, known_company\<lparr>db_gateway := (db_gateway known_company)\<lparr>gw_calls := gw_calls (snd search_run)\<rparr>\<rparr>)"
proof (rule second_page_kills_the_query [where raw = page and rest = "[]" and dm = "ascii ''b.sa''"
      and c = "hd (db_companies known_company)" and old = "hd (db_claims one_claim)" and r = "fst search_run"])
  show "execute (en_digest search_env) (en_respond search_env) (en_pool search_env) SearchCompanies
      (search_call demo_context (qy_text (hd (ck_queries search_step))) (ck_per_query search_step))
      (if ck_budget search_step = 0 then None else Some (ck_budget search_step)) (db_gateway known_company)
    = (fst search_run, snd search_run)"
    by (simp add: search_run_def search_step_def)
qed (simp_all add: search_run_ok page_def search_env_def demo_env_def page_domain page_plain known_company_def one_claim_def
    demo_db_def find_by_domain_def current_claim_def page_text)

subsection \<open>A crash between the transaction and its checkpoint\<close>

interpretation effects: keyed_table ef_key .

lemma first_answer:
  assumes "adapters cap pool = sp # sps" and "row_of ef_key (idempotency_key digest q (sp_id sp)) (gw_ledger s) = None"
    and "respond (length (gw_calls s)) (sp_id sp) q = Returned r" and "r_ok r"
    and "execute digest respond pool cap q None s = (x, s')"
  shows "x = r \<and> (\<exists>row. row_of ef_key (idempotency_key digest q (sp_id sp)) (gw_ledger s') = Some row \<and> ef_status row = Succeeded)"
proof -
  have "execute digest respond pool cap q None s
      = (r, \<lparr>gw_ledger = complete_effect (length (gw_ledger s)) True (r_cost r) None (snd (reserve digest q sp (gw_ledger s))),
             gw_calls = gw_calls s @ [(sp_id sp, q)]\<rparr>)"
    using assms(1-4) by (simp add: execute_def try_adapter_def reserve_def Let_def)
  with assms(2,5) show ?thesis
    by (auto simp: reserve_def Let_def complete_effect_def effects.row_of_upd_where final_status_def)
qed

lemma replayed:
  assumes "adapters cap pool = sp # sps"
    and "row_of ef_key (idempotency_key digest q (sp_id sp)) (gw_ledger s) = Some row" and "ef_status row = Succeeded"
  shows "execute digest respond pool cap q None s
    = (\<lparr>r_ok = True, r_data = CachedEffect (ef_id row), r_failure = None, r_error = [], r_cost = 0\<rparr>, s)"
  using assms by (simp add: execute_def try_adapter_def reserve_def Let_def)

text \<open>The checkpoint after every query does not make a crash harmless: when a worker dies after the transaction of a
  query committed and before its checkpoint was saved, the resumed run finds the search already done in the ledger,
  gets no results for it and goes on with the companies of the old checkpoint; the companies the query created stay
  in the database, but the job never enriches, scores or qualifies them.\<close>

theorem lost_checkpoint_loses_companies:
  assumes "adapters SearchCompanies (en_pool e) = sp # sps" and "ck_budget ck = 0"
    and "row_of ef_key (idempotency_key (en_digest e) (search_call cx (qy_text q) (ck_per_query ck)) (sp_id sp))
      (gw_ledger (db_gateway d)) = None"
    and "en_respond e (length (gw_calls (db_gateway d))) (sp_id sp) (search_call cx (qy_text q) (ck_per_query ck)) = Returned r"
    and "r_ok r" and "uow now (discover_query e cx ck q) d = (Inr ids, d')"
  shows "uow now' (discover_query e cx ck q) d' = (Inr (ck_company_ids ck), d'\<lparr>db_now := now'\<rparr>)"
proof -
  let ?q = "search_call cx (qy_text q) (ck_per_query ck)"
  obtain x g where ex: "execute (en_digest e) (en_respond e) (en_pool e) SearchCompanies ?q None (db_gateway d) = (x, g)"
    by fastforce
  from first_answer [OF assms(1,3,4,5) ex] obtain row
    where x: "x = r" and row: "row_of ef_key (idempotency_key (en_digest e) ?q (sp_id sp)) (gw_ledger g) = Some row" "ef_status row = Succeeded"
    by blast
  have call: "gateway_call e ck SearchCompanies ?q (d\<lparr>db_now := now\<rparr>) = (Inr r, d\<lparr>db_now := now, db_gateway := g\<rparr>)"
    using ex x assms(2) by (simp add: gateway_call_def)
  have "discover_query e cx ck q (d\<lparr>db_now := now\<rparr>) = (Inr ids, d')"
    using assms(6) by (auto simp: uow_def split: prod.splits sum.splits)
  then have "ingest_all (env.truncate e) (cx_job cx) (ck_country ck) (ck_industry ck) (qy_text q) (qy_city q) (results_of (r_data r))
      (ck_company_ids ck) (d\<lparr>db_now := now, db_gateway := g\<rparr>) = (Inr ids, d')"
    using assms(5) by (simp add: discover_query_def seq_def call)
  from frameD [OF frame_ingest_all this] have g: "db_gateway d' = g" by (simp add: part_defs)
  have "gateway_call e ck SearchCompanies ?q (d'\<lparr>db_now := now'\<rparr>)
      = (Inr \<lparr>r_ok = True, r_data = CachedEffect (ef_id row), r_failure = None, r_error = [], r_cost = 0\<rparr>, d'\<lparr>db_now := now'\<rparr>)"
    using replayed [OF assms(1) row, where respond = "en_respond e"] assms(2) by (simp add: gateway_call_def g [symmetric])
  then show ?thesis by (simp add: uow_def discover_query_def seq_def ret_def)
qed

definition empty_search :: acq_env where
  "empty_search = search_env\<lparr>en_respond := (\<lambda>n p q. Returned \<lparr>r_ok = True, r_data = Data (Results []), r_failure = None,
     r_error = [], r_cost = 2\<rparr>)\<rparr>"

lemma lost_checkpoint_loses_companies_witness:
  "uow 2 (discover_query empty_search demo_context search_step (hd (ck_queries search_step)))
      (snd (uow 1 (discover_query empty_search demo_context search_step (hd (ck_queries search_step))) known_company))
    = (Inr [2], (snd (uow 1 (discover_query empty_search demo_context search_step (hd (ck_queries search_step))) known_company))
        \<lparr>db_now := 2\<rparr>)"
proof -
  let ?q = "hd (ck_queries search_step)"
  have "uow 1 (discover_query empty_search demo_context search_step ?q) known_company
      = (Inr (ck_company_ids search_step), snd (uow 1 (discover_query empty_search demo_context search_step ?q) known_company))"
    by (simp add: uow_def discover_query_def seq_def gateway_call_def execute_def adapters_def try_adapter_def reserve_def
        Let_def empty_search_def search_env_def search_step_def known_company_def one_claim_def demo_db_def ret_def)
  from lost_checkpoint_loses_companies [OF _ _ _ _ _ this] show ?thesis
    by (simp add: adapters_def empty_search_def search_env_def search_step_def known_company_def one_claim_def demo_db_def)
qed

subsection \<open>Cancellation\<close>

lemma get_job_row: "get_job org jid d = Some r \<Longrightarrow> distinct (map rj_id (rt_jobs d)) \<Longrightarrow> row_of rj_id jid (rt_jobs d) = Some r"
proof -
  assume r: "get_job org jid d = Some r" and dist: "distinct (map rj_id (rt_jobs d))"
  from r have mem: "r \<in> set (rt_jobs d)" "rj_id r = jid" by (auto simp: get_job_def dest!: find_SomeD)
  then obtain r' where "row_of rj_id jid (rt_jobs d) = Some r'"
    by (cases "row_of rj_id jid (rt_jobs d)") (auto simp: row_of_None_iff)
  with row_of_Some [OF this] mem dist show ?thesis by (auto simp: distinct_map inj_on_def)
qed

lemma cancelled_run:
  assumes "get_job (cx_org cx) (cx_job cx) (w_rt w) = Some r" and "distinct (map rj_id (rt_jobs (w_rt w)))"
    and "fenced_row (cx_job cx) (cx_token cx) (cx_version cx) r" and "rj_cancel_at r \<noteq> None" and "rj_state r \<noteq> Leasing.Cancelling"
  shows "\<exists>rt n. cancelled e cx w = (Inr True, w\<lparr>w_rt := rt, w_tick := n\<rparr>)
    \<and> (\<exists>r'. row_of rj_id (cx_job cx) (rt_jobs rt) = Some r' \<and> rj_state r' = Leasing.Cancelled \<and> rj_token r' = None)
    \<and> map rj_id (rt_jobs rt) = map rj_id (rt_jobs (w_rt w))"
proof -
  let ?p = "\<lambda>x. fenced_row (cx_job cx) (cx_token cx) (cx_version cx) x \<and> rj_cancel_at x \<noteq> None \<and> rj_state x \<noteq> Leasing.Cancelling"
  let ?now = "en_clock e (w_tick w)" and ?now' = "en_clock e (Suc (w_tick w))"
  let ?f = "\<lambda>x. x\<lparr>rj_state := Leasing.Cancelling, rj_updated := ?now\<rparr>"
  define rt1 where "rt1 = update_jobs ?p ?f (w_rt w)"
  define rt2 where "rt2 = finish_cancelled ?now' (cx_job cx) (cx_token cx) (cx_version cx) rt1"
  have row: "row_of rj_id (cx_job cx) (rt_jobs (w_rt w)) = Some r" by (rule get_job_row [OF assms(1,2)])
  have "rowcount ?p (rt_jobs (w_rt w)) = 1"
    using rt_table.rowcount_key [OF assms(2), of "cx_job cx" "\<lambda>x. rj_token x = Some (cx_token cx) \<and> rj_version x = cx_version cx
        \<and> rj_cancel_at x \<noteq> None \<and> rj_state x \<noteq> Leasing.Cancelling"] row assms(3-5)
    by (simp add: fenced_row_def conj_assoc)
  then have app: "apply_cancellation ?now (cx_job cx) (cx_token cx) (cx_version cx) (w_rt w) = (True, rt1)"
    by (simp add: apply_cancellation_def rt1_def Let_def)
  have row1: "row_of rj_id (cx_job cx) (rt_jobs rt1) = Some (?f r)"
    using row assms(3-5) by (simp add: rt1_def update_jobs_def rt_table.row_of_upd_where)
  have row2: "row_of rj_id (cx_job cx) (rt_jobs rt2) = Some (completed_row ?now' Leasing.Cancelled (?f r))"
    using row1 assms(3)
    by (simp add: rt2_def finish_cancelled_def update_jobs_def rt_table.row_of_upd_where completed_row_def fenced_row_def)
  have ids: "map rj_id (rt_jobs rt2) = map rj_id (rt_jobs (w_rt w))"
    by (simp add: rt2_def rt1_def finish_cancelled_def update_jobs_def rt_table.keys_upd_where completed_row_def)
  have "cancelled e cx w = (Inr True, w\<lparr>w_rt := rt2, w_tick := Suc (Suc (w_tick w))\<rparr>)"
    using assms(1,4) app
    by (simp add: cancelled_def cancel_requested_def seq_def gets_def ops_apply_cancellation_def ops_finish_cancelled_def
        read_clock_def on_rt_def lift_def modify_def ret_def rt2_def)
  with row2 ids show ?thesis by (auto simp: completed_row_def)
qed

text \<open>A cancelled run calls its campaign ready for review: a run that finds the cancellation while discovering, with
  companies already found, sets the job to CANCELLED and goes on to the end of the handler, which marks the campaign
  READY_FOR_REVIEW and reports READY_FOR_REVIEW; the completion of the job is then refused as a lost lease, so the
  job stays cancelled under a campaign that is offered for review.\<close>

theorem cancelled_run_marks_campaign_ready:
  assumes "get_job (cx_org cx) (cx_job cx) (w_rt w) = Some r" and "distinct (map rj_id (rt_jobs (w_rt w)))"
    and "fenced_row (cx_job cx) (cx_token cx) (cx_version cx) r" and "rj_cancel_at r \<noteq> None" and "rj_state r \<noteq> Leasing.Cancelling"
    and "ck_phase ck = DISCOVERING" and "ck_query_index ck < length (ck_queries ck)" and "ck_company_ids ck \<noteq> []"
    and "cx_campaign cx = Some campaign"
  shows "\<exists>w'. handler e cx (Some ck) w = (Inr (Ends Leasing.ReadyForReview), w')
    \<and> db_campaigns (w_db w') = upd_where (\<lambda>c. cp_id c = campaign) (\<lambda>c. c\<lparr>cp_state := CampaignReady\<rparr>) (db_campaigns (w_db w))
    \<and> (\<exists>r'. row_of rj_id (cx_job cx) (rt_jobs (w_rt w')) = Some r' \<and> rj_state r' = Leasing.Cancelled)
    \<and> (\<forall>now. complete now (cx_job cx) (cx_token cx) (cx_version cx) Leasing.ReadyForReview (w_rt w')
           = (Inl (LeaseLost (cx_job cx) ''completion''), w_rt w'))"
proof -
  obtain rt n r' where run: "cancelled e cx w = (Inr True, w\<lparr>w_rt := rt, w_tick := n\<rparr>)"
    and r': "row_of rj_id (cx_job cx) (rt_jobs rt) = Some r'" "rj_state r' = Leasing.Cancelled" "rj_token r' = None"
    and ids: "map rj_id (rt_jobs rt) = map rj_id (rt_jobs (w_rt w))"
    using cancelled_run [OF assms(1-5)] by blast
  obtain q qs where qs: "drop (ck_query_index ck) (ck_queries ck) = q # qs"
    using assms(7) by (cases "drop (ck_query_index ck) (ck_queries ck)") auto
  define w' where "w' = w\<lparr>w_rt := rt, w_tick := Suc n,
    w_db := set_campaign_state campaign CampaignReady ((w_db w)\<lparr>db_now := en_clock e n\<rparr>)\<rparr>"
  have "discover e cx ck w = (Inr (ck\<lparr>ck_phase := CANCELLING\<rparr>), w\<lparr>w_rt := rt, w_tick := n\<rparr>)"
    by (simp add: discover_def qs seq_def run ret_def)
  then have "handler e cx (Some ck) w = (Inr (Ends Leasing.ReadyForReview), w')"
    using assms(6,8,9)
    by (simp add: handler_def after_discovery_def at_phase_def conclude_def seq_def ret_def ops_uow_def read_clock_def
        on_db_def uow_def modify_def w'_def)
  moreover have "db_campaigns (w_db w') = upd_where (\<lambda>c. cp_id c = campaign) (\<lambda>c. c\<lparr>cp_state := CampaignReady\<rparr>) (db_campaigns (w_db w))"
    by (simp add: w'_def set_campaign_state_def)
  moreover have "rowcount (fenced_row (cx_job cx) (cx_token cx) (cx_version cx)) (rt_jobs rt) = 0"
    using rt_table.rowcount_key [of "rt_jobs rt" "cx_job cx" "\<lambda>x. rj_token x = Some (cx_token cx) \<and> rj_version x = cx_version cx"]
      ids assms(2) r' by (simp add: fenced_row_def [abs_def])
  ultimately show ?thesis
    using r' by (auto simp: w'_def complete_def fenced_write_def)
qed

definition cancelled_world :: world where
  "cancelled_world = demo_world\<lparr>w_rt := \<lparr>rt_jobs = [\<lparr>rj_id = ''j1'', rj_org = ''o1'', rj_campaign = None, rj_type = ''acquisition.run'',
     rj_queue = ''default'', rj_state = Leasing.Discovering, rj_payload = ''{}'', rj_checkpoint = ''{}'', rj_attempts = 1,
     rj_max_attempts = 3, rj_priority = 100, rj_token = Some ''t'', rj_version = 1, rj_lease = Some 60, rj_cancel_at = Some 5,
     rj_cancelled_by = Some ''u'', rj_cancel_reason = None, rj_error = None, rj_worker = Some ''w'', rj_created = 0,
     rj_updated = 0, rj_started = Some 0, rj_finished = None\<rparr>], rt_events = []\<rparr>\<rparr>"

lemma cancelled_run_marks_campaign_ready_witness:
  "\<exists>w'. handler demo_env demo_context (Some search_step) cancelled_world = (Inr (Ends Leasing.ReadyForReview), w')
    \<and> (\<exists>r'. row_of rj_id ''j1'' (rt_jobs (w_rt w')) = Some r' \<and> rj_state r' = Leasing.Cancelled)"
proof -
  have "get_job (cx_org demo_context) (cx_job demo_context) (w_rt cancelled_world) = Some (hd (rt_jobs (w_rt cancelled_world)))"
    by (simp add: get_job_def cancelled_world_def demo_context_def)
  from cancelled_run_marks_campaign_ready [OF this, of search_step 3 demo_env] show ?thesis
    by (auto simp: cancelled_world_def demo_context_def fenced_row_def search_step_def)
qed

subsection \<open>The gate in front of discovery\<close>

lemma rule_now [simp]: "rule inp (d\<lparr>db_now := t\<rparr>) = rule inp d"
  by (simp add: rule_def get_active_policy_def)

lemma snd_on_rt: "w_db (snd (on_rt m w)) = w_db w"
  by (auto simp: on_rt_def split: prod.splits sum.splits)

lemma frame_db [framed]: "frame w_db (ops_checkpoint e cx ck st)" "frame w_db (ops_set_phase e cx st')"
  by (auto simp: frame_def ops_checkpoint_def ops_set_phase_def seq_def read_clock_def snd_on_rt)

lemma set_phase_runs:
  assumes "rowcount (fenced_row (cx_job cx) (cx_token cx) (cx_version cx)) (rt_jobs (w_rt w)) \<noteq> 0"
  shows "\<exists>w1. ops_set_phase e cx st w = (Inr (), w1) \<and> w_db w1 = w_db w"
  using assms
  by (auto simp: ops_set_phase_def seq_def read_clock_def on_rt_def set_phase_def fenced_write_def)

definition discovery_decision :: "job_context \<Rightarrow> nat \<Rightarrow> string \<times> ruling \<Rightarrow> legal_decision" where
  "discovery_decision cx campaign r = \<lparr>ld_subject_type = ''campaign'', ld_subject = campaign, ld_operation = ''discovery.search'',
     ld_decision = fst (snd r), ld_version = fst r, ld_basis = fst (snd (snd r)), ld_reason = snd (snd (snd r)),
     ld_by = worker_name cx\<rparr>"

text \<open>C25: No discovery without a recorded decision: once a worker that holds the lease plans a job whose campaign and ICP
  exist, exactly one policy decision is added to the audit trail with its event, and it stays there whether the plan
  goes on or is refused; the plan goes on only under an adopted policy that does not block discovery, with at least
  one query, and an organization without a policy is always refused, under the fail-closed version.\<close>

theorem plan_is_gated:
  assumes "rowcount (fenced_row (cx_job cx) (cx_token cx) (cx_version cx)) (rt_jobs (w_rt w)) \<noteq> 0"
    and "cx_campaign cx = Some campaign" and "get_campaign campaign (w_db w) \<noteq> None"
    and "get_icp_definition (cx_icp cx) (w_db w) = Some doc"
    and "rule (operation_input ''discovery.search'' (ic_country doc)) (w_db w) = r"
  shows "db_decisions (w_db (snd (plan e cx w))) = db_decisions (w_db w) @ [discovery_decision cx campaign r]
    \<and> length (db_outbox (w_db (snd (plan e cx w)))) = Suc (length (db_outbox (w_db w)))
    \<and> (\<forall>ck. fst (plan e cx w) = Inr ck \<longrightarrow>
          get_active_policy (w_db w) \<noteq> None \<and> fst (snd r) \<noteq> Blocked \<and> ck_queries ck \<noteq> [])
    \<and> (get_active_policy (w_db w) = None \<longrightarrow> fst r = FAIL_CLOSED_VERSION \<and> fst (snd r) = Blocked
          \<and> (\<exists>why. fst (plan e cx w) = Inl (Crash (DomainFault why))))"
proof -
  obtain w1 where w1: "ops_set_phase e cx Leasing.Planning w = (Inr (), w1)" "w_db w1 = w_db w"
    using set_phase_runs [OF assms(1)] by blast
  let ?now = "en_clock e (w_tick w1)"
  let ?d = "emit POLICY_DECISION_RECORDED ''campaign'' campaign (fst r)
      (record_decision ''campaign'' campaign ''discovery.search'' (fst r) (snd r) (worker_name cx) ((w_db w)\<lparr>db_now := ?now\<rparr>))"
  let ?why = "if get_active_policy (w_db w) = None then Some (''policy fail-closed: '' @ snd (snd (snd r)))
      else if fst (snd r) = Blocked then Some (''policy blocked discovery: '' @ snd (snd (snd r))) else None"
  have pol: "get_active_policy (x\<lparr>db_now := t\<rparr>) = get_active_policy x" for x t by (simp add: get_active_policy_def)
  have tx: "plan_tx cx ((w_db w)\<lparr>db_now := ?now\<rparr>) = (Inr (doc, ?why), ?d)"
    using assms(2-5) by (cases r) (auto simp: plan_tx_def get_campaign_def get_icp_definition_def pol)
  define w2 where "w2 = w1\<lparr>w_tick := Suc (w_tick w1), w_db := ?d\<rparr>"
  have uow: "ops_uow e (plan_tx cx) w1 = (Inr (doc, ?why), w2)"
    using tx w1(2) by (simp add: ops_uow_def seq_def read_clock_def on_db_def uow_def w2_def)
  define qp where "qp = build_query_plan (icp.truncate doc)"
  let ?rest = "case ?why of Some why \<Rightarrow> throw (Crash (DomainFault why))
      | None \<Rightarrow> if is_empty_plan qp then throw (Crash (DomainFault ''ICP produced zero queries''))
          else let ck = first_checkpoint (env.truncate e) cx doc qp in
            seq (ops_checkpoint e cx ck (Some Leasing.Discovering)) (\<lambda>_. ret ck)"
  have plan: "plan e cx w = ?rest w2"
    by (simp add: plan_def seq_def w1(1) uow Let_def qp_def)
  have db: "w_db (snd (?rest w2)) = ?d"
  proof -
    have "frame w_db ?rest"
      by (auto simp: Let_def intro!: frame_rules framed split: option.splits)
    then show ?thesis by (simp add: frame_def w2_def)
  qed
  have ck: "ck_queries ck \<noteq> []" if "fst (?rest w2) = Inr ck" for ck
    using that
    by (auto simp: Let_def throw_def seq_def ret_def first_checkpoint_def is_empty_plan_def
        split: option.splits if_splits prod.splits sum.splits)
  have ok: "get_active_policy (w_db w) \<noteq> None \<and> fst (snd r) \<noteq> Blocked" if "fst (?rest w2) = Inr ck" for ck
  proof (cases ?why)
    case None
    then show ?thesis by (metis option.distinct(1))
  next
    case (Some why)
    with that show ?thesis by (simp only: option.case) (simp add: throw_def)
  qed
  have fc: "fst r = FAIL_CLOSED_VERSION \<and> fst (snd r) = Blocked" if "get_active_policy (w_db w) = None"
    using assms(5) that by (auto simp: rule_def fail_closed_def)
  show ?thesis
    unfolding plan db
  proof (intro conjI allI impI)
    show "db_decisions ?d = db_decisions (w_db w) @ [discovery_decision cx campaign r]"
      by (simp add: emit_def record_decision_def discovery_decision_def)
    show "length (db_outbox ?d) = Suc (length (db_outbox (w_db w)))"
      by (simp add: emit_def record_decision_def)
  qed (use ok ck fc in \<open>simp_all add: throw_def\<close>)
qed

definition planned_world :: world where
  "planned_world = cancelled_world\<lparr>w_db := demo_db\<lparr>
     db_campaigns := [\<lparr>cp_id = 3, cp_name = [], cp_icp = 4, cp_state = Draft, cp_budget = 0\<rparr>],
     db_icps := [\<lparr>iv_id = 4, iv_profile = 1, iv_version = 1, iv_doc = \<lparr>ic_cities = [], ic_keywords_en = [], ic_keywords_ar = [],
       ic_max_queries = None, ic_per_query = None, ic_country = None, ic_industry = None, id_engine = []\<rparr>\<rparr>]\<rparr>\<rparr>"

lemma plan_is_gated_witness:
  "length (db_decisions (w_db (snd (plan demo_env demo_context planned_world)))) = 1
    \<and> (\<exists>why. fst (plan demo_env demo_context planned_world) = Inl (Crash (DomainFault why)))"
proof -
  have "rowcount (fenced_row (cx_job demo_context) (cx_token demo_context) (cx_version demo_context))
      (rt_jobs (w_rt planned_world)) \<noteq> 0"
    by (simp add: planned_world_def cancelled_world_def demo_context_def rowcount_def fenced_row_def)
  from plan_is_gated [OF this, of 3 "iv_doc (hd (db_icps (w_db planned_world)))" _ demo_env, OF _ _ _ refl]
  show ?thesis
    by (auto simp: planned_world_def demo_context_def demo_db_def get_campaign_def get_icp_definition_def get_active_policy_def
        first_min_def)
qed

subsection \<open>Evidence that never counts\<close>

text \<open>The same run over a database with other intent signals.\<close>

definition blind :: "intent_row list \<Rightarrow> 'a sql \<Rightarrow> bool" where
  "blind xs m \<longleftrightarrow> (\<forall>d. m (d\<lparr>db_intents := xs\<rparr>) = (fst (m d), (snd (m d))\<lparr>db_intents := xs\<rparr>))"

lemma blind_ret: "blind xs (ret x)"
  by (simp add: blind_def ret_def)

lemma blind_throw: "blind xs (throw x)"
  by (simp add: blind_def throw_def)

lemma blind_gets: "(\<And>d. f (d\<lparr>db_intents := xs\<rparr>) = f d) \<Longrightarrow> blind xs (gets f)"
  by (simp add: blind_def gets_def)

lemma blind_seq:
  assumes "blind xs m" and "\<And>x. blind xs (k x)"
  shows "blind xs (seq m k)"
  unfolding blind_def
proof
  fix d
  show "seq m k (d\<lparr>db_intents := xs\<rparr>) = (fst (seq m k d), (snd (seq m k d))\<lparr>db_intents := xs\<rparr>)"
    using assms by (cases "m d") (auto simp: blind_def seq_def split: sum.splits)
qed

lemma blind_option: "blind xs m \<Longrightarrow> (\<And>y. blind xs (k y)) \<Longrightarrow> blind xs (case x of None \<Rightarrow> m | Some y \<Rightarrow> k y)"
  by (cases x) auto

lemma blind_decrypt: "blind xs (decrypt r p a q)"
  by (auto simp: blind_def decrypt_def split: option.splits)

lemma blind_cached: "blind xs (gets (get_cached_verification key))"
  by (rule blind_gets) (simp add: get_cached_verification_def)

lemma blind_best_cached: "blind xs (best_cached e cx cs best)"
  by (induction cs arbitrary: best)
    (auto intro!: blind_option blind_seq blind_ret blind_throw blind_decrypt blind_cached)

lemma blind_score: "blind xs (score_company e cx ck c)"
  unfolding score_company_def Let_def
  by (intro blind_seq blind_best_cached blind_gets)
    (auto simp: claims_summary_def claim_value_def list_company_contacts_def identities_of_def Let_def
      blind_def modify_def add_scoring_record_def split: prod.splits)

text \<open>The score the pipeline computes ignores what the scoring rules reward: phone numbers and purchase intent never
  add a point, so a score never exceeds 75 of the 100 points, and recording a score gives the same result whatever
  intent signals the database holds.\<close>

theorem phone_and_intent_never_count:
  "fst (compute_score (inputs_of v best)) \<le> 75
    \<and> score_company e cx ck c (d\<lparr>db_intents := xs\<rparr>)
      = (fst (score_company e cx ck c d), (snd (score_company e cx ck c d))\<lparr>db_intents := xs\<rparr>)"
proof -
  have "score_points (inputs_of v best) \<le> 75"
    by (simp add: score_points_def inputs_of_def min_le_iff_disj)
  then have "(of_nat (score_points (inputs_of v best)) :: rat) \<le> 75"
    by (metis of_nat_le_iff of_nat_numeral)
  then show ?thesis
    using blind_score [of xs e cx ck c] by (simp add: compute_score_def blind_def)
qed

end
