(* ===== verification/AcqReview.thy ===== *)
theory AcqReview
  imports AcqPipeline
begin

section \<open>Use cases around the pipeline (application/usecases)\<close>

text \<open>
  Creating a campaign with its job, the human decision on a lead and the reading of contact data.  Each use case
  runs one or more units of work; the second one of \<open>read\<close> sees the database as the first left it.
\<close>

subsection \<open>The review (review.py)\<close>

definition outreach_input :: "lead \<Rightarrow> policy_input" where
  "outreach_input l = \<lparr>pi_operation = ''lead.outreach'', pi_country = None, pi_kind = Some ''domain'',
     pi_value = map_option rule_text (le_domain l), pi_target_country = None\<rparr>"

definition pending :: "nat \<Rightarrow> adb \<Rightarrow> lead list" where
  "pending n d = list_leads (Some AcqRepos.ReadyForReview) n d"

record review_result =
  rv_state :: review_state
  rv_policy :: governance_decision
  rv_version :: string

definition decide_tx :: "nat \<Rightarrow> string \<Rightarrow> bool \<Rightarrow> (string + review_result) sql" where
  "decide_tx lead_id actor approve = (\<lambda>d.
     case get_lead lead_id d of None \<Rightarrow> (Inl (NotFound ''lead not found (or belongs to another tenant)''), d)
     | Some l \<Rightarrow>
       (let (version, ruling) = rule (outreach_input l) d;
            d1 = record_decision ''lead'' lead_id ''lead.outreach'' version ruling actor d in
        if get_active_policy d = None then (Inr (Inl (''policy fail-closed: '' @ snd (snd ruling))), d1)
        else if approve \<and> fst ruling = Blocked
        then (Inr (Inl (''policy blocks outreach for this lead: '' @ snd (snd ruling))), d1)
        else let new = (if approve then Approved else RejectedByHuman); (found, d2) = decide_lead lead_id new actor d1 in
          if \<not> found then (Inl (NotFound ''lead is not awaiting review''), d2)
          else (Inr (Inr \<lparr>rv_state = new, rv_policy = fst ruling, rv_version = version\<rparr>),
                emit (if approve then LEAD_APPROVED else LEAD_REJECTED) ''lead'' lead_id version d2)))"

definition decide_review :: "int \<Rightarrow> nat \<Rightarrow> string \<Rightarrow> bool \<Rightarrow> review_result sql" where
  "decide_review now lead_id actor approve =
     seq (uow now (decide_tx lead_id actor approve)) (\<lambda>out.
       case out of Inl refusal \<Rightarrow> throw (PolicyBlockedFault refusal) | Inr r \<Rightarrow> ret r)"

subsection \<open>Reading contact data (pii_access.py)\<close>

record contact_data =
  cd_id :: nat
  cd_name :: "utext option"
  cd_role :: "utext option"
  cd_email :: "utext option"
  cd_phone :: "utext option"

definition check_approved :: "nat \<Rightarrow> unit sql" where
  "check_approved lead_id = seq (gets (get_lead lead_id)) (\<lambda>l.
     case l of None \<Rightarrow> throw (NotFound ''lead not found'')
     | Some l \<Rightarrow> if le_state l \<noteq> Approved then throw (DomainFault ''outreach plaintext requires an APPROVED lead'')
                 else ret ())"

definition decrypt_opt :: "nat option \<Rightarrow> string \<Rightarrow> string \<Rightarrow> string option \<Rightarrow> utext option sql" where
  "decrypt_opt ref purpose actor request =
     (case ref of None \<Rightarrow> ret None | Some r \<Rightarrow> seq (decrypt r purpose actor request) (\<lambda>v. ret (Some v)))"

definition read_tx :: "env \<Rightarrow> nat \<Rightarrow> string \<Rightarrow> string \<Rightarrow> string option \<Rightarrow> contact_data option sql" where
  "read_tx e lead_id purpose actor request = seq (gets (get_lead lead_id)) (\<lambda>l.
     case l of None \<Rightarrow> throw (NotFound ''lead not found'')
     | Some l \<Rightarrow> (case le_contact l of None \<Rightarrow> throw (NotFound ''lead has no contact'')
         | Some k \<Rightarrow> seq (gets (list_company_contacts e (le_company l))) (\<lambda>cs.
             case find (\<lambda>c. lc_id c = k) cs of None \<Rightarrow> ret None
             | Some c \<Rightarrow>
                 seq (decrypt_opt (lc_email_ref c) purpose actor request) (\<lambda>email.
                 seq (decrypt_opt (lc_phone_ref c) purpose actor request) (\<lambda>phone.
                   ret (Some \<lparr>cd_id = lc_id c, cd_name = lc_name c, cd_role = lc_role c, cd_email = email,
                              cd_phone = phone\<rparr>))))))"

definition read_contact ::
  "env \<Rightarrow> int \<Rightarrow> int \<Rightarrow> nat \<Rightarrow> string \<Rightarrow> string \<Rightarrow> string option \<Rightarrow> contact_data sql" where
  "read_contact e now now' lead_id purpose actor request =
     (if purpose \<notin> set ALLOWED_PURPOSES then throw (DomainFault ''unknown pii purpose'')
      else seq (if purpose = ''outreach'' then uow now (check_approved lead_id) else ret ()) (\<lambda>_.
           seq (uow now' (read_tx e lead_id purpose actor request)) (\<lambda>out.
             case out of None \<Rightarrow> throw (NotFound ''contact not found for lead'') | Some c \<Rightarrow> ret c)))"

subsection \<open>Creating a campaign (campaigns.py)\<close>

text \<open>A plan is its number of concurrent jobs, one by default.\<close>

record org_plan =
  pn_max_jobs :: "nat option"

datatype campaign_error = OrgNotFound | EntitlementExceeded nat nat | CampaignFault fault

definition create_tx :: "utext \<Rightarrow> icp_doc \<Rightarrow> utext \<Rightarrow> nat \<Rightarrow> (nat \<times> nat) sql" where
  "create_tx profile doc name budget =
     seq (create_icp_version profile doc) (\<lambda>v. seq (create_campaign name v budget) (\<lambda>c. ret (c, v)))"

text \<open>\<open>doc_text\<close> writes the payload, \<open>camp_text\<close> the id of the campaign.\<close>

definition execute_campaign ::
  "(nat \<times> nat \<times> nat \<Rightarrow> string) \<Rightarrow> (nat \<Rightarrow> string) \<Rightarrow> int \<Rightarrow> ident \<Rightarrow> ident \<Rightarrow> org_plan option \<Rightarrow> utext \<Rightarrow> icp_doc \<Rightarrow> utext
     \<Rightarrow> nat \<Rightarrow> adb \<times> rt_db \<Rightarrow> (campaign_error + nat) \<times> adb \<times> rt_db" where
  "execute_campaign doc_text camp_text now job org p profile doc name budget s =
     (case p of None \<Rightarrow> (Inl OrgNotFound, s)
      | Some pl \<Rightarrow>
        (let limit = or_default (pn_max_jobs pl) 1; active = active_job_count org (snd s) in
         if active \<ge> limit then (Inl (EntitlementExceeded limit active), s)
         else case uow now (create_tx profile doc name budget) (fst s) of
           (Inr (c, v), d) \<Rightarrow> (Inr c, d, create_job now job org ''acquisition.run'' (doc_text (c, v, budget)) ''default''
              (Some (camp_text c)) 3 100 (snd s))
         | (Inl f, d) \<Rightarrow> (Inl (CampaignFault f), d, snd s)))"

end
