(* ===== verification/AcqApproval.thy ===== *)
theory AcqApproval
  imports AcqReview AcqInvariant
begin

section \<open>The human boundary\<close>

text \<open>
  Runs of the pipeline, reviews and readings of contact data act on one tenant in any order.  No lead leaves the
  review queue but by a decision that is on record, a decision is final, and contact data is handed out for outreach
  only where a human approved the lead.
\<close>

subsection \<open>What a decision leaves on record\<close>

definition decision_on_record :: "adb \<Rightarrow> lead \<Rightarrow> bool" where
  "decision_on_record d l \<longleftrightarrow>
     (\<exists>x \<in> set (db_decisions d). ld_subject_type x = ''lead'' \<and> ld_subject x = le_id l \<and> ld_operation x = ''lead.outreach''
        \<and> le_by l = Some (ld_by x) \<and> (le_state l = Approved \<longrightarrow> ld_decision x \<noteq> Blocked))
     \<and> (\<exists>v \<in> set (db_outbox d). ev_aggregate v = ''lead'' \<and> ev_subject v = le_id l
        \<and> ev_type v = (if le_state l = Approved then LEAD_APPROVED else LEAD_REJECTED))"

text \<open>A secret read for outreach belongs to the contact of an approved lead.\<close>

definition outreach_ok :: "adb \<Rightarrow> access \<Rightarrow> bool" where
  "outreach_ok d a \<longleftrightarrow> (\<exists>l \<in> set (db_leads d). le_state l = Approved
     \<and> (\<exists>x \<in> set (db_identities d). le_contact l = Some (id_contact x) \<and> id_ref x = Some (ac_ref a)))"

definition same_decision :: "lead \<Rightarrow> lead \<Rightarrow> bool" where
  "same_decision l l' \<longleftrightarrow> le_id l' = le_id l \<and> le_state l' = le_state l \<and> le_by l' = le_by l \<and> le_contact l' = le_contact l"

definition decisions_stand :: "adb \<Rightarrow> adb \<Rightarrow> bool" where
  "decisions_stand d0 d \<longleftrightarrow>
     (\<forall>l \<in> set (db_leads d0). le_state l \<noteq> AcqRepos.ReadyForReview \<longrightarrow> (\<exists>l' \<in> set (db_leads d). same_decision l l'))"

definition boundary_ok :: "adb \<Rightarrow> adb \<Rightarrow> bool" where
  "boundary_ok d0 d \<longleftrightarrow>
     fresh_keys le_id (db_leads d) (db_next d)
     \<and> (\<forall>l \<in> set (db_leads d). le_state l \<noteq> AcqRepos.ReadyForReview \<longrightarrow> decision_on_record d l)
     \<and> (\<forall>a \<in> set (db_access d). ac_purpose a = ''outreach'' \<longrightarrow> outreach_ok d a)
     \<and> decisions_stand d0 d"

subsection \<open>Statements that leave the leads alone\<close>

definition grows :: "adb \<Rightarrow> adb \<Rightarrow> bool" where
  "grows d d' \<longleftrightarrow> db_leads d' = db_leads d \<and> db_next d \<le> db_next d' \<and> set (db_decisions d) \<subseteq> set (db_decisions d')
     \<and> set (db_outbox d) \<subseteq> set (db_outbox d') \<and> set (db_identities d) \<subseteq> set (db_identities d')
     \<and> (\<forall>a \<in> set (db_access d'). ac_purpose a = ''outreach'' \<longrightarrow> a \<in> set (db_access d))"

lemma record_mono:
  "decision_on_record d l \<Longrightarrow> set (db_decisions d) \<subseteq> set (db_decisions d') \<Longrightarrow> set (db_outbox d) \<subseteq> set (db_outbox d')
    \<Longrightarrow> decision_on_record d' l"
  unfolding decision_on_record_def by blast

lemma boundary_grows:
  assumes "boundary_ok d0 d" and "grows d d'"
  shows "boundary_ok d0 d'"
proof -
  have "outreach_ok d' a" if "outreach_ok d a" for a
    using that assms(2) unfolding outreach_ok_def grows_def by (metis subsetD)
  moreover have "decision_on_record d' l" if "decision_on_record d l" for l
    using record_mono [OF that] assms(2) by (simp add: grows_def)
  ultimately show ?thesis
    using assms by (auto simp: boundary_ok_def grows_def decisions_stand_def intro: fresh_keys_le)
qed

lemma keeps_grows: "(\<And>d x d'. m d = (Inr x, d') \<Longrightarrow> grows d d') \<Longrightarrow> keeps (boundary_ok d0) m"
  by (rule keepsI) (blast intro: boundary_grows)

named_theorems apart "statements that leave the leads alone"

lemma apart_small [apart]:
  "keeps (boundary_ok d0) fresh_id"
  "keeps (boundary_ok d0) (update (add_observation c f v s m q))"
  "keeps (boundary_ok d0) (update (\<lambda>d. case domain of None \<Rightarrow> d | Some x \<Rightarrow> add_identifier c k x d))"
  "keeps (boundary_ok d0) (update (add_intent_signal c k t src))"
  "keeps (boundary_ok d0) (update (record_enrichment c ok fl cost))"
  "keeps (boundary_ok d0) (update (record_verification c k r st provider))"
  "keeps (boundary_ok d0) (update (add_scoring_record c sc why))"
  "keeps (boundary_ok d0) (update (emit etype agg subj info))"
  "keeps (boundary_ok d0) (update (set_campaign_state c cst))"
  "keeps (boundary_ok d0) (update (add_qualification_record c camp dec reason icp_id policy))"
  "keeps (boundary_ok d0) (update (record_decision stype subj op ver ruling actor))"
  "keeps (boundary_ok d0) (update (\<lambda>d. cache_verification key text ev (db_now d + n) d))"
  "keeps (boundary_ok d0) (update (attach c k pub ref))"
  by (auto simp: fresh_id_def modify_def grows_def add_observation_def add_identifier_def add_intent_signal_def
      record_enrichment_def record_verification_def add_scoring_record_def emit_def set_campaign_state_def
      add_qualification_record_def record_decision_def cache_verification_def attach_def Let_def
      intro!: keeps_grows split: option.splits)

lemma apart_insert [apart]:
  "keeps (boundary_ok d0) (insert_new (add_raw_result jb qt u title sn))"
  "keeps (boundary_ok d0) (insert_new (mark_visited e jb u))"
  "keeps (boundary_ok d0) (gateway_call e' ck cap rq)"
  "keeps (boundary_ok d0) (decrypt ref ''verification'' actor req)"
  by (auto simp: lift_def add_raw_result_def mark_visited_def gateway_call_def decrypt_def grows_def
      intro!: keeps_grows split: prod.splits option.splits if_splits)

lemma apart_rows [apart]:
  "keeps (boundary_ok d0) (get_or_create_source k w prov h)"
  "keeps (boundary_ok d0) (find_or_create_contact e c nm r s)"
  "keeps (boundary_ok d0) (store k v)"
  "keeps (boundary_ok d0) (masked k v)"
  "keeps (boundary_ok d0) (company_of e country industry biz domain city kind)"
  by (auto simp: get_or_create_source_def find_or_create_contact_def store_def masked_def company_of_def create_company_def
      fresh_id_def seq_def modify_def ret_def throw_def grows_def
      intro!: keeps_grows split: option.splits if_splits)

lemma apart_claim [apart]: "keeps (boundary_ok d0) (upsert_claim c f v s m q)"
  by (rule keeps_grows)
    (auto simp: upsert_claim_def insert_claim_def insert_conflict_def update_claim_def seq_def modify_def grows_def
      split: option.splits if_splits sum.splits prod.splits)

lemma apart_secrets [apart]:
  "keeps (boundary_ok d0) (keep_email e c u src u')" "keeps (boundary_ok d0) (keep_phone e c u src u')"
  "keeps (boundary_ok d0) (store_person e c pn)"
  unfolding keep_email_def keep_phone_def store_person_def attach_email_ref_def attach_phone_ref_def attach_social_def
  by (intro keeps_rules apart)+

subsection \<open>Statements that write leads\<close>

text \<open>The same fields of two lists of leads, and what the boundary needs of a new list.\<close>

lemma boundary_leads:
  assumes ok: "boundary_ok d0 d" and keys: "fresh_keys le_id ls n"
    and old: "\<And>l. l \<in> set (db_leads d) \<Longrightarrow> le_state l \<noteq> AcqRepos.ReadyForReview \<Longrightarrow> \<exists>l' \<in> set ls. same_decision l l'"
    and new: "\<And>l. l \<in> set ls \<Longrightarrow> le_state l \<noteq> AcqRepos.ReadyForReview \<Longrightarrow> decision_on_record d l"
  shows "boundary_ok d0 (d\<lparr>db_leads := ls, db_next := n\<rparr>)"
proof -
  have "outreach_ok (d\<lparr>db_leads := ls, db_next := n\<rparr>) a" if a: "outreach_ok d a" for a
  proof -
    obtain l x where "l \<in> set (db_leads d)" "le_state l = Approved" "x \<in> set (db_identities d)"
      "le_contact l = Some (id_contact x)" "id_ref x = Some (ac_ref a)"
      using a by (auto simp: outreach_ok_def)
    with old [of l] show ?thesis by (fastforce simp: outreach_ok_def same_decision_def)
  qed
  moreover have "decision_on_record (d\<lparr>db_leads := ls, db_next := n\<rparr>) l" if "decision_on_record d l" for l
    using that by (simp add: decision_on_record_def)
  moreover have "decisions_stand d0 (d\<lparr>db_leads := ls, db_next := n\<rparr>)"
    unfolding decisions_stand_def
  proof (intro ballI impI)
    fix l
    assume l: "l \<in> set (db_leads d0)" "le_state l \<noteq> AcqRepos.ReadyForReview"
    with ok obtain k where k: "k \<in> set (db_leads d)" "same_decision l k"
      unfolding boundary_ok_def decisions_stand_def by blast
    with l old [of k] obtain l' where "l' \<in> set ls" "same_decision k l'" by (auto simp: same_decision_def)
    with k show "\<exists>l' \<in> set (db_leads (d\<lparr>db_leads := ls, db_next := n\<rparr>)). same_decision l l'"
      by (auto simp: same_decision_def)
  qed
  ultimately show ?thesis
    using ok keys new by (simp add: boundary_ok_def)
qed

lemma same_decision_refl: "same_decision l l"
  by (simp add: same_decision_def)

lemma record_same: "decision_on_record d l \<Longrightarrow> same_decision l l' \<Longrightarrow> decision_on_record d l'"
  by (simp add: decision_on_record_def same_decision_def)

lemma apart_upsert_lead [apart]: "keeps (boundary_ok d0) (upsert_lead new)"
proof (rule keepsI)
  fix d i d'
  assume ok: "boundary_ok d0 d" and run: "upsert_lead new d = (Inr i, d')"
  have keys: "fresh_keys le_id (db_leads d) (db_next d)"
    and recd: "\<And>l. l \<in> set (db_leads d) \<Longrightarrow> le_state l \<noteq> AcqRepos.ReadyForReview \<Longrightarrow> decision_on_record d l"
    using ok by (auto simp: boundary_ok_def)
  show "boundary_ok d0 d'"
  proof (cases "find (same_lead (le_campaign new) (le_company new) (le_contact new)) (db_leads d)")
    case None
    let ?l = "new\<lparr>le_id := db_next d, le_state := AcqRepos.ReadyForReview, le_by := None, le_built := db_now d\<rparr>"
    have "d' = d\<lparr>db_leads := db_leads d @ [?l], db_next := Suc (db_next d)\<rparr>"
      using None run by (auto simp: upsert_lead_def fresh_id_def seq_def modify_def ret_def)
    moreover have "\<exists>l' \<in> set (db_leads d @ [?l]). same_decision l l'" if "l \<in> set (db_leads d)" for l
      using that same_decision_refl by (intro bexI [of _ l]) auto
    moreover have "decision_on_record d l" if "l \<in> set (db_leads d @ [?l])" "le_state l \<noteq> AcqRepos.ReadyForReview" for l
      using that recd by auto
    ultimately show ?thesis
      by (auto intro!: boundary_leads [OF ok] fresh_keys_append keys simp del: set_append)
  next
    case (Some old)
    let ?f = "\<lambda>l. new\<lparr>le_id := le_id l, le_icp := le_icp l, le_state := le_state l, le_by := le_by l, le_built := db_now d\<rparr>"
    let ?ls = "upd_where (\<lambda>l. le_id l = le_id old) ?f (db_leads d)"
    have d': "d' = d\<lparr>db_leads := ?ls, db_next := db_next d\<rparr>" using Some run by (auto simp: upsert_lead_def)
    have old: "old \<in> set (db_leads d)" "le_contact old = le_contact new"
      using Some by (auto simp: find_Some_iff same_lead_def)
    have keep: "same_decision l (if le_id l = le_id old then ?f l else l)" if "l \<in> set (db_leads d)" for l
    proof (cases "le_id l = le_id old")
      case True
      then have "l = old" using keys that old(1) by (auto simp: fresh_keys_def distinct_map inj_on_def)
      then show ?thesis using old by (simp add: same_decision_def)
    qed (simp add: same_decision_refl)
    show ?thesis
      unfolding d'
    proof (rule boundary_leads [OF ok])
      show "fresh_keys le_id ?ls (db_next d)" using keys by (simp add: fresh_keys_upd)
      show "\<exists>l' \<in> set ?ls. same_decision l l'" if "l \<in> set (db_leads d)" for l
        using keep [OF that] that by (intro bexI [of _ "if le_id l = le_id old then ?f l else l"]) (auto simp: upd_where_def)
      show "decision_on_record d l" if l: "l \<in> set ?ls" "le_state l \<noteq> AcqRepos.ReadyForReview" for l
      proof -
        obtain k where k: "k \<in> set (db_leads d)" "l = (if le_id k = le_id old then ?f k else k)"
          using l(1) by (auto simp: upd_where_def simp del: set_upd_where)
        with keep [OF k(1)] have "same_decision k l" by simp
        then show ?thesis using recd [OF k(1)] l(2) record_same by (auto simp: same_decision_def)
      qed
    qed
  qed
qed

lemma apart_outline [apart]: "keeps (boundary_ok d0) (outline_of e cx recorded cs out)"
  by (induction cs arbitrary: out)
    (auto simp: unmasked_email_def Let_def intro!: keeps_rules apart split: option.splits)

lemma apart_qualify [apart]: "keeps (boundary_ok d0) (qualify_company e cx ck c)"
  unfolding qualify_company_def qualify_under_def Let_def
  by (intro keeps_rules apart)

lemma apart_plan [apart]: "keeps (boundary_ok d0) (plan_tx cx)"
proof (rule keeps_grows)
  fix d x d'
  assume run: "plan_tx cx d = (Inr x, d')"
  obtain doc why where x: "x = (doc, why)" by (cases x)
  from run [unfolded x] show "grows d d'"
    by (rule plan_tx_Inr) (auto simp: grows_def emit_def record_decision_def)
qed

subsection \<open>The use cases\<close>

lemma boundary_gateway: "boundary_ok d0 d \<Longrightarrow> boundary_ok d0 (d\<lparr>db_gateway := g\<rparr>)"
  by (erule boundary_grows) (simp add: grows_def)

lemma boundary_now: "boundary_ok d0 d \<Longrightarrow> boundary_ok d0 (d\<lparr>db_now := now\<rparr>)"
  by (erule boundary_grows) (simp add: grows_def)

interpretation boundary: tenant_contract e "boundary_ok d0" for e d0
  by unfold_locales (rule apart | erule boundary_gateway boundary_now)+

subsection \<open>One review\<close>

lemma rule_at: "rule inp (d\<lparr>db_now := t\<rparr>) = rule inp d"
  by (simp add: rule_def get_active_policy_def)

lemma record_decision_simps [simp]:
  "db_leads (record_decision s i op v r a d) = db_leads d" "db_outbox (record_decision s i op v r a d) = db_outbox d"
  "db_gateway (record_decision s i op v r a d) = db_gateway d"
  by (simp_all add: record_decision_def)

lemma waiting_iff:
  assumes "get_lead i d = Some l" and "distinct (map le_id (db_leads d))"
  shows "(\<exists>x \<in> set (db_leads d). le_id x = i \<and> le_state x = st) \<longleftrightarrow> le_state l = st"
  using row_of_Some [OF assms(1) [unfolded get_lead_def]] assms(2)
  by (auto simp: distinct_map inj_on_def)

interpretation lead_table: keyed_table le_id .

definition decided_row :: "bool \<Rightarrow> string \<Rightarrow> lead \<Rightarrow> lead" where
  "decided_row approve actor l = l\<lparr>le_state := (if approve then Approved else RejectedByHuman), le_by := Some actor\<rparr>"

text \<open>The row a decision leaves, and when the policy stands in its way.\<close>

definition review_row :: "nat \<Rightarrow> string \<Rightarrow> string \<Rightarrow> ruling \<Rightarrow> legal_decision" where
  "review_row i actor version ruling =
     \<lparr>ld_subject_type = ''lead'', ld_subject = i, ld_operation = ''lead.outreach'', ld_decision = fst ruling,
      ld_version = version, ld_basis = fst (snd ruling), ld_reason = snd (snd ruling), ld_by = actor\<rparr>"

definition policy_blocks :: "bool \<Rightarrow> ruling \<Rightarrow> adb \<Rightarrow> bool" where
  "policy_blocks approve ruling d \<longleftrightarrow> get_active_policy d = None \<or> approve \<and> fst ruling = Blocked"

lemma decide_tx_cases:
  fixes actor :: string and approve :: bool
  assumes "get_lead i d = Some l" and "distinct (map le_id (db_leads d))"
    and "rule (outreach_input l) d = (version, ruling)"
  defines "d1 \<equiv> record_decision ''lead'' i ''lead.outreach'' version ruling actor d"
    and "p \<equiv> \<lambda>x. le_id x = i \<and> le_state x = AcqRepos.ReadyForReview"
  shows "decide_tx i actor approve d =
     (if policy_blocks approve ruling d then (Inr (Inl ((if get_active_policy d = None then ''policy fail-closed: ''
        else ''policy blocks outreach for this lead: '') @ snd (snd ruling))), d1)
      else if le_state l \<noteq> AcqRepos.ReadyForReview
      then (Inl (NotFound ''lead is not awaiting review''), d1\<lparr>db_leads := upd_where p (decided_row approve actor) (db_leads d)\<rparr>)
      else (Inr (Inr \<lparr>rv_state = (if approve then Approved else RejectedByHuman), rv_policy = fst ruling, rv_version = version\<rparr>),
        emit (if approve then LEAD_APPROVED else LEAD_REJECTED) ''lead'' i version
          (d1\<lparr>db_leads := upd_where p (decided_row approve actor) (db_leads d)\<rparr>)))"
proof -
  have "list_ex p (db_leads d) \<longleftrightarrow> le_state l = AcqRepos.ReadyForReview"
    using waiting_iff [OF assms(1,2), of AcqRepos.ReadyForReview] by (simp add: list_ex_iff p_def)
  then show ?thesis
    using assms(1,3)
    by (simp add: decide_tx_def decide_lead_def Let_def d1_def policy_blocks_def p_def decided_row_def [abs_def])
qed

text \<open>A human decision on a lead.  It succeeds only for a lead that awaits review, under an adopted policy that does
  not block outreach where the lead is approved; then exactly this lead moves, to the state asked for, one decision
  and one event are recorded, and nothing else of the leads changes.  A refusal by the policy leaves leads and events
  alone but commits the decision row; any other failure leaves the database as it was.\<close>

theorem review_decides:
  assumes "get_lead i d = Some l" and "distinct (map le_id (db_leads d))"
    and "rule (outreach_input l) d = (version, ruling)"
  shows "case decide_review now i actor approve d of
      (Inr r, d') \<Rightarrow> \<not> policy_blocks approve ruling d \<and> le_state l = AcqRepos.ReadyForReview \<and> rv_state r = le_state (decided_row approve actor l)
        \<and> (\<forall>j. get_lead j d' = (if j = i then Some (decided_row approve actor l) else get_lead j d))
        \<and> db_decisions d' = db_decisions d @ [review_row i actor version ruling]
        \<and> db_outbox d' = db_outbox d @ [\<lparr>ev_type = (if approve then LEAD_APPROVED else LEAD_REJECTED), ev_aggregate = ''lead'',
            ev_subject = i, ev_note = version\<rparr>]
    | (Inl err, d') \<Rightarrow> db_leads d' = db_leads d \<and> db_outbox d' = db_outbox d
        \<and> (if policy_blocks approve ruling d then (\<exists>why. err = PolicyBlockedFault why) \<and> db_decisions d' = db_decisions d @ [review_row i actor version ruling]
           else err = NotFound ''lead is not awaiting review'' \<and> le_state l \<noteq> AcqRepos.ReadyForReview \<and> d' = d)"
proof -
  let ?d = "d\<lparr>db_now := now\<rparr>"
  let ?p = "\<lambda>x. le_id x = i \<and> le_state x = AcqRepos.ReadyForReview"
  have l: "get_lead i ?d = Some l" "distinct (map le_id (db_leads ?d))" "rule (outreach_input l) ?d = (version, ruling)"
    "get_active_policy ?d = get_active_policy d" "le_id l = i"
    using assms(1-3) row_of_Some [OF assms(1) [unfolded get_lead_def]]
    by (simp_all add: get_lead_def rule_at get_active_policy_def)
  have moved: "row_of le_id j (upd_where ?p (decided_row approve actor) (db_leads d))
      = (if j = i \<and> le_state l = AcqRepos.ReadyForReview then Some (decided_row approve actor l) else get_lead j d)" for j
    using assms(1) row_of_Some [of le_id j "db_leads d"]
    by (cases "row_of le_id j (db_leads d)") (auto simp: lead_table.row_of_upd_where decided_row_def get_lead_def)
  show ?thesis
    using l(5) moved
    by (simp add: decide_review_def uow_def seq_def decide_tx_cases [OF l(1-3)] l(4) policy_blocks_def review_row_def
        record_decision_def emit_def throw_def ret_def decided_row_def get_lead_def)
qed

subsection \<open>Reading contact data\<close>

text \<open>What a computation adds to the access log, all of it under one purpose by one actor.\<close>

definition logged :: "string \<Rightarrow> string \<Rightarrow> string option \<Rightarrow> (access \<Rightarrow> bool) \<Rightarrow> access list \<Rightarrow> bool" where
  "logged purpose actor request ok as \<longleftrightarrow>
     list_all (\<lambda>a. ac_purpose a = purpose \<and> ac_actor a = actor \<and> ac_request a = request \<and> ok a) as"

lemma decrypt_opt_Inr:
  assumes "decrypt_opt ref purpose actor request d = (Inr v, d')"
  obtains as where "d' = d\<lparr>db_access := db_access d @ as\<rparr>"
    and "logged purpose actor request (\<lambda>a. ref = Some (ac_ref a)) as"
    and "case v of None \<Rightarrow> ref = None | Some w \<Rightarrow> \<exists>a \<in> set as. \<exists>r \<in> set (db_vault d). va_id r = ac_ref a \<and> va_value r = w"
proof (cases ref)
  case None
  with assms show ?thesis by (intro that [of "[]"]) (auto simp: decrypt_opt_def ret_def logged_def)
next
  case (Some k)
  then obtain r where r: "row_of va_id k (db_vault d) = Some r" "v = Some (va_value r)"
    "d' = d\<lparr>db_access := db_access d @ [\<lparr>ac_ref = k, ac_purpose = purpose, ac_actor = actor, ac_request = request\<rparr>]\<rparr>"
    using assms by (auto simp: decrypt_opt_def decrypt_def seq_def ret_def split: if_splits option.splits)
  show ?thesis
    by (rule that [OF r(3)]) (use Some r(1,2) row_of_Some [OF r(1)] in \<open>auto simp: logged_def\<close>)
qed

lemma contact_refs:
  assumes "c \<in> set (list_company_contacts e company d)" and "lc_email_ref c = Some ref \<or> lc_phone_ref c = Some ref"
  shows "\<exists>x \<in> set (db_identities d). id_contact x = lc_id c \<and> id_ref x = Some ref"
proof -
  obtain k :: contact where k: "lc_id c = ct_id k" "lc_email_ref c = max_by (en_uuid e) (List.map_filter id_ref (identities_of (ct_id k) ''email'' d))"
    "lc_phone_ref c = max_by (en_uuid e) (List.map_filter id_ref (identities_of (ct_id k) ''phone'' d))"
    using assms(1) by (auto simp: list_company_contacts_def Let_def)
  then have "ref \<in> set (List.map_filter id_ref (identities_of (ct_id k) ''email'' d))
      \<or> ref \<in> set (List.map_filter id_ref (identities_of (ct_id k) ''phone'' d))"
    using assms(2) by (auto dest: max_by_mem)
  then show ?thesis
    using k(1) by (auto simp: map_filter_mem identities_of_def)
qed

lemma read_tx_Inr:
  assumes "read_tx e i purpose actor request d = (Inr (Some out), d')"
  obtains l as where "get_lead i d = Some l" and "le_contact l = Some (cd_id out)"
    and "d' = d\<lparr>db_access := db_access d @ as\<rparr>"
    and "logged purpose actor request (\<lambda>a. \<exists>x \<in> set (db_identities d). id_contact x = cd_id out \<and> id_ref x = Some (ac_ref a)) as"
    and "\<forall>w. cd_email out = Some w \<or> cd_phone out = Some w \<longrightarrow>
      (\<exists>a \<in> set as. \<exists>r \<in> set (db_vault d). va_id r = ac_ref a \<and> va_value r = w)"
proof -
  obtain l where l: "get_lead i d = Some l"
    using assms by (cases "get_lead i d") (auto simp: read_tx_def seq_gets throw_def)
  obtain k where k: "le_contact l = Some k"
    using assms l by (cases "le_contact l") (auto simp: read_tx_def seq_gets throw_def)
  obtain c where c: "find (\<lambda>c. lc_id c = k) (list_company_contacts e (le_company l) d) = Some c"
    using assms l k by (cases "find (\<lambda>c. lc_id c = k) (list_company_contacts e (le_company l) d)")
      (auto simp: read_tx_def seq_gets ret_def)
  obtain email d1 where e1: "decrypt_opt (lc_email_ref c) purpose actor request d = (Inr email, d1)"
    using assms l k c by (auto simp: read_tx_def seq_gets seq_def [of "decrypt_opt _ _ _ _"] split: prod.splits sum.splits)
  obtain phone d2 where p1: "decrypt_opt (lc_phone_ref c) purpose actor request d1 = (Inr phone, d2)"
    and out: "out = \<lparr>cd_id = lc_id c, cd_name = lc_name c, cd_role = lc_role c, cd_email = email, cd_phone = phone\<rparr>" "d' = d2"
    using assms l k c e1
    by (auto simp: read_tx_def seq_gets seq_def [of "decrypt_opt _ _ _ _"] ret_def split: prod.splits sum.splits)
  obtain as1 where as1: "d1 = d\<lparr>db_access := db_access d @ as1\<rparr>"
    "logged purpose actor request (\<lambda>a. lc_email_ref c = Some (ac_ref a)) as1"
    "case email of None \<Rightarrow> lc_email_ref c = None | Some w \<Rightarrow> \<exists>a \<in> set as1. \<exists>r \<in> set (db_vault d). va_id r = ac_ref a \<and> va_value r = w"
    using e1 by (rule decrypt_opt_Inr)
  obtain as2 where as2: "d2 = d1\<lparr>db_access := db_access d1 @ as2\<rparr>"
    "logged purpose actor request (\<lambda>a. lc_phone_ref c = Some (ac_ref a)) as2"
    "case phone of None \<Rightarrow> lc_phone_ref c = None | Some w \<Rightarrow> \<exists>a \<in> set as2. \<exists>r \<in> set (db_vault d1). va_id r = ac_ref a \<and> va_value r = w"
    using p1 by (rule decrypt_opt_Inr)
  have mem: "c \<in> set (list_company_contacts e (le_company l) d)" "lc_id c = k"
    using c by (auto simp: find_Some_iff)
  show ?thesis
  proof (rule that [of l "as1 @ as2"])
    show "logged purpose actor request (\<lambda>a. \<exists>x \<in> set (db_identities d). id_contact x = cd_id out \<and> id_ref x = Some (ac_ref a)) (as1 @ as2)"
      using as1(2) as2(2) contact_refs [OF mem(1)] out(1) by (auto simp: logged_def list_all_iff)
    show "\<forall>w. cd_email out = Some w \<or> cd_phone out = Some w \<longrightarrow>
        (\<exists>a \<in> set (as1 @ as2). \<exists>r \<in> set (db_vault d). va_id r = ac_ref a \<and> va_value r = w)"
      using as1 as2(3) out(1) by auto blast+
  qed (use l k mem out as1(1) as2(1) in simp_all)
qed

lemma uow_Inr: "uow now m d = (Inr x, d') \<longleftrightarrow> m (d\<lparr>db_now := now\<rparr>) = (Inr x, d')"
  by (auto simp: uow_def split: prod.splits sum.splits)

lemma check_approved_Inr:
  "check_approved i d = (Inr u, d') \<longleftrightarrow> d' = d \<and> (\<exists>l. get_lead i d = Some l \<and> le_state l = Approved)"
  by (auto simp: check_approved_def seq_gets throw_def ret_def split: option.splits)

text \<open>C26: Contact data is handed out for a known purpose only, and for outreach only when the lead is approved; it is the
  data of the lead's contact as the vault holds it, and each value handed out is in the access log under that purpose,
  actor and request.  The reading changes nothing else.\<close>

theorem contact_data_is_audited:
  assumes "read_contact e now now' i purpose actor request d = (Inr out, d')"
  shows "purpose \<in> set ALLOWED_PURPOSES
    \<and> (\<exists>l as. get_lead i d = Some l \<and> le_contact l = Some (cd_id out) \<and> (purpose = ''outreach'' \<longrightarrow> le_state l = Approved)
      \<and> d' = d\<lparr>db_now := now', db_access := db_access d @ as\<rparr>
      \<and> logged purpose actor request (\<lambda>a. \<exists>x \<in> set (db_identities d). id_contact x = cd_id out \<and> id_ref x = Some (ac_ref a)) as
      \<and> (\<forall>w. cd_email out = Some w \<or> cd_phone out = Some w \<longrightarrow>
          (\<exists>a \<in> set as. \<exists>r \<in> set (db_vault d). va_id r = ac_ref a \<and> va_value r = w)))"
proof -
  have pu: "purpose \<in> set ALLOWED_PURPOSES"
    using assms by (auto simp: read_contact_def throw_def split: if_splits)
  obtain u d1 where c1: "(if purpose = ''outreach'' then uow now (check_approved i) else ret ()) d = (Inr u, d1)"
    and r1: "seq (uow now' (read_tx e i purpose actor request))
      (\<lambda>out. case out of None \<Rightarrow> throw (NotFound ''contact not found for lead'') | Some c \<Rightarrow> ret c) d1 = (Inr out, d')"
    using assms pu seq_InrD by (fastforce simp: read_contact_def)
  have d1: "d1\<lparr>db_now := now'\<rparr> = d\<lparr>db_now := now'\<rparr>"
    and app: "purpose = ''outreach'' \<longrightarrow> (\<exists>l. get_lead i d = Some l \<and> le_state l = Approved)"
    using c1 by (auto simp: uow_Inr check_approved_Inr ret_def get_lead_def split: if_splits)
  have tx: "read_tx e i purpose actor request (d\<lparr>db_now := now'\<rparr>) = (Inr (Some out), d')"
    using seq_InrD [OF r1] by (auto simp: uow_Inr d1 throw_def ret_def split: option.splits)
  from tx obtain l as where l: "get_lead i d = Some l" "le_contact l = Some (cd_id out)"
    "d' = d\<lparr>db_now := now', db_access := db_access d @ as\<rparr>"
    "logged purpose actor request (\<lambda>a. \<exists>x \<in> set (db_identities d). id_contact x = cd_id out \<and> id_ref x = Some (ac_ref a)) as"
    "\<forall>w. cd_email out = Some w \<or> cd_phone out = Some w \<longrightarrow>
      (\<exists>a \<in> set as. \<exists>r \<in> set (db_vault d). va_id r = ac_ref a \<and> va_value r = w)"
    by (rule read_tx_Inr) (simp add: get_lead_def)
  with pu app show ?thesis by auto
qed

subsection \<open>Any history\<close>

datatype tenant_step =
    RunPipeline job_context "checkpoint option"
  | DecideLead int nat string bool
  | ReadContact int int nat string string "string option"

fun tenant_after :: "acq_env \<Rightarrow> tenant_step \<Rightarrow> world \<Rightarrow> world" where
  "tenant_after e (RunPipeline cx ck) w = snd (handler e cx ck w)"
| "tenant_after e (DecideLead now i actor approve) w = w\<lparr>w_db := snd (decide_review now i actor approve (w_db w))\<rparr>"
| "tenant_after e (ReadContact now now' i purpose actor request) w =
     w\<lparr>w_db := snd (read_contact (env.truncate e) now now' i purpose actor request (w_db w))\<rparr>"

lemma get_lead_mem: "get_lead i d = Some l \<Longrightarrow> l \<in> set (db_leads d) \<and> le_id l = i"
  unfolding get_lead_def by (rule row_of_Some)

lemma boundary_distinct: "boundary_ok d0 d \<Longrightarrow> distinct (map le_id (db_leads d))"
  by (simp add: boundary_ok_def fresh_keys_def)

lemma keeps_decide: "keeps (boundary_ok d0) (decide_tx i actor approve)"
proof (rule keepsI)
  fix d x d'
  assume ok: "boundary_ok d0 d" and run: "decide_tx i actor approve d = (Inr x, d')"
  obtain l where l: "get_lead i d = Some l"
    using run by (cases "get_lead i d") (auto simp: decide_tx_def)
  obtain version ruling where r: "rule (outreach_input l) d = (version, ruling)" by (cases "rule (outreach_input l) d")
  note out = decide_tx_cases [OF l boundary_distinct [OF ok] r, of actor approve] run
  let ?d1 = "record_decision ''lead'' i ''lead.outreach'' version ruling actor d"
  let ?p = "\<lambda>x. le_id x = i \<and> le_state x = AcqRepos.ReadyForReview"
  let ?ls = "upd_where ?p (decided_row approve actor) (db_leads d)"
  let ?type = "if approve then LEAD_APPROVED else LEAD_REJECTED"
  have d1: "boundary_ok d0 (emit ?type ''lead'' i version ?d1)"
    by (rule boundary_grows [OF ok]) (auto simp: grows_def record_decision_def emit_def)
  show "boundary_ok d0 d'"
  proof (cases "policy_blocks approve ruling d")
    case True
    with out have "d' = ?d1" by simp
    then show ?thesis
      by simp (rule boundary_grows [OF ok], auto simp: grows_def record_decision_def)
  next
    case False
    with out have d': "d' = (emit ?type ''lead'' i version ?d1)\<lparr>db_leads := ?ls, db_next := db_next d\<rparr>"
      and ready: "le_state l = AcqRepos.ReadyForReview"
      by (auto simp: emit_def record_decision_def split: if_splits)
    show ?thesis
      unfolding d'
    proof (rule boundary_leads [OF d1])
      show "fresh_keys le_id ?ls (db_next d)"
        using ok by (simp add: fresh_keys_upd boundary_ok_def decided_row_def)
      show "\<exists>l' \<in> set ?ls. same_decision k l'"
        if "k \<in> set (db_leads (emit ?type ''lead'' i version ?d1))" "le_state k \<noteq> AcqRepos.ReadyForReview" for k
        using that by (intro bexI [of _ k]) (auto simp: emit_def same_decision_def set_upd_where)
      show "decision_on_record (emit ?type ''lead'' i version ?d1) k"
        if k: "k \<in> set ?ls" "le_state k \<noteq> AcqRepos.ReadyForReview" for k
      proof (cases "k \<in> set (db_leads d)")
        case True
        then have "decision_on_record d k" using ok k(2) by (auto simp: boundary_ok_def)
        then show ?thesis by (rule record_mono) (auto simp: emit_def record_decision_def)
      next
        case new: False
        then obtain j :: lead where "k = decided_row approve actor j" "le_id j = i" using k(1) new by (auto simp: upd_where_def split: if_splits)
        then show ?thesis
          using False
          by (auto simp: decision_on_record_def emit_def record_decision_def decided_row_def policy_blocks_def
              LEAD_APPROVED_def LEAD_REJECTED_def)
      qed
    qed
  qed
qed

lemma boundary_access:
  assumes "boundary_ok d0 d" and "\<And>a. a \<in> set as \<Longrightarrow> ac_purpose a = ''outreach'' \<Longrightarrow> outreach_ok d a"
  shows "boundary_ok d0 (d\<lparr>db_access := db_access d @ as\<rparr>)"
  using assms by (auto simp: boundary_ok_def outreach_ok_def decision_on_record_def decisions_stand_def)

lemma boundary_read:
  assumes ok: "boundary_ok d0 d"
    and read: "read_contact e now now' i purpose actor request d = (Inr out, d')"
  shows "boundary_ok d0 d'"
proof -
  obtain l as where l: "get_lead i d = Some l" "le_contact l = Some (cd_id out)" "purpose = ''outreach'' \<longrightarrow> le_state l = Approved"
    "d' = d\<lparr>db_now := now', db_access := db_access d @ as\<rparr>"
    "logged purpose actor request (\<lambda>a. \<exists>x \<in> set (db_identities d). id_contact x = cd_id out \<and> id_ref x = Some (ac_ref a)) as"
    using contact_data_is_audited [OF read] by blast
  have "boundary_ok d0 ((d\<lparr>db_now := now'\<rparr>)\<lparr>db_access := db_access (d\<lparr>db_now := now'\<rparr>) @ as\<rparr>)"
  proof (rule boundary_access [OF boundary_now [OF ok]])
    fix a
    assume a: "a \<in> set as" "ac_purpose a = ''outreach''"
    with l(5) obtain x where "purpose = ''outreach''" "x \<in> set (db_identities d)" "id_contact x = cd_id out" "id_ref x = Some (ac_ref a)"
      by (auto simp: logged_def list_all_iff)
    with l(1-3) show "outreach_ok (d\<lparr>db_now := now'\<rparr>) a"
      using get_lead_mem [OF l(1)] by (auto simp: outreach_ok_def intro!: bexI [of _ l] bexI [of _ x])
  qed
  then show ?thesis using l(4) by simp
qed

lemma uow_Inl: "uow now m d = (Inl err, d') \<Longrightarrow> \<exists>g. d' = d\<lparr>db_gateway := g\<rparr>"
  by (auto simp: uow_def split: prod.splits sum.splits)

lemma read_tx_None:
  assumes "read_tx e i purpose actor request d = (Inr None, d')"
  shows "d' = d"
proof -
  obtain l k where lk: "get_lead i d = Some l" "le_contact l = Some k"
    using assms by (auto simp: read_tx_def seq_gets throw_def split: option.splits)
  show ?thesis
  proof (cases "find (\<lambda>c. lc_id c = k) (list_company_contacts e (le_company l) d)")
    case None
    with assms lk show ?thesis by (simp add: read_tx_def seq_gets ret_def)
  next
    case (Some c)
    with assms lk show ?thesis
      by (auto simp: read_tx_def seq_gets seq_def [of "decrypt_opt _ _ _ _"] ret_def split: prod.splits sum.splits)
  qed
qed

lemma read_failed:
  assumes "read_contact e now now' i purpose actor request d = (Inl err, d')"
  shows "\<exists>t g. d' = d\<lparr>db_now := t, db_gateway := g\<rparr>"
proof (cases "purpose \<in> set ALLOWED_PURPOSES")
  case False
  then show ?thesis using assms by (auto simp: read_contact_def throw_def intro!: exI [of _ "db_now d'"] exI [of _ "db_gateway d'"])
next
  case True
  let ?check = "if purpose = ''outreach'' then uow now (check_approved i) else ret ()"
  let ?read = "uow now' (read_tx e i purpose actor request)"
  show ?thesis
  proof (cases "?check d")
    case (Pair c d1)
    show ?thesis
    proof (cases c)
      case (Inl er)
      then have "d1 = d'" using assms True Pair by (simp add: read_contact_def seq_def)
      moreover have "purpose = ''outreach'' \<and> uow now (check_approved i) d = (Inl er, d1)"
        using Pair Inl by (auto simp: ret_def split: if_splits)
      ultimately show ?thesis by (auto dest!: uow_Inl intro!: exI [of _ "db_now d'"])
    next
      case (Inr u)
      then have d1: "\<exists>t. d1 = d\<lparr>db_now := t\<rparr>"
        using Pair by (auto simp: uow_Inr check_approved_Inr ret_def split: if_splits intro: exI [of _ "db_now d1"])
      have rest: "seq ?read (\<lambda>out. case out of None \<Rightarrow> throw (NotFound ''contact not found for lead'') | Some c \<Rightarrow> ret c) d1 = (Inl err, d')"
        using assms True Pair Inr by (simp add: read_contact_def seq_def)
      show ?thesis
      proof (cases "?read d1")
        case read: (Pair r d2)
        have "r = Inl err \<and> d2 = d' \<or> r = Inr None \<and> d2 = d'"
          using rest read by (auto simp: seq_def throw_def ret_def split: sum.splits option.splits)
        moreover have "\<exists>t g. d\<lparr>db_now := s\<rparr> = d\<lparr>db_now := t, db_gateway := g\<rparr>" for s
          by (intro exI [of _ s] exI [of _ "db_gateway d"]) simp
        ultimately show ?thesis
          using read d1 uow_Inl [of now' "read_tx e i purpose actor request" d1 err d']
          by (auto simp: uow_Inr dest!: read_tx_None)
      qed
    qed
  qed
qed

lemma boundary_step:
  assumes ok: "boundary_ok d0 (w_db w)"
  shows "boundary_ok d0 (w_db (tenant_after e st w))"
proof (cases st)
  case (RunPipeline cx ck)
  then show ?thesis using boundary.run_keeps [OF ok] by simp
next
  case (DecideLead now i actor approve)
  have "snd (decide_review now i actor approve d) = snd (uow now (decide_tx i actor approve) d)" for d
    by (auto simp: decide_review_def seq_def throw_def ret_def split: prod.splits sum.splits)
  with DecideLead show ?thesis using boundary.transaction [OF keeps_decide ok] by simp
next
  case (ReadContact now now' i purpose actor request)
  let ?out = "read_contact (env.truncate e) now now' i purpose actor request (w_db w)"
  show ?thesis
  proof (cases "fst ?out")
    case (Inl err)
    then obtain s g where "snd ?out = (w_db w)\<lparr>db_now := s, db_gateway := g\<rparr>"
      using read_failed [of "env.truncate e" now now' i purpose actor request "w_db w" err "snd ?out"] by (auto simp: prod_eq_iff)
    with ReadContact show ?thesis using boundary_gateway [OF boundary_now [OF ok]] by simp
  next
    case (Inr out)
    then show ?thesis
      using ReadContact boundary_read [OF ok, of "env.truncate e" now now' i purpose actor request out "snd ?out"]
      by (simp add: prod_eq_iff)
  qed
qed

lemma boundary_history: "boundary_ok d0 (w_db w) \<Longrightarrow> boundary_ok d0 (w_db (fold (tenant_after e) steps w))"
  by (induction steps arbitrary: w) (simp_all add: boundary_step)

text \<open>C1: The human boundary.  Start with no lead decided and no secret read; then after any sequence of pipeline runs,
  reviews and readings, every lead that is approved or rejected has a recorded decision by the person named in it,
  made under a policy that did not block it where it is approved, and the event that announces it; every secret that
  was read for outreach belongs to the contact of an approved lead; and whatever is done later, no decision is ever
  changed, not even by running the pipeline on the same campaign again.\<close>

theorem human_boundary:
  assumes "fresh_keys le_id (db_leads (w_db w)) (db_next (w_db w))"
    and "list_all (\<lambda>l. le_state l = AcqRepos.ReadyForReview) (db_leads (w_db w))" and "db_access (w_db w) = []"
  shows "list_all (\<lambda>l. le_state l = AcqRepos.ReadyForReview \<or> decision_on_record (w_db (fold (tenant_after e) steps w)) l)
        (db_leads (w_db (fold (tenant_after e) steps w)))
    \<and> list_all (\<lambda>a. ac_purpose a \<noteq> ''outreach'' \<or> outreach_ok (w_db (fold (tenant_after e) steps w)) a)
        (db_access (w_db (fold (tenant_after e) steps w)))
    \<and> decisions_stand (w_db (fold (tenant_after e) steps w)) (w_db (fold (tenant_after e) (steps @ later) w))"
proof -
  have "boundary_ok (w_db w) (w_db w)"
    using assms by (auto simp: boundary_ok_def list_all_iff decisions_stand_def)
  then have now: "boundary_ok (w_db w) (w_db (fold (tenant_after e) steps w))"
    by (rule boundary_history)
  then have "boundary_ok (w_db (fold (tenant_after e) steps w)) (w_db (fold (tenant_after e) steps w))"
    using same_decision_refl by (auto simp: boundary_ok_def decisions_stand_def)
  from boundary_history [OF this, of e later] now show ?thesis
    by (auto simp: boundary_ok_def list_all_iff)
qed

text \<open>One lead of the demonstration database, approved and then read for outreach.\<close>

definition review_db :: adb where
  "review_db = demo_db\<lparr>db_contacts := [\<lparr>ct_id = 2, ct_company = 7, ct_name = None, ct_role = None, ct_source = None\<rparr>],
     db_policies := [\<lparr>po_version = ''v1'', po_rules = default_rules, po_at = 0\<rparr>],
     db_leads := [\<lparr>le_id = 5, le_campaign = Some 3, le_company = 7, le_contact = Some 2, le_icp = Some 4, le_name = ascii ''b'',
       le_domain = Some (ascii ''b.sa''), le_city = None, le_email = Some (ascii ''i*@b.sa''), le_phone = None,
       le_status = None, le_score = 60, le_decision = Governance.Review, le_state = AcqRepos.ReadyForReview, le_by = None,
       le_built = 0\<rparr>]\<rparr>"

lemma approved_review:
  "decide_review 100 5 ''ana'' True review_db =
    (Inr \<lparr>rv_state = Approved, rv_policy = Allowed, rv_version = ''v1''\<rparr>,
     emit LEAD_APPROVED ''lead'' 5 ''v1'' (record_decision ''lead'' 5 ''lead.outreach'' ''v1''
       (Allowed, ''general-basis'', ''allowed by default policy'') ''ana''
       (review_db\<lparr>db_now := 100, db_leads := map (decided_row True ''ana'') (db_leads review_db)\<rparr>)))"
  by code_simp

lemma first_lead: "get_lead 5 review_db = Some (hd (db_leads review_db))"
  by code_simp

lemma first_rule: "rule (outreach_input (hd (db_leads review_db))) review_db = (''v1'', Allowed, ''general-basis'', ''allowed by default policy'')"
  by code_simp

lemma one_lead: "distinct (map le_id (db_leads review_db))"
  by (simp add: review_db_def)

lemma review_decides_witness:
  "le_state (hd (db_leads review_db)) = AcqRepos.ReadyForReview
    \<and> get_lead 5 (snd (decide_review 100 5 ''ana'' True review_db)) = Some (decided_row True ''ana'' (hd (db_leads review_db)))"
  using review_decides [OF first_lead one_lead first_rule, where approve = True and actor = "''ana''" and now = 100]
  by (simp add: approved_review)

definition approved_db :: adb where
  "approved_db = snd (decide_review 100 5 ''ana'' True review_db)"

lemma outreach_read:
  "read_contact (env.truncate demo_env) 110 120 5 ''outreach'' ''bob'' None approved_db =
    (Inr \<lparr>cd_id = 2, cd_name = None, cd_role = None, cd_email = Some (ascii ''io@b.sa''), cd_phone = None\<rparr>,
     approved_db\<lparr>db_now := 120, db_access := [\<lparr>ac_ref = 1, ac_purpose = ''outreach'', ac_actor = ''bob'', ac_request = None\<rparr>]\<rparr>)"
  by code_simp

lemma contact_data_is_audited_witness:
  "\<exists>l. get_lead 5 approved_db = Some l \<and> le_state l = Approved"
  using contact_data_is_audited [OF outreach_read] by blast

lemma human_boundary_witness:
  "let w = demo_world\<lparr>w_db := review_db\<rparr>;
       steps = [DecideLead 100 5 ''ana'' True, ReadContact 110 120 5 ''outreach'' ''bob'' None] in
     db_access (w_db (fold (tenant_after demo_env) steps w)) \<noteq> []
     \<and> list_all (\<lambda>a. ac_purpose a \<noteq> ''outreach'' \<or> outreach_ok (w_db (fold (tenant_after demo_env) steps w)) a)
         (db_access (w_db (fold (tenant_after demo_env) steps w)))
     \<and> decisions_stand (w_db (fold (tenant_after demo_env) steps w))
         (w_db (fold (tenant_after demo_env) (steps @ [RunPipeline demo_context None]) w))"
proof -
  have "fresh_keys le_id (db_leads review_db) (db_next review_db)"
    "list_all (\<lambda>l. le_state l = AcqRepos.ReadyForReview) (db_leads review_db)" "db_access review_db = []"
    by (simp_all add: review_db_def demo_db_def fresh_keys_def)
  then show ?thesis
    using human_boundary [of "demo_world\<lparr>w_db := review_db\<rparr>" demo_env
        "[DecideLead 100 5 ''ana'' True, ReadContact 110 120 5 ''outreach'' ''bob'' None]" "[RunPipeline demo_context None]"]
    by (simp add: Let_def approved_db_def [symmetric] outreach_read)
qed

end
