(* ===== verification/RuntimeWorker.thy ===== *)
theory RuntimeWorker
  imports AcqInvariant Relay
begin

section \<open>The worker of the durable runtime (runtime/worker.py)\<close>

text \<open>
  One cycle of the worker: maintenance, then claim one job, run its handler under the fence and settle it.  A worker
  serves every tenant, so the state holds the tenant databases by organisation.  A job row carries its payload and
  checkpoint as JSON and its campaign as a UUID; \<open>wk_payload\<close> (the ICP version and the budget), \<open>wk_load\<close> and
  \<open>wk_campaign\<close> read them back.  Tokens
  of claims are \<open>gen_random_uuid()\<close>.  A handler is a parameter of \<open>run_once\<close>, taken from the worker's table by the type
  of the job, and what is proved of a cycle holds for every table whose handlers keep the fence.  A handler opens its
  units of work with \<open>uow_factory(ctx.org_id)\<close>, so it is given the database of the job's organisation and no other; that
  tenants do not mix is built into this reading of \<open>uow_factory\<close> and is not claimed as a result.  The rows
  \<open>er_...\<close> are the columns of \<open>effects.effect_ledger\<close> that the reconciliation reads and writes, across all tenants; the
  gateway, which writes the rows, is modelled on its own (\<open>Gateway\<close>) and the two are not linked: how an effect becomes
  UNCERTAIN is shown there, what happens to the uncertain ones here.
\<close>

subsection \<open>State\<close>

record effect_row =
  er_id :: nat
  er_org :: ident
  er_status :: effect_status
  er_created :: ts
  er_reconciled :: "ts option"

record approval =
  ap_org :: ident
  ap_subject :: nat
  ap_pending :: bool

record beat =
  be_worker :: string
  be_at :: ts

record runtime =
  ru_tenants :: "ident \<Rightarrow> adb"
  ru_rt :: rt_db
  ru_tick :: nat
  ru_polls :: nat
  ru_relay :: relay_state
  ru_effects :: "effect_row list"
  ru_approvals :: "approval list"
  ru_beats :: "beat list"

record worker =
  wk_id :: string
  wk_queues :: "string list"
  wk_lease :: int
  wk_batch :: nat
  wk_consumer :: string
  wk_attempts :: nat
  wk_handle :: "nat \<Rightarrow> nat \<Rightarrow> bool"
  wk_clock :: "nat \<Rightarrow> ts"
  wk_campaign :: "ident \<Rightarrow> nat"
  wk_payload :: "blob \<Rightarrow> nat \<times> nat"
  wk_load :: "blob \<Rightarrow> checkpoint option"
  wk_describe :: "fault \<Rightarrow> string"

type_synonym job_handler = "job_context \<Rightarrow> checkpoint option \<Rightarrow> outcome job"

definition PARK_MIN_AGE_S :: int where "PARK_MIN_AGE_S = 45"

definition week_seconds :: int where "week_seconds = 7 * 24 * 60 * 60"

definition day_seconds :: int where "day_seconds = 24 * 60 * 60"

subsection \<open>Maintenance\<close>

definition prune_heartbeats :: "ts \<Rightarrow> beat list \<Rightarrow> beat list" where
  "prune_heartbeats now bs = delete_where (\<lambda>b. be_at b < now - week_seconds) bs"

definition overdue :: "ts \<Rightarrow> effect_row \<Rightarrow> bool" where
  "overdue now r \<longleftrightarrow> er_status r = Uncertain \<and> er_created r < now - day_seconds \<and> er_reconciled r = None"

definition awaiting :: "nat \<Rightarrow> approval list \<Rightarrow> bool" where
  "awaiting i as \<longleftrightarrow> list_ex (\<lambda>a. ap_subject a = i \<and> ap_pending a) as"

text \<open>One effect is flagged unless an approval for it is pending already.\<close>

fun flag_effects :: "ts \<Rightarrow> effect_row list \<Rightarrow> effect_row list \<times> approval list \<Rightarrow> nat \<times> effect_row list \<times> approval list" where
  "flag_effects now [] (t, as) = (0, t, as)"
| "flag_effects now (r # rs) (t, as) =
     (if awaiting (er_id r) as then flag_effects now rs (t, as)
      else let (n, out) = flag_effects now rs
             (upd_where (\<lambda>x. er_id x = er_id r) (\<lambda>x. x\<lparr>er_reconciled := Some now\<rparr>) t,
              as @ [\<lparr>ap_org = er_org r, ap_subject = er_id r, ap_pending = True\<rparr>]) in (Suc n, out))"

definition reconcile_uncertain :: "ts \<Rightarrow> effect_row list \<times> approval list \<Rightarrow> nat \<times> effect_row list \<times> approval list" where
  "reconcile_uncertain now s = flag_effects now (take 20 (filter (overdue now) (fst s))) s"

text \<open>Each statement is a transaction of its own and reads the clock.\<close>

definition run_maintenance :: "worker \<Rightarrow> runtime \<Rightarrow> runtime" where
  "run_maintenance wk s =
     (let t = ru_tick s; now = wk_clock wk;
          rt1 = snd (reclaim_expired (now t) 50 (ru_rt s));
          rt2 = snd (wake_parked (now (t + 1)) (Some (wk_queues wk)) PARK_MIN_AGE_S rt1);
          relay = snd (tick (wk_consumer wk) (wk_attempts wk) (wk_handle wk) (wk_batch wk) (now (t + 2)) (ru_relay s));
          flagged = snd (reconcile_uncertain (now (t + 3)) (ru_effects s, ru_approvals s)) in
      s\<lparr>ru_rt := rt2, ru_relay := relay, ru_effects := fst flagged, ru_approvals := snd flagged,
        ru_beats := prune_heartbeats (now (t + 4)) (ru_beats s), ru_tick := t + 5\<rparr>)"

subsection \<open>One job\<close>

definition context_of :: "worker \<Rightarrow> rt_job \<Rightarrow> job_context" where
  "context_of wk r =
     \<lparr>cx_job = rj_id r, cx_org = rj_org r, cx_campaign = map_option (wk_campaign wk) (rj_campaign r),
      cx_icp = fst (wk_payload wk (rj_payload r)), cx_budget = snd (wk_payload wk (rj_payload r)), cx_worker = wk_id wk,
      cx_token = or_default (rj_token r) [], cx_version = rj_version r\<rparr>"

text \<open>What the handler's end does to the job; a lost lease is left to the worker that holds it now.\<close>

definition settle :: "worker \<Rightarrow> job_context \<Rightarrow> stop + outcome \<Rightarrow> ts \<Rightarrow> rt_db \<Rightarrow> rt_db" where
  "settle wk cx r now d =
     (case r of
        Inr PARKED \<Rightarrow> d
      | Inr (Ends st) \<Rightarrow> snd (complete now (cx_job cx) (cx_token cx) (cx_version cx) st d)
      | Inl (Lost _) \<Rightarrow> d
      | Inl (Crash f) \<Rightarrow> snd (fail now (cx_job cx) (cx_token cx) (cx_version cx) (wk_describe wk f) d))"

definition run_handler :: "worker \<Rightarrow> job_handler \<Rightarrow> job_context \<Rightarrow> rt_job \<Rightarrow> runtime \<Rightarrow> runtime" where
  "run_handler wk h cx row s =
     (let w0 = \<lparr>w_db = ru_tenants s (cx_org cx), w_rt = ru_rt s, w_tick = ru_tick s, w_polls = ru_polls s\<rparr>;
          (r, w) = h cx (wk_load wk (rj_checkpoint row)) w0 in
      s\<lparr>ru_tenants := (ru_tenants s)(cx_org cx := w_db w), ru_rt := settle wk cx r (wk_clock wk (w_tick w)) (w_rt w),
        ru_tick := Suc (w_tick w), ru_polls := w_polls w\<rparr>)"

text \<open>\<open>handlers\<close> is the table of job types; \<open>tok\<close> the token of this claim, \<open>locked\<close> the rows other workers have locked.\<close>

definition run_once ::
  "worker \<Rightarrow> (string \<Rightarrow> job_handler option) \<Rightarrow> string \<Rightarrow> ident list \<Rightarrow> runtime \<Rightarrow> bool \<times> runtime" where
  "run_once wk handlers tok locked s0 =
     (let s = run_maintenance wk s0; now = wk_clock wk (ru_tick s) in
      case claim_next now tok locked (wk_queues wk) (wk_id wk) (wk_lease wk) (ru_rt s) of
        (None, d) \<Rightarrow> (False, s\<lparr>ru_tick := Suc (ru_tick s)\<rparr>)
      | (Some row, d) \<Rightarrow>
          (let cx = context_of wk row; s1 = s\<lparr>ru_rt := d, ru_tick := Suc (ru_tick s)\<rparr> in
           case handlers (rj_type row) of
             None \<Rightarrow> (True, s1\<lparr>ru_rt := snd (fail (wk_clock wk (ru_tick s1)) (cx_job cx) (cx_token cx) (cx_version cx)
                       (''no handler for job_type '' @ rj_type row) d), ru_tick := Suc (ru_tick s1)\<rparr>)
           | Some h \<Rightarrow> (True, run_handler wk h cx row s1)))"

text \<open>\<open>run\<close> with \<open>max_cycles\<close>: cycles with the token and the locked rows each of them meets.\<close>

fun run_cycles :: "worker \<Rightarrow> (string \<Rightarrow> job_handler option) \<Rightarrow> (string \<times> ident list) list \<Rightarrow> runtime \<Rightarrow> runtime" where
  "run_cycles wk handlers [] s = s"
| "run_cycles wk handlers ((tok, locked) # cs) s = run_cycles wk handlers cs (snd (run_once wk handlers tok locked s))"

subsection \<open>What a handler owes the worker\<close>

text \<open>
  The token of a claim is held by no row but the claimed one, and there with the version of the claim.  A handler keeps
  that, touches job rows by the fenced operations of its own job only, and ends parked or with a lost lease only when no
  row holds the token any more; otherwise it names a state that is not active.
\<close>

inductive op_step :: "job_context \<Rightarrow> rt_db \<Rightarrow> rt_db \<Rightarrow> bool" for cx where
  o_phase: "st \<in> set ACTIVE_STATES \<Longrightarrow> op_step cx d (snd (set_phase now (cx_job cx) (cx_token cx) (cx_version cx) st secs d))"
| o_checkpoint: "(\<And>st. st_opt = Some st \<Longrightarrow> st \<in> set ACTIVE_STATES) \<Longrightarrow>
     op_step cx d (snd (save_checkpoint now (cx_job cx) (cx_token cx) (cx_version cx) data st_opt secs d))"
| o_park: "op_step cx d (snd (park now (cx_job cx) (cx_token cx) (cx_version cx) why d))"
| o_heartbeat: "op_step cx d (snd (heartbeat now (cx_job cx) (cx_token cx) secs d))"
| o_apply_cancel: "op_step cx d (snd (apply_cancellation now (cx_job cx) (cx_token cx) (cx_version cx) d))"
| o_finish_cancel: "op_step cx d (finish_cancelled now (cx_job cx) (cx_token cx) (cx_version cx) d)"

lemma op_step_rt: "op_step cx d d' \<Longrightarrow> rt_step d d'"
  by (induction rule: op_step.induct)
    (rule s_phase s_checkpoint s_park s_heartbeat s_apply_cancel s_finish_cancel; blast)+

lemma op_steps_rt: "(op_step cx)\<^sup>*\<^sup>* d d' \<Longrightarrow> rt_step\<^sup>*\<^sup>* d d'"
  by (induction rule: rtranclp_induct) (auto intro: op_step_rt rtranclp.rtrancl_into_rtrancl)

definition confined :: "job_context \<Rightarrow> rt_db \<Rightarrow> bool" where
  "confined cx d \<longleftrightarrow>
     (\<forall>r \<in> set (rt_jobs d). rj_token r = Some (cx_token cx) \<longrightarrow> rj_id r = cx_job cx \<and> rj_version r = cx_version cx)"

definition unheld :: "string \<Rightarrow> rt_db \<Rightarrow> bool" where
  "unheld tok d \<longleftrightarrow> (\<forall>r \<in> set (rt_jobs d). rj_token r \<noteq> Some tok)"

definition under_fence :: "rt_db \<Rightarrow> job_context \<Rightarrow> world \<Rightarrow> bool" where
  "under_fence d0 cx w \<longleftrightarrow> confined cx (w_rt w) \<and> (op_step cx)\<^sup>*\<^sup>* d0 (w_rt w)"

definition fence_after :: "rt_db \<Rightarrow> job_context \<Rightarrow> stop \<Rightarrow> world \<Rightarrow> bool" where
  "fence_after d0 cx err w \<longleftrightarrow>
     under_fence d0 cx w \<and> (case err of Lost _ \<Rightarrow> unheld (cx_token cx) (w_rt w) | Crash _ \<Rightarrow> True)"

locale fenced_handler =
  fixes h :: job_handler
  assumes runs: "triple (under_fence d0 cx) (h cx ck)
      (\<lambda>x w. under_fence d0 cx w \<and> ends_well (\<lambda>w. unheld (cx_token cx) (w_rt w)) x w)
      (fence_after d0 cx)"

lemma unheld_if_no_row:
  "confined cx d \<Longrightarrow> rowcount (fenced_row (cx_job cx) (cx_token cx) (cx_version cx)) (rt_jobs d) = 0 \<Longrightarrow> unheld (cx_token cx) d"
  by (auto simp: confined_def unheld_def rowcount_0_iff fenced_row_def)

lemma confined_upd:
  assumes "confined cx d" and "\<And>r. rj_id (f r) = rj_id r" and "\<And>r. rj_version (f r) = rj_version r"
    and "\<And>r. rj_token (f r) = rj_token r \<or> rj_token (f r) = None"
  shows "confined cx (update_jobs p f d)"
  unfolding confined_def
proof (intro ballI impI)
  fix r
  assume "r \<in> set (rt_jobs (update_jobs p f d))" and tok: "rj_token r = Some (cx_token cx)"
  then obtain x where x: "x \<in> set (rt_jobs d)" "r = (if p x then f x else x)"
    by (auto simp: update_jobs_def upd_where_def)
  with tok assms(4) [of x] have "rj_token x = Some (cx_token cx)" by (auto split: if_splits)
  with assms(1) x(1) have "rj_id x = cx_job cx" "rj_version x = cx_version cx" by (auto simp: confined_def)
  with x(2) assms(2,3) show "rj_id r = cx_job cx \<and> rj_version r = cx_version cx" by simp
qed

lemma fenced_release:
  assumes "confined cx d" and "\<And>r. rj_token (f r) = None"
  shows "unheld (cx_token cx) (update_jobs (fenced_row (cx_job cx) (cx_token cx) (cx_version cx)) f d)"
  using assms by (auto simp: unheld_def confined_def update_jobs_def upd_where_def fenced_row_def split: if_splits)

text \<open>The operations of the runtime under the fence.\<close>

lemma fenced_write_triple:
  assumes step: "\<And>d. op_step cx d (snd (fenced_write (cx_job cx) (cx_token cx) (cx_version cx) what f d))"
    and f: "\<And>r. rj_id (f r) = rj_id r" "\<And>r. rj_version (f r) = rj_version r" "\<And>r. rj_token (f r) = rj_token r \<or> rj_token (f r) = None"
  shows "triple (under_fence d0 cx) (on_rt (fenced_write (cx_job cx) (cx_token cx) (cx_version cx) what f))
    (\<lambda>_ w. under_fence d0 cx w \<and> ((\<forall>r. rj_token (f r) = None) \<longrightarrow> unheld (cx_token cx) (w_rt w)))
    (fence_after d0 cx)"
proof (rule tripleI)
  fix w x w'
  assume w: "under_fence d0 cx w" and run: "on_rt (fenced_write (cx_job cx) (cx_token cx) (cx_version cx) what f) w = (Inr x, w')"
  have w': "w_rt w' = update_jobs (fenced_row (cx_job cx) (cx_token cx) (cx_version cx)) f (w_rt w)"
    using run by (auto simp: on_rt_def fenced_write_def split: if_splits)
  moreover have "op_step cx (w_rt w) (w_rt w')"
    using step [of "w_rt w"] by (simp add: snd_fenced_write w')
  moreover have "confined cx (w_rt w')"
    unfolding w' using w by (intro confined_upd f) (simp add: under_fence_def)
  ultimately show "under_fence d0 cx w' \<and> ((\<forall>r. rj_token (f r) = None) \<longrightarrow> unheld (cx_token cx) (w_rt w'))"
    using w by (auto simp: under_fence_def intro: fenced_release rtranclp.rtrancl_into_rtrancl)
next
  fix w err w'
  assume w: "under_fence d0 cx w" and run: "on_rt (fenced_write (cx_job cx) (cx_token cx) (cx_version cx) what f) w = (Inl err, w')"
  then have "w_rt w' = w_rt w" "rowcount (fenced_row (cx_job cx) (cx_token cx) (cx_version cx)) (rt_jobs (w_rt w)) = 0"
    by (auto simp: on_rt_def fenced_write_def split: if_splits)
  with w show "fence_after d0 cx err w'"
    by (auto simp: fence_after_def under_fence_def intro: unheld_if_no_row split: stop.split)
qed

lemma unfenced_triple:
  assumes "\<And>d. op_step cx d (snd (g d))" and "\<And>d. confined cx d \<Longrightarrow> confined cx (snd (g d))"
  shows "triple (under_fence d0 cx) (on_rt (lift g)) (\<lambda>_. under_fence d0 cx) (fence_after d0 cx)"
  using assms by (auto simp: triple_def on_rt_def lift_def under_fence_def intro: rtranclp.rtrancl_into_rtrancl)

lemma fence_frame:
  "(\<And>w. w_rt (snd (m w)) = w_rt w) \<Longrightarrow> (\<And>w err. fst (m w) = Inl err \<Longrightarrow> \<exists>f. err = Crash f)
    \<Longrightarrow> triple (under_fence d0 cx) m (\<lambda>_. under_fence d0 cx) (fence_after d0 cx)"
  unfolding triple_def under_fence_def fence_after_def
  by (auto split: prod.splits sum.splits stop.splits) (metis fst_conv snd_conv stop.distinct(1))+

lemma on_db_frame: "triple (under_fence d0 cx) (on_db m) (\<lambda>_. under_fence d0 cx) (fence_after d0 cx)"
  by (rule fence_frame) (auto simp: on_db_def split: prod.splits sum.splits)

lemma finish_as_write:
  "on_rt (modify (finish_cancelled now jid tok v)) = on_rt (lift (\<lambda>d. ((), finish_cancelled now jid tok v d)))"
  by (simp add: modify_def lift_def)

interpretation fenced: job_contract e cx "under_fence d0 cx" "\<lambda>w. unheld (cx_token cx) (w_rt w)" "fence_after d0 cx" for e cx d0
proof
  show "fence_after d0 cx (Crash f) w" if "under_fence d0 cx w" for w f
    using that by (simp add: fence_after_def)
  show "under_fence d0 cx (w\<lparr>w_tick := n\<rparr>)" "under_fence d0 cx (w\<lparr>w_polls := n\<rparr>)" if "under_fence d0 cx w" for w n
    using that by (simp_all add: under_fence_def)
  show "triple (under_fence d0 cx) (on_rt (save_checkpoint now (cx_job cx) (cx_token cx) (cx_version cx) doc st secs))
      (\<lambda>_. under_fence d0 cx) (fence_after d0 cx)" if st: "st \<noteq> None \<longrightarrow> the st \<in> set ACTIVE_STATES" for now doc st secs
    unfolding save_checkpoint_def
    by (rule triple_post [OF fenced_write_triple])
      (use st in \<open>auto simp: save_checkpoint_def [symmetric] intro!: o_checkpoint\<close>)
  show "triple (under_fence d0 cx) (on_rt (set_phase now (cx_job cx) (cx_token cx) (cx_version cx) ph secs))
      (\<lambda>_. under_fence d0 cx) (fence_after d0 cx)" if "ph \<in> set ACTIVE_STATES" for now ph secs
    unfolding set_phase_def
    by (rule triple_post [OF fenced_write_triple])
      (use that in \<open>auto simp: set_phase_def [symmetric] intro!: o_phase\<close>)
  show "triple (under_fence d0 cx) (on_rt (park now (cx_job cx) (cx_token cx) (cx_version cx) why))
      (\<lambda>_ w. under_fence d0 cx w \<and> unheld (cx_token cx) (w_rt w)) (fence_after d0 cx)" for now why
    unfolding park_def
    by (rule triple_post [OF fenced_write_triple])
      (auto simp: park_def [symmetric] parked_row_def intro!: o_park)
  show "triple (under_fence d0 cx) (on_rt (lift (heartbeat now (cx_job cx) (cx_token cx) secs)))
      (\<lambda>_. under_fence d0 cx) (fence_after d0 cx)" for now secs
    by (rule unfenced_triple, rule o_heartbeat) (auto simp: heartbeat_def Let_def intro!: confined_upd)
  show "triple (under_fence d0 cx) (on_rt (lift (apply_cancellation now (cx_job cx) (cx_token cx) (cx_version cx))))
      (\<lambda>_. under_fence d0 cx) (fence_after d0 cx)" for now
    by (rule unfenced_triple, rule o_apply_cancel) (auto simp: apply_cancellation_def Let_def intro!: confined_upd)
  show "triple (under_fence d0 cx) (on_rt (modify (finish_cancelled now (cx_job cx) (cx_token cx) (cx_version cx))))
      (\<lambda>_. under_fence d0 cx) (fence_after d0 cx)" for now
    unfolding finish_as_write
    by (rule unfenced_triple) (simp_all add: o_finish_cancel, simp add: finish_cancelled_def completed_row_def confined_upd)
qed (rule on_db_frame)+

interpretation pipeline: fenced_handler "handler e" for e
  by unfold_locales (rule fenced.handler)

subsection \<open>One cycle\<close>

lemma unheld_reclaimed: "unheld tok d \<Longrightarrow> unheld tok (snd (reclaim_expired now batch d))"
  unfolding unheld_def reclaim_expired_def Let_def
  by (auto simp: list_all_iff [symmetric] dead_row_def requeued_row_def intro!: list_all_upd_limit)

lemma unheld_woken: "unheld tok d \<Longrightarrow> unheld tok (snd (wake_parked now qs age d))"
  by (auto simp: unheld_def wake_parked_def update_jobs_def upd_where_def)

lemma maintenance_steps: "rt_step\<^sup>*\<^sup>* (ru_rt s) (ru_rt (run_maintenance wk s))"
  unfolding run_maintenance_def Let_def
  by (auto intro: rtranclp.rtrancl_into_rtrancl [OF r_into_rtranclp] s_reclaim s_wake)

lemma maintenance_unheld: "unheld tok (ru_rt s) \<Longrightarrow> unheld tok (ru_rt (run_maintenance wk s))"
  by (simp add: run_maintenance_def Let_def unheld_woken unheld_reclaimed)

lemma claim_confined:
  assumes claim: "claim_next now tok locked queues worker secs d = (Some row, d')"
    and ids: "distinct (map rj_id (rt_jobs d))" and fresh: "unheld tok d"
  shows "confined (context_of wk row) d'" and "cx_token (context_of wk row) = tok"
proof -
  obtain r where r: "r \<in> set (rt_jobs d)" "row = claimed_row now tok worker secs r"
    "d' = update_jobs (\<lambda>x. rj_id x = rj_id r) (claimed_row now tok worker secs) d"
    by (rule claim_next_Some [OF claim]) blast
  show "confined (context_of wk row) d'"
    unfolding confined_def
  proof (intro ballI impI)
    fix y :: rt_job
    assume y: "y \<in> set (rt_jobs d')" "rj_token y = Some (cx_token (context_of wk row))"
    then obtain x where x: "x \<in> set (rt_jobs d)" "y = (if rj_id x = rj_id r then claimed_row now tok worker secs x else x)"
      by (auto simp: r(3) update_jobs_def upd_where_def)
    have "rj_id x = rj_id r"
      using x y(2) fresh by (auto simp: unheld_def context_of_def r(2) claimed_row_def split: if_splits)
    then have "x = r"
      using inj_onD [of rj_id "set (rt_jobs d)" x r] x(1) ids r(1) by (simp add: distinct_map)
    with x(2) show "rj_id y = cx_job (context_of wk row) \<and> rj_version y = cx_version (context_of wk row)"
      by (simp add: context_of_def r(2))
  qed
  show "cx_token (context_of wk row) = tok"
    by (simp add: context_of_def r(2) claimed_row_def)
qed

lemma settled:
  assumes "triple (under_fence d0 cx) m
      (\<lambda>x w. under_fence d0 cx w \<and> ends_well (\<lambda>w. unheld (cx_token cx) (w_rt w)) x w) (fence_after d0 cx)"
    and "under_fence d0 cx w" and "m w = (r, w')"
  shows "(op_step cx)\<^sup>*\<^sup>* d0 (w_rt w') \<and> confined cx (w_rt w')
    \<and> (case r of Inr x \<Rightarrow> ends_well (\<lambda>w. unheld (cx_token cx) (w_rt w)) x w'
         | Inl (Lost f) \<Rightarrow> unheld (cx_token cx) (w_rt w') | Inl (Crash f) \<Rightarrow> True)"
  using assms triple_Inl [OF assms(1,2)] triple_Inr [OF assms(1,2)]
  by (cases r) (auto simp: fence_after_def under_fence_def split: stop.splits)

lemma settle_releases:
  assumes "(op_step cx)\<^sup>*\<^sup>* d0 (w_rt w') \<and> confined cx (w_rt w')
    \<and> (case r of Inr x \<Rightarrow> ends_well (\<lambda>w. unheld (cx_token cx) (w_rt w)) x w'
         | Inl (Lost f) \<Rightarrow> unheld (cx_token cx) (w_rt w') | Inl (Crash f) \<Rightarrow> True)"
  shows "rt_step\<^sup>*\<^sup>* d0 (settle wk cx r now (w_rt w')) \<and> unheld (cx_token cx) (settle wk cx r now (w_rt w'))"
proof -
  have steps: "rt_step\<^sup>*\<^sup>* d0 (w_rt w')" and conf: "confined cx (w_rt w')" using assms by (auto intro: op_steps_rt)
  show ?thesis
  proof (cases r)
    case (Inl err)
    show ?thesis
    proof (cases err)
      case (Crash f)
      have "rt_step (w_rt w') (snd (fail now (cx_job cx) (cx_token cx) (cx_version cx) (wk_describe wk f) (w_rt w')))"
        by (rule s_fail)
      with steps conf show ?thesis
        using Inl Crash
        by (auto simp: settle_def snd_fail failed_row_def intro!: fenced_release intro: rtranclp.rtrancl_into_rtrancl)
    qed (use Inl assms steps in \<open>auto simp: settle_def\<close>)
  next
    case (Inr x)
    show ?thesis
    proof (cases x)
      case (Ends st)
      with assms Inr have st: "st \<notin> set ACTIVE_STATES" by (auto simp: ends_well_def ACTIVE_STATES_def)
      have "rt_step (w_rt w') (snd (complete now (cx_job cx) (cx_token cx) (cx_version cx) st (w_rt w')))"
        by (rule s_complete [OF st])
      with steps conf Inr Ends show ?thesis
        by (auto simp: settle_def complete_def snd_fenced_write completed_row_def intro!: fenced_release
            intro: rtranclp.rtrancl_into_rtrancl)
    qed (use Inr assms steps in \<open>auto simp: settle_def ends_well_def\<close>)
  qed
qed

definition pipeline_only :: "acq_env \<Rightarrow> string \<Rightarrow> job_handler option" where
  "pipeline_only e = [''acquisition.run'' \<mapsto> handler e]"

text \<open>Tables of handlers that keep the fence.\<close>

definition fenced_table :: "(string \<Rightarrow> job_handler option) \<Rightarrow> bool" where
  "fenced_table handlers \<longleftrightarrow> (\<forall>h \<in> ran handlers. fenced_handler h)"

lemma fenced_pipeline: "fenced_table (pipeline_only e)"
  by (auto simp: fenced_table_def pipeline_only_def ran_def pipeline.fenced_handler_axioms split: if_splits)

text \<open>The claim of a cycle on the row \<open>r\<close> of the maintained table, and how the handler started on it ends, if there is one.\<close>

definition claimed :: "worker \<Rightarrow> string \<Rightarrow> runtime \<Rightarrow> rt_job \<Rightarrow> rt_job" where
  "claimed wk tok m r = claimed_row (wk_clock wk (ru_tick m)) tok (wk_id wk) (wk_lease wk) r"

definition claim_table :: "worker \<Rightarrow> string \<Rightarrow> runtime \<Rightarrow> rt_job \<Rightarrow> rt_db" where
  "claim_table wk tok m r = update_jobs (\<lambda>x. rj_id x = rj_id r) (claimed wk tok m) (ru_rt m)"

definition handler_end ::
  "worker \<Rightarrow> (string \<Rightarrow> job_handler option) \<Rightarrow> string \<Rightarrow> runtime \<Rightarrow> rt_job \<Rightarrow> ((stop + outcome) \<times> world) option" where
  "handler_end wk handlers tok m r =
     (let row = claimed wk tok m r; cx = context_of wk row in
      map_option (\<lambda>h. h cx (wk_load wk (rj_checkpoint row))
        \<lparr>w_db = ru_tenants m (cx_org cx), w_rt = claim_table wk tok m r, w_tick = Suc (ru_tick m), w_polls = ru_polls m\<rparr>)
        (handlers (rj_type row)))"

definition settled_table :: "worker \<Rightarrow> string \<Rightarrow> runtime \<Rightarrow> rt_job \<Rightarrow> ((stop + outcome) \<times> world) option \<Rightarrow> rt_db \<Rightarrow> bool" where
  "settled_table wk tok m r e d \<longleftrightarrow> (let cx = context_of wk (claimed wk tok m r) in
     case e of
       None \<Rightarrow> \<exists>now why. d = snd (fail now (cx_job cx) (cx_token cx) (cx_version cx) why (claim_table wk tok m r))
     | Some (x, w) \<Rightarrow> \<exists>now. d = settle wk cx x now (w_rt w))"

lemma run_once_cases:
  fixes wk s
  defines "m \<equiv> run_maintenance wk s"
  obtains (idle) "fst (run_once wk handlers tok locked s) = False"
      "ru_rt (snd (run_once wk handlers tok locked s)) = ru_rt m"
      "\<forall>r \<in> set (rt_jobs (ru_rt m)). \<not> claimable (wk_queues wk) locked r"
    | (worked) r where "fst (run_once wk handlers tok locked s)" "r \<in> set (rt_jobs (ru_rt m))" "claimable (wk_queues wk) locked r"
      "claim_next (wk_clock wk (ru_tick m)) tok locked (wk_queues wk) (wk_id wk) (wk_lease wk) (ru_rt m)
        = (Some (claimed wk tok m r), claim_table wk tok m r)"
      "settled_table wk tok m r (handler_end wk handlers tok m r) (ru_rt (snd (run_once wk handlers tok locked s)))"
proof -
  let ?claim = "claim_next (wk_clock wk (ru_tick m)) tok locked (wk_queues wk) (wk_id wk) (wk_lease wk) (ru_rt m)"
  obtain c d where cd: "?claim = (c, d)" by (cases ?claim)
  show thesis
  proof (cases c)
    case None
    with cd have "first_min (\<lambda>r. (rj_priority r, rj_created r)) (filter (claimable (wk_queues wk) locked) (rt_jobs (ru_rt m))) = None"
      by (auto simp: claim_next_def split: option.splits)
    then have "\<forall>r \<in> set (rt_jobs (ru_rt m)). \<not> claimable (wk_queues wk) locked r"
      by (simp add: first_min_None_iff filter_empty_conv)
    then show thesis using None cd by (intro idle) (simp_all add: run_once_def Let_def m_def [symmetric])
  next
    case (Some row)
    obtain r where r: "r \<in> set (rt_jobs (ru_rt m))" "claimable (wk_queues wk) locked r" "row = claimed wk tok m r"
        "d = claim_table wk tok m r"
      by (rule claim_next_Some [OF cd [unfolded Some]]) (simp add: claimed_def [abs_def] claim_table_def)
    let ?cx = "context_of wk row"
    have out: "run_once wk handlers tok locked s = (True, case handlers (rj_type row) of
        None \<Rightarrow> m\<lparr>ru_rt := snd (fail (wk_clock wk (Suc (ru_tick m))) (cx_job ?cx) (cx_token ?cx) (cx_version ?cx)
          (''no handler for job_type '' @ rj_type row) d), ru_tick := Suc (Suc (ru_tick m))\<rparr>
      | Some h \<Rightarrow> run_handler wk h ?cx row (m\<lparr>ru_rt := d, ru_tick := Suc (ru_tick m)\<rparr>))"
      using cd Some by (cases "handlers (rj_type row)") (simp_all add: run_once_def Let_def m_def [symmetric])
    then have "fst (run_once wk handlers tok locked s)" by simp
    moreover have "settled_table wk tok m r (handler_end wk handlers tok m r) (ru_rt (snd (run_once wk handlers tok locked s)))"
    proof (cases "handlers (rj_type row)")
      case None
      then show ?thesis unfolding out by (auto simp: settled_table_def handler_end_def Let_def r(3,4))
    next
      case (Some h)
      then show ?thesis
        unfolding out by (auto simp: settled_table_def handler_end_def run_handler_def Let_def r(3,4) split: prod.split)
    qed
    ultimately show thesis using r cd Some by (intro worked) simp_all
  qed
qed

lemma claimed_confined:
  assumes "claim_next (wk_clock wk (ru_tick m)) tok locked (wk_queues wk) (wk_id wk) (wk_lease wk) (ru_rt m)
      = (Some (claimed wk tok m r), claim_table wk tok m r)"
    and "distinct (map rj_id (rt_jobs (ru_rt m)))" and "unheld tok (ru_rt m)"
  shows "confined (context_of wk (claimed wk tok m r)) (claim_table wk tok m r)" and "cx_token (context_of wk (claimed wk tok m r)) = tok"
  using claim_confined [OF assms] by simp_all

lemma handler_settles:
  assumes "fenced_table handlers" and "handler_end wk handlers tok m r = Some (x, w)"
    and "confined (context_of wk (claimed wk tok m r)) (claim_table wk tok m r)"
  defines "cx \<equiv> context_of wk (claimed wk tok m r)"
  shows "(op_step cx)\<^sup>*\<^sup>* (claim_table wk tok m r) (w_rt w) \<and> confined cx (w_rt w)
    \<and> (case x of Inr y \<Rightarrow> ends_well (\<lambda>w. unheld (cx_token cx) (w_rt w)) y w
         | Inl (Lost f) \<Rightarrow> unheld (cx_token cx) (w_rt w) | Inl (Crash f) \<Rightarrow> True)"
proof -
  obtain h ck w0 where h: "h \<in> ran handlers" "h cx ck w0 = (x, w)" "w_rt w0 = claim_table wk tok m r"
  proof -
    obtain h where h: "handlers (rj_type (claimed wk tok m r)) = Some h"
        "h cx (wk_load wk (rj_checkpoint (claimed wk tok m r))) \<lparr>w_db = ru_tenants m (cx_org cx), w_rt = claim_table wk tok m r,
           w_tick = Suc (ru_tick m), w_polls = ru_polls m\<rparr> = (x, w)"
      using assms(2) by (auto simp: handler_end_def Let_def cx_def)
    show thesis by (rule that [OF ranI [where m = handlers, OF h(1)] h(2)]) simp
  qed
  have "under_fence (claim_table wk tok m r) cx w0" using assms(3) h(3) by (simp add: under_fence_def cx_def)
  moreover have "fenced_handler h" using h(1) assms(1) by (simp add: fenced_table_def)
  ultimately show ?thesis using settled [OF fenced_handler.runs [of h] _ h(2)] by blast
qed

lemma run_once_fenced:
  assumes table: "fenced_table handlers" and ids: "distinct (map rj_id (rt_jobs (ru_rt s)))" and fresh: "unheld tok (ru_rt s)"
  shows "rt_step\<^sup>*\<^sup>* (ru_rt s) (ru_rt (snd (run_once wk handlers tok locked s)))
    \<and> unheld tok (ru_rt (snd (run_once wk handlers tok locked s)))"
proof -
  define m where "m = run_maintenance wk s"
  have m: "rt_step\<^sup>*\<^sup>* (ru_rt s) (ru_rt m)" "unheld tok (ru_rt m)"
    using maintenance_steps maintenance_unheld [OF fresh] by (simp_all add: m_def)
  then have mids: "distinct (map rj_id (rt_jobs (ru_rt m)))"
    using evolves_distinct [OF evolves_history [OF m(1) ids] ids] by blast
  let ?d = "ru_rt (snd (run_once wk handlers tok locked s))"
  show ?thesis
  proof (cases rule: run_once_cases [of wk handlers tok locked s])
    case idle
    with m show ?thesis by (simp add: m_def)
  next
    case (worked r)
    note worked = worked [folded m_def]
    let ?cx = "context_of wk (claimed wk tok m r)" and ?c = "claim_table wk tok m r"
    note cx = claimed_confined [OF worked(4) mids m(2)]
    have c: "rt_step\<^sup>*\<^sup>* (ru_rt s) ?c"
      using m(1) s_claim [of "ru_rt m" "wk_clock wk (ru_tick m)" tok locked "wk_queues wk" "wk_id wk" "wk_lease wk"]
      by (simp add: worked(4) rtranclp.rtrancl_into_rtrancl)
    show ?thesis
    proof (cases "handler_end wk handlers tok m r")
      case None
      then obtain now why where d: "?d = snd (fail now (cx_job ?cx) (cx_token ?cx) (cx_version ?cx) why ?c)"
        using worked(5) by (auto simp: settled_table_def Let_def)
      have "unheld tok ?d" unfolding d
        using fenced_release [OF cx(1), of "failed_row now why"] by (simp add: snd_fail cx(2) failed_row_def)
      moreover have "rt_step\<^sup>*\<^sup>* (ru_rt s) ?d" unfolding d using c s_fail by (rule rtranclp.rtrancl_into_rtrancl)
      ultimately show ?thesis by blast
    next
      case (Some xw)
      then obtain x w now where xw: "handler_end wk handlers tok m r = Some (x, w)" "?d = settle wk ?cx x now (w_rt w)"
        using worked(5) by (cases xw) (auto simp: settled_table_def Let_def)
      from settle_releases [OF handler_settles [OF table xw(1) cx(1)]] c xw(2) cx(2) show ?thesis
        by (metis rtranclp_trans)
    qed
  qed
qed

subsection \<open>What becomes of a claimed job\<close>

datatype fate = Parked | Ended rt_state | Retried | GaveUp

text \<open>The columns no cycle changes.\<close>

definition fixed_columns :: "rt_job \<Rightarrow> rt_job" where
  "fixed_columns r = r\<lparr>rj_state := Queued, rj_checkpoint := [], rj_attempts := 0, rj_token := None, rj_version := 0,
     rj_lease := None, rj_error := None, rj_worker := None, rj_updated := 0, rj_started := None, rj_finished := None\<rparr>"

definition meets :: "fate \<Rightarrow> rt_job \<Rightarrow> rt_job \<Rightarrow> bool" where
  "meets f r r' \<longleftrightarrow> fixed_columns r' = fixed_columns r \<and> rj_version r' = rj_version r + 1 \<and> rj_token r' = None \<and> rj_lease r' = None
     \<and> (case f of
          Parked \<Rightarrow> rj_state r' = WaitingForCapacity \<and> rj_attempts r' = rj_attempts r
        | Ended st \<Rightarrow> rj_state r' = st \<and> rj_attempts r' = rj_attempts r + 1 \<and> rj_finished r' \<noteq> None
        | Retried \<Rightarrow> rj_state r' = Queued \<and> rj_attempts r' = rj_attempts r + 1 \<and> rj_attempts r' < rj_max_attempts r \<and> rj_error r' \<noteq> None
        | GaveUp \<Rightarrow> rj_state r' = Failed \<and> rj_attempts r' = rj_attempts r + 1 \<and> rj_max_attempts r \<le> rj_attempts r'
            \<and> rj_finished r' \<noteq> None \<and> rj_error r' \<noteq> None)"

text \<open>The fates each end of a handler allows.  A handler may have parked or cancelled its job before it ends in any way.\<close>

definition fates :: "(stop + outcome) option \<Rightarrow> fate set" where
  "fates e = (case e of
     None \<Rightarrow> {Retried, GaveUp}
   | Some (Inr PARKED) \<Rightarrow> {Parked, Ended Leasing.Cancelled}
   | Some (Inr (Ends st)) \<Rightarrow> {Ended st, Parked, Ended Leasing.Cancelled}
   | Some (Inl (Lost f)) \<Rightarrow> {Parked, Ended Leasing.Cancelled}
   | Some (Inl (Crash f)) \<Rightarrow> {Retried, GaveUp, Parked, Ended Leasing.Cancelled})"

text \<open>The claimed row while its handler runs: still held, or released by the handler itself.\<close>

definition held_row :: "string \<Rightarrow> rt_job \<Rightarrow> rt_job \<Rightarrow> bool" where
  "held_row tok r x \<longleftrightarrow> rj_token x = Some tok \<and> rj_state x \<in> set ACTIVE_STATES \<and> rj_attempts x = rj_attempts r + 1
     \<and> fixed_columns x = fixed_columns r \<and> rj_version x = rj_version r + 1"

definition own_row :: "string \<Rightarrow> rt_job \<Rightarrow> rt_job \<Rightarrow> bool" where
  "own_row tok r x \<longleftrightarrow> held_row tok r x \<or> meets Parked r x \<or> meets (Ended Leasing.Cancelled) r x"

lemma fixed_id: "fixed_columns x = fixed_columns r \<Longrightarrow> rj_id x = rj_id r"
  and fixed_max: "fixed_columns x = fixed_columns r \<Longrightarrow> rj_max_attempts x = rj_max_attempts r"
  by (auto simp: fixed_columns_def dest: arg_cong [of _ _ rj_id] arg_cong [of _ _ rj_max_attempts])

lemma upd_own:
  assumes "\<And>x. p x \<Longrightarrow> rj_id x = jid" and "rj_id y = jid"
  shows "upd_where p f (upd_where (\<lambda>x. rj_id x = jid) (\<lambda>_. y) t) = upd_where (\<lambda>x. rj_id x = jid) (\<lambda>_. if p y then f y else y) t"
  using assms by (auto simp: upd_where_def)

lemma fixed_columns_upd [simp]:
  "fixed_columns (x\<lparr>rj_state := a\<rparr>) = fixed_columns x" "fixed_columns (x\<lparr>rj_checkpoint := b\<rparr>) = fixed_columns x"
  "fixed_columns (x\<lparr>rj_attempts := n\<rparr>) = fixed_columns x" "fixed_columns (x\<lparr>rj_token := t\<rparr>) = fixed_columns x"
  "fixed_columns (x\<lparr>rj_version := n\<rparr>) = fixed_columns x" "fixed_columns (x\<lparr>rj_lease := l\<rparr>) = fixed_columns x"
  "fixed_columns (x\<lparr>rj_error := t\<rparr>) = fixed_columns x" "fixed_columns (x\<lparr>rj_worker := t\<rparr>) = fixed_columns x"
  "fixed_columns (x\<lparr>rj_updated := n\<rparr>) = fixed_columns x" "fixed_columns (x\<lparr>rj_started := l\<rparr>) = fixed_columns x"
  "fixed_columns (x\<lparr>rj_finished := l\<rparr>) = fixed_columns x"
  by (simp_all add: fixed_columns_def)

lemma own_id: "own_row tok r y \<Longrightarrow> rj_id y = rj_id r"
  by (auto simp: own_row_def held_row_def meets_def dest: fixed_id)

lemma own_held: "own_row tok r y \<Longrightarrow> rj_token y = Some tok \<Longrightarrow> held_row tok r y"
  by (auto simp: own_row_def meets_def)

lemma own_update:
  assumes "rt_jobs d = upd_where (\<lambda>x. rj_id x = rj_id r) (\<lambda>_. y) t" and "own_row tok r y"
    and "\<And>x. p x \<Longrightarrow> rj_id x = rj_id r" and "p y \<Longrightarrow> own_row tok r (f y)"
  shows "\<exists>y'. rt_jobs (update_jobs p f d) = upd_where (\<lambda>x. rj_id x = rj_id r) (\<lambda>_. y') t \<and> own_row tok r y'"
  using assms upd_own [of p "rj_id r" y f t] own_id [OF assms(2)]
  by (intro exI [of _ "if p y then f y else y"]) (simp add: update_jobs_def)

lemma own_step:
  assumes "op_step cx d d'" and "cx_job cx = rj_id r" and "0 \<le> rj_attempts r"
    and "rt_jobs d = upd_where (\<lambda>x. rj_id x = rj_id r) (\<lambda>_. y) t" and "own_row (cx_token cx) r y"
  shows "\<exists>y'. rt_jobs d' = upd_where (\<lambda>x. rj_id x = rj_id r) (\<lambda>_. y') t \<and> own_row (cx_token cx) r y'"
proof -
  note held = own_held [OF assms(5)]
  note own_upd = own_update [OF assms(4,5)]
  from assms(1) show ?thesis
  proof cases
    case (o_phase st now secs)
    show ?thesis unfolding o_phase(1) set_phase_def snd_fenced_write
      by (rule own_upd) (use held o_phase(2) assms(2) in \<open>auto simp: fenced_row_def own_row_def held_row_def\<close>)
  next
    case (o_checkpoint st_opt now data secs)
    show ?thesis unfolding o_checkpoint(1) save_checkpoint_def snd_fenced_write
      by (rule own_upd) (use held o_checkpoint(2) assms(2) in \<open>auto simp: or_default_def fenced_row_def own_row_def held_row_def split: option.splits\<close>)
  next
    case (o_park now why)
    show ?thesis unfolding o_park park_def snd_fenced_write
      by (rule own_upd) (use held assms(2,3) in \<open>auto simp: fenced_row_def own_row_def held_row_def meets_def parked_row_def\<close>)
  next
    case (o_heartbeat now secs)
    show ?thesis unfolding o_heartbeat heartbeat_def Let_def snd_conv
      by (rule own_upd) (use held assms(2) in \<open>auto simp: own_row_def held_row_def\<close>)
  next
    case (o_apply_cancel now)
    show ?thesis unfolding o_apply_cancel apply_cancellation_def Let_def snd_conv
      by (rule own_upd) (use held assms(2) in \<open>auto simp: fenced_row_def own_row_def held_row_def ACTIVE_STATES_def\<close>)
  next
    case (o_finish_cancel now)
    show ?thesis unfolding o_finish_cancel finish_cancelled_def
      by (rule own_upd) (use held assms(2) in \<open>auto simp: fenced_row_def own_row_def held_row_def meets_def completed_row_def\<close>)
  qed
qed

lemma own_steps:
  assumes "(op_step cx)\<^sup>*\<^sup>* d d'" and "cx_job cx = rj_id r" and "0 \<le> rj_attempts r"
    and "rt_jobs d = upd_where (\<lambda>x. rj_id x = rj_id r) (\<lambda>_. y) t" and "own_row (cx_token cx) r y"
  shows "\<exists>y'. rt_jobs d' = upd_where (\<lambda>x. rj_id x = rj_id r) (\<lambda>_. y') t \<and> own_row (cx_token cx) r y'"
  using assms(1)
proof (induction rule: rtranclp_induct)
  case (step d1 d2)
  then obtain y1 where "rt_jobs d1 = upd_where (\<lambda>x. rj_id x = rj_id r) (\<lambda>_. y1) t" "own_row (cx_token cx) r y1" by blast
  from own_step [OF step.hyps(2) assms(2,3) this] show ?case .
qed (use assms(4,5) in blast)

text \<open>The write that settles a job meets a row that is still held, or leaves one that was released.\<close>

lemma settling_write:
  assumes "rt_jobs d = upd_where (\<lambda>x. rj_id x = cx_job cx) (\<lambda>_. y) t" and "own_row (cx_token cx) r y"
    and "cx_job cx = rj_id r" and "cx_version cx = rj_version r + 1"
    and "held_row (cx_token cx) r y \<Longrightarrow> meets f0 r (f y)"
  shows "\<exists>r' f1. rt_jobs (update_jobs (fenced_row (cx_job cx) (cx_token cx) (cx_version cx)) f d)
       = upd_where (\<lambda>x. rj_id x = cx_job cx) (\<lambda>_. r') t
     \<and> meets f1 r r' \<and> f1 \<in> {f0, Parked, Ended Leasing.Cancelled}"
proof -
  let ?p = "fenced_row (cx_job cx) (cx_token cx) (cx_version cx)"
  have "?p y \<longleftrightarrow> held_row (cx_token cx) r y"
    using assms(2-4) own_id [OF assms(2)] by (auto simp: fenced_row_def own_row_def held_row_def meets_def)
  then have "\<exists>f1. meets f1 r (if ?p y then f y else y) \<and> f1 \<in> {f0, Parked, Ended Leasing.Cancelled}"
    using assms(2,5) by (auto simp: own_row_def)
  moreover have "rt_jobs (update_jobs ?p f d) = upd_where (\<lambda>x. rj_id x = cx_job cx) (\<lambda>_. if ?p y then f y else y) t"
    using upd_own [of ?p "cx_job cx" y f t] own_id [OF assms(2)] assms(1,3) by (simp add: update_jobs_def fenced_row_def)
  ultimately show ?thesis by blast
qed

lemma held_completed: "held_row tok r y \<Longrightarrow> meets (Ended st) r (completed_row now st y)"
  by (simp add: held_row_def meets_def completed_row_def)

lemma held_failed:
  "held_row tok r y \<Longrightarrow> meets (if rj_max_attempts r \<le> rj_attempts r + 1 then GaveUp else Retried) r (failed_row now why y)"
  using fixed_max [of y r] by (simp add: held_row_def meets_def failed_row_def)

lemma settle_meets:
  assumes "rt_jobs (w_rt w) = upd_where (\<lambda>x. rj_id x = rj_id r) (\<lambda>_. y) t" and "own_row (cx_token cx) r y" and "r \<in> set t"
    and "cx_job cx = rj_id r" and "cx_version cx = rj_version r + 1"
    and "case x of Inr z \<Rightarrow> ends_well (\<lambda>w. unheld (cx_token cx) (w_rt w)) z w
         | Inl (Lost f) \<Rightarrow> unheld (cx_token cx) (w_rt w) | Inl (Crash f) \<Rightarrow> True"
  shows "\<exists>r' f. rt_jobs (settle wk cx x now (w_rt w)) = upd_where (\<lambda>x. rj_id x = rj_id r) (\<lambda>_. r') t \<and> meets f r r' \<and> f \<in> fates (Some x)"
proof -
  note own_upd = settling_write [OF assms(1) [folded assms(4)] assms(2,4,5)]
  have released: "meets Parked r y \<or> meets (Ended Leasing.Cancelled) r y" if "unheld (cx_token cx) (w_rt w)"
  proof -
    have "y \<in> set (rt_jobs (w_rt w))" using assms(1,3) by (force simp: upd_where_def)
    then show ?thesis using that assms(2) by (auto simp: unheld_def own_row_def held_row_def)
  qed
  show ?thesis
  proof (cases x)
    case (Inl err)
    show ?thesis
    proof (cases err)
      case (Lost f)
      then show ?thesis using released assms(1,6) Inl by (auto simp: settle_def fates_def)
    next
      case (Crash f)
      from own_upd [where f = "failed_row now (wk_describe wk f)", OF held_failed] show ?thesis
        using Inl Crash assms(4) by (fastforce simp: settle_def snd_fail fates_def split: if_splits)
    qed
  next
    case (Inr z)
    show ?thesis
    proof (cases z)
      case PARKED
      then show ?thesis using released assms(1,6) Inr by (auto simp: settle_def fates_def ends_well_def)
    next
      case (Ends st)
      from own_upd [where f = "completed_row now st", OF held_completed] show ?thesis
        using Inr Ends assms(4) by (auto simp: settle_def complete_def snd_fenced_write fates_def)
    qed
  qed
qed

lemma claim_table_rows:
  assumes "distinct (map rj_id (rt_jobs (ru_rt m)))" and "r \<in> set (rt_jobs (ru_rt m))"
  shows "rt_jobs (claim_table wk tok m r) = upd_where (\<lambda>x. rj_id x = rj_id r) (\<lambda>_. claimed wk tok m r) (rt_jobs (ru_rt m))"
proof -
  have "x = r" if "x \<in> set (rt_jobs (ru_rt m))" "rj_id x = rj_id r" for x
    using that assms by (metis distinct_map inj_onD)
  then show ?thesis by (auto simp: claim_table_def update_jobs_def upd_where_def)
qed

text \<open>C6: A cycle of the worker, run by itself, is after its maintenance at most one atomic move of one job, whatever handlers its table
  holds, as long as they keep the fence, and however they end.  Either nothing in the maintained table was claimable and
  it is left as it is; or one claimable job has been run, its row has changed and no other, it is held by nobody, its
  lease version is one higher, and its fate is the one its handler's end calls for: ended in the state the handler named;
  parked with its attempt refunded; retried with one attempt used while attempts remain, or failed for good when none do,
  after a crash and where no handler is registered.  A handler that released the job itself, by parking or by finishing a
  cancellation, has settled it already.\<close>

theorem worker_refines_leasing:
  assumes "fenced_table handlers" and "distinct (map rj_id (rt_jobs (ru_rt s)))" and "list_all rt_ok (rt_jobs (ru_rt s))"
    and "unheld tok (ru_rt s)"
  shows "let m = run_maintenance wk s; (worked, s') = run_once wk handlers tok locked s in
    if worked
    then \<exists>r r' f. r \<in> set (rt_jobs (ru_rt m)) \<and> claimable (wk_queues wk) locked r
      \<and> rt_jobs (ru_rt s') = upd_where (\<lambda>x. rj_id x = rj_id r) (\<lambda>_. r') (rt_jobs (ru_rt m))
      \<and> meets f r r' \<and> f \<in> fates (map_option fst (handler_end wk handlers tok m r))
    else rt_jobs (ru_rt s') = rt_jobs (ru_rt m) \<and> (\<forall>r \<in> set (rt_jobs (ru_rt m)). \<not> claimable (wk_queues wk) locked r)"
proof -
  define m where "m = run_maintenance wk s"
  obtain did s' where out: "run_once wk handlers tok locked s = (did, s')" by fastforce
  have steps: "rt_step\<^sup>*\<^sup>* (ru_rt s) (ru_rt m)" and free: "unheld tok (ru_rt m)"
    using maintenance_steps maintenance_unheld [OF assms(4)] by (simp_all add: m_def)
  note ev = evolves_history [OF steps assms(2)]
  have ids: "distinct (map rj_id (rt_jobs (ru_rt m)))" and ok: "list_all rt_ok (rt_jobs (ru_rt m))"
    using evolves_distinct [OF ev assms(2)] evolves_ok [OF ev assms(3)] by simp_all
  show ?thesis
  proof (cases rule: run_once_cases [of wk handlers tok locked s])
    case idle
    then show ?thesis by (simp add: out)
  next
    case (worked r)
    note worked = worked [folded m_def, unfolded out fst_conv snd_conv]
    define cx where "cx = context_of wk (claimed wk tok m r)"
    have cx: "confined cx (claim_table wk tok m r)" "cx_token cx = tok" "cx_job cx = rj_id r" "cx_version cx = rj_version r + 1"
      using claimed_confined [OF worked(4) ids free] by (simp_all add: cx_def context_of_def claimed_def claimed_row_def)
    have att: "0 \<le> rj_attempts r" using ok worked(2) by (simp add: list_all_iff rt_ok_def)
    note rows = claim_table_rows [OF ids worked(2), of wk tok]
    have own: "own_row (cx_token cx) r (claimed wk tok m r)"
      by (simp add: own_row_def held_row_def claimed_def claimed_row_def cx(2) ACTIVE_STATES_def)
    have "\<exists>r' f. rt_jobs (ru_rt s') = upd_where (\<lambda>x. rj_id x = rj_id r) (\<lambda>_. r') (rt_jobs (ru_rt m))
        \<and> meets f r r' \<and> f \<in> fates (map_option fst (handler_end wk handlers tok m r))"
    proof (cases "handler_end wk handlers tok m r")
      case None
      then obtain now why where d: "ru_rt s' = update_jobs (fenced_row (cx_job cx) (cx_token cx) (cx_version cx)) (failed_row now why)
          (claim_table wk tok m r)"
        using worked(5) by (auto simp: settled_table_def Let_def cx_def snd_fail)
      have "held_row (cx_token cx) r (claimed wk tok m r)" using own by (auto simp: own_row_def meets_def claimed_def claimed_row_def)
      from held_failed [OF this, where now = now and why = why] None
      show ?thesis
        unfolding d update_jobs_def rows
        using upd_own [of "fenced_row (cx_job cx) (cx_token cx) (cx_version cx)" "rj_id r" "claimed wk tok m r" "failed_row now why"] cx(2-4)
        by (auto simp: fenced_row_def fates_def claimed_def claimed_row_def split: if_splits)
    next
      case (Some xw)
      then obtain x w now where xw: "handler_end wk handlers tok m r = Some (x, w)" "ru_rt s' = settle wk cx x now (w_rt w)"
        using worked(5) by (cases xw) (auto simp: settled_table_def Let_def cx_def)
      note ends = handler_settles [OF assms(1) xw(1) cx(1) [unfolded cx_def], folded cx_def]
      obtain y where y: "rt_jobs (w_rt w) = upd_where (\<lambda>x. rj_id x = rj_id r) (\<lambda>_. y) (rt_jobs (ru_rt m))" "own_row (cx_token cx) r y"
        using own_steps [OF _ cx(3) att rows own] ends by blast
      from settle_meets [OF y worked(2) cx(3,4)] ends show ?thesis by (simp add: xw)
    qed
    then show ?thesis unfolding m_def [symmetric] out Let_def prod.case using worked(1-3) by auto
  qed
qed

text \<open>C7: However a cycle of the worker ends (the job finished, failed, parked, cancelled, without a handler, with its lease
  lost, or with no job at all), no job is left active under the token of that cycle: every job that is active then
  is held by another attempt.\<close>

theorem worker_never_strands_a_job:
  assumes "distinct (map rj_id (rt_jobs (ru_rt s)))" and "list_all rt_ok (rt_jobs (ru_rt s))" and "unheld tok (ru_rt s)"
  shows "list_all (\<lambda>r. rj_state r \<in> set ACTIVE_STATES \<longrightarrow> rj_token r \<notin> {None, Some tok})
    (rt_jobs (ru_rt (snd (run_once wk (pipeline_only e) tok locked s))))"
proof -
  let ?d = "ru_rt (snd (run_once wk (pipeline_only e) tok locked s))"
  have "rt_step\<^sup>*\<^sup>* (ru_rt s) ?d" "unheld tok ?d" using run_once_fenced [OF fenced_pipeline assms(1,3)] by blast+
  moreover from this(1) have "list_all rt_ok (rt_jobs ?d)"
    using evolves_ok [OF evolves_history [OF _ assms(1)] assms(2)] by blast
  ultimately show ?thesis
    by (auto simp: list_all_iff unheld_def rt_ok_def)
qed

subsection \<open>Reconciliation\<close>

lemma awaiting_append: "awaiting i (as @ [a]) \<longleftrightarrow> awaiting i as \<or> (ap_subject a = i \<and> ap_pending a)"
  by (simp add: awaiting_def)

definition request_of :: "effect_row \<Rightarrow> approval" where
  "request_of r = \<lparr>ap_org = er_org r, ap_subject = er_id r, ap_pending = True\<rparr>"

lemma flag_effects_all:
  assumes "distinct (map er_id rs)" and "\<forall>r \<in> set rs. \<not> awaiting (er_id r) as"
  shows "flag_effects now rs (t, as) =
    (length rs, upd_where (\<lambda>x. er_id x \<in> er_id ` set rs) (\<lambda>x. x\<lparr>er_reconciled := Some now\<rparr>) t, as @ map request_of rs)"
  using assms
proof (induction rs arbitrary: t as)
  case (Cons r rs)
  have "\<forall>x \<in> set rs. \<not> awaiting (er_id x) (as @ [request_of r])"
    using Cons.prems by (auto simp: awaiting_append request_of_def)
  then show ?case
    using Cons.prems Cons.IH [of "as @ [request_of r]"]
    by (auto simp: request_of_def [symmetric] upd_where_def)
qed (simp add: upd_where_def)

text \<open>Effects flagged so far: each with one request, the others with none.\<close>

definition flagged_once :: "effect_row list \<times> approval list \<Rightarrow> bool" where
  "flagged_once s \<longleftrightarrow> distinct (map er_id (fst s)) \<and>
     (\<forall>r \<in> set (fst s). length (filter (\<lambda>a. ap_subject a = er_id r) (snd s)) = (if er_reconciled r = None then 0 else 1))"

lemma reconcile_tick:
  fixes now :: ts
  assumes ok: "flagged_once s"
  defines "rs \<equiv> take 20 (filter (overdue now) (fst s))"
  shows "reconcile_uncertain now s =
      (length rs, upd_where (\<lambda>x. er_id x \<in> er_id ` set rs) (\<lambda>x. x\<lparr>er_reconciled := Some now\<rparr>) (fst s), snd s @ map request_of rs)"
    and "flagged_once (snd (reconcile_uncertain now s))"
proof -
  have d: "distinct (map er_id (fst s))" using ok by (simp add: flagged_once_def)
  then have drs: "distinct (map er_id rs)"
    unfolding rs_def by (simp add: distinct_map_filter distinct_take take_map [symmetric] del: take_map)
  have mem: "r \<in> set (fst s) \<and> er_reconciled r = None" if "r \<in> set rs" for r
    using that set_take_subset [of 20 "filter (overdue now) (fst s)"] by (auto simp: rs_def overdue_def)
  have "\<not> awaiting (er_id r) (snd s)" if "r \<in> set rs" for r
  proof -
    have "length (filter (\<lambda>a. ap_subject a = er_id r) (snd s)) = 0"
      using ok mem [OF that] by (auto simp: flagged_once_def)
    then show ?thesis by (auto simp: awaiting_def list_ex_iff filter_empty_conv)
  qed
  then show out: "reconcile_uncertain now s =
      (length rs, upd_where (\<lambda>x. er_id x \<in> er_id ` set rs) (\<lambda>x. x\<lparr>er_reconciled := Some now\<rparr>) (fst s), snd s @ map request_of rs)"
    using flag_effects_all [OF drs, of "snd s" now "fst s"] by (simp add: reconcile_uncertain_def rs_def)
  have one: "length (filter (\<lambda>a. ap_subject a = er_id r) (map request_of rs)) = (if r \<in> set rs then 1 else 0)"
    if r: "r \<in> set (fst s)" for r
  proof -
    have "filter (\<lambda>a. ap_subject a = er_id r) (map request_of rs) = map request_of (filter (\<lambda>x. er_id x = er_id r) rs)"
      by (simp add: filter_map o_def request_of_def)
    also have "filter (\<lambda>x. er_id x = er_id r) rs = filter (\<lambda>x. x = r) rs"
      using d r mem by (intro filter_cong refl) (auto simp: distinct_map inj_on_def)
    finally show ?thesis
      using drs by (simp add: distinct_map distinct_length_filter) 
  qed
  show "flagged_once (snd (reconcile_uncertain now s))"
    unfolding out flagged_once_def
  proof (intro conjI ballI)
    fix x
    assume "x \<in> set (fst (snd (length rs, upd_where (\<lambda>x. er_id x \<in> er_id ` set rs) (\<lambda>x. x\<lparr>er_reconciled := Some now\<rparr>) (fst s), snd s @ map request_of rs)))"
    then obtain r where r: "r \<in> set (fst s)" "x = (if er_id r \<in> er_id ` set rs then r\<lparr>er_reconciled := Some now\<rparr> else r)"
      by (auto simp: upd_where_def)
    have same: "er_id r \<in> er_id ` set rs \<longleftrightarrow> r \<in> set rs"
      using d r(1) mem by (auto simp: distinct_map inj_on_def)
    show "length (filter (\<lambda>a. ap_subject a = er_id x) (snd (snd (length rs, upd_where (\<lambda>x. er_id x \<in> er_id ` set rs) (\<lambda>x. x\<lparr>er_reconciled := Some now\<rparr>) (fst s), snd s @ map request_of rs))))
        = (if er_reconciled x = None then 0 else 1)"
      using ok r one [OF r(1)] mem [of r] same by (auto simp: flagged_once_def)
  qed (use d in \<open>simp add: upd_where_def o_def if_distrib cong: if_cong\<close>)
qed

definition unreconciled :: "effect_row list \<Rightarrow> effect_row list" where
  "unreconciled t = filter (\<lambda>r. er_reconciled r = None) t"

lemma overdue_later: "overdue n0 r \<Longrightarrow> n0 \<le> now \<Longrightarrow> overdue now r"
  by (simp add: overdue_def)

lemma overdue_row: "overdue n0 (x\<lparr>er_reconciled := Some now\<rparr>) = False"
  by (simp add: overdue_def)

lemma length_filter_mem:
  assumes "distinct t" and "distinct rs" and "set rs \<subseteq> set t"
  shows "length (filter (\<lambda>r. r \<in> set rs) t) = length rs"
proof -
  have "set (filter (\<lambda>r. r \<in> set rs) t) = set rs" using assms(3) by auto
  then show ?thesis using assms(1,2) by (metis distinct_card distinct_filter)
qed

lemma unreconciled_upd:
  "unreconciled (upd_where p (\<lambda>x. x\<lparr>er_reconciled := Some now\<rparr>) t) = filter (\<lambda>r. \<not> p r) (unreconciled t)"
  by (induction t) (auto simp: unreconciled_def)

lemma reconcile_progress:
  assumes ok: "flagged_once s" and now: "n0 \<le> now"
  shows "list_all (\<lambda>r. \<not> overdue n0 r) (fst (snd (reconcile_uncertain now s)))
    \<or> length (unreconciled (fst (snd (reconcile_uncertain now s)))) + 20 = length (unreconciled (fst s))"
proof -
  define rs where "rs = take 20 (filter (overdue now) (fst s))"
  have out: "fst (snd (reconcile_uncertain now s)) = upd_where (\<lambda>x. er_id x \<in> er_id ` set rs) (\<lambda>x. x\<lparr>er_reconciled := Some now\<rparr>) (fst s)"
    using reconcile_tick(1) [OF ok, of now] by (simp add: rs_def)
  have d: "distinct (map er_id (fst s))" using ok by (simp add: flagged_once_def)
  have sub: "set rs \<subseteq> set (filter (overdue now) (fst s))" unfolding rs_def by (rule set_take_subset)
  then have mem: "r \<in> set (fst s) \<and> er_reconciled r = None" if "r \<in> set rs" for r
    using that by (auto simp: overdue_def)
  have same: "er_id r \<in> er_id ` set rs \<longleftrightarrow> r \<in> set rs" if "r \<in> set (fst s)" for r
    using inj_on_image_mem_iff [of er_id "set (fst s)" r "set rs"] d that mem by (auto simp: distinct_map)
  show ?thesis
  proof (cases "length (filter (overdue now) (fst s)) \<le> 20")
    case True
    then have rs: "rs = filter (overdue now) (fst s)" by (simp add: rs_def)
    have "\<not> overdue n0 (if er_id x \<in> er_id ` set rs then x\<lparr>er_reconciled := Some now\<rparr> else x)" if "x \<in> set (fst s)" for x
      using overdue_later [OF _ now, of x] same [OF that] that by (auto simp: rs overdue_row)
    then show ?thesis unfolding out upd_where_def list_all_iff set_map by blast
  next
    case False
    then have len: "length rs = 20" by (simp add: rs_def)
    have "distinct (fst s)" "distinct rs" using d by (simp_all add: distinct_map rs_def)
    then have n20: "length (filter (\<lambda>r. r \<in> set rs) (fst s)) = 20"
      using length_filter_mem [of "fst s" rs] mem len by (simp add: subsetI)
    have "unreconciled (fst (snd (reconcile_uncertain now s))) = filter (\<lambda>r. r \<notin> set rs) (unreconciled (fst s))"
      unfolding out unreconciled_upd by (rule filter_cong [OF refl]) (simp add: unreconciled_def same)
    moreover have "filter (\<lambda>r. r \<in> set rs) (unreconciled (fst s)) = filter (\<lambda>r. r \<in> set rs) (fst s)"
      unfolding unreconciled_def filter_filter by (rule filter_cong [OF refl]) (auto simp: mem)
    ultimately show ?thesis
      using n20 sum_length_filter_compl [of "\<lambda>r. r \<in> set rs" "unreconciled (fst s)"] by simp
  qed
qed

definition reconcile_ticks :: "ts list \<Rightarrow> effect_row list \<times> approval list \<Rightarrow> effect_row list \<times> approval list" where
  "reconcile_ticks nows s = fold (\<lambda>now s. snd (reconcile_uncertain now s)) nows s"

lemma none_overdue_stays:
  assumes "flagged_once s" and "list_all (\<lambda>r. \<not> overdue n0 r) (fst s)"
  shows "list_all (\<lambda>r. \<not> overdue n0 r) (fst (snd (reconcile_uncertain now s)))"
  using assms by (auto simp: reconcile_tick(1) list_all_iff set_upd_where overdue_row split: if_splits)

lemma reconcile_history:
  assumes "flagged_once s" and "list_all (\<lambda>n. n0 \<le> n) nows"
    and "list_all (\<lambda>r. \<not> overdue n0 r) (fst s) \<or> length (unreconciled (fst s)) \<le> 20 * length nows"
  shows "flagged_once (reconcile_ticks nows s) \<and> list_all (\<lambda>r. \<not> overdue n0 r) (fst (reconcile_ticks nows s))"
  using assms
proof (induction nows arbitrary: s)
  case Nil
  then show ?case
    by (auto simp: reconcile_ticks_def unreconciled_def filter_empty_conv list_all_iff overdue_def)
next
  case (Cons now nows)
  let ?s = "snd (reconcile_uncertain now s)"
  have "list_all (\<lambda>r. \<not> overdue n0 r) (fst ?s) \<or> length (unreconciled (fst ?s)) \<le> 20 * length nows"
    using Cons.prems none_overdue_stays reconcile_progress [OF Cons.prems(1), of n0 now] by fastforce
  with Cons.IH [of ?s] Cons.prems reconcile_tick(2) [OF Cons.prems(1), of now] show ?case
    by (simp add: reconcile_ticks_def)
qed

text \<open>C34: An external call whose outcome stays unknown reaches a human: from an unreviewed ledger, once the maintenance has
  run once for every twenty effects, no effect is left that was uncertain for more than a day at the start, and every
  effect ever flagged has exactly one review request, every other none.\<close>

theorem uncertain_effects_reach_a_human:
  assumes "distinct (map er_id t)" and "list_all (\<lambda>r. er_reconciled r = None) t"
    and "list_all (\<lambda>n. n0 \<le> n) nows" and "length t \<le> 20 * length nows"
  shows "flagged_once (reconcile_ticks nows (t, [])) \<and> list_all (\<lambda>r. \<not> overdue n0 r) (fst (reconcile_ticks nows (t, [])))"
proof (rule reconcile_history [OF _ assms(3)])
  show "flagged_once (t, [])" using assms(1,2) by (auto simp: flagged_once_def list_all_iff)
  show "list_all (\<lambda>r. \<not> overdue n0 r) (fst (t, [])) \<or> length (unreconciled (fst (t, []))) \<le> 20 * length nows"
    using assms(4) by (simp add: unreconciled_def le_trans [OF length_filter_le])
qed

subsection \<open>A worker at work\<close>

definition demo_worker :: worker where
  "demo_worker = \<lparr>wk_id = ''w1'', wk_queues = [''default''], wk_lease = 120, wk_batch = 100, wk_consumer = ''log'', wk_attempts = 5,
     wk_handle = (\<lambda>n e. True), wk_clock = int, wk_campaign = (\<lambda>i. 3), wk_payload = (\<lambda>b. (4, 0)), wk_load = (\<lambda>b. None),
     wk_describe = (\<lambda>f. ''error'')\<rparr>"

definition waiting_job :: rt_job where
  "waiting_job = \<lparr>rj_id = ''j1'', rj_org = ''o1'', rj_campaign = Some ''c'', rj_type = ''acquisition.run'', rj_queue = ''default'',
     rj_state = Queued, rj_payload = ''{}'', rj_checkpoint = ''{}'', rj_attempts = 0, rj_max_attempts = 3, rj_priority = 100,
     rj_token = None, rj_version = 0, rj_lease = None, rj_cancel_at = None, rj_cancelled_by = None, rj_cancel_reason = None,
     rj_error = None, rj_worker = None, rj_created = 0, rj_updated = 0, rj_started = None, rj_finished = None\<rparr>"

definition demo_runtime :: runtime where
  "demo_runtime = \<lparr>ru_tenants = (\<lambda>_. demo_db), ru_rt = \<lparr>rt_jobs = [waiting_job], rt_events = []\<rparr>, ru_tick = 0, ru_polls = 0,
     ru_relay = \<lparr>rs_outbox = [], rs_inbox = [], rs_dead = [], rs_runs = []\<rparr>, ru_effects = [], ru_approvals = [], ru_beats = []\<rparr>"

lemma demo_runtime_ok:
  "distinct (map rj_id (rt_jobs (ru_rt demo_runtime)))" "unheld ''t1'' (ru_rt demo_runtime)"
  "list_all rt_ok (rt_jobs (ru_rt demo_runtime))"
  by (simp_all add: demo_runtime_def waiting_job_def unheld_def rt_ok_def ACTIVE_STATES_def)

text \<open>The job is claimed, its campaign does not exist, and it goes back to the queue with one attempt used.\<close>

lemma demo_cycle:
  "map (\<lambda>r. (rj_state r, rj_attempts r)) (rt_jobs (ru_rt (snd (run_once demo_worker (pipeline_only demo_env) ''t1'' [] demo_runtime))))
    = [(Queued, 1)]"
  by code_simp

lemma worker_refines_leasing_witness:
  "\<exists>r'. rt_jobs (ru_rt (snd (run_once demo_worker (pipeline_only demo_env) ''t1'' [] demo_runtime))) = [r'] \<and> meets Retried waiting_job r'"
proof -
  let ?s = "snd (run_once demo_worker (pipeline_only demo_env) ''t1'' [] demo_runtime)"
  have m: "rt_jobs (ru_rt (run_maintenance demo_worker demo_runtime)) = [waiting_job]" by code_simp
  have run: "fst (run_once demo_worker (pipeline_only demo_env) ''t1'' [] demo_runtime)" by code_simp
  let ?outcome = "handler_end demo_worker (pipeline_only demo_env) ''t1'' (run_maintenance demo_worker demo_runtime) waiting_job"
  have "case map_option fst ?outcome of Some (Inl (Crash f)) \<Rightarrow> True | _ \<Rightarrow> False" by code_simp
  then have crash: "fates (map_option fst ?outcome) = {Retried, GaveUp, Parked, Ended Leasing.Cancelled}"
    by (auto simp: fates_def split: option.splits sum.splits stop.splits)
  obtain r' f where r': "rt_jobs (ru_rt ?s) = [r']" "meets f waiting_job r'" "f \<in> fates (map_option fst ?outcome)"
    using worker_refines_leasing [OF fenced_pipeline demo_runtime_ok(1,3,2), of demo_worker demo_env "[]"] m run
    by (auto simp: upd_where_def Let_def case_prod_beta)
  moreover have "rj_state r' = Queued" using demo_cycle r'(1) by simp
  ultimately have "meets Retried waiting_job r'" unfolding crash by (auto simp: meets_def waiting_job_def)
  with r'(1) show ?thesis by blast
qed

lemma worker_never_strands_a_job_witness:
  "list_all (\<lambda>r. rj_state r \<in> set ACTIVE_STATES \<longrightarrow> rj_token r \<notin> {None, Some ''t1''})
    (rt_jobs (ru_rt (snd (run_once demo_worker (pipeline_only demo_env) ''t1'' [] demo_runtime))))"
  by (rule worker_never_strands_a_job [OF demo_runtime_ok(1,3,2)])

definition stuck_effects :: "effect_row list" where
  "stuck_effects = map (\<lambda>i. \<lparr>er_id = i, er_org = ''o1'', er_status = Uncertain, er_created = 0, er_reconciled = None\<rparr>) [0..<25]"

lemma uncertain_effects_reach_a_human_witness:
  "flagged_once (reconcile_ticks [90000, 90060] (stuck_effects, []))
    \<and> list_all (\<lambda>r. \<not> overdue 90000 r) (fst (reconcile_ticks [90000, 90060] (stuck_effects, [])))
    \<and> \<not> list_all (\<lambda>r. \<not> overdue 90000 r) stuck_effects"
proof -
  have "distinct (map er_id stuck_effects)" "list_all (\<lambda>r. er_reconciled r = None) stuck_effects"
    "list_all (\<lambda>n. (90000 :: ts) \<le> n) [90000, 90060]" "length stuck_effects \<le> 20 * length [90000 :: ts, 90060]"
    by (simp_all add: stuck_effects_def o_def list_all_iff)
  from uncertain_effects_reach_a_human [OF this]
  have "flagged_once (reconcile_ticks [90000, 90060] (stuck_effects, []))
    \<and> list_all (\<lambda>r. \<not> overdue 90000 r) (fst (reconcile_ticks [90000, 90060] (stuck_effects, [])))" .
  moreover have "\<not> list_all (\<lambda>r. \<not> overdue 90000 r) stuck_effects"
    by (auto simp: stuck_effects_def list_all_iff overdue_def day_seconds_def intro: exI [of _ 0])
  ultimately show ?thesis by blast
qed

end
