(* ===== verification/Spec2Isabelle.thy ===== *)
theory Spec2Isabelle
  imports LeadDesk RateLimit EventDelivery ResearchSafety WorkerTick Leasing ProviderPool Registry Cache OutreachPolicy Router Truth Normalize Dedup
    Governance Gateway Relay Acquisition Contacts AcqFaults AcqApproval RuntimeWorker
begin

text \<open>
  The lead engine finds companies for an ideal customer profile, learns about them from the web under a budget, and
  puts them before a human who alone decides whom to contact.  The repository holds two generations of it side by side:

  \<^item> the legacy engine \<open>src/lead_engine\<close>: jobs, a durable queue and its tick, a provider router with keys, budgets and
    a cache, a truth layer of facts with sources and conflicts, a benchmark pipeline of pure rules, and a research agent
    driven by a language model;
  \<^item> the V6 architecture \<open>src/domain\<close>, \<open>src/application\<close>, \<open>src/infrastructure\<close> and \<open>src/runtime\<close>: fenced leases, an effect
    ledger, a transactional outbox, a vault of contact data, and one durable acquisition pipeline.

  Both keep all state in SQL tables.  A table is a list of records, a statement one of the functions of the prelude, a
  method of the source a computation over the tables it can see that returns or raises, with the state the database is
  left in beside the result; where the source opens a transaction, an exception rolls its changes back.
  What lies outside the repository (providers, language models, clocks, identifiers, digests, the Unicode tables, the
  matcher of \<open>difflib\<close>) is an argument of the definitions, so that the theorems hold whatever it answers.

  \<^bold>\<open>Foundations.\<close>  \<open>Prelude\<close>: tables, statements, computations and the invariants they keep, the locale \<open>keyed_table\<close>.
  \<open>Lifecycle\<close>: the locale of a status column guarded by a transition table.  \<open>Triples\<close>: pre- and postconditions of
  computations that may raise.  \<open>PyStr\<close>: Python's string methods.  \<open>Normalize\<close> (\<open>pipeline/normalize.py\<close>): text, domains,
  phones.  \<open>Json\<close>: JSON values, \<open>dict\<close> access and truthiness as the research code uses them.

  \<^bold>\<open>Jobs of the legacy engine.\<close>  \<open>Jobs\<close> (\<open>jobs.py\<close>): the state machine with its compare-and-set and event log.
  \<open>JobQueue\<close> (\<open>queue.py\<close>): leases, heartbeats, retries, sweeps and wake-ups on the same table; \<open>queue_log\<close> is a
  history with the log of every job handed out and every slice given back, against which the attempt budget is stated.  \<open>WorkerTick\<close> (\<open>worker.py\<close>): one tick around the two ways of driving a job; no lease outlives it.

  \<^bold>\<open>Providers of the legacy engine.\<close>  \<open>ProviderPool\<close> (\<open>providers/base.py\<close>): key rotation, credits, redaction (of keys long enough).  \<open>Registry\<close>
  (\<open>registry.py\<close>): providers, usage, cooldowns.  \<open>Cache\<close> (\<open>cache.py\<close>): the locale \<open>expiring_store\<close>, isolation of tenants.
  \<open>OutreachPolicy\<close> (\<open>policy.py\<close>, \<open>entitlements.py\<close>): suppression, channels, plan limits.  \<open>Router\<close> (\<open>router.py\<close>): the waterfall
  with its retries, which are bounded.

  \<^bold>\<open>Knowledge and rules.\<close>  \<open>Truth\<close> (\<open>truth.py\<close>): facts, conflicts, verification, the two readings of a subject; the
  invariant that a fact under an open conflict is not verified and every fact has a source.  \<open>Dedup\<close> (\<open>pipeline/dedup.py\<close>):
  the union-find with the domain guard.  \<open>LeadRules\<close> (\<open>pipeline/icp.py\<close>, \<open>filters.py\<close>, \<open>legal_gate.py\<close>, \<open>orchestrator.py\<close>):
  query plans, hard filter, score, legal gate, stage.  \<open>Agents\<close> (\<open>agent_registry.py\<close>, \<open>icp_store.py\<close>): agents, runs, steps,
  approvals, ICP versions.

  \<^bold>\<open>The research agent.\<close>  \<open>Research\<close> (\<open>research/manager.py\<close>): contexts, counters, marks and budgets of a job; the record
  \<open>desk\<close> is everything one connection sees.  \<open>ResearchFacts\<close> (\<open>research/qualification.py\<close>, \<open>providers/email.py\<close>): what tools
  compute.  \<open>ResearchTools\<close> (\<open>research/tools.py\<close>, \<open>research/openmanus.py\<close>): every tool and \<open>execute_tool\<close>.  \<open>ResearchLoop\<close>
  (\<open>research/orchestrator.py\<close>): planning, turns, finalization, leads, the gate and capacity pauses.  The next three
  theories prove about it through interfaces: \<open>ResearchSteps\<close> has the locale \<open>turn_contract\<close> (what a property of the desk
  must be kept by for every turn to keep it); \<open>ResearchRun\<close> extends it to \<open>lead_contract\<close> for what also survives the
  writing of leads and to \<open>run_contract\<close> for whole runs, and counts steps; and \<open>ResearchSafety\<close> interprets
  \<open>run_contract\<close>: the truth layer stays honest, the jobs table changes by moves of the job manager (\<open>managed\<close>: a legal
  chain of events of the run's own job, that row's status columns and nothing else), leads only await review; and
  \<open>turn_contract\<close> (\<open>leads_kept\<close>): turns write no leads.  A lead is a row with its columns and, of the raw document, the
  retention, the verdict and \<open>rl_extra\<close>, all other keys.  \<open>LeadDesk\<close> adds that erased rows hold no personal data in
  the six columns, the retention and the other keys, which is all but the verdict that a later requalification may store
  there.  The model's answers are arbitrary texts, so these hold for a model that lies, loops or breaks the format.

  \<^bold>\<open>People.\<close>  \<open>LeadDesk\<close> (\<open>api/review_api.py\<close>, \<open>privacy.py\<close>): decisions, requalification, conflicts, retention and erasure,
  and histories of them mixed with research runs.  \<open>RateLimit\<close> (\<open>ratelimit.py\<close>): the token buckets before the API, with the
  bound on every window of time, in whatever order requests that have read the clock get the lock.  \<open>EventBackbone\<close> and
  \<open>EventDelivery\<close> (\<open>events.py\<close>, \<open>netguard.py\<close>): outbox, webhooks and notifications; the locale \<open>consumer\<close> states what the dispatch relies on, \<open>two_consumers\<close> composes them.

  \<^bold>\<open>The V6 runtime.\<close>  \<open>Leasing\<close> (\<open>runtime/leasing.py\<close>): leases with fencing tokens, the locale \<open>fencing\<close>.  \<open>Governance\<close>
  (\<open>domain/governance\<close>, \<open>intelligence\<close>, \<open>agents\<close>, \<open>shared\<close>): the policy gate, scores, the rule that promotes a mailbox.  \<open>Gateway\<close>
  (\<open>infrastructure/providers/gateway.py\<close>): the effect ledger and the waterfall under a budget.  \<open>Relay\<close>
  (\<open>infrastructure/events/relay.py\<close>): the outbox relay, with a bound on the ticks for a backlog of any length.  \<open>Acquisition\<close> and \<open>Contacts\<close> (\<open>domain/acquisition\<close>): identity of
  companies, query plans, contacts out of text.  \<open>AcqRepos\<close> (\<open>infrastructure/repos\<close>, \<open>pii/vault.py\<close>, \<open>uow.py\<close>): the tables of
  one tenant and the statements on them.  \<open>AcqPipeline\<close> (\<open>application/handlers\<close>): the handler with all its phases.
  \<open>AcqReview\<close> (\<open>application/usecases\<close>): review, reading of contact data, campaigns.  \<open>AcqSteps\<close> has the locales
  \<open>tenant_contract\<close> and \<open>job_contract\<close> between phases and tables; \<open>AcqInvariant\<close> interprets the first on the invariant of the
  tenant database, \<open>AcqApproval\<close> on the boundary around human decisions, \<open>AcqFaults\<close> has the error behaviour.
  \<open>RuntimeWorker\<close> (\<open>runtime/worker.py\<close>): maintenance and cycles for any table of handlers that keep the fence (the locale
  \<open>fenced_handler\<close> and \<open>fenced_table\<close>), as the pipeline does; a cycle is one move of one job, to one of the \<open>fates\<close> that
  the end of its handler calls for.  The handler is a parameter.  It gets the database of the job's organization, which
  is how the source builds the unit of work; isolation of tenants inside PostgreSQL (row level security) is therefore
  not a theorem here.  The worker reads the effect ledger of the whole installation (\<open>ru_effects\<close>), the gateway the part
  of one tenant inside its unit of work; the two views of \<open>effects.effect_ledger\<close> are separate fields of the model, so
  nothing is proved about a gateway call and a reconciliation of the same row.

  \<^bold>\<open>How the parts meet.\<close>  The worker's tick of \<open>WorkerTick\<close> is run with the orchestrator of \<open>ResearchLoop\<close> in
  \<open>ResearchSafety\<close>; the orchestrator calls \<open>Router\<close>, \<open>Truth\<close>, \<open>Agents\<close>, \<open>LeadRules\<close> and \<open>Jobs\<close>; the desk of people works on
  the rows its runs left.  In V6, \<open>RuntimeWorker\<close> claims through \<open>Leasing\<close>, runs the handler of \<open>AcqPipeline\<close>, which calls
  \<open>Gateway\<close>, \<open>Governance\<close> and the repositories, and \<open>Relay\<close> publishes what they emitted.

  \<^bold>\<open>What the theorems show.\<close>  Type and table invariants over whole histories (jobs, leases, truth, tenant databases,
  dispositions, deliveries, ICP versions); safety (human decisions, scopes and budgets of the agent, fencing, suppression,
  isolation of tenants in the cache, redaction); bounds (attempts, budgets, retries, tokens); termination and liveness (research runs,
  relay, dispatch, uncertain effects); refinement (a worker's cycle to one move of a lease, research runs to the job manager); equivalence
  (deduplication); a round trip (park, wake, claim); and the error behaviour of the code where it does not do
  what its comments say, each on the definitions as they are in the source.

  \<^bold>\<open>Fuel and bounds.\<close>  Recursion is structural or has a measure, with these exceptions.  The loop of turns \<open>discover\<close>
  of \<open>ResearchLoop\<close> takes fuel and raises \<open>Diverges\<close> without it; \<open>research_run_ends\<close> shows that one more than the steps left
  is enough.  The search for a root in \<open>Dedup\<close> takes the number of leads, enough because no parent is larger than its child.
  The polling of the browsing service has the time left to its deadline as its measure, since every round sleeps.
  Schemas, batch limits, retry counts and waiting times are those of the source.
  Floats are exact rationals, so the last bits of a token count may differ from the source; times are seconds since the epoch, written with one-second resolution by the source.

  \<^bold>\<open>Concurrency.\<close>  A statement is atomic.  Interleavings are modelled where the code defends against them: the
  compare-and-set of \<open>Jobs\<close>, competing claims and superseded workers in \<open>Leasing\<close>, lost checkpoints in \<open>AcqFaults\<close>, other
  users of a research job between two readings of its state, and the rate limiter, which reads the clock before it takes
  its lock, so that times may go back.  One relay process, one dispatcher and one research run
  per job act at a time; a dispatch and a unit of work run to their end.

  \<^bold>\<open>Not modelled.\<close>  HTTP endpoints other than the review desk (\<open>lead_engine/api\<close>, \<open>v6api\<close>, \<open>apps\<close>), which parse requests
  and list rows; chat, code operations, integrations, doctor, sync, onboarding and provisioning, which glue services
  together; authentication and secrets, which are cryptography of libraries; the database adapters and migrations, of
  which the tables and constraints used are in the models; the provider clients of both generations, which are
  the arguments above; observability, activity feeds and mail, which only report; the run of the benchmark pipeline
  through its stages; scripts, the wrapper service and the web dashboard.
\<close>

end
